(* ===== verification/Voisu_Prelude.thy ===== *)
theory Voisu_Prelude
  imports Main "HOL-Library.Word"
begin

text \<open>
  Shared material of the development: the machine types and the clock the Rust sources use, the
  saturating and wrapping arithmetic of the fixed-width integers, the operations of the standard
  library on UTF-8 strings that the components call, and the two generic interfaces of an event
  driven component (a machine with an invariant, and a machine observed by a protocol monitor).

  Conventions. A Rust \<open>Result<T, E>\<close> is \<open>'e + 't\<close> with the error on the left. A Rust \<open>String\<close> is
  the list of its UTF-8 bytes, as an Isabelle \<open>string\<close>. \<open>Instant\<close> and \<open>Duration\<close> are counts of
  nanoseconds (\<open>nat\<close>): \<open>Instant\<close> arithmetic that would leave the clock's range panics in Rust and
  is not modelled. Counters of type \<open>u64\<close> are \<open>nat\<close> with the wrap or the saturation written out.
\<close>

section \<open>Collections of facts\<close>

named_theorems inv_simps \<open>unfolding rules of the component invariants\<close>
named_theorems step_simps \<open>unfolding rules of the component operations\<close>

section \<open>Machine types and the clock\<close>

type_synonym u8 = "8 word"
type_synonym u16 = "16 word"
type_synonym u32 = "32 word"
type_synonym instant = nat
type_synonym duration = nat

definition from_millis :: "nat \<Rightarrow> duration" where
  "from_millis n = n * 1000000"

definition from_secs :: "nat \<Rightarrow> duration" where
  "from_secs n = n * 1000000000"

text \<open>\<open>Instant::saturating_duration_since\<close>: zero when the other instant is later.\<close>

definition saturating_duration_since :: "instant \<Rightarrow> instant \<Rightarrow> duration" where
  "saturating_duration_since now earlier = now - earlier"

definition u64_max :: nat where "u64_max = 2 ^ 64 - 1"

text \<open>\<open>u64::saturating_add\<close>, \<open>u64::saturating_mul\<close> and the wrapping \<open>+=\<close> of a release build.\<close>

definition sat_add_u64 :: "nat \<Rightarrow> nat \<Rightarrow> nat" where
  "sat_add_u64 a b = min (a + b) u64_max"

definition sat_mul_u64 :: "nat \<Rightarrow> nat \<Rightarrow> nat" where
  "sat_mul_u64 a b = min (a * b) u64_max"

definition wrap_add_u64 :: "nat \<Rightarrow> nat \<Rightarrow> nat" where
  "wrap_add_u64 a b = (a + b) mod 2 ^ 64"

lemma sat_add_u64_bound: "sat_add_u64 a b \<le> u64_max"
  by (simp add: sat_add_u64_def)

lemma sat_mul_u64_bound: "sat_mul_u64 a b \<le> u64_max"
  by (simp add: sat_mul_u64_def)

lemma wrap_add_u64_small: "a + b \<le> u64_max \<Longrightarrow> wrap_add_u64 a b = a + b"
  by (simp add: wrap_add_u64_def u64_max_def)

lemma wrap_add_u64_bound: "wrap_add_u64 a b \<le> u64_max"
proof -
  have "wrap_add_u64 a b < 2 ^ 64" by (simp add: wrap_add_u64_def)
  then show ?thesis by (simp add: u64_max_def)
qed

section \<open>Byte strings\<close>

text \<open>
  Characters of a \<open>string\<close> are bytes; \<open>byte\<close> reads one as a number. The lower-casing functions of
  Rust that end in \<open>_ascii_\<close> touch the letters A to Z only.
\<close>

definition byte :: "char \<Rightarrow> nat" where
  "byte c = of_char c"

definition to_ascii_lower :: "char \<Rightarrow> char" where
  "to_ascii_lower c = (if 65 \<le> byte c \<and> byte c \<le> 90 then char_of (byte c + 32) else c)"

lemma to_ascii_lower_code [code]:
  "to_ascii_lower (Char b0 b1 b2 b3 b4 b5 b6 b7) =
     (if \<not> b7 \<and> b6 \<and> \<not> b5 \<and> (b0 \<or> b1 \<or> b2 \<or> b3 \<or> b4) \<and> \<not> (b4 \<and> b3 \<and> (b2 \<or> (b1 \<and> b0)))
      then Char b0 b1 b2 b3 b4 True b6 b7 else Char b0 b1 b2 b3 b4 b5 b6 b7)"
  by (cases b7; cases b6; cases b5; cases b4; cases b3; cases b2; cases b1; cases b0)
     (simp_all add: to_ascii_lower_def byte_def char_of_def bit_0)

definition to_ascii_upper :: "char \<Rightarrow> char" where
  "to_ascii_upper c = (if 97 \<le> byte c \<and> byte c \<le> 122 then char_of (byte c - 32) else c)"

definition is_ascii_digit :: "char \<Rightarrow> bool" where
  "is_ascii_digit c \<longleftrightarrow> 48 \<le> byte c \<and> byte c \<le> 57"

definition is_ascii_alphanumeric :: "char \<Rightarrow> bool" where
  "is_ascii_alphanumeric c \<longleftrightarrow> is_ascii_digit c \<or> (65 \<le> byte c \<and> byte c \<le> 90) \<or> (97 \<le> byte c \<and> byte c \<le> 122)"

abbreviation to_ascii_lowercase :: "string \<Rightarrow> string" where
  "to_ascii_lowercase \<equiv> map to_ascii_lower"

lemma find_SomeD: "find P xs = Some x \<Longrightarrow> P x \<and> x \<in> set xs"
  by (induction xs) (auto split: if_splits)

lemma byte_char_of: "byte (char_of n) = n mod 256"
  by (simp add: byte_def)

lemma byte_less: "byte c < 256"
  by (simp add: byte_def)

text \<open>Decimal text of an integer, as \<open>format!\<close> writes it.\<close>

fun show_nat :: "nat \<Rightarrow> string" where
  "show_nat n = (if n < 10 then [char_of (48 + n)] else show_nat (n div 10) @ [char_of (48 + n mod 10)])"

declare show_nat.simps [simp del]

definition eq_ignore_ascii_case :: "string \<Rightarrow> string \<Rightarrow> bool" where
  "eq_ignore_ascii_case a b \<longleftrightarrow> to_ascii_lowercase a = to_ascii_lowercase b"

text \<open>The \<open>?\<close> operator on results, and \<open>Option::ok_or\<close>.\<close>

definition bind_result :: "'e + 'a \<Rightarrow> ('a \<Rightarrow> 'e + 'b) \<Rightarrow> 'e + 'b" where
  "bind_result r f = (case r of Inl e \<Rightarrow> Inl e | Inr x \<Rightarrow> f x)"

definition ok_or :: "'e \<Rightarrow> 'a option \<Rightarrow> 'e + 'a" where
  "ok_or e x = (case x of None \<Rightarrow> Inl e | Some y \<Rightarrow> Inr y)"

lemma bind_result_Inr [simp]: "bind_result r f = Inr y \<longleftrightarrow> (\<exists>x. r = Inr x \<and> f x = Inr y)"
  by (auto simp: bind_result_def split: sum.split)

lemma ok_or_Inr [simp]: "ok_or e x = Inr y \<longleftrightarrow> x = Some y"
  by (auto simp: ok_or_def split: option.split)

definition strip_prefix :: "'a list \<Rightarrow> 'a list \<Rightarrow> 'a list option" where
  "strip_prefix p s = (if take (length p) s = p then Some (drop (length p) s) else None)"

text \<open>\<open>str::split\<close> on one ASCII character: always at least one piece.\<close>

fun split_char :: "char \<Rightarrow> string \<Rightarrow> string list" where
  "split_char c [] = [[]]"
| "split_char c (x # xs) =
     (if x = c then [] # split_char c xs
      else case split_char c xs of [] \<Rightarrow> [[x]] | p # ps \<Rightarrow> (x # p) # ps)"

text \<open>Pieces joined with a separator, as \<open>Display\<close> implementations and \<open>join\<close> write them.\<close>

fun join_with :: "'a list \<Rightarrow> 'a list list \<Rightarrow> 'a list" where
  "join_with sep [] = []"
| "join_with sep [x] = x"
| "join_with sep (x # y # ys) = x @ sep @ join_with sep (y # ys)"

text \<open>
  \<open>str::trim\<close> strips the characters with the Unicode property White\_Space: the UTF-8 encodings of
  U+0009..U+000D, U+0020, U+0085, U+00A0, U+1680, U+2000..U+200A, U+2028, U+2029, U+202F, U+205F
  and U+3000. \<open>ws_len\<close> is the length of such a character at the front, 0 when there is none, and
  \<open>ws_len_rev\<close> the same on the reversed string.
\<close>

definition ws1 :: "nat \<Rightarrow> bool" where
  "ws1 a \<longleftrightarrow> (9 \<le> a \<and> a \<le> 13) \<or> a = 32"

definition ws2 :: "nat \<Rightarrow> nat \<Rightarrow> bool" where
  "ws2 a b \<longleftrightarrow> a = 0xC2 \<and> (b = 0x85 \<or> b = 0xA0)"

definition ws3 :: "nat \<Rightarrow> nat \<Rightarrow> nat \<Rightarrow> bool" where
  "ws3 a b c \<longleftrightarrow> (a = 0xE1 \<and> b = 0x9A \<and> c = 0x80)
     \<or> (a = 0xE2 \<and> b = 0x80 \<and> ((0x80 \<le> c \<and> c \<le> 0x8A) \<or> c = 0xA8 \<or> c = 0xA9 \<or> c = 0xAF))
     \<or> (a = 0xE2 \<and> b = 0x81 \<and> c = 0x9F) \<or> (a = 0xE3 \<and> b = 0x80 \<and> c = 0x80)"

definition ws_len :: "string \<Rightarrow> nat" where
  "ws_len s =
     (case s of [] \<Rightarrow> 0
      | a # r \<Rightarrow> if ws1 (byte a) then 1
         else case r of [] \<Rightarrow> 0
         | b # r' \<Rightarrow> if ws2 (byte a) (byte b) then 2
            else case r' of [] \<Rightarrow> 0
            | c # _ \<Rightarrow> if ws3 (byte a) (byte b) (byte c) then 3 else 0)"

definition ws_len_rev :: "string \<Rightarrow> nat" where
  "ws_len_rev s =
     (case s of [] \<Rightarrow> 0
      | a # r \<Rightarrow> if ws1 (byte a) then 1
         else case r of [] \<Rightarrow> 0
         | b # r' \<Rightarrow> if ws2 (byte b) (byte a) then 2
            else case r' of [] \<Rightarrow> 0
            | c # _ \<Rightarrow> if ws3 (byte c) (byte b) (byte a) then 3 else 0)"

lemma ws_len_le: "ws_len s \<le> length s" "ws_len_rev s \<le> length s"
  by (auto simp: ws_len_def ws_len_rev_def split: list.splits)

function strip_ws :: "(string \<Rightarrow> nat) \<Rightarrow> string \<Rightarrow> string" where
  "strip_ws f s = (if 0 < f s \<and> f s \<le> length s then strip_ws f (drop (f s) s) else s)"
  by pat_completeness auto
termination
  by (relation "measure (\<lambda>(f, s). length s)") auto

declare strip_ws.simps [simp del]

definition trim_start :: "string \<Rightarrow> string" where
  "trim_start s = strip_ws ws_len s"

definition trim_end :: "string \<Rightarrow> string" where
  "trim_end s = rev (strip_ws ws_len_rev (rev s))"

definition trim :: "string \<Rightarrow> string" where
  "trim s = trim_end (trim_start s)"

text \<open>The text has no character to strip at either end.\<close>

definition trimmed :: "string \<Rightarrow> bool" where
  "trimmed s \<longleftrightarrow> ws_len s = 0 \<and> ws_len_rev (rev s) = 0"

lemma trim_trimmed: "trimmed s \<Longrightarrow> trim s = s"
  by (simp add: trim_def trim_start_def trim_end_def trimmed_def strip_ws.simps)

lemma strip_ws_stop:
  "f (strip_ws f s) = 0 \<or> length (strip_ws f s) < f (strip_ws f s)"
proof (induction f s rule: strip_ws.induct)
  case (1 f s)
  show ?case
  proof (cases "0 < f s \<and> f s \<le> length s")
    case True
    with "1.IH" show ?thesis by (simp add: strip_ws.simps [of f s])
  next
    case False
    then show ?thesis by (auto simp: strip_ws.simps [of f s])
  qed
qed

lemma strip_ws_suffix: "\<exists>n. strip_ws f s = drop n s"
proof (induction f s rule: strip_ws.induct)
  case (1 f s)
  show ?case
  proof (cases "0 < f s \<and> f s \<le> length s")
    case True
    with "1.IH" show ?thesis by (auto simp: strip_ws.simps [of f s])
  next
    case False
    then show ?thesis by (intro exI [of _ 0]) (auto simp: strip_ws.simps [of f s])
  qed
qed

lemma ws_len_prefix: "ws_len (p @ q) = 0 \<Longrightarrow> ws_len p = 0"
  by (auto simp: ws_len_def split: list.splits if_splits)

lemma trim_is_trimmed: "trimmed (trim s)"
proof -
  have "ws_len (trim_start s) = 0"
    using strip_ws_stop [of ws_len s] ws_len_le(1) [of "strip_ws ws_len s"] by (simp add: trim_start_def)
  moreover obtain n where "strip_ws ws_len_rev (rev (trim_start s)) = drop n (rev (trim_start s))"
    using strip_ws_suffix by blast
  then have "trim_start s = trim s @ rev (take n (rev (trim_start s)))"
    by (metis append_take_drop_id rev_append rev_rev_ident trim_def trim_end_def)
  ultimately have "ws_len (trim s) = 0" by (metis ws_len_prefix)
  moreover have "ws_len_rev (rev (trim s)) = 0"
    using strip_ws_stop [of ws_len_rev "rev (trim_start s)"] ws_len_le(2) [of "strip_ws ws_len_rev (rev (trim_start s))"]
    by (simp add: trim_def trim_end_def)
  ultimately show ?thesis by (simp add: trimmed_def)
qed

lemma trim_idem [simp]: "trim (trim s) = trim s"
  by (rule trim_trimmed) (rule trim_is_trimmed)

lemma split_char_neq_Nil [simp]: "split_char c s \<noteq> []"
  by (induction s) (auto split: list.splits)

lemma split_char_none: "c \<notin> set s \<Longrightarrow> split_char c s = [s]"
  by (induction s) auto

lemma split_char_append:
  "c \<notin> set p \<Longrightarrow> split_char c (p @ c # s) = p # split_char c s"
  by (induction p) (auto split: list.splits)

lemma split_char_join:
  "ps \<noteq> [] \<Longrightarrow> (\<forall>p \<in> set ps. c \<notin> set p) \<Longrightarrow> split_char c (join_with [c] ps) = ps"
  by (induction "[c]" ps rule: join_with.induct) (auto simp: split_char_none split_char_append)

section \<open>Machines with outputs\<close>

section \<open>Bytes\<close>

text \<open>Little-endian integers, as \<open>from_le_bytes\<close> reads and \<open>to_le_bytes\<close> writes them, and byte literals.\<close>

primrec from_le_bytes :: "u8 list \<Rightarrow> nat" where
  "from_le_bytes [] = 0"
| "from_le_bytes (b # bs) = unat b + 256 * from_le_bytes bs"

primrec to_le_bytes :: "nat \<Rightarrow> nat \<Rightarrow> u8 list" where
  "to_le_bytes 0 n = []"
| "to_le_bytes (Suc k) n = of_nat n # to_le_bytes k (n div 256)"

definition ascii_bytes :: "string \<Rightarrow> u8 list" where
  "ascii_bytes s = map (\<lambda>c. of_nat (byte c)) s"

lemma to_le_bytes_length [simp]: "length (to_le_bytes k n) = k"
  by (induction k arbitrary: n) auto

lemma ascii_bytes_length [simp]: "length (ascii_bytes s) = length s"
  by (simp add: ascii_bytes_def)

lemma from_le_bytes_bound: "from_le_bytes bs < 256 ^ length bs"
proof (induction bs)
  case (Cons b bs)
  have "unat b < 256" using unsigned_less [of b] by simp
  then show ?case using Cons by simp
qed simp

lemma from_to_le_bytes: "n < 256 ^ k \<Longrightarrow> from_le_bytes (to_le_bytes k n) = n"
proof (induction k arbitrary: n)
  case (Suc k)
  then have "n div 256 < 256 ^ k" by (simp add: less_mult_imp_div_less mult.commute)
  moreover have "unat (of_nat n :: u8) = n mod 256" by (simp add: unsigned_of_nat take_bit_eq_mod)
  ultimately show ?case using Suc.IH [of "n div 256"] by simp
qed simp

lemma to_le_bytes_4: "to_le_bytes 4 n = [of_nat n, of_nat (n div 256), of_nat (n div 256 div 256), of_nat (n div 256 div 256 div 256)]"
proof -
  have "to_le_bytes (Suc (Suc (Suc (Suc 0)))) n =
      [of_nat n, of_nat (n div 256), of_nat (n div 256 div 256), of_nat (n div 256 div 256 div 256)]"
    by (simp only: to_le_bytes.simps)
  moreover have "4 = Suc (Suc (Suc (Suc 0)))" by simp
  ultimately show ?thesis by (simp only:)
qed

lemma to_le_bytes_2: "to_le_bytes 2 n = [of_nat n, of_nat (n div 256)]"
  by (simp add: numeral_2_eq_2)

text \<open>A component that reacts to one event at a time: the new state and what it emits.\<close>

primrec run_machine :: "('s \<Rightarrow> 'e \<Rightarrow> 's \<times> 'o list) \<Rightarrow> 's \<Rightarrow> 'e list \<Rightarrow> 's \<times> ('e \<times> 'o list) list" where
  "run_machine step s [] = (s, [])"
| "run_machine step s (e # es) =
     (let (s', out) = step s e; (t, trace) = run_machine step s' es in (t, (e, out) # trace))"

text \<open>The actions of a trace, in the order they are emitted.\<close>

definition trace_outputs :: "('e \<times> 'o list) list \<Rightarrow> 'o list" where
  "trace_outputs tr = concat (map snd tr)"

text \<open>A protocol monitor consumes one event with its outputs, or refuses it.\<close>

primrec run_monitor :: "('m \<Rightarrow> 'e \<times> 'o list \<Rightarrow> 'm option) \<Rightarrow> 'm \<Rightarrow> ('e \<times> 'o list) list \<Rightarrow> 'm option" where
  "run_monitor mon m [] = Some m"
| "run_monitor mon m (x # xs) =
     (case mon m x of None \<Rightarrow> None | Some m' \<Rightarrow> run_monitor mon m' xs)"

lemma run_machine_append:
  "run_machine step s (xs @ ys) =
     (let (t, tr) = run_machine step s xs; (u, tr') = run_machine step t ys in (u, tr @ tr'))"
  by (induction xs arbitrary: s) (auto simp: split_beta Let_def)

lemma run_monitor_append:
  "run_monitor mon m (xs @ ys) =
     (case run_monitor mon m xs of None \<Rightarrow> None | Some m' \<Rightarrow> run_monitor mon m' ys)"
  by (induction xs arbitrary: m) (auto split: option.splits)

locale invariant_machine =
  fixes step :: "'s \<Rightarrow> 'e \<Rightarrow> 's \<times> 'o list"
    and inv :: "'s \<Rightarrow> bool"
  assumes step_inv: "inv s \<Longrightarrow> inv (fst (step s e))"
begin

lemma run_inv: "inv s \<Longrightarrow> inv (fst (run_machine step s es))"
proof (induction es arbitrary: s)
  case Nil
  then show ?case by simp
next
  case (Cons e es)
  have "inv (fst (run_machine step (fst (step s e)) es))"
    by (rule Cons.IH) (rule step_inv [OF Cons.prems])
  then show ?case by (simp add: split_beta Let_def)
qed

end

locale monitored_machine = invariant_machine step inv
  for step :: "'s \<Rightarrow> 'e \<Rightarrow> 's \<times> 'o list" and inv :: "'s \<Rightarrow> bool" +
  fixes mon :: "'m \<Rightarrow> 'e \<times> 'o list \<Rightarrow> 'm option"
    and abs :: "'s \<Rightarrow> 'm"
  assumes step_accepted: "inv s \<Longrightarrow> mon (abs s) (e, snd (step s e)) = Some (abs (fst (step s e)))"
begin

lemma run_accepted:
  "inv s \<Longrightarrow>
   run_monitor mon (abs s) (snd (run_machine step s es)) = Some (abs (fst (run_machine step s es)))"
proof (induction es arbitrary: s)
  case Nil
  then show ?case by simp
next
  case (Cons e es)
  have "inv (fst (step s e))" by (rule step_inv [OF Cons.prems])
  note IH = Cons.IH [OF this]
  show ?case
    using step_accepted [OF Cons.prems, of e] IH by (simp add: split_beta Let_def)
qed

end

text \<open>The contract of a machine whose monitor remembers more than the state: a simulation relation.\<close>

locale simulated_machine =
  fixes step :: "'s \<Rightarrow> 'e \<Rightarrow> 's \<times> 'o list"
    and mon :: "'m \<Rightarrow> 'e \<times> 'o list \<Rightarrow> 'm option"
    and rel :: "'s \<Rightarrow> 'm \<Rightarrow> bool"
  assumes step_simulated: "rel s m \<Longrightarrow> \<exists>m'. mon m (e, snd (step s e)) = Some m' \<and> rel (fst (step s e)) m'"
begin

lemma run_simulated:
  "rel s m \<Longrightarrow> \<exists>m'. run_monitor mon m (snd (run_machine step s es)) = Some m' \<and> rel (fst (run_machine step s es)) m'"
proof (induction es arbitrary: s m)
  case (Cons e es)
  obtain m1 where "mon m (e, snd (step s e)) = Some m1" "rel (fst (step s e)) m1"
    using step_simulated [OF Cons.prems] by blast
  then show ?case using Cons.IH [of "fst (step s e)" m1] by (simp add: split_beta Let_def)
qed simp

end

sublocale monitored_machine \<subseteq> as_relation: simulated_machine step mon "\<lambda>s m. inv s \<and> m = abs s"
  by unfold_locales (use step_inv step_accepted in auto)

end
