(* ===== verification/Trigger_Key.thy ===== *)
theory Trigger_Key
  imports Voisu_Prelude
begin

unbundle bit_operations_syntax

text \<open>
  The configured Trigger Key chord, \<open>apps/windows/src-tauri/src/trigger_key.rs\<close>: the modifiers and
  the ordinary key of a chord, its settings string, its sixteen-bit packed form that crosses to the
  keyboard hook thread, and the five presets Voisu offers.

  The array \<open>[Option<Need>; 4]\<close> indexed by \<open>Modifier\<close> is a function on the four modifiers; the
  \<open>enum\<close> instance makes its equality executable.
\<close>

section \<open>Modifiers and chords\<close>

datatype modifier = Ctrl | Alt | Shift | Win

definition all_modifiers :: "modifier list" where
  "all_modifiers = [Ctrl, Alt, Shift, Win]"

instantiation modifier :: enum
begin

definition "enum_modifier = [Ctrl, Alt, Shift, Win]"
definition "enum_all_modifier P \<longleftrightarrow> P Ctrl \<and> P Alt \<and> P Shift \<and> P Win"
definition "enum_ex_modifier P \<longleftrightarrow> P Ctrl \<or> P Alt \<or> P Shift \<or> P Win"

instance
proof
  have split: "P x \<longleftrightarrow> True" if "P Ctrl \<and> P Alt \<and> P Shift \<and> P Win" for P x
    using that by (cases x) auto
  show "UNIV = set (enum_class.enum :: modifier list)"
    by (auto simp: enum_modifier_def intro: modifier.exhaust)
  show "distinct (enum_class.enum :: modifier list)"
    by (simp add: enum_modifier_def)
  show "enum_class.enum_all P \<longleftrightarrow> Ball UNIV P" for P :: "modifier \<Rightarrow> bool"
    using split by (auto simp: enum_all_modifier_def)
  show "enum_class.enum_ex P \<longleftrightarrow> Bex UNIV P" for P :: "modifier \<Rightarrow> bool"
    by (auto simp: enum_ex_modifier_def) (metis modifier.exhaust)
qed

end

primrec modifier_index :: "modifier \<Rightarrow> nat" where
  "modifier_index Ctrl = 0"
| "modifier_index Alt = 1"
| "modifier_index Shift = 2"
| "modifier_index Win = 3"

primrec modifier_name :: "modifier \<Rightarrow> string" where
  "modifier_name Ctrl = ''Ctrl''"
| "modifier_name Alt = ''Alt''"
| "modifier_name Shift = ''Shift''"
| "modifier_name Win = ''Win''"

datatype side = LeftSide | RightSide

datatype need = Either | Only side

record trigger_chord =
  tc_mods :: "modifier \<Rightarrow> need option"
  tc_key :: "u8 option"

definition mods_of :: "need option \<Rightarrow> need option \<Rightarrow> need option \<Rightarrow> need option \<Rightarrow> modifier \<Rightarrow> need option" where
  "mods_of c a s w m = (case m of Ctrl \<Rightarrow> c | Alt \<Rightarrow> a | Shift \<Rightarrow> s | Win \<Rightarrow> w)"

definition CTRL_WIN :: trigger_chord where
  "CTRL_WIN = \<lparr>tc_mods = mods_of (Some Either) None None (Some Either), tc_key = None\<rparr>"

definition EMPTY_CHORD :: trigger_chord where
  "EMPTY_CHORD = \<lparr>tc_mods = (\<lambda>_. None), tc_key = None\<rparr>"

definition chord_need :: "trigger_chord \<Rightarrow> modifier \<Rightarrow> need option" where
  "chord_need c m = tc_mods c m"

definition uses :: "trigger_chord \<Rightarrow> modifier \<Rightarrow> bool" where
  "uses c m \<longleftrightarrow> chord_need c m \<noteq> None"

definition modifier_count :: "trigger_chord \<Rightarrow> nat" where
  "modifier_count c = length (filter (uses c) all_modifiers)"

definition needs_mask :: "trigger_chord \<Rightarrow> bool" where
  "needs_mask c \<longleftrightarrow> modifier_count c > 0"

section \<open>The packed form\<close>

fun need_code :: "need option \<Rightarrow> u16" where
  "need_code None = 0"
| "need_code (Some Either) = 1"
| "need_code (Some (Only LeftSide)) = 2"
| "need_code (Some (Only RightSide)) = 3"

definition code_need :: "u16 \<Rightarrow> need option" where
  "code_need b = (if b = 0 then None else if b = 1 then Some Either
                  else if b = 2 then Some (Only LeftSide) else Some (Only RightSide))"

definition pack :: "trigger_chord \<Rightarrow> u16" where
  "pack c =
     foldl (\<lambda>bits m. bits OR push_bit (modifier_index m * 2) (need_code (tc_mods c m))) 0 all_modifiers
     OR push_bit 8 (ucast (case tc_key c of None \<Rightarrow> 0 | Some vk \<Rightarrow> vk))"

definition unpack :: "u16 \<Rightarrow> trigger_chord" where
  "unpack bits =
     \<lparr>tc_mods = (\<lambda>m. code_need (drop_bit (modifier_index m * 2) bits AND 3)),
      tc_key = (let vk = ucast (drop_bit 8 bits) in if vk = 0 then None else Some vk)\<rparr>"

section \<open>Key names and scan codes\<close>

definition VK_F1 :: u8 where "VK_F1 = 0x70"
definition F_KEYS :: u8 where "F_KEYS = 24"
definition VK_SPACE :: u8 where "VK_SPACE = 0x20"
definition VK_PAUSE :: u8 where "VK_PAUSE = 0x13"
definition VK_HOME :: u8 where "VK_HOME = 0x24"
definition VK_END :: u8 where "VK_END = 0x23"
definition VK_CAPSLOCK :: u8 where "VK_CAPSLOCK = 0x14"
definition VK_BACKTICK :: u8 where "VK_BACKTICK = 0xC0"

lemmas vk_defs = VK_F1_def F_KEYS_def VK_SPACE_def VK_PAUSE_def VK_HOME_def VK_END_def
  VK_CAPSLOCK_def VK_BACKTICK_def

definition KEYS :: "(u8 \<times> u16 \<times> string) list" where
  "KEYS =
     [(VK_SPACE, 0x39, ''Space''), (0x2D, 0x152, ''Insert''), (VK_HOME, 0x147, ''Home''),
      (0x21, 0x149, ''PageUp''), (0x22, 0x151, ''PageDown''), (VK_END, 0x14F, ''End''),
      (VK_PAUSE, 0x45, ''Pause''), (0x91, 0x46, ''ScrollLock''), (VK_CAPSLOCK, 0x3A, ''CapsLock''),
      (0x5D, 0x15D, ''Menu''), (VK_BACKTICK, 0x29, [CHR 0x60]), (0xBD, 0x0C, ''-''),
      (0xBB, 0x0D, ''=''), (0xDB, 0x1A, ''[''), (0xDD, 0x1B, '']''), (0xDC, 0x2B, [CHR 0x5C]),
      (0xBA, 0x27, '';''), (0xDE, 0x28, [CHR 0x27]), (0xBC, 0x33, '',''), (0xBE, 0x34, ''.''),
      (0xBF, 0x35, ''/'')]"

definition LETTER_SCANS :: "u8 list" where
  "LETTER_SCANS =
     [0x1E, 0x30, 0x2E, 0x20, 0x12, 0x21, 0x22, 0x23, 0x17, 0x24, 0x25, 0x26, 0x32, 0x31, 0x18, 0x19,
      0x10, 0x13, 0x1F, 0x14, 0x16, 0x2F, 0x11, 0x2D, 0x15, 0x2C]"

definition F_SCANS :: "u8 list" where
  "F_SCANS =
     [0x3B, 0x3C, 0x3D, 0x3E, 0x3F, 0x40, 0x41, 0x42, 0x43, 0x44, 0x57, 0x58, 0x64, 0x65, 0x66, 0x67,
      0x68, 0x69, 0x6A, 0x6B, 0x6C, 0x6D, 0x6E, 0x76]"

definition LETTERS :: "string list" where
  "LETTERS = map (\<lambda>c. [c]) ''0123456789ABCDEFGHIJKLMNOPQRSTUVWXYZ''"

definition F_NAMES :: "string list" where
  "F_NAMES =
     [''F1'', ''F2'', ''F3'', ''F4'', ''F5'', ''F6'', ''F7'', ''F8'', ''F9'', ''F10'', ''F11'',
      ''F12'', ''F13'', ''F14'', ''F15'', ''F16'', ''F17'', ''F18'', ''F19'', ''F20'', ''F21'',
      ''F22'', ''F23'', ''F24'']"

definition key_name :: "u8 \<Rightarrow> string option" where
  "key_name vk =
     (if 0x30 \<le> vk \<and> vk \<le> 0x39 then Some (LETTERS ! unat (vk - 0x30))
      else if 0x41 \<le> vk \<and> vk \<le> 0x5A then Some (LETTERS ! (unat (vk - 0x41) + 10))
      else if VK_F1 \<le> vk \<and> vk < VK_F1 + F_KEYS then Some (F_NAMES ! unat (vk - VK_F1))
      else map_option (\<lambda>k. snd (snd k)) (find (\<lambda>k. fst k = vk) KEYS))"

definition scan_code :: "u8 \<Rightarrow> u16 option" where
  "scan_code vk =
     (if vk = 0x30 then Some 0x0B
      else if 0x31 \<le> vk \<and> vk \<le> 0x39 then Some (ucast (vk - 0x31 + 2))
      else if 0x41 \<le> vk \<and> vk \<le> 0x5A then Some (ucast (LETTER_SCANS ! unat (vk - 0x41)))
      else if VK_F1 \<le> vk \<and> vk < VK_F1 + F_KEYS then Some (ucast (F_SCANS ! unat (vk - VK_F1)))
      else map_option (\<lambda>k. fst (snd k)) (find (\<lambda>k. fst k = vk) KEYS))"

text \<open>\<open>str::parse::<u8>\<close>: an optional plus sign, at least one digit, nothing else, at most 255.\<close>

definition digits_value :: "string \<Rightarrow> nat" where
  "digits_value ds = foldl (\<lambda>n d. n * 10 + (byte d - 48)) 0 ds"

definition parse_u8 :: "string \<Rightarrow> u8 option" where
  "parse_u8 s =
     (let ds = (case s of c # r \<Rightarrow> if c = CHR ''+'' then r else s | [] \<Rightarrow> s)
      in if ds \<noteq> [] \<and> list_all is_ascii_digit ds \<and> digits_value ds \<le> 255
         then Some (of_nat (digits_value ds)) else None)"

definition f_number :: "string \<Rightarrow> u8 option" where
  "f_number token =
     (case token of
        c # r \<Rightarrow> (if c = CHR ''F'' \<or> c = CHR ''f''
                  then case parse_u8 r of None \<Rightarrow> None
                       | Some n \<Rightarrow> if 1 \<le> n \<and> n \<le> F_KEYS then Some n else None
                  else None)
      | [] \<Rightarrow> None)"

definition key_code :: "string \<Rightarrow> u8 option" where
  "key_code token =
     (if length token = 1 \<and> is_ascii_alphanumeric (hd token)
      then Some (of_nat (byte (to_ascii_upper (hd token))))
      else case f_number token of
        Some n \<Rightarrow> Some (VK_F1 + n - 1)
      | None \<Rightarrow> map_option fst (find (\<lambda>k. eq_ignore_ascii_case (snd (snd k)) token) KEYS))"

section \<open>The written form\<close>

datatype parse_error = Empty | UnknownKey string | Repeated string | TwoKeys

definition modifier_word :: "string \<Rightarrow> modifier option" where
  "modifier_word w =
     (if w = ''ctrl'' \<or> w = ''control'' then Some Ctrl
      else if w = ''alt'' then Some Alt
      else if w = ''shift'' then Some Shift
      else if w = ''win'' \<or> w = ''windows'' then Some Win else None)"

definition parse_modifier :: "string \<Rightarrow> (modifier \<times> need) option" where
  "parse_modifier token =
     (let lower = to_ascii_lowercase token;
          (need, rest) =
            (case strip_prefix ''left'' lower of
               Some rest \<Rightarrow> (Only LeftSide, trim_start rest)
             | None \<Rightarrow> (case strip_prefix ''right'' lower of
                 Some rest \<Rightarrow> (Only RightSide, trim_start rest)
               | None \<Rightarrow> (case lower of
                   [] \<Rightarrow> (Either, lower)
                 | c # rest \<Rightarrow>
                     if c = CHR ''l'' \<and> modifier_word rest \<noteq> None then (Only LeftSide, rest)
                     else if c = CHR ''r'' \<and> modifier_word rest \<noteq> None then (Only RightSide, rest)
                     else (Either, lower))))
      in map_option (\<lambda>m. (m, need)) (modifier_word rest))"

fun parse_tokens :: "trigger_chord \<Rightarrow> string list \<Rightarrow> parse_error + trigger_chord" where
  "parse_tokens chord [] = Inr chord"
| "parse_tokens chord (raw # raws) =
     (let token = trim raw in
      if token = [] then Inl Empty
      else case parse_modifier token of
        Some (m, need) \<Rightarrow>
          (if tc_mods chord m \<noteq> None then Inl (Repeated token)
           else parse_tokens (chord\<lparr>tc_mods := (tc_mods chord)(m := Some need)\<rparr>) raws)
      | None \<Rightarrow> (case key_code token of
            None \<Rightarrow> Inl (UnknownKey token)
          | Some vk \<Rightarrow> (if tc_key chord \<noteq> None then Inl TwoKeys
                         else parse_tokens (chord\<lparr>tc_key := Some vk\<rparr>) raws)))"

text \<open>Only a lone modifier keeps its side.\<close>

definition drop_sides :: "trigger_chord \<Rightarrow> trigger_chord" where
  "drop_sides chord =
     (if tc_key chord \<noteq> None \<or> modifier_count chord > 1
      then chord\<lparr>tc_mods := (\<lambda>m. map_option (\<lambda>_. Either) (tc_mods chord m))\<rparr> else chord)"

definition from_str :: "string \<Rightarrow> parse_error + trigger_chord" where
  "from_str text =
     (case parse_tokens EMPTY_CHORD (split_char (CHR ''+'') text) of
        Inl e \<Rightarrow> Inl e | Inr chord \<Rightarrow> Inr (drop_sides chord))"

fun need_text :: "need \<Rightarrow> modifier \<Rightarrow> string" where
  "need_text Either m = modifier_name m"
| "need_text (Only LeftSide) m = ''Left '' @ modifier_name m"
| "need_text (Only RightSide) m = ''Right '' @ modifier_name m"

definition chord_parts :: "trigger_chord \<Rightarrow> string list" where
  "chord_parts c =
     map (\<lambda>m. need_text (the (chord_need c m)) m) (filter (uses c) all_modifiers)
     @ (case tc_key c of None \<Rightarrow> []
        | Some vk \<Rightarrow> [case key_name vk of None \<Rightarrow> ''?'' | Some name \<Rightarrow> name])"

definition to_string :: "trigger_chord \<Rightarrow> string" where
  "to_string c = join_with ''+'' (chord_parts c)"

text \<open>\<open>str::rsplit_once\<close>, and the label with the key named as the active layout names it.\<close>

definition rsplit_once :: "char \<Rightarrow> string \<Rightarrow> (string \<times> string) option" where
  "rsplit_once c s =
     (if c \<in> set s
      then Some (rev (drop 1 (dropWhile (\<lambda>x. x \<noteq> c) (rev s))), rev (takeWhile (\<lambda>x. x \<noteq> c) (rev s)))
      else None)"

definition chord_label :: "trigger_chord \<Rightarrow> string option \<Rightarrow> string" where
  "chord_label c key_label =
     (case (tc_key c, key_label) of
        (Some _, Some local) \<Rightarrow>
          (case rsplit_once (CHR ''+'') (to_string c) of
             Some (mods, _) \<Rightarrow> mods @ ''+'' @ local
           | None \<Rightarrow> local)
      | _ \<Rightarrow> to_string c)"

section \<open>Presets\<close>

record preset =
  preset_chord :: trigger_chord
  preset_name :: string
  warning :: "string option"

definition BACKTICK_WARNING :: string where
  "BACKTICK_WARNING =
     ''VS Code, Cursor and some terminals use Ctrl+'' @ [CHR 0x60] @ '' to toggle the terminal. Voisu will take it over while it'' @ [CHR 0x27] @ ''s running.''"

definition PRESETS :: "preset list" where
  "PRESETS =
     [\<lparr>preset_chord = CTRL_WIN, preset_name = ''Ctrl+Win'', warning = None\<rparr>,
      \<lparr>preset_chord = \<lparr>tc_mods = mods_of (Some Either) None None None, tc_key = Some VK_BACKTICK\<rparr>,
       preset_name = ''Ctrl+'' @ [CHR 0x60], warning = Some BACKTICK_WARNING\<rparr>,
      \<lparr>preset_chord = \<lparr>tc_mods = mods_of (Some (Only RightSide)) None None None, tc_key = None\<rparr>,
       preset_name = ''Right Ctrl'', warning = None\<rparr>,
      \<lparr>preset_chord = \<lparr>tc_mods = (\<lambda>_. None), tc_key = Some VK_CAPSLOCK\<rparr>,
       preset_name = ''Caps Lock'', warning = None\<rparr>,
      \<lparr>preset_chord = \<lparr>tc_mods = mods_of (Some Either) None (Some Either) None, tc_key = Some VK_SPACE\<rparr>,
       preset_name = ''Ctrl+Shift+Space'',
       warning = Some ''Some apps, such as 1Password, also use Ctrl+Shift+Space.''\<rparr>]"

definition find_preset :: "trigger_chord \<Rightarrow> preset option" where
  "find_preset c = find (\<lambda>p. preset_chord p = c) PRESETS"

text \<open>
  Why a settings value is refused. The source renders both to a message; the model keeps the cause.
\<close>

datatype chord_error = BadChord parse_error | NotAPreset string

definition try_from :: "string \<Rightarrow> chord_error + trigger_chord" where
  "try_from text =
     (case from_str text of
        Inl e \<Rightarrow> Inl (BadChord e)
      | Inr chord \<Rightarrow> (case find_preset chord of
            Some _ \<Rightarrow> Inr chord
          | None \<Rightarrow> Inl (NotAPreset (to_string chord))))"


section \<open>Packing\<close>

lemma code_need_need_code: "code_need (need_code n) = n"
  by (cases n rule: need_code.cases) (auto simp: code_need_def)

lemma need_code_code_need: "b < 4 \<Longrightarrow> need_code (code_need b) = b"
proof -
  assume "b < 4"
  then have "b = 0 \<or> b = 1 \<or> b = 2 \<or> b = 3" by unat_arith
  then show ?thesis by (auto simp: code_need_def)
qed

lemma need_code_bit_high: "2 \<le> k \<Longrightarrow> \<not> bit (need_code n) k"
proof -
  have "take_bit 2 (need_code n) = need_code n"
    by (cases n rule: need_code.cases) (auto simp: take_bit_eq_mod)
  then show "2 \<le> k \<Longrightarrow> ?thesis" by (metis bit_take_bit_iff not_less)
qed

lemma and_3_take_bit: "(x :: u16) AND 3 = take_bit 2 x"
  by (simp add: take_bit_eq_mask mask_eq_exp_minus_1)

lemma take_bit_2_less: "take_bit 2 (x :: u16) < 4"
  using take_bit_nat_less_exp [of 2 "unat x"] by (simp add: word_less_nat_alt unsigned_take_bit_eq)

abbreviation key_byte :: "trigger_chord \<Rightarrow> u8" where
  "key_byte c \<equiv> (case tc_key c of None \<Rightarrow> 0 | Some vk \<Rightarrow> vk)"

lemma bit_pack:
  "n < 16 \<Longrightarrow> bit (pack c) n \<longleftrightarrow>
     bit (need_code (tc_mods c Ctrl)) n
     \<or> (2 \<le> n \<and> bit (need_code (tc_mods c Alt)) (n - 2))
     \<or> (4 \<le> n \<and> bit (need_code (tc_mods c Shift)) (n - 4))
     \<or> (6 \<le> n \<and> bit (need_code (tc_mods c Win)) (n - 6))
     \<or> (8 \<le> n \<and> bit (key_byte c) (n - 8))"
  unfolding pack_def all_modifiers_def
  by (simp add: bit_or_iff bit_push_bit_iff bit_ucast_iff less_imp_diff_less)

lemma pack_need_bits:
  "k < 2 \<Longrightarrow> bit (pack c) (modifier_index m * 2 + k) = bit (need_code (tc_mods c m)) k"
  by (cases m; simp add: bit_pack need_code_bit_high)

lemma pack_key_bits: "k < 8 \<Longrightarrow> bit (pack c) (8 + k) = bit (key_byte c) k"
  by (simp add: bit_pack need_code_bit_high)

lemma unpack_need: "drop_bit (modifier_index m * 2) (pack c) AND 3 = need_code (tc_mods c m)"
proof (rule bit_word_eqI)
  fix n
  show "bit (drop_bit (modifier_index m * 2) (pack c) AND 3) n = bit (need_code (tc_mods c m)) n"
    by (cases "n < 2")
       (simp_all add: and_3_take_bit bit_take_bit_iff bit_drop_bit_eq pack_need_bits need_code_bit_high)
qed

lemma unpack_key: "ucast (drop_bit 8 (pack c)) = key_byte c"
  by (rule bit_word_eqI) (simp add: bit_ucast_iff bit_drop_bit_eq pack_key_bits)

lemma unpack_pack: "tc_key c \<noteq> Some 0 \<Longrightarrow> unpack (pack c) = c"
  by (cases c)
     (auto simp: unpack_def unpack_need unpack_key code_need_need_code Let_def split: option.splits)

lemma unpack_key_nonzero: "tc_key (unpack bits) \<noteq> Some 0"
  by (simp add: unpack_def Let_def)

lemma pack_unpack: "pack (unpack bits) = bits"
proof (rule bit_word_eqI)
  have low: "need_code (tc_mods (unpack bits) m) = take_bit 2 (drop_bit (modifier_index m * 2) bits)" for m
    by (simp add: unpack_def and_3_take_bit need_code_code_need take_bit_2_less)
  have key: "key_byte (unpack bits) = ucast (drop_bit 8 bits)"
    by (simp add: unpack_def Let_def)
  fix n assume n: "n < LENGTH(16)"
  then consider "n < 2" | "2 \<le> n \<and> n < 4" | "4 \<le> n \<and> n < 6" | "6 \<le> n \<and> n < 8" | "8 \<le> n \<and> n < 16"
    by fastforce
  moreover have "2 \<le> n \<Longrightarrow> Suc (Suc (n - 2)) = n" by simp
  ultimately show "bit (pack (unpack bits)) n = bit bits n"
    using n
    by cases (auto simp: bit_pack low key bit_take_bit_iff bit_drop_bit_eq bit_ucast_iff less_diff_conv2)
qed

section \<open>The written form\<close>

text \<open>
  A chord in canonical form: it holds something, its key has a written name, and only a lone
  modifier carries a side.
\<close>

definition canonical :: "trigger_chord \<Rightarrow> bool" where
  "canonical c \<longleftrightarrow>
     (tc_key c \<noteq> None \<or> modifier_count c > 0)
     \<and> (case tc_key c of None \<Rightarrow> True | Some vk \<Rightarrow> key_name vk \<noteq> None)
     \<and> (tc_key c \<noteq> None \<or> modifier_count c > 1 \<longrightarrow> (\<forall>m. tc_mods c m \<in> {None, Some Either}))"

definition key_roundtrip :: "u8 \<Rightarrow> bool" where
  "key_roundtrip vk \<longleftrightarrow>
     (case key_name vk of None \<Rightarrow> False
      | Some n \<Rightarrow> n \<noteq> [] \<and> CHR ''+'' \<notin> set n \<and> trimmed n \<and> parse_modifier n = None \<and> key_code n = Some vk)"

definition supported_vks :: "nat list" where
  "supported_vks = [0x30..<0x3A] @ [0x41..<0x5B] @ [0x70..<0x88] @ map (unat \<circ> fst) KEYS"

lemma key_roundtrip_supported: "list_all (\<lambda>i. key_roundtrip (of_nat i)) supported_vks"
  by code_simp

lemma key_name_supported: "key_name vk = Some n \<Longrightarrow> unat vk \<in> set supported_vks"
  by (auto simp: key_name_def supported_vks_def vk_defs word_le_nat_alt word_less_nat_alt
        simp del: upt_rec_numeral split: if_splits dest!: find_SomeD)

lemma key_name_roundtrip:
  assumes "key_name vk = Some n"
  shows "key_roundtrip vk"
proof -
  have "unat vk \<in> set supported_vks" using assms by (rule key_name_supported)
  then have "key_roundtrip (of_nat (unat vk))"
    using key_roundtrip_supported unfolding list_all_iff by (rule bspec [rotated])
  then show ?thesis by simp
qed

lemma key_roundtripD:
  assumes "key_name vk = Some n"
  shows "n \<noteq> []" "CHR ''+'' \<notin> set n" "trimmed n" "parse_modifier n = None" "key_code n = Some vk"
  using key_name_roundtrip [OF assms] assms by (auto simp: key_roundtrip_def)

lemma upper_alnum_range:
  "is_ascii_alphanumeric c \<Longrightarrow>
   byte (to_ascii_upper c) \<in> {48..57} \<union> {65..90}"
  using byte_less [of c]
  by (auto simp: to_ascii_upper_def is_ascii_alphanumeric_def is_ascii_digit_def byte_char_of)

lemma key_name_alnum: "n \<in> {48..57} \<union> {65..90} \<Longrightarrow> key_name (of_nat n) \<noteq> None"
  by (auto simp: key_name_def word_le_nat_alt unat_of_nat)

lemma key_name_F: "VK_F1 \<le> vk \<Longrightarrow> vk < VK_F1 + F_KEYS \<Longrightarrow> key_name vk \<noteq> None"
  by (simp add: key_name_def)

lemma key_name_KEYS: "k \<in> set KEYS \<Longrightarrow> key_name (fst k) \<noteq> None"
proof -
  assume "k \<in> set KEYS"
  then have "find (\<lambda>k'. fst k' = fst k) KEYS \<noteq> None" by (metis (mono_tags, lifting) find_None_iff)
  then show ?thesis by (auto simp: key_name_def)
qed

lemma f_number_bound: "f_number t = Some n \<Longrightarrow> 1 \<le> n \<and> n \<le> 24"
  by (auto simp: f_number_def F_KEYS_def split: list.splits if_splits option.splits)

lemma f_vk_range: "1 \<le> n \<Longrightarrow> n \<le> 24 \<Longrightarrow> VK_F1 \<le> VK_F1 + n - 1 \<and> VK_F1 + n - 1 < VK_F1 + F_KEYS"
proof -
  assume "1 \<le> n" "n \<le> 24"
  then have "1 \<le> unat n" "unat n \<le> 24" by (simp_all add: word_le_nat_alt)
  moreover from this have "unat (VK_F1 + n - 1) = 111 + unat n"
  proof -
    have "VK_F1 + n - 1 = of_nat (111 + unat n)" by (simp add: vk_defs)
    then have "unat (VK_F1 + n - 1) = (111 + unat n) mod 256" by (simp only: unat_of_nat) simp
    with \<open>unat n \<le> 24\<close> show ?thesis by simp
  qed
  ultimately show ?thesis by (simp add: word_le_nat_alt word_less_nat_alt vk_defs)
qed

lemma key_code_named:
  assumes "key_code t = Some vk"
  shows "key_name vk \<noteq> None"
proof (cases "length t = 1 \<and> is_ascii_alphanumeric (hd t)")
  case True
  then have "key_name (of_nat (byte (to_ascii_upper (hd t)))) \<noteq> None"
    by (intro key_name_alnum upper_alnum_range) simp
  with True assms show ?thesis by (auto simp: key_code_def)
next
  case False
  show ?thesis
  proof (cases "f_number t")
    case None
    with False assms obtain k where "k \<in> set KEYS" "vk = fst k"
      by (auto simp: key_code_def simp del: split_paired_All dest!: find_SomeD split: if_splits)
    then show ?thesis by (simp add: key_name_KEYS)
  next
    case (Some n)
    with False assms have "vk = VK_F1 + n - 1" by (auto simp: key_code_def)
    with f_vk_range f_number_bound [OF Some] show ?thesis by (simp add: key_name_F)
  qed
qed

definition need_roundtrip :: "need \<Rightarrow> modifier \<Rightarrow> bool" where
  "need_roundtrip n m \<longleftrightarrow> need_text n m \<noteq> [] \<and> CHR ''+'' \<notin> set (need_text n m) \<and> trimmed (need_text n m)
     \<and> parse_modifier (need_text n m) = Some (m, n)"

lemma need_roundtrip_all: "need_roundtrip n m"
proof -
  have "list_all (\<lambda>(n, m). need_roundtrip n m)
     (List.product [Either, Only LeftSide, Only RightSide] all_modifiers)"
    by code_simp
  moreover have "(n, m) \<in> set (List.product [Either, Only LeftSide, Only RightSide] all_modifiers)"
    by (cases n; cases m; cases "case n of Only s \<Rightarrow> s | _ \<Rightarrow> LeftSide") (auto simp: all_modifiers_def)
  ultimately show ?thesis by (auto simp: list_all_iff)
qed

lemma need_roundtripD:
  "need_text n m \<noteq> []" "CHR ''+'' \<notin> set (need_text n m)" "trim (need_text n m) = need_text n m"
  "parse_modifier (need_text n m) = Some (m, n)"
  using need_roundtrip_all [of n m] by (auto simp: need_roundtrip_def intro: trim_trimmed)

lemma parse_tokens_mods:
  assumes "distinct ms" "\<forall>m \<in> set ms. tc_mods ch m = None" "\<forall>m \<in> set ms. f m \<noteq> None"
  shows "parse_tokens ch (map (\<lambda>m. need_text (the (f m)) m) ms @ rest) =
         parse_tokens (ch\<lparr>tc_mods := (\<lambda>m. if m \<in> set ms then f m else tc_mods ch m)\<rparr>) rest"
  using assms
proof (induction ms arbitrary: ch)
  case Nil
  then show ?case by simp
next
  case (Cons m ms)
  let ?ch = "ch\<lparr>tc_mods := (tc_mods ch)(m := f m)\<rparr>"
  have "parse_tokens ch (map (\<lambda>m. need_text (the (f m)) m) (m # ms) @ rest) =
        parse_tokens ?ch (map (\<lambda>m. need_text (the (f m)) m) ms @ rest)"
    using Cons.prems by (auto simp: need_roundtripD Let_def)
  also have "\<dots> = parse_tokens (?ch\<lparr>tc_mods := (\<lambda>k. if k \<in> set ms then f k else tc_mods ?ch k)\<rparr>) rest"
    using Cons.prems by (intro Cons.IH) auto
  also have "(\<lambda>k. if k \<in> set ms then f k else tc_mods ?ch k) =
             (\<lambda>k. if k \<in> set (m # ms) then f k else tc_mods ch k)"
    by auto
  finally show ?case by simp
qed

lemma EMPTY_CHORD_simps [simp]: "tc_mods EMPTY_CHORD = (\<lambda>_. None)" "tc_key EMPTY_CHORD = None"
  by (simp_all add: EMPTY_CHORD_def)

lemma mods_used: "(\<lambda>m. if m \<in> set (filter (uses c) all_modifiers) then tc_mods c m else None) = tc_mods c"
proof
  fix m
  show "(if m \<in> set (filter (uses c) all_modifiers) then tc_mods c m else None) = tc_mods c m"
    by (cases m) (auto simp: all_modifiers_def uses_def chord_need_def)
qed

lemma parse_chord_parts:
  assumes "canonical c"
  shows "parse_tokens EMPTY_CHORD (chord_parts c) = Inr c"
proof -
  let ?ms = "filter (uses c) all_modifiers"
  let ?rest = "case tc_key c of None \<Rightarrow> [] | Some vk \<Rightarrow> [case key_name vk of None \<Rightarrow> ''?'' | Some name \<Rightarrow> name]"
  have "parse_tokens EMPTY_CHORD (chord_parts c) =
        parse_tokens (EMPTY_CHORD\<lparr>tc_mods := tc_mods c\<rparr>) ?rest"
  proof -
    have "parse_tokens EMPTY_CHORD (map (\<lambda>m. need_text (the (tc_mods c m)) m) ?ms @ ?rest) =
          parse_tokens (EMPTY_CHORD\<lparr>tc_mods := (\<lambda>m. if m \<in> set ?ms then tc_mods c m else tc_mods EMPTY_CHORD m)\<rparr>) ?rest"
      by (rule parse_tokens_mods) (auto simp: EMPTY_CHORD_def uses_def chord_need_def all_modifiers_def)
    moreover have "(\<lambda>m. if m \<in> set ?ms then tc_mods c m else tc_mods EMPTY_CHORD m) = tc_mods c"
      unfolding EMPTY_CHORD_simps by (rule mods_used)
    ultimately show ?thesis by (simp add: chord_parts_def chord_need_def)
  qed
  also have "\<dots> = Inr c"
    using assms key_roundtripD
    by (cases c; cases "tc_key c") (auto simp: canonical_def EMPTY_CHORD_def trim_trimmed Let_def)
  finally show ?thesis .
qed

lemma chord_parts_plus_free: "canonical c \<Longrightarrow> p \<in> set (chord_parts c) \<Longrightarrow> CHR ''+'' \<notin> set p"
  using key_roundtripD(2) 
  by (auto simp: chord_parts_def need_roundtripD canonical_def split: option.splits)

lemma chord_parts_nonempty: "canonical c \<Longrightarrow> chord_parts c \<noteq> []"
  by (auto simp: canonical_def chord_parts_def modifier_count_def split: option.splits)

lemma drop_sides_canonical: "canonical c \<Longrightarrow> drop_sides c = c"
proof (cases "tc_key c \<noteq> None \<or> modifier_count c > 1")
  case True
  moreover assume "canonical c"
  ultimately have "tc_mods c m \<in> {None, Some Either}" for m by (simp add: canonical_def)
  then have "map_option (\<lambda>_. Either) (tc_mods c m) = tc_mods c m" for m
    by (metis empty_iff insert_iff option.simps(8,9))
  then show ?thesis by (cases c) (simp add: drop_sides_def)
qed (simp add: drop_sides_def)

lemma from_str_to_string: "canonical c \<Longrightarrow> from_str (to_string c) = Inr c"
  by (simp add: from_str_def to_string_def split_char_join chord_parts_nonempty chord_parts_plus_free
      parse_chord_parts drop_sides_canonical)

definition key_ok :: "trigger_chord \<Rightarrow> bool" where
  "key_ok c \<longleftrightarrow> (case tc_key c of None \<Rightarrow> True | Some vk \<Rightarrow> key_name vk \<noteq> None)"

definition has_keys :: "trigger_chord \<Rightarrow> bool" where
  "has_keys c \<longleftrightarrow> tc_key c \<noteq> None \<or> (\<exists>m. tc_mods c m \<noteq> None)"

lemma modifier_count_pos: "modifier_count c > 0 \<longleftrightarrow> (\<exists>m. tc_mods c m \<noteq> None)"
proof
  assume "\<exists>m. tc_mods c m \<noteq> None"
  then obtain m where "uses c m" by (auto simp: uses_def chord_need_def)
  then have "m \<in> set (filter (uses c) all_modifiers)" by (cases m) (auto simp: all_modifiers_def)
  then show "modifier_count c > 0" unfolding modifier_count_def by (rule length_pos_if_in_set)
qed (auto simp: modifier_count_def uses_def chord_need_def filter_empty_conv)

lemma parse_tokens_shape:
  assumes "parse_tokens ch ts = Inr c" "key_ok ch" "has_keys ch \<or> ts \<noteq> []"
  shows "key_ok c \<and> has_keys c"
  using assms
proof (induction ch ts rule: parse_tokens.induct)
  case (1 chord)
  then show ?case by auto
next
  case (2 chord raw raws)
  let ?t = "trim raw"
  from "2.prems"(1) have t: "?t \<noteq> []" by (auto simp: Let_def)
  show ?case
  proof (cases "parse_modifier ?t")
    case (Some mn)
    obtain m n where mn: "mn = (m, n)" by (cases mn)
    let ?ch = "chord\<lparr>tc_mods := (tc_mods chord)(m := Some n)\<rparr>"
    from "2.prems"(1) t Some mn have free: "tc_mods chord m = None" and rec: "parse_tokens ?ch raws = Inr c"
      by (auto simp: Let_def split: if_splits)
    show ?thesis
      using "2.prems"(2) rec by (intro "2.IH"(2) [OF refl t Some mn [symmetric]])
        (auto simp: free mn key_ok_def has_keys_def)
  next
    case None
    then obtain vk where vk: "key_code ?t = Some vk" "tc_key chord = None"
      and rec: "parse_tokens (chord\<lparr>tc_key := Some vk\<rparr>) raws = Inr c"
      using "2.prems"(1) t by (auto simp: Let_def split: option.splits if_splits)
    show ?thesis
      using rec key_code_named [OF vk(1)] by (intro "2.IH"(1) [OF refl t None vk(1)])
        (auto simp: vk key_ok_def has_keys_def)
  qed
qed

lemma modifier_count_drop_sides: "modifier_count (drop_sides c) = modifier_count c"
proof -
  have "uses (drop_sides c) = uses c" by (auto simp: fun_eq_iff uses_def chord_need_def drop_sides_def)
  then show ?thesis by (simp add: modifier_count_def)
qed

lemma from_str_canonical: "from_str text = Inr c \<Longrightarrow> canonical c"
proof -
  assume "from_str text = Inr c"
  then obtain ch where ch: "parse_tokens EMPTY_CHORD (split_char (CHR ''+'') text) = Inr ch" "c = drop_sides ch"
    by (auto simp: from_str_def split: sum.splits)
  have "key_ok ch \<and> has_keys ch"
    by (rule parse_tokens_shape [OF ch(1)]) (auto simp: key_ok_def EMPTY_CHORD_def)
  then show ?thesis
    using modifier_count_drop_sides [of ch] modifier_count_pos [of ch]
    by (auto simp: ch(2) canonical_def key_ok_def has_keys_def drop_sides_def split: option.splits if_splits)
qed

section \<open>Properties\<close>

lemma scan_codes_supported:
  "list_all (\<lambda>i. scan_code (of_nat i) \<notin> {None, Some 0}) supported_vks"
  "distinct (map (\<lambda>i. scan_code (of_nat i)) supported_vks)"
  by code_simp+

lemma find_preset_iff: "find_preset c \<noteq> None \<longleftrightarrow> c \<in> preset_chord ` set PRESETS"
  by (auto simp: find_preset_def find_None_iff)

text \<open>
  The written form of a chord parses back to that chord exactly for the canonical chords.
\<close>
theorem chord_text_roundtrip: "from_str (to_string c) = Inr c \<longleftrightarrow> canonical c"
  using from_str_canonical from_str_to_string by blast

text \<open>
  Whatever spelling of a chord the settings file holds, what it parses to is canonical, and
  writing it back and parsing it again gives the same chord.
\<close>
theorem settings_normal_form:
  "from_str text = Inr c \<Longrightarrow> canonical c \<and> from_str (to_string c) = Inr c"
  using from_str_canonical from_str_to_string by blast

theorem settings_normal_form_witness:
  "canonical CTRL_WIN \<and> from_str (to_string CTRL_WIN) = Inr CTRL_WIN"
proof -
  have "from_str ''windows + CONTROL'' = Inr CTRL_WIN" by code_simp
  then show ?thesis by (rule settings_normal_form)
qed

text \<open>
  The sixteen-bit form posted to the hook thread loses nothing: every word is the packing of
  what it unpacks to, and a chord survives packing unless its key is the null virtual key.
\<close>
theorem pack_roundtrip:
  "pack (unpack bits) = bits \<and> (unpack (pack c) = c \<longleftrightarrow> tc_key c \<noteq> Some 0)"
  using pack_unpack unpack_pack unpack_key_nonzero by metis

text \<open>
  A settings value is accepted exactly when it parses to one of the five presets, and each
  preset's own written form is accepted.
\<close>
theorem only_presets_load:
  "(try_from text = Inr c \<longleftrightarrow> from_str text = Inr c \<and> c \<in> preset_chord ` set PRESETS)
   \<and> map (\<lambda>p. try_from (to_string (preset_chord p))) PRESETS = map (\<lambda>p. Inr (preset_chord p)) PRESETS"
proof
  show "try_from text = Inr c \<longleftrightarrow> from_str text = Inr c \<and> c \<in> preset_chord ` set PRESETS"
    unfolding find_preset_iff [symmetric] by (auto simp: try_from_def split: sum.splits option.splits)
  show "map (\<lambda>p. try_from (to_string (preset_chord p))) PRESETS = map (\<lambda>p. Inr (preset_chord p)) PRESETS"
    by code_simp
qed

text \<open>
  Two different keys a chord may end with never share a scan code, and none has the code 0
  that stands for "no position", so matching by position tells the keys apart.
\<close>
theorem scan_code_injective:
  assumes "key_name a \<noteq> None" and "key_name b \<noteq> None"
  shows "scan_code a \<noteq> None \<and> scan_code a \<noteq> Some 0 \<and> (scan_code a = scan_code b \<longleftrightarrow> a = b)"
proof -
  have mem: "unat a \<in> set supported_vks" "unat b \<in> set supported_vks"
    using assms key_name_supported by blast+
  have "scan_code (of_nat (unat a)) \<notin> {None, Some 0}"
    using scan_codes_supported(1) mem(1) unfolding list_all_iff by (rule bspec)
  moreover have "inj_on (\<lambda>i. scan_code (of_nat i)) (set supported_vks)"
    using scan_codes_supported(2) by (simp add: distinct_map)
  from inj_on_eq_iff [OF this mem] have "scan_code a = scan_code b \<longleftrightarrow> unat a = unat b" by simp
  ultimately show ?thesis by (auto simp: word_unat_eq_iff)
qed

theorem scan_code_injective_witness:
  "scan_code VK_SPACE \<noteq> None \<and> scan_code VK_SPACE \<noteq> Some 0
   \<and> (scan_code VK_SPACE = scan_code VK_PAUSE \<longleftrightarrow> VK_SPACE = VK_PAUSE)"
proof -
  have "key_name VK_SPACE \<noteq> None" and "key_name VK_PAUSE \<noteq> None" by code_simp+
  then show ?thesis by (rule scan_code_injective)
qed

end
