(* ===== verification/Chord.thy ===== *)
theory Chord
  imports Trigger_Key
begin

unbundle bit_operations_syntax

text \<open>
  The hook-side half of the Trigger Key, \<open>apps/windows/src-tauri/src/chord.rs\<close>: the tracker that
  turns raw key transitions into chord signals and decides for every key event whether the focused
  application sees it.

  The closure \<open>os_held\<close> that reads the operating system's modifiers is called at most once per event
  and has no effect on the tracker, so it is the value it would return. Every method takes and
  returns the tracker.
\<close>

section \<open>Keys, masks and verdicts\<close>

definition MASK_VK :: u8 where "MASK_VK = 0xE8"
definition VK_PACKET :: u8 where "VK_PACKET = 0xE7"

datatype key = KeyMod modifier side | KeyEscape | KeyOther u8 u16

fun key_injected :: "key \<Rightarrow> key" where
  "key_injected (KeyOther vk _) = KeyOther vk 0"
| "key_injected k = k"

definition same_key :: "u8 \<Rightarrow> u16 \<Rightarrow> u8 \<Rightarrow> u16 \<Rightarrow> bool" where
  "same_key vk scan key_vk key_scan =
     (if vk = VK_PACKET then False
      else if scan = 0 \<or> key_scan = 0 then vk = key_vk
      else scan = key_scan)"

type_synonym mod_mask = u8

definition mask_with :: "mod_mask \<Rightarrow> modifier \<Rightarrow> mod_mask" where
  "mask_with mm m = mm OR push_bit (modifier_index m) 1"

definition mask_has :: "mod_mask \<Rightarrow> modifier \<Rightarrow> bool" where
  "mask_has mm m \<longleftrightarrow> mm AND push_bit (modifier_index m) 1 \<noteq> 0"

datatype chord_signal = Pressed | Released | Interrupted | Escape

record verdict =
  pass :: bool
  inject_mask :: bool
  signal :: "chord_signal option"

definition PASS :: verdict where
  "PASS = \<lparr>pass = True, inject_mask = False, signal = None\<rparr>"

definition SWALLOW :: verdict where
  "SWALLOW = \<lparr>pass = False, inject_mask = False, signal = None\<rparr>"

section \<open>The tracker\<close>

record side_set =
  ss_left :: bool
  ss_right :: bool

definition side_none :: side_set where
  "side_none = \<lparr>ss_left = False, ss_right = False\<rparr>"

definition side_any :: "side_set \<Rightarrow> bool" where
  "side_any s \<longleftrightarrow> ss_left s \<or> ss_right s"

fun side_set_to :: "side_set \<Rightarrow> side \<Rightarrow> bool \<Rightarrow> side_set" where
  "side_set_to s LeftSide down = s\<lparr>ss_left := down\<rparr>"
| "side_set_to s RightSide down = s\<lparr>ss_right := down\<rparr>"

fun side_get :: "side_set \<Rightarrow> side \<Rightarrow> bool" where
  "side_get s LeftSide = ss_left s"
| "side_get s RightSide = ss_right s"

fun side_meets :: "side_set \<Rightarrow> need option \<Rightarrow> bool" where
  "side_meets s None = (\<not> side_any s)"
| "side_meets s (Some Either) = side_any s"
| "side_meets s (Some (Only LeftSide)) = (ss_left s \<and> \<not> ss_right s)"
| "side_meets s (Some (Only RightSide)) = (ss_right s \<and> \<not> ss_left s)"

record tracker =
  ct_chord :: trigger_chord
  held :: "modifier \<Rightarrow> side_set"
  key_scan :: u16
  key_held :: bool
  key_swallowed :: bool
  active :: bool
  poisoned :: bool
  escape_swallowed :: bool
  carried :: "(u8 \<times> u16) option"

definition chord_scan :: "trigger_chord \<Rightarrow> u16" where
  "chord_scan c = (case tc_key c of None \<Rightarrow> 0
                   | Some vk \<Rightarrow> (case scan_code vk of None \<Rightarrow> 0 | Some s \<Rightarrow> s))"

definition tracker_new :: "trigger_chord \<Rightarrow> tracker" where
  "tracker_new c =
     \<lparr>ct_chord = c, held = (\<lambda>_. side_none), key_scan = chord_scan c, key_held = False,
      key_swallowed = False, active = False, poisoned = False, escape_swallowed = False,
      carried = None\<rparr>"

definition reset :: "tracker \<Rightarrow> tracker \<times> chord_signal option" where
  "reset t = (tracker_new (ct_chord t), if active t then Some Interrupted else None)"

definition set_chord :: "tracker \<Rightarrow> trigger_chord \<Rightarrow> tracker \<times> chord_signal option" where
  "set_chord t c =
     (let carry = (case tc_key (ct_chord t) of
                     Some vk \<Rightarrow> if key_swallowed t then Some (vk, key_scan t) else carried t
                   | None \<Rightarrow> carried t)
      in ((tracker_new c)\<lparr>carried := carry, escape_swallowed := escape_swallowed t\<rparr>,
          if active t then Some Interrupted else None))"

fun swallow_carried :: "tracker \<Rightarrow> key \<Rightarrow> bool \<Rightarrow> tracker \<times> bool" where
  "swallow_carried t (KeyOther vk scan) down =
     (case carried t of
        Some (key_vk, key_sc) \<Rightarrow>
          (if same_key vk scan key_vk key_sc
           then (if down then t else t\<lparr>carried := None\<rparr>, True) else (t, False))
      | None \<Rightarrow> (t, False))"
| "swallow_carried t k down = (t, False)"

definition is_chord_key :: "tracker \<Rightarrow> u8 \<Rightarrow> u16 \<Rightarrow> bool" where
  "is_chord_key t vk scan =
     (case tc_key (ct_chord t) of None \<Rightarrow> False | Some k \<Rightarrow> same_key vk scan k (key_scan t))"

definition admits_injected :: "tracker \<Rightarrow> key \<Rightarrow> bool \<Rightarrow> bool" where
  "admits_injected t k tagged =
     (\<not> tagged \<and> (case k of KeyOther vk scan \<Rightarrow> is_chord_key t vk scan | _ \<Rightarrow> False))"

definition reconcile :: "tracker \<Rightarrow> mod_mask \<Rightarrow> modifier option \<Rightarrow> tracker" where
  "reconcile t os except =
     t\<lparr>held := (\<lambda>m. if Some m \<noteq> except \<and> \<not> mask_has os m then side_none else held t m)\<rparr>"

definition mods_satisfied :: "tracker \<Rightarrow> bool" where
  "mods_satisfied t = list_all (\<lambda>m. side_meets (held t m) (chord_need (ct_chord t) m)) all_modifiers"

definition holding :: "tracker \<Rightarrow> bool" where
  "holding t = (if tc_key (ct_chord t) \<noteq> None then key_held t else mods_satisfied t)"

definition chord_mod_held :: "tracker \<Rightarrow> bool" where
  "chord_mod_held t = list_ex (\<lambda>m. uses (ct_chord t) m \<and> side_any (held t m)) all_modifiers"

definition press :: "tracker \<Rightarrow> bool \<Rightarrow> tracker \<times> verdict" where
  "press t passes =
     (t\<lparr>active := True\<rparr>,
      \<lparr>pass = passes, inject_mask = needs_mask (ct_chord t), signal = Some Pressed\<rparr>)"

definition after_release :: "tracker \<Rightarrow> verdict \<Rightarrow> tracker \<times> verdict" where
  "after_release t v =
     (let (t, v) = (if active t \<and> \<not> holding t
                    then (t\<lparr>active := False\<rparr>, v\<lparr>signal := Some Released\<rparr>) else (t, v))
      in (if \<not> chord_mod_held t \<and> \<not> key_held t then t\<lparr>poisoned := False\<rparr> else t, v))"

definition other :: "tracker \<Rightarrow> bool \<Rightarrow> tracker \<times> verdict" where
  "other t down =
     (if \<not> down \<or> \<not> (chord_mod_held t \<or> active t) then (t, PASS)
      else if active t then (t\<lparr>poisoned := True, active := False\<rparr>, PASS\<lparr>signal := Some Interrupted\<rparr>)
      else (t\<lparr>poisoned := True\<rparr>, PASS))"

definition on_modifier :: "tracker \<Rightarrow> modifier \<Rightarrow> side \<Rightarrow> bool \<Rightarrow> mod_mask \<Rightarrow> tracker \<times> verdict" where
  "on_modifier t m side down os =
     (if \<not> down then after_release (t\<lparr>held := (held t)(m := side_set_to (held t m) side False)\<rparr>) PASS
      else if side_get (held t m) side then (t, PASS)
      else
        let fresh = \<not> side_any (held t m);
            t1 = t\<lparr>held := (held t)(m := side_set_to (held t m) side True)\<rparr>;
            t2 = (if fresh then reconcile t1 os (Some m) else t1)
        in if \<not> uses (ct_chord t2) m \<or> (active t2 \<and> \<not> holding t2) then other t2 True
           else if tc_key (ct_chord t2) = None \<and> \<not> active t2 \<and> \<not> poisoned t2 \<and> mods_satisfied t2
           then press t2 True
           else (t2, PASS))"

definition on_chord_key :: "tracker \<Rightarrow> bool \<Rightarrow> mod_mask \<Rightarrow> tracker \<times> verdict" where
  "on_chord_key t down os =
     (if \<not> down
      then after_release (t\<lparr>key_held := False, key_swallowed := False\<rparr>) (PASS\<lparr>pass := \<not> key_swallowed t\<rparr>)
      else if key_held t then (t, if key_swallowed t then SWALLOW else PASS)
      else
        let t1 = reconcile t os None;
            t2 = (if \<not> chord_mod_held t1 then t1\<lparr>poisoned := False\<rparr> else t1);
            t3 = t2\<lparr>key_held := True\<rparr>
        in if \<not> active t3 \<and> \<not> poisoned t3 \<and> mods_satisfied t3
           then press (t3\<lparr>key_swallowed := True\<rparr>) False
           else other t3 True)"

definition on_escape :: "tracker \<Rightarrow> bool \<Rightarrow> bool \<Rightarrow> tracker \<times> verdict" where
  "on_escape t down armed =
     (if down then
        (if escape_swallowed t then (t, SWALLOW)
         else if armed \<or> active t
         then (t\<lparr>escape_swallowed := True\<rparr>, SWALLOW\<lparr>signal := Some Escape\<rparr>)
         else other t True)
      else if escape_swallowed t then (t\<lparr>escape_swallowed := False\<rparr>, SWALLOW)
      else (t, PASS))"

definition handle :: "tracker \<Rightarrow> key \<Rightarrow> bool \<Rightarrow> mod_mask \<Rightarrow> bool \<Rightarrow> tracker \<times> verdict" where
  "handle t k down os armed =
     (let (t, swallowed) = swallow_carried t k down in
      if swallowed then (t, SWALLOW)
      else case k of
        KeyMod m side \<Rightarrow> on_modifier t m side down os
      | KeyEscape \<Rightarrow> on_escape t down armed
      | KeyOther vk scan \<Rightarrow> if is_chord_key t vk scan then on_chord_key t down os else other t down)"

section \<open>Runs of the tracker\<close>

text \<open>
  What can happen to a tracker: a key transition, a reinstalled hook, a changed setting. A step's
  output is the verdict on the key, if there was one, and the signal for the gesture thread.
\<close>

datatype chord_event =
    KeyEvent key bool mod_mask bool
  | ResetEvent
  | SetChordEvent trigger_chord

fun chord_step :: "tracker \<Rightarrow> chord_event \<Rightarrow> tracker \<times> (bool \<times> chord_signal option) list" where
  "chord_step t (KeyEvent k down os armed) =
     (let (t', v) = handle t k down os armed in (t', [(pass v, signal v)]))"
| "chord_step t ResetEvent = (let (t', s) = reset t in (t', [(True, s)]))"
| "chord_step t (SetChordEvent c) = (let (t', s) = set_chord t c in (t', [(True, s)]))"

section \<open>The tracker's invariant\<close>

text \<open>
  A reported chord is held and not poisoned, a swallowed key is down, a chord without an ordinary key
  never sees one, and the scan code is the chord's.
\<close>

definition tracker_inv :: "tracker \<Rightarrow> bool" where
  "tracker_inv t \<longleftrightarrow>
     (active t \<longrightarrow> holding t \<and> \<not> poisoned t)
     \<and> (key_swallowed t \<longrightarrow> key_held t)
     \<and> (tc_key (ct_chord t) = None \<longrightarrow> \<not> key_held t)
     \<and> key_scan t = chord_scan (ct_chord t)"

lemma mods_satisfied_frame [simp]:
  "mods_satisfied (t\<lparr>active := a\<rparr>) = mods_satisfied t"
  "mods_satisfied (t\<lparr>poisoned := a\<rparr>) = mods_satisfied t"
  "mods_satisfied (t\<lparr>key_held := a\<rparr>) = mods_satisfied t"
  "mods_satisfied (t\<lparr>key_swallowed := a\<rparr>) = mods_satisfied t"
  "mods_satisfied (t\<lparr>escape_swallowed := a\<rparr>) = mods_satisfied t"
  "mods_satisfied (t\<lparr>carried := c\<rparr>) = mods_satisfied t"
  by (simp_all add: mods_satisfied_def)

lemma chord_mod_held_frame [simp]:
  "chord_mod_held (t\<lparr>active := a\<rparr>) = chord_mod_held t"
  "chord_mod_held (t\<lparr>poisoned := a\<rparr>) = chord_mod_held t"
  "chord_mod_held (t\<lparr>key_held := a\<rparr>) = chord_mod_held t"
  "chord_mod_held (t\<lparr>key_swallowed := a\<rparr>) = chord_mod_held t"
  "chord_mod_held (t\<lparr>escape_swallowed := a\<rparr>) = chord_mod_held t"
  "chord_mod_held (t\<lparr>carried := c\<rparr>) = chord_mod_held t"
  by (simp_all add: chord_mod_held_def)

lemma reconcile_frame [simp]:
  "ct_chord (reconcile t os e) = ct_chord t" "key_held (reconcile t os e) = key_held t"
  "key_swallowed (reconcile t os e) = key_swallowed t" "active (reconcile t os e) = active t"
  "poisoned (reconcile t os e) = poisoned t" "key_scan (reconcile t os e) = key_scan t"
  "escape_swallowed (reconcile t os e) = escape_swallowed t" "carried (reconcile t os e) = carried t"
  by (simp_all add: reconcile_def)

lemmas tracker_ops [step_simps] = after_release_def other_def press_def on_modifier_def
  on_chord_key_def on_escape_def PASS_def SWALLOW_def

lemma tracker_new_inv: "tracker_inv (tracker_new c)"
  by (simp add: tracker_inv_def tracker_new_def)

lemma other_inv: 
  "key_swallowed t \<longrightarrow> key_held t \<Longrightarrow> tc_key (ct_chord t) = None \<longrightarrow> \<not> key_held t \<Longrightarrow>
   key_scan t = chord_scan (ct_chord t) \<Longrightarrow> down \<or> tracker_inv t \<Longrightarrow> tracker_inv (fst (other t down))"
  by (auto simp: other_def tracker_inv_def)

lemma after_release_inv:
  "(active t \<longrightarrow> \<not> poisoned t) \<Longrightarrow> key_swallowed t \<longrightarrow> key_held t \<Longrightarrow>
   tc_key (ct_chord t) = None \<longrightarrow> \<not> key_held t \<Longrightarrow> key_scan t = chord_scan (ct_chord t) \<Longrightarrow>
   tracker_inv (fst (after_release t v))"
  by (auto simp: after_release_def tracker_inv_def holding_def)

lemma on_modifier_inv:
  assumes inv: "tracker_inv t"
  shows "tracker_inv (fst (on_modifier t m s down os))"
proof (cases "down \<and> \<not> side_get (held t m) s")
  case True
  define t1 where "t1 = t\<lparr>held := (held t)(m := side_set_to (held t m) s True)\<rparr>"
  define t2 where "t2 = (if \<not> side_any (held t m) then reconcile t1 os (Some m) else t1)"
  have rest: "key_swallowed t2 \<longrightarrow> key_held t2" "tc_key (ct_chord t2) = None \<longrightarrow> \<not> key_held t2"
    "key_scan t2 = chord_scan (ct_chord t2)" "active t2 \<longrightarrow> \<not> poisoned t2"
    using inv by (auto simp: tracker_inv_def t2_def t1_def)
  have other: "tracker_inv (fst (other t2 True))"
    by (rule other_inv) (use rest in auto)
  have "on_modifier t m s down os =
      (if \<not> uses (ct_chord t2) m \<or> (active t2 \<and> \<not> holding t2) then other t2 True
       else if tc_key (ct_chord t2) = None \<and> \<not> active t2 \<and> \<not> poisoned t2 \<and> mods_satisfied t2
       then press t2 True else (t2, PASS))"
    using True by (simp add: on_modifier_def t2_def t1_def Let_def)
  then show ?thesis using rest other by (auto simp: press_def tracker_inv_def holding_def)
next
  case False
  have "tracker_inv (fst (after_release (t\<lparr>held := (held t)(m := side_set_to (held t m) s False)\<rparr>) PASS))"
    by (rule after_release_inv) (use inv in \<open>auto simp: tracker_inv_def\<close>)
  with False inv show ?thesis by (auto simp: on_modifier_def)
qed

lemma on_chord_key_inv:
  assumes inv: "tracker_inv t" and key: "tc_key (ct_chord t) \<noteq> None"
  shows "tracker_inv (fst (on_chord_key t down os))"
proof (cases "down \<and> \<not> key_held t")
  case True
  define t1 where "t1 = reconcile t os None"
  define t3 where "t3 = (if \<not> chord_mod_held t1 then t1\<lparr>poisoned := False\<rparr> else t1)\<lparr>key_held := True\<rparr>"
  have rest: "key_held t3" "tc_key (ct_chord t3) \<noteq> None" "key_scan t3 = chord_scan (ct_chord t3)"
    using inv key by (auto simp: tracker_inv_def t3_def t1_def)
  have other: "tracker_inv (fst (other t3 True))"
    by (rule other_inv) (use rest in auto)
  have "on_chord_key t down os =
      (if \<not> active t3 \<and> \<not> poisoned t3 \<and> mods_satisfied t3
       then press (t3\<lparr>key_swallowed := True\<rparr>) False else other t3 True)"
    using True by (simp add: on_chord_key_def t3_def t1_def Let_def)
  then show ?thesis using rest other by (auto simp: press_def tracker_inv_def holding_def)
next
  case False
  have "tracker_inv (fst (after_release (t\<lparr>key_held := False, key_swallowed := False\<rparr>) v))" for v
    by (rule after_release_inv) (use inv in \<open>auto simp: tracker_inv_def\<close>)
  with False inv show ?thesis by (auto simp: on_chord_key_def)
qed

lemma on_escape_inv: "tracker_inv t \<Longrightarrow> tracker_inv (fst (on_escape t down armed))"
  using other_inv [of t True] by (auto simp: on_escape_def tracker_inv_def holding_def)

lemma swallow_carried_cases:
  "swallow_carried t k down = (t, False)
   \<or> swallow_carried t k down = (if down then t else t\<lparr>carried := None\<rparr>, True)"
proof (cases k)
  case (KeyOther vk scan)
  then show ?thesis by (cases "carried t") (simp_all split: prod.split)
qed simp_all

lemma handle_inv: "tracker_inv t \<Longrightarrow> tracker_inv (fst (handle t k down os armed))"
proof (cases "swallow_carried t k down = (t, False)")
  case True
  note 1 = True
  assume inv: "tracker_inv t"
  show ?thesis
  proof (cases k)
    case (KeyOther vk scan)
    have "tracker_inv (fst (other t down))" using other_inv [of t down] inv by (auto simp: tracker_inv_def)
    with 1 KeyOther inv show ?thesis
      by (auto simp: handle_def is_chord_key_def intro!: on_chord_key_inv split: option.splits)
  qed (use 1 inv in \<open>auto simp: handle_def on_modifier_inv on_escape_inv\<close>)
next
  case False
  assume inv: "tracker_inv t"
  have "swallow_carried t k down = (if down then t else t\<lparr>carried := None\<rparr>, True)"
    using swallow_carried_cases [of t k down] False by blast
  with inv show ?thesis by (auto simp: handle_def tracker_inv_def holding_def)
qed

lemma chord_step_inv: "tracker_inv t \<Longrightarrow> tracker_inv (fst (chord_step t e))"
  by (cases e) (auto simp: split_beta Let_def handle_inv reset_def set_chord_def tracker_new_inv,
      auto simp: tracker_inv_def tracker_new_def)

section \<open>The signal protocol\<close>

text \<open>
  What the gesture thread may rely on, as an automaton over one bit: a press is only reported when
  none is pending, a release or an interruption only while one is, and an Esc changes nothing.
\<close>

fun signal_mon :: "bool \<Rightarrow> chord_signal option \<Rightarrow> bool option" where
  "signal_mon m None = Some m"
| "signal_mon m (Some Pressed) = (if m then None else Some True)"
| "signal_mon m (Some Released) = (if m then Some False else None)"
| "signal_mon m (Some Interrupted) = (if m then Some False else None)"
| "signal_mon m (Some Escape) = Some m"

fun chord_mon :: "bool \<Rightarrow> chord_event \<times> (bool \<times> chord_signal option) list \<Rightarrow> bool option" where
  "chord_mon m (e, []) = Some m"
| "chord_mon m (e, x # xs) =
     (case signal_mon m (snd x) of None \<Rightarrow> None | Some m' \<Rightarrow> chord_mon m' (e, xs))"

definition signal_ok :: "tracker \<Rightarrow> tracker \<times> verdict \<Rightarrow> bool" where
  "signal_ok t r \<longleftrightarrow> signal_mon (active t) (signal (snd r)) = Some (active (fst r))"

lemma other_signal: "signal_ok t (other t down)"
  by (simp add: signal_ok_def other_def PASS_def)

lemma after_release_signal: "signal v = None \<Longrightarrow> signal_ok t (after_release t v)"
  by (simp add: signal_ok_def after_release_def)

lemma signal_ok_frame: "active t' = active t \<Longrightarrow> signal_ok t' r \<Longrightarrow> signal_ok t r"
  by (simp add: signal_ok_def)

lemma on_modifier_signal: "signal_ok t (on_modifier t m s down os)"
proof -
  have "signal_ok t (other t2 True)" "signal_ok t (t2, PASS)"
    "\<not> active t2 \<Longrightarrow> signal_ok t (press t2 True)" if "active t2 = active t" for t2
    using that signal_ok_frame [OF that other_signal] by (simp_all add: signal_ok_def PASS_def press_def)
  moreover have "signal_ok t (after_release (t\<lparr>held := h\<rparr>) PASS)" for h
    by (rule signal_ok_frame [OF _ after_release_signal]) (simp_all add: PASS_def)
  ultimately show ?thesis
    unfolding on_modifier_def Let_def by (simp split: if_split)
qed

lemma on_chord_key_signal: "signal_ok t (on_chord_key t down os)"
proof -
  have "signal_ok t (other t2 True)" "\<not> active t2 \<Longrightarrow> signal_ok t (press (t2\<lparr>key_swallowed := True\<rparr>) False)"
    if "active t2 = active t" for t2
    using that signal_ok_frame [OF that other_signal] by (simp_all add: signal_ok_def press_def)
  moreover have "signal_ok t (after_release (t\<lparr>key_held := False, key_swallowed := False\<rparr>) (PASS\<lparr>pass := b\<rparr>))" for b
    by (rule signal_ok_frame [OF _ after_release_signal]) (simp_all add: PASS_def)
  moreover have "signal_ok t (t, PASS)" "signal_ok t (t, SWALLOW)"
    by (simp_all add: signal_ok_def PASS_def SWALLOW_def)
  ultimately show ?thesis
    unfolding on_chord_key_def Let_def by (simp split: if_split)
qed

lemma on_escape_signal: "signal_ok t (on_escape t down armed)"
  using other_signal [of t True] by (auto simp: on_escape_def signal_ok_def PASS_def SWALLOW_def)

lemma handle_signal: "signal_ok t (handle t k down os armed)"
proof -
  have "signal_ok t (if down then t else t\<lparr>carried := None\<rparr>, SWALLOW)"
    by (simp add: signal_ok_def SWALLOW_def)
  then show ?thesis
    using swallow_carried_cases [of t k down]
    by (auto simp: handle_def on_modifier_signal on_escape_signal on_chord_key_signal other_signal
        split: key.splits)
qed

lemma chord_step_accepted: "chord_mon (active t) (e, snd (chord_step t e)) = Some (active (fst (chord_step t e)))"
proof (cases e)
  case (KeyEvent k down os armed)
  then show ?thesis
    using handle_signal [of t k down os armed] by (simp add: split_beta signal_ok_def)
qed (simp_all add: reset_def set_chord_def tracker_new_def Let_def)

interpretation chord_run: monitored_machine chord_step tracker_inv chord_mon active
  by unfold_locales (simp_all add: chord_step_inv chord_step_accepted)

section \<open>What the focused application sees\<close>

text \<open>
  What the application has seen of one key: nothing since it last came up, its down, or a down that
  was kept from it. A repeat and the key-up follow the down; only where \<open>may_hide\<close> allows it may a
  repeat be withheld from an application that saw the down.
\<close>

datatype key_view = KeyUp | Shown | Hidden

fun press_mon :: "bool \<Rightarrow> key_view \<Rightarrow> bool \<Rightarrow> bool \<Rightarrow> key_view option" where
  "press_mon may_hide KeyUp True p = Some (if p then Shown else Hidden)"
| "press_mon may_hide Shown True p = (if p then Some Shown else if may_hide then Some Hidden else None)"
| "press_mon may_hide Hidden True p = (if p then None else Some Hidden)"
| "press_mon may_hide Hidden False p = (if p then None else Some KeyUp)"
| "press_mon may_hide _ False p = (if p then Some KeyUp else None)"

text \<open>
  The application's view of Esc and of the chord's own key while the chord stays the same; modifiers
  and unrelated keys always reach it. An Esc it saw go down may be withheld from then on only by the
  repeat that reports \<open>Escape\<close> to the gesture thread.
\<close>

fun app_mon :: "trigger_chord \<Rightarrow> key_view \<times> key_view \<Rightarrow> chord_event \<times> (bool \<times> chord_signal option) list \<Rightarrow> (key_view \<times> key_view) option" where
  "app_mon c (esc, own) (KeyEvent KeyEscape down _ _, [(p, s)]) =
     map_option (\<lambda>esc. (esc, own)) (press_mon (s = Some Escape) esc down p)"
| "app_mon c (esc, own) (KeyEvent (KeyMod _ _) _ _ _, [(p, _)]) = (if p then Some (esc, own) else None)"
| "app_mon c (esc, own) (KeyEvent (KeyOther vk scan) down _ _, [(p, _)]) =
     (if is_chord_key (tracker_new c) vk scan then map_option (Pair esc) (press_mon False own down p)
      else if p then Some (esc, own) else None)"
| "app_mon c m _ = None"

definition app_inv :: "trigger_chord \<Rightarrow> tracker \<Rightarrow> bool" where
  "app_inv c t \<longleftrightarrow> tracker_inv t \<and> ct_chord t = c \<and> carried t = None"

text \<open>Key transitions only: the events of a stretch with one chord.\<close>

fun key_step :: "tracker \<Rightarrow> key \<times> bool \<times> mod_mask \<times> bool \<Rightarrow> tracker \<times> (bool \<times> chord_signal option) list" where
  "key_step t (k, down, os, armed) = chord_step t (KeyEvent k down os armed)"

fun key_event :: "key \<times> bool \<times> mod_mask \<times> bool \<Rightarrow> chord_event" where
  "key_event (k, down, os, armed) = KeyEvent k down os armed"

definition app_key_mon where
  "app_key_mon c m x = app_mon c m (key_event (fst x), snd x)"

lemma other_keeps [simp]:
  "ct_chord (fst (other t d)) = ct_chord t" "carried (fst (other t d)) = carried t"
  "key_swallowed (fst (other t d)) = key_swallowed t" "key_held (fst (other t d)) = key_held t"
  "escape_swallowed (fst (other t d)) = escape_swallowed t" "pass (snd (other t d))"
  by (simp_all add: other_def PASS_def)

lemma after_release_keeps [simp]:
  "ct_chord (fst (after_release t v)) = ct_chord t" "carried (fst (after_release t v)) = carried t"
  "key_swallowed (fst (after_release t v)) = key_swallowed t" "key_held (fst (after_release t v)) = key_held t"
  "escape_swallowed (fst (after_release t v)) = escape_swallowed t" "pass (snd (after_release t v)) = pass v"
  by (simp_all add: after_release_def)

lemma press_keeps [simp]:
  "ct_chord (fst (press t p)) = ct_chord t" "carried (fst (press t p)) = carried t"
  "key_swallowed (fst (press t p)) = key_swallowed t" "key_held (fst (press t p)) = key_held t"
  "escape_swallowed (fst (press t p)) = escape_swallowed t" "pass (snd (press t p)) = p"
  by (simp_all add: press_def)

lemma on_modifier_keeps:
  "ct_chord (fst (on_modifier t m s down os)) = ct_chord t"
  "carried (fst (on_modifier t m s down os)) = carried t"
  "key_swallowed (fst (on_modifier t m s down os)) = key_swallowed t"
  "key_held (fst (on_modifier t m s down os)) = key_held t"
  "escape_swallowed (fst (on_modifier t m s down os)) = escape_swallowed t"
  "pass (snd (on_modifier t m s down os))"
  unfolding on_modifier_def Let_def by (simp_all add: PASS_def)

lemma on_chord_key_keeps:
  "ct_chord (fst (on_chord_key t down os)) = ct_chord t"
  "carried (fst (on_chord_key t down os)) = carried t"
  "escape_swallowed (fst (on_chord_key t down os)) = escape_swallowed t"
  unfolding on_chord_key_def Let_def by simp_all

definition own_view :: "tracker \<Rightarrow> key_view" where
  "own_view t = (if \<not> key_held t then KeyUp else if key_swallowed t then Hidden else Shown)"

lemma on_chord_key_own:
  assumes "key_swallowed t \<longrightarrow> key_held t"
  shows "press_mon False (own_view t) down (pass (snd (on_chord_key t down os))) = Some (own_view (fst (on_chord_key t down os)))"
proof (cases down)
  case True
  show ?thesis
    using assms unfolding True on_chord_key_def Let_def own_view_def by (auto simp: PASS_def SWALLOW_def)
next
  case False
  then show ?thesis using assms by (auto simp: on_chord_key_def own_view_def PASS_def)
qed

lemma on_escape_keeps:
  "ct_chord (fst (on_escape t down armed)) = ct_chord t"
  "carried (fst (on_escape t down armed)) = carried t"
  "key_swallowed (fst (on_escape t down armed)) = key_swallowed t"
  "key_held (fst (on_escape t down armed)) = key_held t"
  unfolding on_escape_def by simp_all

lemma on_escape_own:
  assumes "escape_swallowed t \<longleftrightarrow> esc = Hidden"
  shows "\<exists>esc'. press_mon (signal (snd (on_escape t down armed)) = Some Escape) esc down (pass (snd (on_escape t down armed))) = Some esc'
    \<and> (escape_swallowed (fst (on_escape t down armed)) \<longleftrightarrow> esc' = Hidden)"
  using assms by (cases esc; cases down) (auto simp: on_escape_def PASS_def SWALLOW_def)

lemma handle_uncarried:
  "carried t = None \<Longrightarrow>
   handle t k down os armed =
     (case k of KeyMod m side \<Rightarrow> on_modifier t m side down os
      | KeyEscape \<Rightarrow> on_escape t down armed
      | KeyOther vk scan \<Rightarrow> if is_chord_key t vk scan then on_chord_key t down os else other t down)"
  by (cases k) (simp_all add: handle_def)

lemma is_chord_key_new:
  "tracker_inv t \<Longrightarrow> is_chord_key t vk scan = is_chord_key (tracker_new (ct_chord t)) vk scan"
  by (simp add: is_chord_key_def tracker_inv_def tracker_new_def split: option.split)

lemma key_step_app_inv: "app_inv c t \<Longrightarrow> app_inv c (fst (key_step t x))"
proof (cases x)
  case (fields k down os armed)
  assume inv: "app_inv c t"
  then have "tracker_inv (fst (handle t k down os armed))" by (simp add: app_inv_def handle_inv)
  then show ?thesis
    using inv unfolding fields
    by (cases k) (auto simp: app_inv_def split_beta Let_def handle_uncarried on_modifier_keeps
        on_chord_key_keeps on_escape_keeps)
qed

text \<open>What the tracker and the application agree on. That an Esc was shown is known to the application only.\<close>

fun app_rel :: "trigger_chord \<Rightarrow> tracker \<Rightarrow> key_view \<times> key_view \<Rightarrow> bool" where
  "app_rel c t (esc, own) \<longleftrightarrow> app_inv c t \<and> (escape_swallowed t \<longleftrightarrow> esc = Hidden) \<and> own = own_view t"

lemma key_step_app_simulated:
  assumes rel: "app_rel c t m"
  shows "\<exists>m'. app_key_mon c m (x, snd (key_step t x)) = Some m' \<and> app_rel c (fst (key_step t x)) m'"
proof (cases x)
  case (fields k down os armed)
  obtain esc own where m: "m = (esc, own)" by (cases m)
  have inv: "app_inv c t" and esc: "escape_swallowed t \<longleftrightarrow> esc = Hidden" and own: "own = own_view t" using rel m by simp_all
  have t: "carried t = None" "ct_chord t = c" "key_swallowed t \<longrightarrow> key_held t"
    using inv by (auto simp: app_inv_def tracker_inv_def)
  have key: "is_chord_key t vk scan = is_chord_key (tracker_new c) vk scan" for vk scan
    using inv is_chord_key_new [of t] by (simp add: app_inv_def)
  have inv': "app_inv c (fst (handle t k down os armed))"
    using key_step_app_inv [OF inv, of x] by (simp add: fields split_beta Let_def)
  have frame: "own_view t' = own_view t" if "key_held t' = key_held t" "key_swallowed t' = key_swallowed t" for t'
    using that by (simp add: own_view_def)
  show ?thesis
  proof (cases k)
    case KeyEscape
    then show ?thesis
      using on_escape_own [OF esc, of down armed] inv' frame [of "fst (on_escape t down armed)"] unfolding fields app_key_mon_def m
      by (auto simp: split_beta handle_uncarried t own on_escape_keeps)
  next
    case (KeyMod md sd)
    then show ?thesis
      using inv' frame [of "fst (on_modifier t md sd down os)"] unfolding fields app_key_mon_def m
      by (auto simp: split_beta handle_uncarried t own esc on_modifier_keeps)
  next
    case (KeyOther vk scan)
    then show ?thesis
      using inv' frame [of "fst (other t down)"] on_chord_key_own [OF t(3), of down os] unfolding fields app_key_mon_def m
      by (auto simp: split_beta handle_uncarried t key own esc on_chord_key_keeps)
  qed
qed

interpretation app_view: simulated_machine key_step "app_key_mon c" "app_rel c" for c
  by unfold_locales (rule key_step_app_simulated)

section \<open>Properties\<close>

lemma pressed_shape:
  assumes "signal (snd (handle t k down os armed)) = Some Pressed"
  shows "mods_satisfied (fst (handle t k down os armed))
    \<and> inject_mask (snd (handle t k down os armed)) = needs_mask (ct_chord t)
    \<and> pass (snd (handle t k down os armed)) = (tc_key (ct_chord t) = None)"
proof -
  have no: "signal (snd (other t d)) \<noteq> Some Pressed"
    "signal v = None \<Longrightarrow> signal (snd (after_release t v)) \<noteq> Some Pressed" for t d v
    by (simp_all add: other_def PASS_def after_release_def)
  have m: "signal (snd (on_modifier t m s down os)) = Some Pressed \<Longrightarrow>
     mods_satisfied (fst (on_modifier t m s down os))
     \<and> inject_mask (snd (on_modifier t m s down os)) = needs_mask (ct_chord t)
     \<and> pass (snd (on_modifier t m s down os)) = (tc_key (ct_chord t) = None)" for t m s
    unfolding on_modifier_def Let_def
    by (auto simp: no press_def PASS_def split: if_splits)
  have ck: "tc_key (ct_chord t) \<noteq> None \<Longrightarrow> signal (snd (on_chord_key t down os)) = Some Pressed \<Longrightarrow>
     mods_satisfied (fst (on_chord_key t down os))
     \<and> inject_mask (snd (on_chord_key t down os)) = needs_mask (ct_chord t)
     \<and> pass (snd (on_chord_key t down os)) = (tc_key (ct_chord t) = None)" for t
    unfolding on_chord_key_def Let_def
    by (auto simp: no press_def PASS_def SWALLOW_def split: if_splits)
  show ?thesis
    using assms swallow_carried_cases [of t k down] m ck
    by (auto simp: handle_def no on_escape_def SWALLOW_def PASS_def is_chord_key_def
        split: key.splits if_splits option.splits)
qed

text \<open>
  Claim C17. Refinement to the signal protocol. Over any sequence of key transitions, hook resets and
  chord changes from a fresh tracker, the gesture thread sees a Pressed only when no press is
  pending and a Released or Interrupted only while one is; the tracker's own flag is the protocol's.
\<close>
theorem chord_signals_bracketed:
  "run_monitor chord_mon False (snd (run_machine chord_step (tracker_new c) es)) =
     Some (active (fst (run_machine chord_step (tracker_new c) es)))"
  using chord_run.run_accepted [OF tracker_new_inv, of c es] by (simp add: tracker_new_def)

text \<open>
  In every reachable state of the tracker a chord that is reported as pressed is really
  held (its own key is down, or exactly its modifiers are), has not been broken by another key, and
  a key that is being swallowed is down.
\<close>
theorem chord_reachable_inv:
  "tracker_inv (fst (run_machine chord_step (tracker_new c) es))"
  by (rule chord_run.run_inv) (rule tracker_new_inv)

text \<open>
  Claim C18. The focused application sees whole key presses. From a fresh tracker, as long as the
  chord is not changed, every modifier and unrelated key passes; of the chord key the application sees
  the down, all its repeats and the up, or none of them; and of an Esc too, with one exception: an Esc it saw go
  down is withheld from then on, its up included, once a repeat of it reports \<open>Escape\<close> (the trigger
  was armed while the key was held). An Esc or chord key whose down was withheld stays withheld to its up.
\<close>
theorem app_sees_whole_keys:
  "run_monitor (app_key_mon c) (KeyUp, KeyUp) (snd (run_machine key_step (tracker_new c) es)) \<noteq> None"
proof -
  have "app_rel c (tracker_new c) (KeyUp, KeyUp)"
    using tracker_new_inv by (simp add: app_inv_def own_view_def tracker_new_def)
  from app_view.run_simulated [OF this, of es] show ?thesis by blast
qed

text \<open>
  When the tracker reports Pressed, exactly the chord's modifiers are held on the sides it
  asks for, the mask key is injected exactly when the chord holds a modifier, and the event itself
  is swallowed exactly when the chord ends with an ordinary key.
\<close>
theorem pressed_means_chord:
  assumes "handle t k down os armed = (t', v)" and "signal v = Some Pressed"
  shows "(\<forall>m. side_meets (held t' m) (chord_need (ct_chord t') m))
    \<and> inject_mask v = needs_mask (ct_chord t) \<and> pass v = (tc_key (ct_chord t) = None)"
proof -
  have "mods_satisfied t' \<and> inject_mask v = needs_mask (ct_chord t) \<and> pass v = (tc_key (ct_chord t) = None)"
    using pressed_shape [of t k down os armed] assms by simp
  moreover have "side_meets (held t' m) (chord_need (ct_chord t') m)" if "mods_satisfied t'" for m
    using that by (cases m) (simp_all add: mods_satisfied_def all_modifiers_def)
  ultimately show ?thesis by blast
qed

definition ctrl_down :: tracker where
  "ctrl_down = fst (handle (tracker_new CTRL_WIN) (KeyMod Ctrl LeftSide) True 1 False)"

theorem pressed_means_chord_witness:
  "let (t', v) = handle ctrl_down (KeyMod Win RightSide) True 9 False in
     signal v = Some Pressed
     \<and> (\<forall>m. side_meets (held t' m) (chord_need (ct_chord t') m))
     \<and> inject_mask v = needs_mask (ct_chord ctrl_down) \<and> pass v = (tc_key (ct_chord ctrl_down) = None)"
proof -
  obtain t' v where eq: "handle ctrl_down (KeyMod Win RightSide) True 9 False = (t', v)"
    by (cases "handle ctrl_down (KeyMod Win RightSide) True 9 False")
  have "signal (snd (handle ctrl_down (KeyMod Win RightSide) True 9 False)) = Some Pressed"
    by code_simp
  then have sig: "signal v = Some Pressed" by (simp add: eq)
  from pressed_means_chord [OF eq sig] sig show ?thesis by (simp add: eq)
qed

text \<open>
  No event an application injects can form the chord unless it is the chord's own key: the
  hook refuses Voisu's tagged keys and every injected modifier and Esc.
\<close>
theorem injected_admission:
  "admits_injected t k tagged \<longleftrightarrow>
     \<not> tagged \<and> (\<exists>vk scan key. k = KeyOther vk scan \<and> tc_key (ct_chord t) = Some key
                    \<and> vk \<noteq> VK_PACKET
                    \<and> (if scan = 0 \<or> key_scan t = 0 then vk = key else scan = key_scan t))"
  by (auto simp: admits_injected_def is_chord_key_def same_key_def split: key.splits option.splits)

text \<open>
  Changing the chord while its key is held and swallowed: the repeats and the key-up of
  that key stay swallowed under the new chord, and after the key-up it is forgotten.
\<close>
theorem set_chord_carries_key:
  assumes "tc_key (ct_chord t) = Some key" and "key_swallowed t" and "same_key vk scan key (key_scan t)"
  shows "\<not> pass (snd (handle (fst (set_chord t c)) (KeyOther vk scan) down os armed))
    \<and> carried (fst (handle (fst (set_chord t c)) (KeyOther vk scan) down os armed)) =
        (if down then Some (key, key_scan t) else None)"
  using assms by (simp add: set_chord_def handle_def SWALLOW_def Let_def)

definition caps_swallowed :: tracker where
  "caps_swallowed =
     fst (handle (tracker_new \<lparr>tc_mods = (\<lambda>_. None), tc_key = Some VK_CAPSLOCK\<rparr>)
            (KeyOther VK_CAPSLOCK 0x3A) True 0 False)"

theorem set_chord_carries_key_witness:
  "\<not> pass (snd (handle (fst (set_chord caps_swallowed CTRL_WIN)) (KeyOther VK_CAPSLOCK 0x3A) False 0 False))"
proof -
  have "tc_key (ct_chord caps_swallowed) = Some VK_CAPSLOCK" by code_simp
  moreover have "key_swallowed caps_swallowed" by code_simp
  moreover have "same_key VK_CAPSLOCK 0x3A VK_CAPSLOCK (key_scan caps_swallowed)" by code_simp
  ultimately show ?thesis using set_chord_carries_key by blast
qed

section \<open>Three limits of the tracker\<close>

text \<open>
  The exception of the view above is real: an Esc that goes down before the trigger is armed passes,
  its repeat once the trigger is armed and its key-up do not, so the application sees half an Esc.
\<close>
theorem escape_repeat_half_seen:
  "map (\<lambda>x. map fst (snd x))
     (snd (run_machine key_step (tracker_new c) [(KeyEscape, True, 0, False), (KeyEscape, True, 0, True), (KeyEscape, False, 0, True)]))
   = [[True], [False], [False]]"
  by (simp add: handle_def on_escape_def other_def tracker_new_def chord_mod_held_def side_any_def side_none_def
      all_modifiers_def PASS_def SWALLOW_def Let_def)

definition ctrl_shift_space :: trigger_chord where
  "ctrl_shift_space = \<lparr>tc_mods = mods_of (Some Either) None (Some Either) None, tc_key = Some VK_SPACE\<rparr>"

text \<open>
  Only one key is carried. When the chord is changed a second time while a second swallowed key is
  held, the first one is dropped and the application sees its key-up without a key-down: Caps Lock
  down (swallowed), chord set to Ctrl+Shift+Space, Space down (swallowed), chord set to Ctrl+Win,
  Caps Lock up (passed).
\<close>
theorem second_chord_change_drops_carried_key:
  "map (\<lambda>x. map fst (snd x))
     (snd (run_machine chord_step (tracker_new \<lparr>tc_mods = (\<lambda>_. None), tc_key = Some VK_CAPSLOCK\<rparr>)
       [KeyEvent (KeyOther VK_CAPSLOCK 0x3A) True 0 False, SetChordEvent ctrl_shift_space,
        KeyEvent (KeyMod Ctrl LeftSide) True 1 False, KeyEvent (KeyMod Shift LeftSide) True 5 False,
        KeyEvent (KeyOther VK_SPACE 0x39) True 5 False, SetChordEvent CTRL_WIN,
        KeyEvent (KeyOther VK_CAPSLOCK 0x3A) False 5 False]))
   = [[False], [True], [True], [True], [False], [True], [True]]"
  by code_simp

text \<open>
  A modifier key-up the hook missed leaves the poison of an earlier shortcut behind: Ctrl down, C
  down, Ctrl up unseen, then a clean Ctrl and Win press with the operating system reporting both
  down. The Ctrl press counts as a repeat, the poison stays, and no press is reported.
\<close>
theorem missed_key_up_blocks_chord:
  "map (\<lambda>x. map snd (snd x))
     (snd (run_machine chord_step (tracker_new CTRL_WIN)
       [KeyEvent (KeyMod Ctrl LeftSide) True 1 False, KeyEvent (KeyOther 0x43 0x2E) True 1 False,
        KeyEvent (KeyOther 0x43 0x2E) False 1 False,
        KeyEvent (KeyMod Ctrl LeftSide) True 1 False, KeyEvent (KeyMod Win LeftSide) True 9 False]))
   = [[None], [None], [None], [None], [None]]"
  by code_simp

end
