(* ===== verification/Gesture.thy ===== *)
theory Gesture
  imports Chord
begin

text \<open>
  The gesture half of the Windows Trigger Key, \<open>apps/windows/src-tauri/src/gesture.rs\<close>, and the
  gesture thread that drives it, \<open>apps/windows/src-tauri/src/trigger.rs\<close>.

  The machine turns chord signals into Recording commands. The specification it is shown to refine
  is a monitor of the command stream: Recordings are started one at a time under fresh numbers, a
  hands-free upgrade, a stop and a cancel name the Recording under way, and a Recording the engine
  ended is forgotten.
\<close>

section \<open>The gesture machine\<close>

definition MIN_HOLD :: duration where "MIN_HOLD = from_millis 300"
definition DOUBLE_TAP :: duration where "DOUBLE_TAP = from_millis 400"

datatype action = Start nat | HandsFree nat | Stop nat | Cancel nat

datatype gesture_state =
    Idle
  | Holding nat instant
  | TapPending nat instant
  | HandsFreeState nat

record gesture_machine =
  g_state :: gesture_state
  next_id :: nat

definition gesture_default :: gesture_machine where
  "gesture_default = \<lparr>g_state = Idle, next_id = 1\<rparr>"

definition armed :: "gesture_machine \<Rightarrow> bool" where
  "armed m \<longleftrightarrow> g_state m \<noteq> Idle"

definition next_deadline :: "gesture_machine \<Rightarrow> instant option" where
  "next_deadline m = (case g_state m of TapPending _ until \<Rightarrow> Some until | _ \<Rightarrow> None)"

definition gesture_step :: "gesture_machine \<Rightarrow> chord_signal \<Rightarrow> instant \<Rightarrow> gesture_machine \<times> action option" where
  "gesture_step m sig now =
     (case (g_state m, sig) of
        (Idle, Pressed) \<Rightarrow>
          (m\<lparr>g_state := Holding (next_id m) now, next_id := wrap_add_u64 (next_id m) 1\<rparr>,
           Some (Start (next_id m)))
      | (Holding i since, Released) \<Rightarrow>
          (if saturating_duration_since now since \<ge> MIN_HOLD
           then (m\<lparr>g_state := Idle\<rparr>, Some (Stop i))
           else (m\<lparr>g_state := TapPending i (now + DOUBLE_TAP)\<rparr>, None))
      | (TapPending i _, Pressed) \<Rightarrow> (m\<lparr>g_state := HandsFreeState i\<rparr>, Some (HandsFree i))
      | (HandsFreeState i, Pressed) \<Rightarrow> (m\<lparr>g_state := Idle\<rparr>, Some (Stop i))
      | (Holding i _, Escape) \<Rightarrow> (m\<lparr>g_state := Idle\<rparr>, Some (Cancel i))
      | (Holding i _, Interrupted) \<Rightarrow> (m\<lparr>g_state := Idle\<rparr>, Some (Cancel i))
      | (TapPending i _, Escape) \<Rightarrow> (m\<lparr>g_state := Idle\<rparr>, Some (Cancel i))
      | (TapPending i _, Interrupted) \<Rightarrow> (m\<lparr>g_state := Idle\<rparr>, Some (Cancel i))
      | (HandsFreeState i, Escape) \<Rightarrow> (m\<lparr>g_state := Idle\<rparr>, Some (Cancel i))
      | (HandsFreeState i, Interrupted) \<Rightarrow> (m\<lparr>g_state := Idle\<rparr>, Some (Cancel i))
      | _ \<Rightarrow> (m, None))"

definition on_timeout :: "gesture_machine \<Rightarrow> instant \<Rightarrow> gesture_machine \<times> action option" where
  "on_timeout m now =
     (case g_state m of
        TapPending i until \<Rightarrow> (if now \<ge> until then (m\<lparr>g_state := Idle\<rparr>, Some (Cancel i)) else (m, None))
      | _ \<Rightarrow> (m, None))"

definition opt_list :: "'a option \<Rightarrow> 'a list" where
  "opt_list x = (case x of None \<Rightarrow> [] | Some y \<Rightarrow> [y])"

definition on_signal :: "gesture_machine \<Rightarrow> chord_signal \<Rightarrow> instant \<Rightarrow> gesture_machine \<times> action list" where
  "on_signal m sig now =
     (let (m1, lapsed) = on_timeout m now; (m2, act) = gesture_step m1 sig now
      in (m2, opt_list lapsed @ opt_list act))"

definition live_id :: "gesture_state \<Rightarrow> nat option" where
  "live_id s = (case s of Idle \<Rightarrow> None | Holding i _ \<Rightarrow> Some i | TapPending i _ \<Rightarrow> Some i
                 | HandsFreeState i \<Rightarrow> Some i)"

definition on_engine_ended :: "gesture_machine \<Rightarrow> nat \<Rightarrow> gesture_machine" where
  "on_engine_ended m ended =
     (case live_id (g_state m) of
        None \<Rightarrow> m
      | Some current \<Rightarrow> (if current = ended then m\<lparr>g_state := Idle\<rparr> else m))"

section \<open>The gesture thread\<close>

definition QUEUE :: nat where "QUEUE = 256"

datatype trigger_input = ChordInput chord_signal instant | Ended nat

record trigger =
  queue :: "trigger_input list"
  machine :: gesture_machine
  armed_flag :: bool

definition trigger_spawn :: trigger where
  "trigger_spawn = \<lparr>queue = [], machine = gesture_default, armed_flag = False\<rparr>"

text \<open>\<open>try_send\<close> on the bounded channel: a full queue drops the input.\<close>

definition trigger_send :: "trigger \<Rightarrow> trigger_input \<Rightarrow> trigger" where
  "trigger_send t x = (if length (queue t) < QUEUE then t\<lparr>queue := queue t @ [x]\<rparr> else t)"

definition trigger_signal :: "trigger \<Rightarrow> chord_signal \<Rightarrow> instant \<Rightarrow> trigger" where
  "trigger_signal t s now = trigger_send t (ChordInput s now)"

definition trigger_ended :: "trigger \<Rightarrow> nat \<Rightarrow> trigger" where
  "trigger_ended t i = trigger_send t (Ended i)"

text \<open>What the thread wakes up with: the head of the queue, or the lapse of the tap window.\<close>

datatype wakeup = Received trigger_input | TimedOut instant

fun machine_step :: "gesture_machine \<Rightarrow> wakeup \<Rightarrow> gesture_machine \<times> action list" where
  "machine_step m (Received (ChordInput s at)) = on_signal m s at"
| "machine_step m (Received (Ended i)) = (on_engine_ended m i, [])"
| "machine_step m (TimedOut now) = (let (m', a) = on_timeout m now in (m', opt_list a))"

text \<open>
  One turn of the thread's loop. With a tap pending it waits with a timeout, otherwise for ever; the
  flag the hook reads is stored after every turn. \<open>None\<close> is a thread that stays blocked.
\<close>

definition thread_turn :: "trigger \<Rightarrow> instant \<Rightarrow> (trigger \<times> wakeup \<times> action list) option" where
  "thread_turn t now =
     (case queue t of
        x # xs \<Rightarrow>
          (let (m', acts) = machine_step (machine t) (Received x)
           in Some (t\<lparr>queue := xs, machine := m', armed_flag := armed m'\<rparr>, Received x, acts))
      | [] \<Rightarrow>
          (case next_deadline (machine t) of
             Some deadline \<Rightarrow>
               (if now \<ge> deadline
                then let (m', acts) = machine_step (machine t) (TimedOut now)
                     in Some (t\<lparr>machine := m', armed_flag := armed m'\<rparr>, TimedOut now, acts)
                else None)
           | None \<Rightarrow> None))"

text \<open>
  The thread, the hook and the engine interleaved; a step is labelled with what the thread woke up
  with and the commands it sent, if it was the thread's.
\<close>

inductive trigger_step :: "trigger \<Rightarrow> (wakeup \<times> action list) list \<Rightarrow> trigger \<Rightarrow> bool" where
  hook: "trigger_step t [] (trigger_signal t s now)"
| engine: "trigger_step t [] (trigger_ended t i)"
| turn: "thread_turn t now = Some (t', x) \<Longrightarrow> trigger_step t [x] t'"

inductive trigger_reach :: "trigger \<Rightarrow> (wakeup \<times> action list) list \<Rightarrow> bool" where
  start: "trigger_reach trigger_spawn []"
| step: "trigger_reach t tr \<Longrightarrow> trigger_step t new t' \<Longrightarrow> trigger_reach t' (tr @ new)"

section \<open>The command protocol\<close>

text \<open>
  The abstract view: which Recording is live, whether it is hands-free, and the next number. One
  command either is allowed and moves the view, or is refused.
\<close>

record command_view =
  cv_live :: "nat option"
  cv_hands_free :: bool
  cv_next :: nat

fun command_mon :: "command_view \<Rightarrow> action \<Rightarrow> command_view option" where
  "command_mon v (Start i) =
     (if cv_live v = None \<and> i = cv_next v
      then Some \<lparr>cv_live = Some i, cv_hands_free = False, cv_next = wrap_add_u64 i 1\<rparr> else None)"
| "command_mon v (HandsFree i) =
     (if cv_live v = Some i \<and> \<not> cv_hands_free v then Some (v\<lparr>cv_hands_free := True\<rparr>) else None)"
| "command_mon v (Stop i) =
     (if cv_live v = Some i then Some (v\<lparr>cv_live := None, cv_hands_free := False\<rparr>) else None)"
| "command_mon v (Cancel i) =
     (if cv_live v = Some i then Some (v\<lparr>cv_live := None, cv_hands_free := False\<rparr>) else None)"

fun commands_mon :: "command_view \<Rightarrow> action list \<Rightarrow> command_view option" where
  "commands_mon v [] = Some v"
| "commands_mon v (a # as) = (case command_mon v a of None \<Rightarrow> None | Some v' \<Rightarrow> commands_mon v' as)"

definition forget :: "command_view \<Rightarrow> nat \<Rightarrow> command_view" where
  "forget v i = (if cv_live v = Some i then v\<lparr>cv_live := None, cv_hands_free := False\<rparr> else v)"

definition gesture_mon :: "command_view \<Rightarrow> wakeup \<times> action list \<Rightarrow> command_view option" where
  "gesture_mon v x =
     (case commands_mon v (snd x) of None \<Rightarrow> None
      | Some v' \<Rightarrow> Some (case fst x of Received (Ended i) \<Rightarrow> forget v' i | _ \<Rightarrow> v'))"

definition view_of :: "gesture_machine \<Rightarrow> command_view" where
  "view_of m = \<lparr>cv_live = live_id (g_state m),
     cv_hands_free = (case g_state m of HandsFreeState _ \<Rightarrow> True | _ \<Rightarrow> False), cv_next = next_id m\<rparr>"

lemmas gesture_ops [step_simps] = on_signal_def gesture_step_def on_timeout_def on_engine_ended_def
  opt_list_def live_id_def

lemma machine_step_accepted:
  "gesture_mon (view_of m) (w, snd (machine_step m w)) = Some (view_of (fst (machine_step m w)))"
proof (cases "(m, w)" rule: machine_step.cases)
  case (1 m' s at)
  then show ?thesis
    by (cases "g_state m"; cases s) (auto simp: gesture_mon_def view_of_def step_simps Let_def)
next
  case (2 m' i)
  then show ?thesis
    by (cases "g_state m") (auto simp: gesture_mon_def view_of_def step_simps forget_def)
next
  case (3 m' now)
  then show ?thesis
    by (cases "g_state m") (auto simp: gesture_mon_def view_of_def step_simps)
qed

definition id_in_range :: "gesture_machine \<Rightarrow> bool" where
  "id_in_range m \<longleftrightarrow> next_id m \<le> u64_max"

lemma machine_step_range: "id_in_range m \<Longrightarrow> id_in_range (fst (machine_step m w))"
  by (cases "(m, w)" rule: machine_step.cases; cases "g_state m")
     (auto simp: id_in_range_def step_simps wrap_add_u64_bound Let_def split: chord_signal.splits)

interpretation gesture_run: monitored_machine machine_step id_in_range gesture_mon view_of
  by unfold_locales (simp_all add: machine_step_range machine_step_accepted)

section \<open>The thread refines the protocol\<close>

definition trigger_inv :: "trigger \<Rightarrow> (wakeup \<times> action list) list \<Rightarrow> bool" where
  "trigger_inv t tr \<longleftrightarrow>
     run_monitor gesture_mon (view_of gesture_default) tr = Some (view_of (machine t))
     \<and> armed_flag t = armed (machine t) \<and> length (queue t) \<le> QUEUE"

lemma thread_turn_shape:
  assumes "thread_turn t now = Some (t', w, acts)"
  shows "machine t' = fst (machine_step (machine t) w) \<and> acts = snd (machine_step (machine t) w)
    \<and> armed_flag t' = armed (machine t') \<and> length (queue t') \<le> length (queue t)"
  using assms unfolding thread_turn_def
  by (auto simp: split_beta Let_def split: list.splits option.splits if_splits)

lemma trigger_step_inv:
  assumes "trigger_step t new t'" and inv: "trigger_inv t tr"
  shows "trigger_inv t' (tr @ new)"
  using assms(1)
proof cases
  case (turn now x)
  obtain w acts where x: "x = (w, acts)" by (cases x)
  have "gesture_mon (view_of (machine t)) (w, acts) = Some (view_of (machine t'))"
    using thread_turn_shape [of t now t' w acts] machine_step_accepted [of "machine t" w] turn x by simp
  then show ?thesis
    using inv thread_turn_shape [of t now t' w acts] turn x
    by (simp add: trigger_inv_def run_monitor_append)
qed (use inv in \<open>auto simp: trigger_inv_def trigger_signal_def trigger_ended_def trigger_send_def\<close>)

lemma trigger_reach_inv: "trigger_reach t tr \<Longrightarrow> trigger_inv t tr"
proof (induction rule: trigger_reach.induct)
  case start
  show ?case by (simp add: trigger_inv_def trigger_spawn_def gesture_default_def armed_def)
next
  case (step t tr new t')
  then show ?case using trigger_step_inv by blast
qed

section \<open>Numbering\<close>

fun started :: "action list \<Rightarrow> nat list" where
  "started [] = []"
| "started (Start i # as) = i # started as"
| "started (_ # as) = started as"

lemma started_append: "started (xs @ ys) = started xs @ started ys"
  by (induction xs rule: started.induct) auto

lemma machine_step_started:
  assumes "next_id m < u64_max"
  shows "started (snd (machine_step m w)) = [next_id m ..< next_id (fst (machine_step m w))]
    \<and> next_id (fst (machine_step m w)) \<in> {next_id m, Suc (next_id m)}"
proof (cases "(m, w)" rule: machine_step.cases)
  case (1 m' s at)
  then show ?thesis
    using assms
    by (cases "g_state m"; cases s) (auto simp: step_simps Let_def wrap_add_u64_small)
next
  case (2 m' i)
  then show ?thesis
    by (cases "g_state m") (auto simp: step_simps)
next
  case (3 m' now)
  then show ?thesis
    by (cases "g_state m") (auto simp: step_simps)
qed

lemma upt_join: "i \<le> j \<Longrightarrow> j \<le> k \<Longrightarrow> [i..<j] @ [j..<k] = [i..<k]"
  by (metis le_Suc_ex upt_add_eq_append)

lemma run_started:
  "next_id m + length ws \<le> u64_max \<Longrightarrow>
   started (trace_outputs (snd (run_machine machine_step m ws))) =
     [next_id m ..< next_id (fst (run_machine machine_step m ws))]
   \<and> next_id m \<le> next_id (fst (run_machine machine_step m ws))"
proof (induction ws arbitrary: m)
  case Nil
  then show ?case by (simp add: trace_outputs_def)
next
  case (Cons w ws)
  let ?m = "fst (machine_step m w)"
  have one: "started (snd (machine_step m w)) = [next_id m ..< next_id ?m]" "next_id m \<le> next_id ?m"
    "next_id ?m \<le> Suc (next_id m)"
    using machine_step_started [of m w] Cons.prems by auto
  then have "next_id ?m + length ws \<le> u64_max" using Cons.prems by simp
  from Cons.IH [OF this] one show ?case
    by (auto simp: trace_outputs_def split_beta Let_def started_append upt_join)
qed

section \<open>Properties\<close>

text \<open>
  Claim C16. Refinement to the command protocol, for every interleaving of the hook, the engine and
  the gesture thread: Recordings start one at a time under the next number, hands-free, stop and
  cancel always name the Recording under way, and one the engine ended is forgotten. The flag the
  hook reads is the machine's, and the queue stays within its bound.
\<close>
theorem trigger_refines_protocol:
  assumes "trigger_reach t tr"
  shows "run_monitor gesture_mon (view_of gesture_default) tr = Some (view_of (machine t))
    \<and> armed_flag t = armed (machine t) \<and> length (queue t) \<le> QUEUE"
  using trigger_reach_inv [OF assms] by (simp add: trigger_inv_def)

definition one_press :: trigger where
  "one_press = trigger_signal trigger_spawn Pressed 5"

theorem trigger_refines_protocol_witness:
  "\<exists>t. thread_turn one_press 5 = Some (t, Received (ChordInput Pressed 5), [Start 1])
    \<and> run_monitor gesture_mon (view_of gesture_default) [(Received (ChordInput Pressed 5), [Start 1])] =
        Some (view_of (machine t))
    \<and> armed_flag t = armed (machine t) \<and> length (queue t) \<le> QUEUE"
proof -
  obtain t where t: "thread_turn one_press 5 = Some (t, Received (ChordInput Pressed 5), [Start 1])"
    by (simp add: thread_turn_def one_press_def trigger_signal_def trigger_send_def trigger_spawn_def
        QUEUE_def gesture_default_def step_simps Let_def)
  have "trigger_reach one_press ([] @ [])"
    unfolding one_press_def by (rule trigger_reach.step [OF trigger_reach.start trigger_step.hook])
  then have "trigger_reach t (([] @ []) @ [(Received (ChordInput Pressed 5), [Start 1])])"
    by (rule trigger_reach.step) (rule trigger_step.turn [OF t])
  from trigger_refines_protocol [OF this] t show ?thesis by auto
qed

text \<open>
  Recording numbers are never reused: in any run shorter than the 64-bit counter the numbers
  of the Start commands are 1, 2, 3 and so on without a gap.
\<close>
theorem recording_numbers_sequential:
  assumes "length ws < u64_max"
  shows "started (trace_outputs (snd (run_machine machine_step gesture_default ws))) =
    [1 ..< next_id (fst (run_machine machine_step gesture_default ws))]"
  using run_started [of gesture_default ws] assms by (simp add: gesture_default_def)

theorem recording_numbers_sequential_witness:
  "started (trace_outputs (snd (run_machine machine_step gesture_default
      [Received (ChordInput Pressed 0), Received (ChordInput Escape 1), Received (ChordInput Pressed 2)]))) =
    [1 ..< next_id (fst (run_machine machine_step gesture_default
      [Received (ChordInput Pressed 0), Received (ChordInput Escape 1), Received (ChordInput Pressed 2)]))]"
  by (rule recording_numbers_sequential) (simp add: u64_max_def)

text \<open>
  The timing rules. From an idle machine, a press at \<open>t0\<close> starts the Recording. A release at
  least 300 ms later stops it. An earlier release leaves a tap: a second press within 400 ms makes it
  hands-free (its release does nothing and the next press stops it), a press after that settles the
  tap as cancelled and starts a new Recording, and the lapse of the window alone cancels it.
\<close>
theorem gesture_timing:
  assumes idle: "g_state m = Idle"
  shows "let i = next_id m; m1 = fst (on_signal m Pressed t0); m2 = fst (on_signal m1 Released t1) in
     snd (on_signal m Pressed t0) = [Start i]
     \<and> (if saturating_duration_since t1 t0 \<ge> MIN_HOLD
        then snd (on_signal m1 Released t1) = [Stop i] \<and> g_state m2 = Idle
        else snd (on_signal m1 Released t1) = []
          \<and> next_deadline m2 = Some (t1 + DOUBLE_TAP)
          \<and> (if t2 < t1 + DOUBLE_TAP
             then snd (on_timeout m2 t2) = None
               \<and> snd (run_machine machine_step m2
                   [Received (ChordInput Pressed t2), Received (ChordInput Released t3),
                    Received (ChordInput Pressed t4)]) =
                 [(Received (ChordInput Pressed t2), [HandsFree i]), (Received (ChordInput Released t3), []),
                  (Received (ChordInput Pressed t4), [Stop i])]
             else snd (on_timeout m2 t2) = Some (Cancel i)
               \<and> snd (on_signal m2 Pressed t2) = [Cancel i, Start (next_id m2)]))"
  using idle by (auto simp: step_simps Let_def next_deadline_def)

theorem gesture_timing_witness:
  "snd (on_signal gesture_default Pressed 0) = [Start 1]
   \<and> snd (on_signal (fst (on_signal gesture_default Pressed 0)) Released (from_millis 300)) = [Stop 1]"
proof -
  have idle: "g_state gesture_default = Idle" by (simp add: gesture_default_def)
  have long: "saturating_duration_since (from_millis 300) 0 \<ge> MIN_HOLD" "next_id gesture_default = 1"
    by (simp_all add: saturating_duration_since_def MIN_HOLD_def gesture_default_def)
  show ?thesis
    using gesture_timing [OF idle, where ?t0.0 = 0 and ?t1.0 = "from_millis 300"] long
    by (simp add: Let_def)
qed

text \<open>
  Nobody is left with a Recording that cannot be ended: whatever is live, Esc or an
  interruption cancels exactly it and leaves the machine idle, and on an idle machine does nothing.
\<close>
theorem escape_always_cancels:
  assumes "s = Escape \<or> s = Interrupted"
  shows "g_state (fst (on_signal m s now)) = Idle
    \<and> snd (on_signal m s now) = (case live_id (g_state m) of None \<Rightarrow> [] | Some i \<Rightarrow> [Cancel i])"
  using assms by (cases "g_state m") (auto simp: step_simps)

theorem escape_always_cancels_witness:
  "g_state (fst (on_signal gesture_default Escape 7)) = Idle
   \<and> snd (on_signal gesture_default Escape 7) =
       (case live_id (g_state gesture_default) of None \<Rightarrow> [] | Some i \<Rightarrow> [Cancel i])"
  by (rule escape_always_cancels) simp

text \<open>
  The gesture thread never sleeps through work: it is blocked exactly when nothing is queued
  and no tap window has lapsed, and each turn sends at most two commands.
\<close>
theorem thread_progress:
  "(thread_turn t now = None \<longleftrightarrow>
      queue t = [] \<and> (case next_deadline (machine t) of None \<Rightarrow> True | Some d \<Rightarrow> now < d))
   \<and> length (snd (machine_step m w)) \<le> 2"
proof
  show "thread_turn t now = None \<longleftrightarrow>
      queue t = [] \<and> (case next_deadline (machine t) of None \<Rightarrow> True | Some d \<Rightarrow> now < d)"
    by (auto simp: thread_turn_def split_beta Let_def split: list.splits option.splits)
  show "length (snd (machine_step m w)) \<le> 2"
    by (cases "(m, w)" rule: machine_step.cases)
       (auto simp: on_signal_def opt_list_def split_beta Let_def split: option.splits)
qed

end
