(* ===== verification/Unicode_Text.thy ===== *)
theory Unicode_Text
  imports Voisu_Prelude "HOL-Library.Sublist" "HOL-Library.List_Lexorder"
begin

text \<open>
  Text as the transcript code reads it: a Rust \<open>&str\<close> seen through \<open>chars()\<close>, the list of its
  Unicode scalar values. The transcript sources never look inside a character's encoding; where they
  measure bytes (\<open>len\<close>) the UTF-8 length of each scalar value is counted, and \<open>str\<close>'s byte order is
  the lexicographic order of scalar values, which UTF-8 preserves.

  The Unicode character database behind \<open>is_alphanumeric\<close>, \<open>to_lowercase\<close> and their siblings is data
  the standard library is built with. It is an argument of the model, a record of its tables, and
  \<open>unicode_ok\<close> names the documented facts about it that some theorems rely on. Two tables are small
  and written out: \<open>White_Space\<close> and UTF-8 lengths. \<open>ascii\<close> is a concrete database (it knows the
  ASCII letters and digits) on which the operations run.
\<close>

section \<open>Characters\<close>

type_synonym utext = "nat list"

definition lit :: "string \<Rightarrow> utext" where
  "lit s = map of_char s"

record unicode =
  u_alphabetic :: "nat \<Rightarrow> bool"
  u_numeric :: "nat \<Rightarrow> bool"
  u_uppercase :: "nat \<Rightarrow> bool"
  u_lowercase :: "nat \<Rightarrow> bool"
  u_cased :: "nat \<Rightarrow> bool"
  u_case_ignorable :: "nat \<Rightarrow> bool"
  u_to_lower :: "nat \<Rightarrow> nat list"
  u_to_upper :: "nat \<Rightarrow> nat list"

definition is_alphanumeric :: "unicode \<Rightarrow> nat \<Rightarrow> bool" where
  "is_alphanumeric u c \<longleftrightarrow> u_alphabetic u c \<or> u_numeric u c"

definition is_whitespace :: "nat \<Rightarrow> bool" where
  "is_whitespace c \<longleftrightarrow> (9 \<le> c \<and> c \<le> 13) \<or> c = 32 \<or> c = 0x85 \<or> c = 0xA0 \<or> c = 0x1680
     \<or> (0x2000 \<le> c \<and> c \<le> 0x200A) \<or> c = 0x2028 \<or> c = 0x2029 \<or> c = 0x202F \<or> c = 0x205F \<or> c = 0x3000"

definition len_utf8 :: "nat \<Rightarrow> nat" where
  "len_utf8 c = (if c < 0x80 then 1 else if c < 0x800 then 2 else if c < 0x10000 then 3 else 4)"

section \<open>Strings\<close>

text \<open>\<open>str::len\<close>, in bytes.\<close>

definition byte_len :: "utext \<Rightarrow> nat" where
  "byte_len t = sum_list (map len_utf8 t)"

definition trim_start_matches :: "('a \<Rightarrow> bool) \<Rightarrow> 'a list \<Rightarrow> 'a list" where
  "trim_start_matches P t = dropWhile P t"

definition trim_end_matches :: "('a \<Rightarrow> bool) \<Rightarrow> 'a list \<Rightarrow> 'a list" where
  "trim_end_matches P t = rev (dropWhile P (rev t))"

abbreviation utrim_end :: "utext \<Rightarrow> utext" where
  "utrim_end \<equiv> trim_end_matches is_whitespace"

abbreviation utrim_start :: "utext \<Rightarrow> utext" where
  "utrim_start \<equiv> trim_start_matches is_whitespace"

definition utrim :: "utext \<Rightarrow> utext" where
  "utrim t = utrim_end (utrim_start t)"

text \<open>\<open>str::split\<close> on a predicate, and \<open>split_whitespace\<close>: its non-empty pieces.\<close>

fun split_on :: "('a \<Rightarrow> bool) \<Rightarrow> 'a list \<Rightarrow> 'a list list" where
  "split_on P [] = [[]]"
| "split_on P (x # xs) =
     (if P x then [] # split_on P xs
      else case split_on P xs of w # ws \<Rightarrow> (x # w) # ws | [] \<Rightarrow> [[x]])"

definition split_whitespace :: "utext \<Rightarrow> utext list" where
  "split_whitespace t = filter (\<lambda>w. w \<noteq> []) (split_on is_whitespace t)"

text \<open>
  \<open>str::lines\<close>: the pieces between line feeds, a carriage return before the line feed stripped. The last
  piece has no line feed; it is a line when it is not empty, and keeps a carriage return at its end.
\<close>

definition chomp_cr :: "utext \<Rightarrow> utext" where
  "chomp_cr l = (if l \<noteq> [] \<and> last l = 13 then butlast l else l)"

definition text_lines :: "utext \<Rightarrow> utext list" where
  "text_lines t =
     (let ls = split_on (\<lambda>c. c = 10) t in map chomp_cr (butlast ls) @ (if last ls = [] then [] else [last ls]))"

definition starts_with :: "'a list \<Rightarrow> 'a list \<Rightarrow> bool" where
  "starts_with p t \<longleftrightarrow> prefix p t"

definition ends_with :: "'a list \<Rightarrow> 'a list \<Rightarrow> bool" where
  "ends_with p t \<longleftrightarrow> prefix (rev p) (rev t)"

fun contains_text :: "'a list \<Rightarrow> 'a list \<Rightarrow> bool" where
  "contains_text p [] \<longleftrightarrow> p = []"
| "contains_text p (x # xs) \<longleftrightarrow> prefix p (x # xs) \<or> contains_text p xs"

text \<open>\<open>str::match_indices\<close>: non-overlapping occurrences from the left; \<open>skip\<close> characters belong to a match.\<close>

fun match_indices :: "utext \<Rightarrow> nat \<Rightarrow> nat \<Rightarrow> utext \<Rightarrow> nat list" where
  "match_indices p skip i [] = []"
| "match_indices p skip i (c # t) =
     (if 0 < skip then match_indices p (skip - 1) (i + 1) t
      else if prefix p (c # t) then i # match_indices p (length p - 1) (i + 1) t
      else match_indices p 0 (i + 1) t)"

text \<open>
  \<open>str::to_lowercase\<close> maps each character, except that a capital sigma at the end of a word becomes
  the final sigma: it is preceded by a cased letter and not followed by one, case-ignorable
  characters in between not counting.
\<close>

definition case_ignorable_then_cased :: "unicode \<Rightarrow> utext \<Rightarrow> bool" where
  "case_ignorable_then_cased u t =
     (case dropWhile (u_case_ignorable u) t of [] \<Rightarrow> False | c # _ \<Rightarrow> u_cased u c)"

fun lower_from :: "unicode \<Rightarrow> utext \<Rightarrow> utext \<Rightarrow> utext" where
  "lower_from u before [] = []"
| "lower_from u before (c # t) =
     (if c = 0x3A3
      then (if case_ignorable_then_cased u before \<and> \<not> case_ignorable_then_cased u t then 0x3C2 else 0x3C3)
             # lower_from u (c # before) t
      else u_to_lower u c @ lower_from u (c # before) t)"

definition to_lowercase :: "unicode \<Rightarrow> utext \<Rightarrow> utext" where
  "to_lowercase u t = lower_from u [] t"

definition to_uppercase :: "unicode \<Rightarrow> utext \<Rightarrow> utext" where
  "to_uppercase u t = concat (map (u_to_upper u) t)"

section \<open>What is known of the database\<close>

definition ascii_upper :: "nat \<Rightarrow> bool" where "ascii_upper c \<longleftrightarrow> 65 \<le> c \<and> c \<le> 90"
definition ascii_lower :: "nat \<Rightarrow> bool" where "ascii_lower c \<longleftrightarrow> 97 \<le> c \<and> c \<le> 122"
definition ascii_digit :: "nat \<Rightarrow> bool" where "ascii_digit c \<longleftrightarrow> 48 \<le> c \<and> c \<le> 57"

definition ascii_lower_text :: "utext \<Rightarrow> utext" where
  "ascii_lower_text t = map (\<lambda>c. if ascii_upper c then c + 32 else c) t"

text \<open>
  White space is neither a letter nor a number, ASCII has its usual classes and case mapping, and
  lower-casing gives at least one character.
\<close>

definition unicode_ok :: "unicode \<Rightarrow> bool" where
  "unicode_ok u \<longleftrightarrow>
     (\<forall>c. is_whitespace c \<longrightarrow> \<not> is_alphanumeric u c)
     \<and> (\<forall>c<128. u_alphabetic u c \<longleftrightarrow> ascii_upper c \<or> ascii_lower c)
     \<and> (\<forall>c<128. u_numeric u c \<longleftrightarrow> ascii_digit c)
     \<and> (\<forall>c<128. u_uppercase u c \<longleftrightarrow> ascii_upper c)
     \<and> (\<forall>c<128. u_lowercase u c \<longleftrightarrow> ascii_lower c)
     \<and> (\<forall>c<128. u_to_lower u c = [if ascii_upper c then c + 32 else c])
     \<and> (\<forall>c<128. u_to_upper u c = [if ascii_lower c then c - 32 else c])
     \<and> (\<forall>c. u_to_lower u c \<noteq> [])"

definition ascii :: unicode where
  "ascii = \<lparr>u_alphabetic = (\<lambda>c. ascii_upper c \<or> ascii_lower c), u_numeric = ascii_digit,
     u_uppercase = ascii_upper, u_lowercase = ascii_lower,
     u_cased = (\<lambda>c. ascii_upper c \<or> ascii_lower c), u_case_ignorable = (\<lambda>c. c \<in> {39, 46, 58, 94, 96}),
     u_to_lower = (\<lambda>c. [if ascii_upper c then c + 32 else c]),
     u_to_upper = (\<lambda>c. [if ascii_lower c then c - 32 else c])\<rparr>"

lemma unicode_ok_ascii: "unicode_ok ascii"
  by (auto simp: unicode_ok_def ascii_def is_alphanumeric_def is_whitespace_def ascii_upper_def
      ascii_lower_def ascii_digit_def)

section \<open>Trimming and splitting\<close>

lemma trim_end_matches_Nil [simp]: "trim_end_matches P [] = []"
  by (simp add: trim_end_matches_def)

lemma trim_end_matches_snoc:
  "trim_end_matches P (t @ [c]) = (if P c then trim_end_matches P t else t @ [c])"
  by (simp add: trim_end_matches_def)

lemma trim_end_matches_prefix: "prefix (trim_end_matches P t) t"
  by (induction t rule: rev_induct) (auto simp: trim_end_matches_snoc)

lemma trim_end_matches_length: "length (trim_end_matches P t) \<le> length t"
  using trim_end_matches_prefix prefix_length_le by blast

lemma trim_end_matches_idem [simp]: "trim_end_matches P (trim_end_matches P t) = trim_end_matches P t"
  by (induction t rule: rev_induct) (auto simp: trim_end_matches_snoc)

lemma trim_end_matches_last: "trim_end_matches P t \<noteq> [] \<Longrightarrow> \<not> P (last (trim_end_matches P t))"
  by (induction t rule: rev_induct) (auto simp: trim_end_matches_snoc)

lemma trim_end_matches_id: "t = [] \<or> \<not> P (last t) \<Longrightarrow> trim_end_matches P t = t"
  by (cases t rule: rev_cases) (auto simp: trim_end_matches_snoc)

lemma trim_end_matches_eq_Nil: "trim_end_matches P t = [] \<longleftrightarrow> (\<forall>c\<in>set t. P c)"
  by (induction t rule: rev_induct) (auto simp: trim_end_matches_snoc)

text \<open>A text that starts with a kept character is only shortened at its end.\<close>

definition utrimmed :: "utext \<Rightarrow> bool" where
  "utrimmed t \<longleftrightarrow> t = [] \<or> (\<not> is_whitespace (hd t) \<and> \<not> is_whitespace (last t))"

lemma utrim_start_id: "t = [] \<or> \<not> is_whitespace (hd t) \<Longrightarrow> utrim_start t = t"
  by (cases t) (auto simp: trim_start_matches_def)

lemma prefix_hd: "prefix s t \<Longrightarrow> s \<noteq> [] \<Longrightarrow> hd s = hd t"
  by (auto simp: prefix_def)

lemma utrim_trimmed: "utrimmed (utrim t)"
proof (cases "utrim t = []")
  case False
  let ?s = "utrim_start t"
  have ne: "utrim_end ?s \<noteq> []" using False by (simp add: utrim_def)
  have p: "prefix (utrim_end ?s) ?s" by (rule trim_end_matches_prefix)
  then have "?s \<noteq> []" using ne by auto
  then have "\<not> is_whitespace (hd ?s)" by (simp add: trim_start_matches_def hd_dropWhile)
  then have "\<not> is_whitespace (hd (utrim_end ?s))" using prefix_hd [OF p ne] by simp
  then show ?thesis using trim_end_matches_last [OF ne] by (simp add: utrimmed_def utrim_def)
qed (simp add: utrimmed_def)

lemma utrim_id: "utrimmed t \<Longrightarrow> utrim t = t"
  by (auto simp: utrimmed_def utrim_def utrim_start_id trim_end_matches_id)

lemma utrim_idem [simp]: "utrim (utrim t) = utrim t"
  by (rule utrim_id [OF utrim_trimmed])

lemma utrim_Nil [simp]: "utrim [] = []"
  by (simp add: utrim_def trim_start_matches_def)

lemma utrim_length: "length (utrim t) \<le> length t"
proof -
  have "length (utrim t) \<le> length (utrim_start t)" by (simp add: utrim_def trim_end_matches_length)
  then show ?thesis using length_dropWhile_le [of is_whitespace t] by (simp add: trim_start_matches_def)
qed

lemma utrimmed_utrim_end: "prefix s t \<Longrightarrow> utrimmed t \<Longrightarrow> utrimmed (utrim_end s)"
proof (cases "utrim_end s = []")
  case False
  assume "prefix s t" and t: "utrimmed t"
  then have "prefix (utrim_end s) t" using trim_end_matches_prefix prefix_order.trans by blast
  then have "hd (utrim_end s) = hd t" "t \<noteq> []" using False prefix_hd by auto
  then show ?thesis using t trim_end_matches_last [OF False] by (simp add: utrimmed_def)
qed (simp add: utrimmed_def)

lemma to_lowercase_Nil [simp]: "to_lowercase u [] = []"
  by (simp add: to_lowercase_def)

end
