(* ===== verification/Boundary.thy ===== *)
theory Boundary
  imports Unicode_Text
begin

text \<open>
  The vocabulary every component shares, from \<open>crates/voisu-core/src/lib.rs\<close> and
  \<open>crates/voisu-core/src/diagnostics.rs\<close>: providers and their failures, the boundary error with its
  user-facing message, captured audio, credentials and key status, the cancellation flag and the
  Recording Deadline clock.
\<close>

section \<open>Providers and failure evidence\<close>

datatype provider = Deepgram | Groq

text \<open>\<open>Provider\<close> derives \<open>Ord\<close>: Deepgram before Groq.\<close>

instantiation provider :: linorder
begin

definition less_eq_provider :: "provider \<Rightarrow> provider \<Rightarrow> bool" where
  "p \<le> q \<longleftrightarrow> p = Deepgram \<or> q = Groq"

definition less_provider :: "provider \<Rightarrow> provider \<Rightarrow> bool" where
  "p < q \<longleftrightarrow> p = Deepgram \<and> q = Groq"

instance
proof
  fix p q r :: provider
  show "p < q \<longleftrightarrow> p \<le> q \<and> \<not> q \<le> p"
    by (cases p; cases q) (simp_all add: less_eq_provider_def less_provider_def)
  show "p \<le> p" by (cases p) (simp_all add: less_eq_provider_def)
  show "p \<le> q \<Longrightarrow> q \<le> r \<Longrightarrow> p \<le> r" by (cases q) (auto simp: less_eq_provider_def)
  show "p \<le> q \<Longrightarrow> q \<le> p \<Longrightarrow> p = q" by (cases p; cases q) (auto simp: less_eq_provider_def)
  show "p \<le> q \<or> q \<le> p" by (cases p) (auto simp: less_eq_provider_def)
qed

end

fun provider_cli_label :: "provider \<Rightarrow> string" where
  "provider_cli_label Deepgram = ''Deepgram''"
| "provider_cli_label Groq = ''Groq''"

fun environment_variable :: "provider \<Rightarrow> string" where
  "environment_variable Deepgram = ''VOISU_DEEPGRAM_API_KEY''"
| "environment_variable Groq = ''VOISU_GROQ_API_KEY''"

fun secret_service_value :: "provider \<Rightarrow> string" where
  "secret_service_value Deepgram = ''deepgram''"
| "secret_service_value Groq = ''groq''"

datatype provider_failure_stage = NotStarted | Streaming | Completion | ProviderDeadline | Aborted

record provider_failure =
  pf_provider :: provider
  pf_stage :: provider_failure_stage
  pf_diagnostic :: string

definition provider_failure_new :: "provider \<Rightarrow> provider_failure_stage \<Rightarrow> string \<Rightarrow> provider_failure" where
  "provider_failure_new p st d = \<lparr>pf_provider = p, pf_stage = st, pf_diagnostic = d\<rparr>"

record source_coverage_record =
  scr_provider :: provider
  raw_words :: nat
  adjusted_coverage :: nat
  repetition_discount :: nat
  safety_passed :: bool

datatype source_selection_confidence = High | Low

record source_selection_diagnostic =
  ssd_sources :: "source_coverage_record list"
  selected_provider :: "provider option"
  ssd_confidence :: "source_selection_confidence option"

record transcript_failure_evidence =
  validation_reason :: string
  fallback_reason :: "string option"
  reconciliation_requested :: bool
  recovery_attempted :: bool
  tfe_selection :: source_selection_diagnostic

section \<open>Boundary errors\<close>

datatype boundary_kind =
    Capture | EmptyRecording | TooShortRecording | SilentRecording | RecordingDeadlineKind | ProviderKind
  | Validation | DeliveryKind | SecretStorage | ProviderAuthentication | Shortcut

record boundary_error =
  kind :: boundary_kind
  diagnostic :: string
  public_override :: "string option"
  permanent_flag :: bool
  transcript_failure :: "transcript_failure_evidence option"
  provider_failures :: "provider_failure list"

definition boundary_error_new :: "boundary_kind \<Rightarrow> string \<Rightarrow> boundary_error" where
  "boundary_error_new k d = \<lparr>kind = k, diagnostic = d, public_override = None, permanent_flag = False,
     transcript_failure = None, provider_failures = []\<rparr>"

definition permanent :: "boundary_error \<Rightarrow> boundary_error" where
  "permanent e = e\<lparr>permanent_flag := True\<rparr>"

definition with_public_message :: "boundary_error \<Rightarrow> string \<Rightarrow> boundary_error" where
  "with_public_message e m = e\<lparr>public_override := Some m\<rparr>"

definition with_transcript_failure :: "boundary_error \<Rightarrow> transcript_failure_evidence \<Rightarrow> boundary_error" where
  "with_transcript_failure e v = e\<lparr>transcript_failure := Some v\<rparr>"

definition with_provider_failures :: "boundary_error \<Rightarrow> provider_failure list \<Rightarrow> boundary_error" where
  "with_provider_failures e fs = e\<lparr>provider_failures := fs\<rparr>"

fun kind_message :: "boundary_kind \<Rightarrow> string" where
  "kind_message Capture = ''Couldn't record from the microphone''"
| "kind_message EmptyRecording = ''No sound recorded; check your microphone''"
| "kind_message TooShortRecording = ''Too short to transcribe''"
| "kind_message SilentRecording = ''Didn't hear any words''"
| "kind_message RecordingDeadlineKind = ''Stopped at the time limit''"
| "kind_message ProviderKind = ''Groq or Deepgram couldn't give us text''"
| "kind_message Validation = ''Held back text that looked wrong''"
| "kind_message DeliveryKind = ''Couldn't put the text in your window''"
| "kind_message SecretStorage =
     ''Can't read your keys from the keyring; set VOISU_GROQ_API_KEY or VOISU_DEEPGRAM_API_KEY for development or headless use''"
| "kind_message ProviderAuthentication = ''Groq or Deepgram rejected your key; run voisu setup''"
| "kind_message Shortcut = ''Couldn't set up your Trigger Key''"

definition public_message :: "boundary_error \<Rightarrow> string" where
  "public_message e = (case public_override e of Some m \<Rightarrow> m | None \<Rightarrow> kind_message (kind e))"

section \<open>Captured audio\<close>

datatype capture_limit = Buffer | RecordingDeadline

record captured_audio =
  pcm :: "u8 list"
  truncated_by :: "capture_limit option"

definition captured_audio_new :: "u8 list \<Rightarrow> captured_audio" where
  "captured_audio_new bytes = \<lparr>pcm = bytes, truncated_by = None\<rparr>"

definition captured_audio_truncated :: "u8 list \<Rightarrow> capture_limit \<Rightarrow> captured_audio" where
  "captured_audio_truncated bytes limit = \<lparr>pcm = bytes, truncated_by = Some limit\<rparr>"

definition with_truncation :: "captured_audio \<Rightarrow> capture_limit \<Rightarrow> captured_audio" where
  "with_truncation a limit = a\<lparr>truncated_by := Some limit\<rparr>"

definition captured_audio_empty :: captured_audio where
  "captured_audio_empty = captured_audio_new []"

record source_transcript =
  st_provider :: provider
  st_text :: utext

section \<open>Credentials and key status\<close>

definition credential_new :: "string \<Rightarrow> boundary_error + string" where
  "credential_new v =
     (if v = [] \<or> CHR 0x0A \<in> set v \<or> CHR 0x0D \<in> set v
      then Inl (boundary_error_new SecretStorage ''credential is empty or contains a line break'')
      else Inr v)"

datatype readiness_status = Pass | Warn | Fail | Skip

fun readiness_cli_label :: "readiness_status \<Rightarrow> string" where
  "readiness_cli_label Pass = ''PASS''"
| "readiness_cli_label Warn = ''WARN''"
| "readiness_cli_label Fail = ''FAIL''"
| "readiness_cli_label Skip = ''OFF''"

datatype key_location = Keyring | PlaintextFile | EnvOverride

datatype key_diagnosis =
    Found key_location string
  | EnvOverrideInvalid | Absent | Locked | Unavailable | ToolMissing

definition diagnosis_location :: "key_diagnosis \<Rightarrow> key_location option" where
  "diagnosis_location d = (case d of Found loc _ \<Rightarrow> Some loc | _ \<Rightarrow> None)"

definition is_configured :: "key_diagnosis \<Rightarrow> bool" where
  "is_configured d = (case d of Found _ _ \<Rightarrow> True | _ \<Rightarrow> False)"

text \<open>The default \<open>SecretStore::diagnose\<close>, over the store's \<open>load\<close>.\<close>

definition default_diagnose :: "('s \<Rightarrow> provider \<Rightarrow> (boundary_error + string) \<times> 's) \<Rightarrow> 's \<Rightarrow> provider \<Rightarrow> key_diagnosis \<times> 's" where
  "default_diagnose load s p =
     (case load s p of (Inr c, s') \<Rightarrow> (Found Keyring c, s') | (Inl _, s') \<Rightarrow> (Absent, s'))"

datatype provider_key_status = Valid | InvalidKey | RateLimited | QuotaExhausted | Unreachable

definition classify :: "nat \<Rightarrow> bool \<Rightarrow> provider_key_status" where
  "classify http_status retry_after =
     (if 200 \<le> http_status \<and> http_status \<le> 299 then Valid
      else if http_status = 401 \<or> http_status = 403 then InvalidKey
      else if http_status = 429 \<and> retry_after then RateLimited
      else if http_status = 429 then QuotaExhausted
      else Unreachable)"

definition key_is_valid :: "provider_key_status \<Rightarrow> bool" where
  "key_is_valid s \<longleftrightarrow> s = Valid"

definition key_is_transient :: "provider_key_status \<Rightarrow> bool" where
  "key_is_transient s \<longleftrightarrow> s \<in> {RateLimited, QuotaExhausted, Unreachable}"

fun key_readiness :: "provider_key_status \<Rightarrow> readiness_status" where
  "key_readiness Valid = Pass"
| "key_readiness InvalidKey = Fail"
| "key_readiness RateLimited = Warn"
| "key_readiness QuotaExhausted = Warn"
| "key_readiness Unreachable = Warn"

section \<open>Cancellation and the Recording Deadline clock\<close>

record cancel_registry =
  cancelled :: bool

definition cancel_registry_new :: cancel_registry where
  "cancel_registry_new = \<lparr>cancelled = False\<rparr>"

definition is_cancelled :: "cancel_registry \<Rightarrow> bool" where
  "is_cancelled r = cancelled r"

definition cancel :: "cancel_registry \<Rightarrow> cancel_registry" where
  "cancel r = r\<lparr>cancelled := True\<rparr>"

record deadline_clock =
  clock_started :: instant
  clock_deadline :: duration

definition remaining :: "deadline_clock \<Rightarrow> instant \<Rightarrow> duration" where
  "remaining c now = clock_deadline c - saturating_duration_since now (clock_started c)"

definition duration_millis :: "duration \<Rightarrow> nat" where
  "duration_millis d = min (d div 1000000) u64_max"

section \<open>Lemmas\<close>

lemma provider_order [simp]: "Deepgram \<le> p" "p \<le> Groq" "Deepgram < Groq" "\<not> Groq \<le> Deepgram"
  by (simp_all add: less_eq_provider_def less_provider_def)

lemma boundary_error_new_sel [simp]:
  "kind (boundary_error_new k d) = k" "diagnostic (boundary_error_new k d) = d"
  "provider_failures (boundary_error_new k d) = []"
  by (simp_all add: boundary_error_new_def)

lemma with_provider_failures_sel [simp]:
  "kind (with_provider_failures e fs) = kind e" "diagnostic (with_provider_failures e fs) = diagnostic e"
  "provider_failures (with_provider_failures e fs) = fs"
  by (simp_all add: with_provider_failures_def)

lemma pf_new_sel [simp]:
  "pf_provider (provider_failure_new p st d) = p" "pf_stage (provider_failure_new p st d) = st"
  "pf_diagnostic (provider_failure_new p st d) = d"
  by (simp_all add: provider_failure_new_def)

section \<open>Properties\<close>

text \<open>
  Key status: for every HTTP status, exactly the 2xx ones pass, exactly 401 and 403 are a
  hard failure, everything else is a transient warning, and the three verdicts \<open>is_valid\<close>,
  \<open>is_transient\<close> and \<open>readiness\<close> agree on it.
\<close>
theorem key_status_verdicts:
  "(key_readiness (classify h r) = Pass \<longleftrightarrow> h div 100 = 2)
   \<and> (key_readiness (classify h r) = Fail \<longleftrightarrow> h \<in> {401, 403})
   \<and> (key_is_transient (classify h r) \<longleftrightarrow> key_readiness (classify h r) = Warn)
   \<and> (key_is_valid (classify h r) \<longleftrightarrow> key_readiness (classify h r) = Pass)"
proof -
  have "h div 100 = 2 \<longleftrightarrow> 200 \<le> h \<and> h \<le> 299" by linarith
  then show ?thesis by (auto simp: classify_def key_is_transient_def key_is_valid_def)
qed

end
