(* ===== verification/Providers.thy ===== *)
theory Providers
  imports Boundary "HOL-Library.Multiset"
begin

text \<open>
  The provider coordinator, \<open>ProviderCoordinator\<close> of \<open>crates/voisu-core/src/lib.rs\<close>: both providers
  are streamed, completed within the Provider Deadline, and the ones that missed it aborted.

  A provider stream is a parameter (its futures are the cloud clients'): when each future resolves,
  counted from the moment it is first polled, and with what; \<open>None\<close> is a future that never resolves.
  The biased \<open>select!\<close> loop is modelled turn by turn, earliest future first and ties in the order the
  source lists the branches. The reference it is shown equal to says, provider by provider, what
  each one contributed.
\<close>

section \<open>Streams\<close>

type_synonym 'a future = "(duration \<times> 'a) option"

record 'c provider_stream =
  complete :: "captured_audio \<Rightarrow> (boundary_error + source_transcript) future"
  stream_abort :: "(boundary_error + unit) future"
  word_confidences :: "bool \<Rightarrow> (utext \<times> 'c) list"

record 'c provider_coordinator =
  deadline :: duration
  abort_deadline :: duration
  deepgram :: "'c provider_stream"
  groq :: "'c provider_stream"

record provider_timing =
  pt_provider :: provider
  completed_ms :: nat

record 'c provider_word_confidences =
  pwc_provider :: provider
  pwc_words :: "(utext \<times> 'c) list"

record 'c provider_completion =
  sources :: "source_transcript list"
  timings_ms :: "provider_timing list"
  pc_failures :: "provider_failure list"
  pc_confidences :: "'c provider_word_confidences list"

definition coordinator_start :: "duration \<Rightarrow> duration \<Rightarrow> 'c provider_stream \<Rightarrow> 'c provider_stream \<Rightarrow> 'c provider_coordinator" where
  "coordinator_start d a dg gq = \<lparr>deadline = d, abort_deadline = a, deepgram = dg, groq = gq\<rparr>"

section \<open>Streaming\<close>

text \<open>\<open>stream_audio\<close> on the results of the two sends.\<close>

primrec stream_failures :: "(provider \<times> (boundary_error + unit)) list \<Rightarrow> provider_failure list" where
  "stream_failures [] = []"
| "stream_failures (r # rs) =
     (case r of (p, Inl e) \<Rightarrow> provider_failure_new p Streaming (diagnostic e) # stream_failures rs
      | (_, Inr _) \<Rightarrow> stream_failures rs)"

primrec first_error :: "(provider \<times> (boundary_error + unit)) list \<Rightarrow> boundary_error option" where
  "first_error [] = None"
| "first_error (r # rs) = (case snd r of Inl e \<Rightarrow> Some e | Inr _ \<Rightarrow> first_error rs)"

definition stream_audio :: "boundary_error + unit \<Rightarrow> boundary_error + unit \<Rightarrow> boundary_error + unit" where
  "stream_audio dg gq =
     (let results = [(Deepgram, dg), (Groq, gq)]
      in case first_error results of
           Some e \<Rightarrow> Inl (with_provider_failures e (stream_failures results))
         | None \<Rightarrow> Inr ())"

section \<open>Joining and bounding futures\<close>

text \<open>\<open>join!\<close> of two aborts, then \<open>deepgram?; groq\<close>.\<close>

definition join_abort :: "(boundary_error + unit) future \<Rightarrow> (boundary_error + unit) future \<Rightarrow> (boundary_error + unit) future" where
  "join_abort dg gq =
     (case (dg, gq) of
        (Some (t, x), Some (u, y)) \<Rightarrow> Some (max t u, case x of Inl e \<Rightarrow> Inl e | Inr _ \<Rightarrow> y)
      | _ \<Rightarrow> None)"

text \<open>\<open>tokio::time::timeout\<close>: how long it took, and the value unless the bound elapsed first.\<close>

definition bounded :: "duration \<Rightarrow> 'a future \<Rightarrow> duration \<times> 'a option" where
  "bounded d f = (case f of Some (t, x) \<Rightarrow> (if t \<le> d then (t, Some x) else (d, None)) | None \<Rightarrow> (d, None))"

definition coordinator_abort :: "'c provider_coordinator \<Rightarrow> duration \<times> (boundary_error + unit)" where
  "coordinator_abort c =
     (case bounded (deadline c) (join_abort (stream_abort (deepgram c)) (stream_abort (groq c))) of
        (t, Some r) \<Rightarrow> (t, r)
      | (t, None) \<Rightarrow> (t, Inl (boundary_error_new ProviderKind ''provider abort deadline elapsed'')))"

section \<open>Completion\<close>

record completing =
  deepgram_done :: bool
  groq_done :: bool
  deadline_elapsed :: bool
  transcripts :: "source_transcript list"
  timings :: "provider_timing list"
  failures :: "provider_failure list"

definition completing_init :: completing where
  "completing_init = \<lparr>deepgram_done = False, groq_done = False, deadline_elapsed = False,
     transcripts = [], timings = [], failures = []\<rparr>"

definition note_result :: "provider \<Rightarrow> duration \<Rightarrow> boundary_error + source_transcript \<Rightarrow> completing \<Rightarrow> completing" where
  "note_result p t r s =
     (case r of
        Inr src \<Rightarrow> s\<lparr>timings := timings s @ [\<lparr>pt_provider = st_provider src, completed_ms = duration_millis t\<rparr>],
                    transcripts := transcripts s @ [src]\<rparr>
      | Inl e \<Rightarrow> s\<lparr>failures := failures s @ [provider_failure_new p Completion (diagnostic e)]\<rparr>)"

text \<open>The branch the biased \<open>select!\<close> takes next.\<close>

datatype 'a branch = DeepgramReady duration 'a | GroqReady duration 'a | DeadlineReady

definition select_next :: "duration \<Rightarrow> 'a future \<Rightarrow> 'a future \<Rightarrow> 'a branch" where
  "select_next d dg gq =
     (case (dg, gq) of
        (Some (t, x), Some (u, y)) \<Rightarrow>
          (if t \<le> u \<and> t \<le> d then DeepgramReady t x else if u \<le> d then GroqReady u y else DeadlineReady)
      | (Some (t, x), None) \<Rightarrow> (if t \<le> d then DeepgramReady t x else DeadlineReady)
      | (None, Some (u, y)) \<Rightarrow> (if u \<le> d then GroqReady u y else DeadlineReady)
      | (None, None) \<Rightarrow> DeadlineReady)"

definition pending :: "completing \<Rightarrow> nat" where
  "pending s = (if deepgram_done s then 0 else 1) + (if groq_done s then 0 else 1)"

lemma note_result_done [simp]:
  "deepgram_done (note_result p t r s) = deepgram_done s" "groq_done (note_result p t r s) = groq_done s"
  "deadline_elapsed (note_result p t r s) = deadline_elapsed s"
  by (simp_all add: note_result_def split: sum.splits)

lemma select_next_pending:
  "select_next d dg gq = DeepgramReady t r \<Longrightarrow> dg \<noteq> None"
  "select_next d dg gq = GroqReady t r \<Longrightarrow> gq \<noteq> None"
  by (auto simp: select_next_def split: option.splits prod.splits if_splits)

function select_loop ::
  "duration \<Rightarrow> (boundary_error + source_transcript) future \<Rightarrow> (boundary_error + source_transcript) future
    \<Rightarrow> completing \<Rightarrow> completing" where
  "select_loop d dg gq s =
     (if deepgram_done s \<and> groq_done s then s
      else case select_next d (if deepgram_done s then None else dg) (if groq_done s then None else gq) of
        DeepgramReady t r \<Rightarrow> select_loop d dg gq (note_result Deepgram t r (s\<lparr>deepgram_done := True\<rparr>))
      | GroqReady t r \<Rightarrow> select_loop d dg gq (note_result Groq t r (s\<lparr>groq_done := True\<rparr>))
      | DeadlineReady \<Rightarrow> s\<lparr>deadline_elapsed := True\<rparr>)"
  by pat_completeness auto

termination
proof (relation "measure (\<lambda>(d, dg, gq, s). pending s)")
qed (auto simp: pending_def dest: select_next_pending split: if_splits)

declare select_loop.simps [simp del]

definition missed :: "provider \<Rightarrow> provider_failure" where
  "missed p = provider_failure_new p ProviderDeadline ''Provider Deadline elapsed before completion''"

text \<open>The deadline path: what did not complete is recorded, then aborted within the abort deadline.\<close>

definition abort_unless :: "bool \<Rightarrow> 'c provider_stream \<Rightarrow> (boundary_error + unit) future" where
  "abort_unless fin st = (if fin then Some (0, Inr ()) else stream_abort st)"

definition cleanup_error :: "'c provider_coordinator \<Rightarrow> completing \<Rightarrow> boundary_error option" where
  "cleanup_error c s =
     (if deadline_elapsed s
      then case snd (bounded (abort_deadline c)
                       (join_abort (abort_unless (deepgram_done s) (deepgram c)) (abort_unless (groq_done s) (groq c)))) of
             Some (Inl e) \<Rightarrow> Some e
           | Some (Inr _) \<Rightarrow> None
           | None \<Rightarrow> Some (boundary_error_new ProviderKind ''provider deadline cleanup timed out'')
      else None)"

definition deadline_failures :: "completing \<Rightarrow> provider_failure list" where
  "deadline_failures s =
     (if deadline_elapsed s
      then (if deepgram_done s then [] else [missed Deepgram]) @ (if groq_done s then [] else [missed Groq])
      else [])"

definition annotate :: "boundary_error \<Rightarrow> provider_failure \<Rightarrow> provider_failure" where
  "annotate e f =
     (if pf_stage f = ProviderDeadline
      then f\<lparr>pf_diagnostic := pf_diagnostic f @ ''; cleanup failed: '' @ diagnostic e\<rparr> else f)"

definition confidence_entry :: "provider \<Rightarrow> (utext \<times> 'c) list \<Rightarrow> 'c provider_word_confidences list" where
  "confidence_entry p ws = (if ws = [] then [] else [\<lparr>pwc_provider = p, pwc_words = ws\<rparr>])"

definition complete_with_timings :: "'c provider_coordinator \<Rightarrow> captured_audio \<Rightarrow> boundary_error + 'c provider_completion" where
  "complete_with_timings c audio =
     (let s = select_loop (deadline c) (complete (deepgram c) audio) (complete (groq c) audio) completing_init;
          dg_words = word_confidences (deepgram c) (deepgram_done s);
          gq_words = word_confidences (groq c) (groq_done s);
          cleanup = cleanup_error c s;
          ts = sort_key st_provider (transcripts s);
          tm = sort_key pt_provider (timings s);
          fs = sort_key pf_provider (failures s @ deadline_failures s)
      in if ts = []
         then Inl (with_provider_failures
                (case cleanup of
                   Some e \<Rightarrow> e
                 | None \<Rightarrow> boundary_error_new ProviderKind
                     (if fs = [] then ''Provider Deadline elapsed'' else join_with ''; '' (map pf_diagnostic fs))) fs)
         else Inr \<lparr>sources = ts, timings_ms = tm,
                   pc_failures = (case cleanup of Some e \<Rightarrow> map (annotate e) fs | None \<Rightarrow> fs),
                   pc_confidences = confidence_entry Deepgram dg_words @ confidence_entry Groq gq_words\<rparr>)"

definition coordinator_complete :: "'c provider_coordinator \<Rightarrow> captured_audio \<Rightarrow> boundary_error + source_transcript list" where
  "coordinator_complete c audio =
     (case complete_with_timings c audio of Inl e \<Rightarrow> Inl e | Inr r \<Rightarrow> Inr (sources r))"

section \<open>The reference: what became of each provider\<close>

datatype fate = Contributed duration source_transcript | Broke string | Missed

definition fate_of :: "duration \<Rightarrow> (boundary_error + source_transcript) future \<Rightarrow> fate" where
  "fate_of d f =
     (case f of
        Some (t, r) \<Rightarrow>
          (if t \<le> d then (case r of Inr src \<Rightarrow> Contributed t src | Inl e \<Rightarrow> Broke (diagnostic e)) else Missed)
      | None \<Rightarrow> Missed)"

definition fate_sources :: "fate \<Rightarrow> source_transcript list" where
  "fate_sources x = (case x of Contributed _ src \<Rightarrow> [src] | _ \<Rightarrow> [])"

definition fate_failures :: "provider \<Rightarrow> fate \<Rightarrow> provider_failure list" where
  "fate_failures p x =
     (case x of Contributed _ _ \<Rightarrow> [] | Broke why \<Rightarrow> [provider_failure_new p Completion why] | Missed \<Rightarrow> [missed p])"

text \<open>Each stream labels its own Source Transcript, as both cloud clients do.\<close>

definition labelled :: "provider \<Rightarrow> (boundary_error + source_transcript) future \<Rightarrow> bool" where
  "labelled p f = (case f of Some (_, Inr src) \<Rightarrow> st_provider src = p | _ \<Rightarrow> True)"

lemma sort_pair:
  "sort_key f [a, b] = (if f a \<le> f b then [a, b] else [b, a])"
  "sort_key f [a] = [a]"
  by simp_all

lemma select_loop_end:
  "deepgram_done s \<Longrightarrow> groq_done s \<Longrightarrow> select_loop d dg gq s = s"
  by (simp add: select_loop.simps)

lemma missed_provider [simp]: "pf_provider (missed p) = p"
  by (simp add: missed_def)

lemma completing_init_sel [simp]:
  "\<not> deepgram_done completing_init" "\<not> groq_done completing_init" "\<not> deadline_elapsed completing_init"
  "transcripts completing_init = []" "timings completing_init = []" "failures completing_init = []"
  by (simp_all add: completing_init_def)

text \<open>The loop runs at most twice: one provider, then the other, or the deadline.\<close>

definition finish_groq where
  "finish_groq d gq s = (case gq of
     Some (u, y) \<Rightarrow> (if u \<le> d then note_result Groq u y (s\<lparr>groq_done := True\<rparr>) else s\<lparr>deadline_elapsed := True\<rparr>)
   | None \<Rightarrow> s\<lparr>deadline_elapsed := True\<rparr>)"

definition finish_deepgram where
  "finish_deepgram d dg s = (case dg of
     Some (t, x) \<Rightarrow> (if t \<le> d then note_result Deepgram t x (s\<lparr>deepgram_done := True\<rparr>) else s\<lparr>deadline_elapsed := True\<rparr>)
   | None \<Rightarrow> s\<lparr>deadline_elapsed := True\<rparr>)"

lemma select_loop_groq: "deepgram_done s \<Longrightarrow> \<not> groq_done s \<Longrightarrow> select_loop d dg gq s = finish_groq d gq s"
  by (subst select_loop.simps) (auto simp: finish_groq_def select_next_def select_loop_end split: option.splits)

lemma select_loop_deepgram: "groq_done s \<Longrightarrow> \<not> deepgram_done s \<Longrightarrow> select_loop d dg gq s = finish_deepgram d dg s"
  by (subst select_loop.simps) (auto simp: finish_deepgram_def select_next_def select_loop_end split: option.splits)

lemma select_loop_init:
  "select_loop d dg gq completing_init =
    (case select_next d dg gq of
       DeepgramReady t r \<Rightarrow> finish_groq d gq (note_result Deepgram t r (completing_init\<lparr>deepgram_done := True\<rparr>))
     | GroqReady t r \<Rightarrow> finish_deepgram d dg (note_result Groq t r (completing_init\<lparr>groq_done := True\<rparr>))
     | DeadlineReady \<Rightarrow> completing_init\<lparr>deadline_elapsed := True\<rparr>)"
  by (subst select_loop.simps) (auto simp: select_loop_groq select_loop_deepgram split: branch.splits)

lemmas select_defs = select_loop_init select_next_def finish_groq_def finish_deepgram_def fate_of_def

lemma select_loop_done:
  "deepgram_done (select_loop d dg gq completing_init) \<longleftrightarrow> fate_of d dg \<noteq> Missed"
  "groq_done (select_loop d dg gq completing_init) \<longleftrightarrow> fate_of d gq \<noteq> Missed"
  "deadline_elapsed (select_loop d dg gq completing_init) \<longleftrightarrow> fate_of d dg = Missed \<or> fate_of d gq = Missed"
  by (auto simp: select_defs split: option.splits prod.splits sum.splits)

lemma note_result_sel:
  "transcripts (note_result p t r s) = transcripts s @ (case r of Inr src \<Rightarrow> [src] | Inl _ \<Rightarrow> [])"
  "failures (note_result p t r s) =
     failures s @ (case r of Inr _ \<Rightarrow> [] | Inl e \<Rightarrow> [provider_failure_new p Completion (diagnostic e)])"
  by (simp_all add: note_result_def split: sum.splits)

lemma select_loop_sources:
  assumes "labelled Deepgram dg" "labelled Groq gq"
  shows "sort_key st_provider (transcripts (select_loop d dg gq completing_init)) =
    fate_sources (fate_of d dg) @ fate_sources (fate_of d gq)"
  using assms
  by (auto simp: select_defs note_result_sel fate_sources_def labelled_def
      split: option.splits prod.splits sum.splits)

lemma select_loop_failures:
  "sort_key pf_provider (failures (select_loop d dg gq completing_init)
     @ deadline_failures (select_loop d dg gq completing_init)) =
   fate_failures Deepgram (fate_of d dg) @ fate_failures Groq (fate_of d gq)"
  unfolding deadline_failures_def select_loop_done
  by (auto simp: select_defs note_result_sel fate_failures_def split: option.splits prod.splits sum.splits)

lemma annotate_sel [simp]: "pf_provider (annotate e f) = pf_provider f" "pf_stage (annotate e f) = pf_stage f"
  by (simp_all add: annotate_def)

lemma fate_cases_account:
  "labelled p f \<Longrightarrow>
   map st_provider (fate_sources (fate_of d f)) @ map pf_provider (fate_failures p (fate_of d f)) = [p]"
  by (auto simp: fate_of_def fate_sources_def fate_failures_def labelled_def split: option.splits sum.splits)

section \<open>Properties\<close>

text \<open>
  Claim C21. Completion accounts for every provider. Whatever the timing, the Source Transcripts are
  exactly those whose provider completed successfully by the Provider Deadline, in provider order;
  each provider either contributes one or leaves one failure record; completion succeeds as soon as
  one provider contributed, however the abort of the other goes; and when none did, the error
  carries both failure records.
\<close>
theorem completion_accounts_for_providers:
  fixes c :: "'c provider_coordinator"
  defines "dg \<equiv> \<lambda>a. fate_of (deadline c) (complete (deepgram c) a)"
    and "gq \<equiv> \<lambda>a. fate_of (deadline c) (complete (groq c) a)"
  assumes "labelled Deepgram (complete (deepgram c) audio)" "labelled Groq (complete (groq c) audio)"
  shows "case complete_with_timings c audio of
      Inr r \<Rightarrow> sources r = fate_sources (dg audio) @ fate_sources (gq audio) \<and> sources r \<noteq> []
        \<and> map pf_provider (pc_failures r) =
            map pf_provider (fate_failures Deepgram (dg audio) @ fate_failures Groq (gq audio))
        \<and> mset (map st_provider (sources r) @ map pf_provider (pc_failures r)) = {#Deepgram, Groq#}
    | Inl e \<Rightarrow> fate_sources (dg audio) = [] \<and> fate_sources (gq audio) = []
        \<and> provider_failures e = fate_failures Deepgram (dg audio) @ fate_failures Groq (gq audio)
        \<and> map pf_provider (provider_failures e) = [Deepgram, Groq]"
proof -
  define s where
    "s = select_loop (deadline c) (complete (deepgram c) audio) (complete (groq c) audio) completing_init"
  have ts: "sort_key st_provider (transcripts s) = fate_sources (dg audio) @ fate_sources (gq audio)"
    unfolding s_def dg_def gq_def by (rule select_loop_sources [OF assms(3,4)])
  have fs: "sort_key pf_provider (failures s @ deadline_failures s) =
      fate_failures Deepgram (dg audio) @ fate_failures Groq (gq audio)"
    unfolding s_def dg_def gq_def by (rule select_loop_failures)
  have d: "map st_provider (fate_sources (dg audio)) @ map pf_provider (fate_failures Deepgram (dg audio)) = [Deepgram]"
    and g: "map st_provider (fate_sources (gq audio)) @ map pf_provider (fate_failures Groq (gq audio)) = [Groq]"
    unfolding dg_def gq_def using assms(3,4) by (simp_all add: fate_cases_account)
  have all: "mset (map st_provider (fate_sources (dg audio) @ fate_sources (gq audio))
      @ map pf_provider (fate_failures Deepgram (dg audio) @ fate_failures Groq (gq audio))) = {#Deepgram, Groq#}"
    using arg_cong [OF d, of mset] arg_cong [OF g, of mset]
    by (simp add: ac_simps) (metis add_mset_add_single union_assoc union_commute)
  show ?thesis
  proof (cases "fate_sources (dg audio) @ fate_sources (gq audio) = []")
    case True
    then show ?thesis
      using d g unfolding complete_with_timings_def Let_def s_def [symmetric] ts fs by simp
  next
    case False
    then have "complete_with_timings c audio = Inr \<lparr>sources = fate_sources (dg audio) @ fate_sources (gq audio),
        timings_ms = sort_key pt_provider (timings s),
        pc_failures = (case cleanup_error c s of Some e \<Rightarrow> map (annotate e) | None \<Rightarrow> id)
            (fate_failures Deepgram (dg audio) @ fate_failures Groq (gq audio)),
        pc_confidences = confidence_entry Deepgram (word_confidences (deepgram c) (deepgram_done s))
            @ confidence_entry Groq (word_confidences (groq c) (groq_done s))\<rparr>"
      unfolding complete_with_timings_def Let_def s_def [symmetric] ts fs by (auto split: option.splits)
    then show ?thesis using False all by (auto simp: comp_def multiset.map_comp split: option.splits)
  qed
qed

definition quick_deepgram :: "nat provider_stream" where
  "quick_deepgram = \<lparr>complete = (\<lambda>_. Some (5, Inr \<lparr>st_provider = Deepgram, st_text = lit ''hi''\<rparr>)),
     stream_abort = None, word_confidences = (\<lambda>_. [(lit ''hi'', 9)])\<rparr>"

definition stuck_groq :: "nat provider_stream" where
  "stuck_groq = \<lparr>complete = (\<lambda>_. None), stream_abort = None, word_confidences = (\<lambda>_. [])\<rparr>"

theorem completion_accounts_for_providers_witness:
  "case complete_with_timings (coordinator_start 15 2 quick_deepgram stuck_groq) captured_audio_empty of
     Inr r \<Rightarrow> sources r = [\<lparr>st_provider = Deepgram, st_text = lit ''hi''\<rparr>] \<and> map pf_provider (pc_failures r) = [Groq]
   | Inl e \<Rightarrow> False"
  using completion_accounts_for_providers
      [of "coordinator_start 15 2 quick_deepgram stuck_groq" captured_audio_empty]
  by (simp add: coordinator_start_def quick_deepgram_def stuck_groq_def labelled_def fate_of_def
      fate_sources_def fate_failures_def missed_def split: sum.splits)

text \<open>
  A streaming failure is attributed: a chunk that reached both providers is a success,
  otherwise the error carries one Streaming record per provider that failed and no other, with its
  own diagnostic, in provider order, under the kind of the first failure.
\<close>
theorem stream_failure_attributed:
  "case stream_audio dg gq of
     Inr _ \<Rightarrow> \<not> isl dg \<and> \<not> isl gq
   | Inl e \<Rightarrow> provider_failures e =
        (case dg of Inl x \<Rightarrow> [provider_failure_new Deepgram Streaming (diagnostic x)] | Inr _ \<Rightarrow> [])
        @ (case gq of Inl x \<Rightarrow> [provider_failure_new Groq Streaming (diagnostic x)] | Inr _ \<Rightarrow> [])
      \<and> provider_failures e \<noteq> []
      \<and> kind e = (case dg of Inl x \<Rightarrow> kind x | Inr _ \<Rightarrow> (case gq of Inl x \<Rightarrow> kind x | Inr _ \<Rightarrow> kind e))"
  by (auto simp: stream_audio_def Let_def split: sum.splits)

text \<open>
  The abort of a coordinator waits up to the Provider Deadline; the abort deadline it was started
  with plays no part in it.
\<close>
theorem abort_ignores_abort_deadline:
  "coordinator_abort (coordinator_start d a dg gq) = coordinator_abort (coordinator_start d a' dg gq)
   \<and> fst (coordinator_abort (coordinator_start d a quick_deepgram stuck_groq)) = d"
  by (simp add: coordinator_abort_def coordinator_start_def join_abort_def bounded_def quick_deepgram_def
      stuck_groq_def)

end
