(* ===== verification/Paste_Delivery.thy ===== *)
theory Paste_Delivery
  imports Voisu_Prelude
begin

text \<open>
  Windows Delivery, \<open>apps/windows/src-tauri/src/platform/delivery.rs\<close>: the paste decisions, and the
  control flow of \<open>native::deliver\<close>, \<open>paste\<close>, \<open>watch\<close> and \<open>send_chord\<close> around the Win32 calls. What
  Windows answers (the probe, the foreground window, how many injected events \<open>SendInput\<close> accepted,
  what each poll of the message pump saw) is the environment, a record of the delivery.

  Text is a list of Unicode scalar values here, because the clipboard payload is UTF-16.
\<close>

unbundle bit_operations_syntax

section \<open>Outcomes and errors\<close>

definition QUIET_AFTER_READ :: duration where "QUIET_AFTER_READ = from_millis 200"
definition NO_READ_TIMEOUT :: duration where "NO_READ_TIMEOUT = from_millis 1500"
definition NOT_CONFIRMED_GRACE :: duration where "NOT_CONFIRMED_GRACE = from_secs 5"

datatype delivery_outcome =
  Pasted | NotConfirmed | ClipboardTaken | ElevatedTarget | TargetGone | OwnWindow | FocusLost

fun outcome_notice :: "delivery_outcome \<Rightarrow> string option" where
  "outcome_notice Pasted = None"
| "outcome_notice NotConfirmed = None"
| "outcome_notice ClipboardTaken = Some ''Another app replaced the clipboard; nothing pasted''"
| "outcome_notice ElevatedTarget = Some ''Can't type into an admin window''"
| "outcome_notice TargetGone = Some ''The window you were typing in closed''"
| "outcome_notice OwnWindow = Some ''Click into another app first''"
| "outcome_notice FocusLost = Some ''Couldn't return to your window''"

datatype delivery_error = ClipboardBusy | Clipboard string | Input | Unsupported

fun delivery_error_text :: "delivery_error \<Rightarrow> string" where
  "delivery_error_text ClipboardBusy = ''Another app is holding the clipboard''"
| "delivery_error_text (Clipboard what) = ''Clipboard error: '' @ what"
| "delivery_error_text Input = ''Windows blocked the paste keystroke''"
| "delivery_error_text Unsupported = ''Pasting works on Windows only''"

definition notice :: "delivery_error + delivery_outcome \<Rightarrow> string option" where
  "notice r =
     (case r of
        Inr NotConfirmed \<Rightarrow> None
      | Inr outcome \<Rightarrow> outcome_notice outcome
      | Inl e \<Rightarrow> Some (delivery_error_text e))"

section \<open>The paste chord\<close>

definition VK_SHIFT :: u16 where "VK_SHIFT = 0x10"
definition VK_CONTROL :: u16 where "VK_CONTROL = 0x11"
definition VK_INSERT :: u16 where "VK_INSERT = 0x2D"
definition VK_V :: u16 where "VK_V = 0x56"
definition VK_LWIN :: u16 where "VK_LWIN = 0x5B"
definition VK_RWIN :: u16 where "VK_RWIN = 0x5C"
definition VK_LSHIFT :: u16 where "VK_LSHIFT = 0xA0"
definition VK_RSHIFT :: u16 where "VK_RSHIFT = 0xA1"
definition VK_LCONTROL :: u16 where "VK_LCONTROL = 0xA2"
definition VK_RCONTROL :: u16 where "VK_RCONTROL = 0xA3"
definition VK_LMENU :: u16 where "VK_LMENU = 0xA4"
definition VK_RMENU :: u16 where "VK_RMENU = 0xA5"
definition VK_MASK :: u16 where "VK_MASK = 0xE8"

definition MODIFIERS :: "u16 list" where
  "MODIFIERS = [VK_LSHIFT, VK_RSHIFT, VK_LCONTROL, VK_RCONTROL, VK_LMENU, VK_RMENU, VK_LWIN, VK_RWIN]"

lemmas VK_defs = VK_SHIFT_def VK_CONTROL_def VK_INSERT_def VK_V_def VK_LWIN_def VK_RWIN_def VK_LSHIFT_def
  VK_RSHIFT_def VK_LCONTROL_def VK_RCONTROL_def VK_LMENU_def VK_RMENU_def VK_MASK_def

datatype paste_chord = CtrlV | CtrlShiftV | ShiftInsert

record paste_key =
  vk :: u16
  up :: bool

definition key_down :: "u16 \<Rightarrow> paste_key" where "key_down v = \<lparr>vk = v, up = False\<rparr>"
definition key_up :: "u16 \<Rightarrow> paste_key" where "key_up v = \<lparr>vk = v, up = True\<rparr>"

definition extended :: "paste_key \<Rightarrow> bool" where
  "extended k \<longleftrightarrow> vk k \<in> {VK_INSERT, VK_RCONTROL, VK_RMENU, VK_LWIN, VK_RWIN}"

text \<open>\<open>rsplit(['\\', '/']).next()\<close>: what follows the last separator.\<close>

definition exe_name :: "string \<Rightarrow> string" where
  "exe_name path = to_ascii_lowercase (rev (takeWhile (\<lambda>c. c \<noteq> CHR 0x5C \<and> c \<noteq> CHR ''/'') (rev path)))"

definition paste_chord_for :: "string \<Rightarrow> string \<Rightarrow> paste_chord" where
  "paste_chord_for class_name exe_path =
     (if class_name = ''CASCADIA_HOSTING_WINDOW_CLASS'' then CtrlShiftV
      else if class_name \<in> {''ConsoleWindowClass'', ''PuTTY'', ''mintty'', ''VirtualConsoleClass''} then ShiftInsert
      else let exe = exe_name exe_path
           in if exe \<in> {''windowsterminal.exe'', ''alacritty.exe'', ''wezterm-gui.exe''} then CtrlShiftV
              else if exe \<in> {''putty.exe'', ''mintty.exe'', ''conemu64.exe'', ''conemu.exe''} then ShiftInsert
              else CtrlV)"

definition release_held :: "u16 list \<Rightarrow> paste_key list" where
  "release_held held =
     (if \<exists>v\<in>set held. v \<in> {VK_LWIN, VK_RWIN, VK_LMENU, VK_RMENU} then [key_down VK_MASK, key_up VK_MASK] else [])
     @ map key_up held"

fun chord_keys :: "paste_chord \<Rightarrow> u16 list \<times> u16" where
  "chord_keys CtrlV = ([VK_CONTROL], VK_V)"
| "chord_keys CtrlShiftV = ([VK_CONTROL, VK_SHIFT], VK_V)"
| "chord_keys ShiftInsert = ([VK_SHIFT], VK_INSERT)"

definition chord_phases :: "paste_chord \<Rightarrow> paste_key list \<times> paste_key list \<times> paste_key list" where
  "chord_phases c =
     (let (modifiers, key) = chord_keys c
      in (map key_down modifiers, [key_down key, key_up key], map key_up (rev modifiers)))"

section \<open>The clipboard payload\<close>

type_synonym scalar = nat

text \<open>After a carriage return, a line feed that follows is consumed with it.\<close>

definition skip_lf :: "scalar list \<Rightarrow> scalar list" where
  "skip_lf cs = (case cs of d # ds \<Rightarrow> (if d = 0x0A then ds else cs) | [] \<Rightarrow> [])"

lemma skip_lf_length: "length (skip_lf cs) \<le> length cs"
  by (cases cs) (simp_all add: skip_lf_def)

lemma skip_lf_set: "set (skip_lf cs) \<subseteq> set cs"
  by (cases cs) (auto simp: skip_lf_def)

function normalise_lines :: "scalar list \<Rightarrow> scalar list" where
  "normalise_lines [] = []"
| "normalise_lines (c # cs) =
     (if c = 0 then normalise_lines cs
      else if c = 0x0D then [0x0D, 0x0A] @ normalise_lines (skip_lf cs)
      else if c = 0x0A then [0x0D, 0x0A] @ normalise_lines cs
      else c # normalise_lines cs)"
  by pat_completeness auto
termination by (relation "measure length") (simp_all add: le_imp_less_Suc skip_lf_length)

definition encode_utf16_char :: "scalar \<Rightarrow> nat list" where
  "encode_utf16_char c =
     (if c < 0x10000 then [c] else [0xD800 + (c - 0x10000) div 0x400, 0xDC00 + (c - 0x10000) mod 0x400])"

definition clipboard_text :: "scalar list \<Rightarrow> u16 list" where
  "clipboard_text text = map of_nat (concat (map encode_utf16_char (normalise_lines text))) @ [0]"

definition snapshot_format :: "u32 \<Rightarrow> bool" where
  "snapshot_format f \<longleftrightarrow> \<not> (f \<in> {2, 3, 9, 0x80, 0x82, 0x83, 0x8E} \<or> (0x200 \<le> f \<and> f \<le> 0x3FF))"

definition may_restore :: "bool \<Rightarrow> u32 \<Rightarrow> u32 \<Rightarrow> bool" where
  "may_restore still_owner sequence_now sequence_ours \<longleftrightarrow> still_owner \<and> sequence_now = sequence_ours"

section \<open>Read timing\<close>

record watch =
  since_chord :: duration
  read :: "duration option"
  ownership_lost :: bool

datatype paste_verdict = Wait | Restore | Keep | Abandon bool

definition evaluate :: "watch \<Rightarrow> paste_verdict" where
  "evaluate w =
     (if ownership_lost w then Abandon (read w \<noteq> None)
      else case read w of
             Some r \<Rightarrow> (if since_chord w - r \<ge> QUIET_AFTER_READ then Restore else Wait)
           | None \<Rightarrow> (if since_chord w \<ge> NO_READ_TIMEOUT then Keep else Wait))"

definition evaluate_grace :: "watch \<Rightarrow> bool \<Rightarrow> paste_verdict" where
  "evaluate_grace w queued =
     (if ownership_lost w then Abandon (read w \<noteq> None)
      else case read w of
             Some r \<Rightarrow> (if since_chord w - r \<ge> QUIET_AFTER_READ then Restore else Wait)
           | None \<Rightarrow> (if queued \<or> since_chord w \<ge> NOT_CONFIRMED_GRACE then Restore else Wait))"

datatype reader = Anonymous | Window bool u32

fun read_by_target :: "reader \<Rightarrow> u32 list \<Rightarrow> bool" where
  "read_by_target Anonymous _ = True"
| "read_by_target (Window root_is_target pid) pids = (root_is_target \<or> pid \<in> set pids)"

section \<open>Preflight\<close>

datatype integrity = Level u32 | Denied | Unknown

record probe =
  exists :: bool
  probe_pid :: u32
  own_pid :: u32
  probe_target :: integrity
  probe_own :: integrity

definition preflight :: "probe \<Rightarrow> delivery_outcome option" where
  "preflight p =
     (if \<not> exists p then Some TargetGone
      else if probe_pid p = own_pid p then Some OwnWindow
      else if (case (probe_target p, probe_own p) of
                 (Denied, _) \<Rightarrow> True | (Level target, Level own) \<Rightarrow> target > own | _ \<Rightarrow> False)
           then Some ElevatedTarget else None)"

section \<open>The delivery\<close>

text \<open>
  One poll of \<open>watch\<close>: when it happens, what the render procedure recorded (the target's read, if
  any, and whether the clipboard was lost), and whether another delivery is queued. Times count from
  the start of the delivery, and \<open>chord_at\<close> is when the chord went out.
\<close>

record poll =
  poll_at :: instant
  poll_read :: "instant option"
  poll_lost :: bool
  poll_queued :: bool

definition watch_of :: "instant \<Rightarrow> poll \<Rightarrow> watch" where
  "watch_of chord_at p =
     \<lparr>since_chord = saturating_duration_since (poll_at p) chord_at,
      read = (case poll_read p of Some r \<Rightarrow> (if r \<ge> chord_at then Some (r - chord_at) else None) | None \<Rightarrow> None),
      ownership_lost = poll_lost p\<rparr>"

text \<open>\<open>watch\<close>: polls until the decision is not \<open>Wait\<close>; \<open>None\<close> is a loop still waiting.\<close>

primrec watch_loop :: "(poll \<Rightarrow> paste_verdict) \<Rightarrow> poll list \<Rightarrow> (paste_verdict \<times> poll list) option" where
  "watch_loop decide [] = None"
| "watch_loop decide (p # ps) = (case decide p of Wait \<Rightarrow> watch_loop decide ps | v \<Rightarrow> Some (v, ps))"

record paste_env =
  env_probe :: probe
  env_class :: string
  env_exe :: string
  env_front :: bool
  env_owner :: "delivery_error + unit"
  env_open :: "delivery_error + unit"
  env_publish :: "delivery_error + unit"
  env_still_front :: bool
  env_held :: "u16 \<Rightarrow> bool"
  env_injected :: "nat \<Rightarrow> nat"
  env_chord_at :: instant
  env_polls :: "poll list"

datatype effect =
    Injected "paste_key list" | Published | RestoreGuarded | RestoreIfOwner | DestroyOwner
  | Settled "delivery_error + delivery_outcome"

text \<open>\<open>send\<close>: \<open>SendInput\<close> injects a prefix of the keys; fewer than asked is an error.\<close>

definition send_keys :: "nat \<Rightarrow> paste_key list \<Rightarrow> effect list \<times> (delivery_error + unit)" where
  "send_keys n keys = ([Injected (take n keys)], if n \<ge> length keys then Inr () else Inl Input)"

definition and_result :: "'e + unit \<Rightarrow> 'e + unit \<Rightarrow> 'e + unit" where
  "and_result a b = (case a of Inl e \<Rightarrow> Inl e | Inr _ \<Rightarrow> b)"

text \<open>\<open>send_chord\<close>, given how many events each of its four sends injected.\<close>

definition send_chord :: "paste_env \<Rightarrow> paste_chord \<Rightarrow> effect list \<times> (delivery_error + unit)" where
  "send_chord env chord =
     (let n = env_injected env;
          held = filter (env_held env) MODIFIERS;
          (down, tap, up') = chord_phases chord
      in case send_keys (n 0) (release_held held) of
           (e0, Inl err) \<Rightarrow> (e0, Inl err)
         | (e0, Inr _) \<Rightarrow>
             (let (e1, r1) = send_keys (n 1) down;
                  (e2, tapped) = (case r1 of Inl err \<Rightarrow> ([], Inl err) | Inr _ \<Rightarrow> send_keys (n 2) tap);
                  (e3, released) = send_keys (n 3) up'
              in (e0 @ e1 @ e2 @ e3, and_result tapped released)))"

definition paste_watch :: "paste_env \<Rightarrow> (effect list \<times> (delivery_error + delivery_outcome)) option" where
  "paste_watch env =
     (case watch_loop (\<lambda>p. evaluate (watch_of (env_chord_at env) p)) (env_polls env) of
        None \<Rightarrow> None
      | Some (Restore, _) \<Rightarrow> Some ([RestoreGuarded], Inr Pasted)
      | Some (Keep, ps) \<Rightarrow>
          (case watch_loop (\<lambda>p. evaluate_grace (watch_of (env_chord_at env) p) (poll_queued p)) ps of
             None \<Rightarrow> None
           | Some (late, _) \<Rightarrow>
               Some (Settled (Inr NotConfirmed) # (if late = Restore then [RestoreGuarded] else []),
                     Inr NotConfirmed))
      | Some (Abandon pasted, _) \<Rightarrow> Some ([], Inr (if pasted then Pasted else ClipboardTaken))
      | Some (Wait, _) \<Rightarrow> None)"

definition paste :: "paste_env \<Rightarrow> paste_chord \<Rightarrow> (effect list \<times> (delivery_error + delivery_outcome)) option" where
  "paste env chord =
     (case env_open env of
        Inl e \<Rightarrow> Some ([], Inl e)
      | Inr _ \<Rightarrow>
          (case env_publish env of
             Inl e \<Rightarrow> Some ([RestoreIfOwner], Inl e)
           | Inr _ \<Rightarrow>
               (if \<not> env_still_front env then Some ([Published, RestoreGuarded], Inr FocusLost)
                else case send_chord env chord of
                       (sent, Inl e) \<Rightarrow> Some (Published # sent @ [RestoreGuarded], Inl e)
                     | (sent, Inr _) \<Rightarrow>
                         (case paste_watch env of None \<Rightarrow> None
                          | Some (es, r) \<Rightarrow> Some (Published # sent @ es, r)))))"

definition native_deliver :: "paste_env \<Rightarrow> scalar list \<Rightarrow> (effect list \<times> (delivery_error + delivery_outcome)) option" where
  "native_deliver env text =
     (case preflight (env_probe env) of
        Some outcome \<Rightarrow> Some ([], Inr outcome)
      | None \<Rightarrow>
          (if text = [] then Some ([], Inr Pasted)
           else if \<not> env_front env then Some ([], Inr FocusLost)
           else case env_owner env of
                  Inl e \<Rightarrow> Some ([], Inl e)
                | Inr _ \<Rightarrow>
                    (case paste env (paste_chord_for (env_class env) (env_exe env)) of
                       None \<Rightarrow> None
                     | Some (es, r) \<Rightarrow> Some (es @ [DestroyOwner], r))))"

definition is_settled :: "effect \<Rightarrow> bool" where
  "is_settled e = (case e of Settled _ \<Rightarrow> True | _ \<Rightarrow> False)"

text \<open>\<open>deliver\<close>: the callback is taken by the early report, and called at the end only if it is left.\<close>

definition deliver :: "paste_env \<Rightarrow> scalar list \<Rightarrow> effect list option" where
  "deliver env text =
     (case native_deliver env text of
        None \<Rightarrow> None
      | Some (es, r) \<Rightarrow> Some (if \<exists>e\<in>set es. is_settled e then es else es @ [Settled r]))"

section \<open>The payload reads back\<close>

fun crlf_ok :: "scalar list \<Rightarrow> bool" where
  "crlf_ok [] \<longleftrightarrow> True"
| "crlf_ok (c # cs) \<longleftrightarrow>
     (if c = 0x0D then (case cs of d # ds \<Rightarrow> d = 0x0A \<and> crlf_ok ds | [] \<Rightarrow> False) else c \<noteq> 0x0A \<and> crlf_ok cs)"

definition valid_scalar :: "nat \<Rightarrow> bool" where
  "valid_scalar c \<longleftrightarrow> c < 0xD800 \<or> (0xE000 \<le> c \<and> c < 0x110000)"

text \<open>UTF-16 as the target decodes it; an unpaired surrogate is refused.\<close>

fun decode_utf16 :: "nat list \<Rightarrow> scalar list option" where
  "decode_utf16 [] = Some []"
| "decode_utf16 (u # us) =
     (if u < 0xD800 \<or> 0xE000 \<le> u then map_option (Cons u) (decode_utf16 us)
      else if u < 0xDC00 then
        (case us of
           v # vs \<Rightarrow> (if 0xDC00 \<le> v \<and> v < 0xE000
                      then map_option (Cons (0x10000 + (u - 0xD800) * 0x400 + (v - 0xDC00))) (decode_utf16 vs) else None)
         | [] \<Rightarrow> None)
      else None)"

lemma decode_encode_char:
  assumes "valid_scalar c"
  shows "decode_utf16 (encode_utf16_char c @ us) = map_option (Cons c) (decode_utf16 us)"
proof (cases "c < 0x10000")
  case True
  then show ?thesis using assms by (auto simp: encode_utf16_char_def valid_scalar_def)
next
  case False
  have c: "c < 0x110000" using assms by (auto simp: valid_scalar_def)
  have "(c - 0x10000) div 0x400 < 0x400" using c by (simp add: less_mult_imp_div_less)
  moreover have "0x10000 + (c - 0x10000) div 0x400 * 0x400 + (c - 0x10000) mod 0x400 = c"
    using False by simp
  ultimately show ?thesis using False by (simp add: encode_utf16_char_def)
qed

lemma decode_encode:
  "\<forall>c\<in>set cs. valid_scalar c \<Longrightarrow> decode_utf16 (concat (map encode_utf16_char cs)) = Some cs"
  by (induction cs) (simp_all add: decode_encode_char)

lemma encode_units:
  assumes "valid_scalar c" "u \<in> set (encode_utf16_char c)"
  shows "u < 0x10000 \<and> (u = 0 \<longrightarrow> c = 0)"
proof (cases "c < 0x10000")
  case True
  then show ?thesis using assms by (simp add: encode_utf16_char_def)
next
  case False
  have "c < 0x110000" using assms by (auto simp: valid_scalar_def)
  then have "(c - 0x10000) div 0x400 < 0x400" by (simp add: less_mult_imp_div_less)
  moreover have "(c - 0x10000) mod 0x400 < 0x400" by simp
  moreover have "u = 0xD800 + (c - 0x10000) div 0x400 \<or> u = 0xDC00 + (c - 0x10000) mod 0x400"
    using assms(2) False by (simp add: encode_utf16_char_def)
  ultimately show ?thesis by linarith
qed

lemma normalise_subset: "set (normalise_lines cs) \<subseteq> set cs \<union> {0x0D, 0x0A} - {0}"
proof (induction cs rule: normalise_lines.induct)
  case (2 c cs)
  then show ?case using skip_lf_set [of cs] by (cases "c = 0"; cases "c = 0x0D"; cases "c = 0x0A") auto
qed simp

lemma normalise_crlf: "crlf_ok (normalise_lines cs)"
  by (induction cs rule: normalise_lines.induct) simp_all

lemma normalise_fixed: "crlf_ok cs \<Longrightarrow> 0 \<notin> set cs \<Longrightarrow> normalise_lines cs = cs"
proof (induction cs rule: normalise_lines.induct)
  case (2 c cs)
  show ?case
  proof (cases "c = 0x0D")
    case True
    then obtain ds where "cs = 0x0A # ds" "crlf_ok ds" using "2.prems" by (auto split: list.splits)
    then show ?thesis using 2 True by (simp add: skip_lf_def)
  next
    case False
    then show ?thesis using 2 by simp
  qed
qed simp

lemma normalise_valid: "\<forall>c\<in>set cs. valid_scalar c \<Longrightarrow> \<forall>c\<in>set (normalise_lines cs). valid_scalar c"
proof -
  have "valid_scalar 0x0D" "valid_scalar 0x0A" by (simp_all add: valid_scalar_def)
  then show "\<forall>c\<in>set cs. valid_scalar c \<Longrightarrow> \<forall>c\<in>set (normalise_lines cs). valid_scalar c"
    using normalise_subset [of cs] by auto
qed

lemma normalise_units:
  assumes "\<forall>c\<in>set cs. valid_scalar c" "u \<in> set (concat (map encode_utf16_char (normalise_lines cs)))"
  shows "u < 0x10000 \<and> u \<noteq> 0"
proof -
  obtain c where c: "c \<in> set (normalise_lines cs)" "u \<in> set (encode_utf16_char c)" using assms(2) by auto
  then have "valid_scalar c" "c \<noteq> 0" using normalise_valid [OF assms(1)] normalise_subset [of cs] by auto
  then show ?thesis using encode_units [of c u] c(2) by auto
qed

lemma unat_of_nat_u16: "u < 0x10000 \<Longrightarrow> unat (of_nat u :: u16) = u"
  by (simp add: unsigned_of_nat take_bit_nat_eq_self)

section \<open>The chord leaves no modifier down\<close>

text \<open>Whether a key Voisu pressed is still down after the injected events.\<close>

definition left_down :: "u16 \<Rightarrow> paste_key list \<Rightarrow> bool" where
  "left_down v keys = fold (\<lambda>k s. if vk k = v then \<not> up k else s) keys False"

definition injected_of :: "effect list \<Rightarrow> paste_key list" where
  "injected_of es = concat (map (\<lambda>e. case e of Injected ks \<Rightarrow> ks | _ \<Rightarrow> []) es)"

lemma injected_append [simp]: "injected_of (xs @ ys) = injected_of xs @ injected_of ys"
  by (simp add: injected_of_def)

lemma injected_send [simp]: "injected_of (fst (send_keys n ks)) = take n ks"
  by (simp add: injected_of_def send_keys_def)

lemma injected_single [simp]: "injected_of [] = []" "injected_of [DestroyOwner] = []" "injected_of [Settled r] = []"
  by (simp_all add: injected_of_def)

lemma left_down_ups: "v \<in> set vs \<Longrightarrow> \<not> left_down v (ks @ map key_up vs)"
proof (induction vs rule: rev_induct)
  case Nil
  then show ?case by simp
next
  case (snoc x xs)
  then show ?case by (cases "x = v") (auto simp: left_down_def key_up_def)
qed

lemma fold_unpressed:
  "(\<forall>k\<in>set ks. vk k = v \<longrightarrow> up k) \<Longrightarrow> fold (\<lambda>k s. if vk k = v then \<not> up k else s) ks False = False"
  by (induction ks) auto

lemma left_down_unpressed: "(\<forall>k\<in>set ks. vk k = v \<longrightarrow> up k) \<Longrightarrow> \<not> left_down v ks"
  unfolding left_down_def by (subst fold_unpressed) auto

section \<open>The watch\<close>

lemma watch_loop_returns:
  "\<exists>p\<in>set ps. decide p \<noteq> Wait \<Longrightarrow> watch_loop decide ps \<noteq> None"
  by (induction ps) (auto split: paste_verdict.splits)

lemma watch_loop_split:
  assumes "decide p \<noteq> Wait"
  shows "\<exists>v rest. watch_loop decide (xs @ p # ys) = Some (v, rest @ ys) \<and> v \<noteq> Wait"
proof (induction xs)
  case Nil
  have "watch_loop decide (p # ys) = Some (decide p, ys)"
    using assms by (auto split: paste_verdict.splits)
  then show ?case using assms by (intro exI [of _ "decide p"] exI [of _ "[]"]) simp
next
  case (Cons x xs)
  show ?case
  proof (cases "decide x = Wait")
    case True
    then show ?thesis using Cons.IH by simp
  next
    case False
    then have "watch_loop decide ((x # xs) @ p # ys) = Some (decide x, (xs @ [p]) @ ys)"
      by (auto split: paste_verdict.splits)
    then show ?thesis using False by blast
  qed
qed

lemma watch_loop_verdict: "watch_loop decide ps = Some (v, rest) \<Longrightarrow> \<exists>p\<in>set ps. decide p = v \<and> v \<noteq> Wait"
  by (induction ps) (auto split: paste_verdict.splits)

lemma evaluate_grace_not_keep: "evaluate_grace w q \<noteq> Keep"
  by (auto simp: evaluate_grace_def split: option.splits)

text \<open>A poll by which both watches have an answer: past the grace period and past any read's quiet period.\<close>

definition conclusive :: "instant \<Rightarrow> poll \<Rightarrow> bool" where
  "conclusive chord_at p \<longleftrightarrow>
     poll_at p \<ge> chord_at + NOT_CONFIRMED_GRACE
     \<and> (case poll_read p of Some r \<Rightarrow> poll_at p \<ge> r + QUIET_AFTER_READ | None \<Rightarrow> True)"

lemma conclusive_answers:
  assumes "conclusive at p"
  shows "evaluate (watch_of at p) \<noteq> Wait" "evaluate_grace (watch_of at p) q \<noteq> Wait"
  using assms
  by (auto simp: conclusive_def evaluate_def evaluate_grace_def watch_of_def NOT_CONFIRMED_GRACE_def NO_READ_TIMEOUT_def
      from_secs_def from_millis_def saturating_duration_since_def split: option.splits if_splits)

section \<open>Keys and settlements of a delivery\<close>

lemma release_held_ups: "k \<in> set (release_held held) \<Longrightarrow> vk k \<noteq> VK_MASK \<Longrightarrow> up k"
  by (auto simp: release_held_def key_down_def key_up_def split: if_splits)

lemma send_chord_injected:
  "injected_of (fst (send_chord env chord)) =
     take (env_injected env 0) (release_held (filter (env_held env) MODIFIERS))
     @ (if env_injected env 0 < length (release_held (filter (env_held env) MODIFIERS)) then []
        else take (env_injected env 1) (map key_down (fst (chord_keys chord)))
          @ (if env_injected env 1 < length (fst (chord_keys chord)) then []
             else take (env_injected env 2) [key_down (snd (chord_keys chord)), key_up (snd (chord_keys chord))])
          @ take (env_injected env 3) (map key_up (rev (fst (chord_keys chord)))))"
  unfolding send_chord_def chord_phases_def
  by (simp add: Let_def split_beta) (simp add: send_keys_def injected_of_def)

lemma chord_keys_not_mask: "v \<in> set (fst (chord_keys chord)) \<Longrightarrow> v \<noteq> VK_MASK"
  by (cases chord) (auto simp: VK_defs)

lemma send_chord_unsettled: "\<not> (\<exists>e\<in>set (fst (send_chord env chord)). is_settled e)"
  unfolding send_chord_def chord_phases_def
  by (auto simp: Let_def split_beta send_keys_def is_settled_def)

definition settlements :: "effect list \<Rightarrow> (delivery_error + delivery_outcome) list" where
  "settlements es = concat (map (\<lambda>e. case e of Settled r \<Rightarrow> [r] | _ \<Rightarrow> []) es)"

lemma settlements_append [simp]: "settlements (xs @ ys) = settlements xs @ settlements ys"
  by (simp add: settlements_def)

lemma settlements_Cons: "settlements (x # xs) = (case x of Settled r \<Rightarrow> [r] | _ \<Rightarrow> []) @ settlements xs"
  by (simp add: settlements_def)

lemma settlements_Nil [simp]: "settlements [] = []"
  by (simp add: settlements_def)

lemma settlements_none: "settlements es = [] \<longleftrightarrow> \<not> (\<exists>e\<in>set es. is_settled e)"
  by (induction es) (auto simp: settlements_Cons is_settled_def split: effect.splits)

lemma paste_watch_settles:
  "paste_watch env = Some (es, r) \<Longrightarrow> settlements es = [] \<or> settlements es = [r]"
  by (auto simp: paste_watch_def settlements_Cons split: option.splits paste_verdict.splits if_splits)

lemma paste_settles:
  assumes "paste env chord = Some (es, r)"
  shows "settlements es = [] \<or> settlements es = [r]"
proof (cases "send_chord env chord")
  case (Pair sent b)
  then have "settlements sent = []" using send_chord_unsettled [of env chord] by (simp add: settlements_none)
  then show ?thesis
    using assms Pair
    by (auto simp: paste_def settlements_Cons dest: paste_watch_settles
        split: sum.splits if_splits option.splits prod.splits)
qed

lemma native_deliver_settles:
  "native_deliver env text = Some (es, r) \<Longrightarrow> settlements es = [] \<or> settlements es = [r]"
  using paste_settles [of env]
  by (fastforce simp: native_deliver_def settlements_Cons split: sum.splits if_splits option.splits)

lemma paste_watch_uninjected: "paste_watch env = Some (es, r) \<Longrightarrow> injected_of es = []"
  by (auto simp: paste_watch_def injected_of_def split: option.splits paste_verdict.splits if_splits)

lemma paste_injected:
  "paste env chord = Some (es, r) \<Longrightarrow> injected_of es \<noteq> [] \<Longrightarrow> env_still_front env"
  by (auto simp: paste_def injected_of_def split: sum.splits if_splits)

section \<open>Properties\<close>

text \<open>
  The clipboard payload of any text is one NUL-terminated UTF-16 string: no unit before
  the terminator is zero, the units decode to the text with every line ending written CRLF and
  nothing else changed, and normalising such a text again changes nothing.
\<close>
theorem clipboard_payload:
  assumes "\<forall>c\<in>set text. valid_scalar c"
  shows "\<exists>units. clipboard_text text = units @ [0] \<and> 0 \<notin> set units
    \<and> decode_utf16 (map unat units) = Some (normalise_lines text)
    \<and> crlf_ok (normalise_lines text) \<and> normalise_lines (normalise_lines text) = normalise_lines text"
proof (intro exI conjI)
  let ?units = "concat (map encode_utf16_char (normalise_lines text))"
  have units: "\<And>u. u \<in> set ?units \<Longrightarrow> u < 0x10000 \<and> u \<noteq> 0" using normalise_units [OF assms] by blast
  show "clipboard_text text = map of_nat ?units @ [0]" by (simp add: clipboard_text_def)
  have same: "map unat (map of_nat ?units :: u16 list) = ?units"
    using units by (auto simp: unat_of_nat_u16 intro!: map_idI)
  show "0 \<notin> set (map of_nat ?units :: u16 list)"
  proof
    assume "0 \<in> set (map of_nat ?units :: u16 list)"
    then have "0 \<in> set (map unat (map of_nat ?units :: u16 list))" by force
    then have "0 \<in> set ?units" unfolding same .
    then show False using units by blast
  qed
  show "decode_utf16 (map unat (map of_nat ?units :: u16 list)) = Some (normalise_lines text)"
    unfolding same by (rule decode_encode [OF normalise_valid [OF assms]])
  show "crlf_ok (normalise_lines text)" by (rule normalise_crlf)
  show "normalise_lines (normalise_lines text) = normalise_lines text"
    using normalise_subset [of "text"] by (intro normalise_fixed normalise_crlf) auto
qed

theorem clipboard_payload_witness:
  "clipboard_text [0x41, 0x0A, 0x1F600, 0, 0x0D] = [0x41, 0x0D, 0x0A, 0xD83D, 0xDE00, 0x0D, 0x0A, 0]
   \<and> (\<exists>units. clipboard_text [0x41, 0x0A, 0x1F600, 0, 0x0D] = units @ [0] \<and> 0 \<notin> set units
      \<and> decode_utf16 (map unat units) = Some [0x41, 0x0D, 0x0A, 0x1F600, 0x0D, 0x0A])"
  using clipboard_payload [of "[0x41, 0x0A, 0x1F600, 0, 0x0D]"]
  by (auto simp: valid_scalar_def clipboard_text_def encode_utf16_char_def skip_lf_def)

text \<open>
  Claim C36. No stuck modifier: whatever Windows refuses to inject on the way, once the last send of
  the chord goes through, no modifier the paste pressed is left down, and a chord that was sent at
  all was preceded by the release of every modifier the user still held.
\<close>
theorem paste_leaves_no_modifier_down:
  assumes "env_injected env 3 \<ge> length (fst (chord_keys chord))" "v \<in> set (fst (chord_keys chord))"
  shows "\<not> left_down v (injected_of (fst (send_chord env chord)))
    \<and> (key_down v \<in> set (injected_of (fst (send_chord env chord))) \<longrightarrow>
       (\<forall>m\<in>set MODIFIERS. env_held env m \<longrightarrow> key_up m \<in> set (injected_of (fst (send_chord env chord)))))"
proof (cases "env_injected env 0 < length (release_held (filter (env_held env) MODIFIERS))")
  case True
  let ?ks = "injected_of (fst (send_chord env chord))"
  have ks: "?ks = take (env_injected env 0) (release_held (filter (env_held env) MODIFIERS))"
    using True by (simp add: send_chord_injected)
  have ups: "\<forall>k\<in>set ?ks. vk k = v \<longrightarrow> up k"
    unfolding ks using release_held_ups chord_keys_not_mask [OF assms(2)] in_set_takeD by fast
  then have "key_down v \<notin> set ?ks" by (auto simp: key_down_def)
  with ups show ?thesis by (simp add: left_down_unpressed)
next
  case False
  define pre where "pre = release_held (filter (env_held env) MODIFIERS)
    @ take (env_injected env 1) (map key_down (fst (chord_keys chord)))
    @ (if env_injected env 1 < length (fst (chord_keys chord)) then []
       else take (env_injected env 2) [key_down (snd (chord_keys chord)), key_up (snd (chord_keys chord))])"
  have split: "injected_of (fst (send_chord env chord)) = pre @ map key_up (rev (fst (chord_keys chord)))"
    using False assms(1) by (simp add: send_chord_injected pre_def)
  have "\<not> left_down v (pre @ map key_up (rev (fst (chord_keys chord))))"
    by (rule left_down_ups) (use assms(2) in simp)
  then show ?thesis unfolding split by (auto simp: pre_def release_held_def)
qed

definition sample_env :: paste_env where
  "sample_env = \<lparr>env_probe = \<lparr>exists = True, probe_pid = 7, own_pid = 9, probe_target = Level 0x2000,
       probe_own = Level 0x2000\<rparr>,
     env_class = ''Notepad'', env_exe = ''notepad.exe'', env_front = True, env_owner = Inr (),
     env_open = Inr (), env_publish = Inr (), env_still_front = True, env_held = (\<lambda>v. v = VK_LWIN),
     env_injected = (\<lambda>i. if i = 2 then 1 else 5), env_chord_at = 10,
     env_polls = [\<lparr>poll_at = 10, poll_read = None, poll_lost = False, poll_queued = False\<rparr>,
       \<lparr>poll_at = 10 + NOT_CONFIRMED_GRACE, poll_read = None, poll_lost = False, poll_queued = False\<rparr>,
       \<lparr>poll_at = 11 + NOT_CONFIRMED_GRACE, poll_read = None, poll_lost = False, poll_queued = False\<rparr>]\<rparr>"

theorem paste_leaves_no_modifier_down_witness:
  "\<not> left_down VK_CONTROL (injected_of (fst (send_chord sample_env CtrlV)))
   \<and> key_up VK_LWIN \<in> set (injected_of (fst (send_chord sample_env CtrlV)))"
  using paste_leaves_no_modifier_down [where env = sample_env and chord = CtrlV and v = VK_CONTROL]
  by (auto simp: sample_env_def send_chord_injected MODIFIERS_def release_held_def VK_defs)

text \<open>
  A delivery that returns settles its callback exactly once, with the result it returns,
  and injects a key only if the preflight passed and the target was in front when the text was
  published.
\<close>
theorem delivery_settles_once:
  assumes "deliver env text = Some es"
  shows "\<exists>es' r. native_deliver env text = Some (es', r) \<and> settlements es = [r]
    \<and> (injected_of es \<noteq> [] \<longrightarrow> preflight (env_probe env) = None \<and> env_front env \<and> env_still_front env)"
proof -
  obtain es' r where d: "native_deliver env text = Some (es', r)"
    using assms by (auto simp: deliver_def split: option.splits)
  have s: "settlements es = [r]"
    using assms d native_deliver_settles [OF d] settlements_none [of es']
    by (auto simp: deliver_def settlements_Cons split: if_splits)
  have i: "injected_of es = injected_of es'"
    using assms d by (auto simp: deliver_def injected_of_def split: if_splits)
  have "injected_of es' \<noteq> [] \<Longrightarrow> preflight (env_probe env) = None \<and> env_front env \<and> env_still_front env"
    using d by (auto simp: native_deliver_def injected_single dest: paste_injected
        split: option.splits if_splits sum.splits)
  then show ?thesis using d s i by auto
qed

lemma sample_grace [simp]: "NO_READ_TIMEOUT \<le> NOT_CONFIRMED_GRACE" "0 < NO_READ_TIMEOUT"
  by (simp_all add: NO_READ_TIMEOUT_def NOT_CONFIRMED_GRACE_def from_millis_def from_secs_def)

definition sample_clean :: paste_env where
  "sample_clean = sample_env\<lparr>env_injected := (\<lambda>_. 5)\<rparr>"

theorem delivery_settles_once_witness:
  "\<exists>es. deliver sample_clean [0x41] = Some es \<and> settlements es = [Inr NotConfirmed]"
proof -
  have "\<exists>es es'. deliver sample_clean [0x41] = Some es \<and> native_deliver sample_clean [0x41] = Some (es', Inr NotConfirmed)"
    by (auto simp: deliver_def native_deliver_def sample_clean_def sample_env_def preflight_def paste_def
        send_chord_def chord_phases_def paste_chord_for_def exe_name_def send_keys_def and_result_def paste_watch_def
        watch_of_def evaluate_def evaluate_grace_def saturating_duration_since_def MODIFIERS_def release_held_def
        VK_defs Let_def)
  then show ?thesis using delivery_settles_once [of sample_clean "[0x41]"] by auto
qed

text \<open>
  Claim C37. The watch returns: once the poll sequence holds two polls past the grace period and past
  the quiet period of any read they saw, the paste has its outcome, and no poll in between can keep
  it waiting. The grace watch never asks to keep waiting again.
\<close>
theorem paste_watch_returns:
  assumes "env_polls env = xs @ p # ys @ q # zs" "conclusive (env_chord_at env) p" "conclusive (env_chord_at env) q"
  shows "\<exists>es outcome. paste_watch env = Some (es, Inr outcome) \<and> outcome \<in> {Pasted, NotConfirmed, ClipboardTaken}"
proof -
  let ?d = "\<lambda>p. evaluate (watch_of (env_chord_at env) p)"
  let ?g = "\<lambda>p. evaluate_grace (watch_of (env_chord_at env) p) (poll_queued p)"
  obtain v rest where w: "watch_loop ?d (env_polls env) = Some (v, rest @ ys @ q # zs)" "v \<noteq> Wait"
    using watch_loop_split [of ?d p xs "ys @ q # zs"] conclusive_answers(1) [OF assms(2)] assms(1) by auto
  obtain v' rest' where g: "watch_loop ?g ((rest @ ys) @ q # zs) = Some (v', rest' @ zs)" "v' \<noteq> Wait"
    using watch_loop_split [of ?g q "rest @ ys" zs] conclusive_answers(2) [OF assms(3)] by auto
  show ?thesis using w g by (cases v) (auto simp: paste_watch_def)
qed

theorem paste_watch_returns_witness:
  "\<exists>es outcome. paste_watch sample_env = Some (es, Inr outcome) \<and> outcome \<in> {Pasted, NotConfirmed, ClipboardTaken}"
  using paste_watch_returns [of sample_env "[hd (env_polls sample_env)]" "env_polls sample_env ! 1" "[]"
      "env_polls sample_env ! 2" "[]"]
  by (simp add: sample_env_def conclusive_def)

end
