(* ===== verification/Vocabulary.thy ===== *)
theory Vocabulary
  imports Voisu_Prelude
begin

text \<open>
  The boost words, \<open>apps/windows/src-tauri/src/vocabulary.rs\<close>: normalisation and the provider
  budgets. \<open>str::to_lowercase\<close> is the Unicode case table of the standard library and is passed as
  the argument \<open>lower\<close>; terms are UTF-8 byte strings, as the budgets count them.
\<close>

definition WHISPER_PROMPT_TOKEN_BUDGET :: nat where "WHISPER_PROMPT_TOKEN_BUDGET = 224"
definition DEEPGRAM_KEYTERM_TOKEN_BUDGET :: nat where "DEEPGRAM_KEYTERM_TOKEN_BUDGET = 500"
definition DEEPGRAM_KEYTERM_COUNT_LIMIT :: nat where "DEEPGRAM_KEYTERM_COUNT_LIMIT = 100"

definition token_upper_bound :: "nat \<Rightarrow> nat" where
  "token_upper_bound byte_len = byte_len"

fun normalize_from :: "(string \<Rightarrow> string) \<Rightarrow> string set \<Rightarrow> string list \<Rightarrow> string list" where
  "normalize_from lower seen [] = []"
| "normalize_from lower seen (tm # terms) =
     (let t = trim tm
      in if t \<noteq> [] \<and> CHR 0x0A \<notin> set t \<and> CHR 0x0D \<notin> set t \<and> lower t \<notin> seen
         then t # normalize_from lower (insert (lower t) seen) terms
         else normalize_from lower seen terms)"

definition normalize :: "(string \<Rightarrow> string) \<Rightarrow> string list \<Rightarrow> string list" where
  "normalize lower terms = normalize_from lower {} terms"

fun keyterms_from :: "string list \<Rightarrow> nat \<Rightarrow> string list \<Rightarrow> string list" where
  "keyterms_from keyterms tokens [] = keyterms"
| "keyterms_from keyterms tokens (t # ts) =
     (let candidate = tokens + token_upper_bound (length t)
      in if length keyterms = DEEPGRAM_KEYTERM_COUNT_LIMIT \<or> candidate > DEEPGRAM_KEYTERM_TOKEN_BUDGET
         then keyterms else keyterms_from (keyterms @ [t]) candidate ts)"

definition deepgram_keyterms :: "string list \<Rightarrow> string list" where
  "deepgram_keyterms terms = keyterms_from [] 0 terms"

fun prompt_from :: "string \<Rightarrow> string list \<Rightarrow> string" where
  "prompt_from prompt [] = prompt"
| "prompt_from prompt (t # ts) =
     (let candidate = (if prompt = [] then length t else length prompt + 2 + length t)
      in if token_upper_bound candidate > WHISPER_PROMPT_TOKEN_BUDGET then prompt
         else prompt_from ((if prompt = [] then [] else prompt @ '', '') @ t) ts)"

definition whisper_prompt :: "string list \<Rightarrow> string" where
  "whisper_prompt terms = prompt_from [] terms"

section \<open>Normalisation\<close>

definition valid_term :: "string \<Rightarrow> bool" where
  "valid_term t \<longleftrightarrow> t \<noteq> [] \<and> CHR 0x0A \<notin> set t \<and> CHR 0x0D \<notin> set t \<and> trim t = t"

lemma normalize_from_terms: "t \<in> set (normalize_from lower seen terms) \<Longrightarrow> valid_term t \<and> lower t \<notin> seen"
  by (induction lower seen terms rule: normalize_from.induct)
     (auto simp: Let_def valid_term_def split: if_splits)

lemma normalize_from_distinct: "distinct (map lower (normalize_from lower seen terms))"
proof (induction lower seen terms rule: normalize_from.induct)
  case (2 lower seen tm terms)
  then show ?case by (force simp: Let_def dest: normalize_from_terms)
qed simp

lemma normalize_from_fixed:
  "\<forall>t\<in>set terms. valid_term t \<and> lower t \<notin> seen \<Longrightarrow> distinct (map lower terms) \<Longrightarrow>
   normalize_from lower seen terms = terms"
proof (induction lower seen terms rule: normalize_from.induct)
  case (2 lower seen t terms)
  then have t: "valid_term t" "lower t \<notin> seen" by simp_all
  have "\<forall>u\<in>set terms. valid_term u \<and> lower u \<notin> insert (lower t) seen"
    using "2.prems" by (auto simp: image_iff)
  then have "normalize_from lower (insert (lower t) seen) terms = terms"
    using 2 t by (simp add: valid_term_def)
  then show ?case using t by (simp add: Let_def valid_term_def)
qed simp

lemma normalize_from_complete:
  "t \<in> set terms \<Longrightarrow> valid_term (trim t) \<Longrightarrow> lower (trim t) \<notin> seen \<Longrightarrow>
   \<exists>u\<in>set (normalize_from lower seen terms). lower u = lower (trim t)"
proof (induction lower seen terms rule: normalize_from.induct)
  case (2 lower seen tm terms)
  then show ?case
    by (cases "lower (trim tm) = lower (trim t)") (auto simp: Let_def valid_term_def)
qed simp

section \<open>Budgets\<close>

abbreviation bytes_of :: "string list \<Rightarrow> nat" where
  "bytes_of ts \<equiv> sum_list (map length ts)"

text \<open>The number of leading terms both Deepgram limits admit.\<close>

lemma keyterms_from_prefix: "\<exists>n. keyterms_from ks tokens ts = ks @ take n ts"
proof (induction ks tokens ts rule: keyterms_from.induct)
  case (2 ks tokens t ts)
  show ?case
  proof (cases "length ks = DEEPGRAM_KEYTERM_COUNT_LIMIT
      \<or> tokens + token_upper_bound (length t) > DEEPGRAM_KEYTERM_TOKEN_BUDGET")
    case True
    then show ?thesis by (intro exI [of _ 0]) (simp add: Let_def)
  next
    case False
    then obtain n where
      "keyterms_from (ks @ [t]) (tokens + token_upper_bound (length t)) ts = (ks @ [t]) @ take n ts"
      using 2 by auto
    then show ?thesis using False by (intro exI [of _ "Suc n"]) (simp add: Let_def)
  qed
qed simp

lemma keyterms_from_bounds:
  "length ks \<le> DEEPGRAM_KEYTERM_COUNT_LIMIT \<Longrightarrow> bytes_of ks = tokens \<Longrightarrow> tokens \<le> DEEPGRAM_KEYTERM_TOKEN_BUDGET \<Longrightarrow>
   length (keyterms_from ks tokens ts) \<le> DEEPGRAM_KEYTERM_COUNT_LIMIT
   \<and> bytes_of (keyterms_from ks tokens ts) \<le> DEEPGRAM_KEYTERM_TOKEN_BUDGET"
  by (induction ks tokens ts rule: keyterms_from.induct) (auto simp: Let_def token_upper_bound_def)

lemma keyterms_from_all:
  "length ks + length ts \<le> DEEPGRAM_KEYTERM_COUNT_LIMIT \<Longrightarrow> bytes_of ks = tokens \<Longrightarrow>
   tokens + bytes_of ts \<le> DEEPGRAM_KEYTERM_TOKEN_BUDGET \<Longrightarrow> keyterms_from ks tokens ts = ks @ ts"
  by (induction ks tokens ts rule: keyterms_from.induct) (auto simp: Let_def token_upper_bound_def)

text \<open>A term that would break a limit ends the list, so the prefix is the longest one that fits.\<close>

lemma keyterms_from_stop:
  "length (keyterms_from ks tokens ts) < length ks + length ts \<Longrightarrow> bytes_of ks = tokens \<Longrightarrow>
   length (keyterms_from ks tokens ts) = DEEPGRAM_KEYTERM_COUNT_LIMIT
   \<or> bytes_of (keyterms_from ks tokens ts) + length ((ks @ ts) ! length (keyterms_from ks tokens ts))
       > DEEPGRAM_KEYTERM_TOKEN_BUDGET"
proof (induction ks tokens ts rule: keyterms_from.induct)
  case (2 ks tokens t ts)
  then show ?case by (auto simp: Let_def token_upper_bound_def nth_append)
qed simp

lemma join_with_snoc: "ks \<noteq> [] \<Longrightarrow> join_with sep (ks @ [t]) = join_with sep ks @ sep @ t"
  by (induction sep ks rule: join_with.induct) auto

lemma join_with_Nil: "\<forall>t\<in>set ks. t \<noteq> [] \<Longrightarrow> join_with '', '' ks = [] \<longleftrightarrow> ks = []"
  by (cases ks; cases "tl ks") auto

lemma prompt_from_glossary:
  assumes "\<forall>t\<in>set (ks @ ts). t \<noteq> []" "length (join_with '', '' ks) \<le> WHISPER_PROMPT_TOKEN_BUDGET"
  shows "\<exists>n. prompt_from (join_with '', '' ks) ts = join_with '', '' (ks @ take n ts)
    \<and> length (prompt_from (join_with '', '' ks) ts) \<le> WHISPER_PROMPT_TOKEN_BUDGET"
  using assms
proof (induction ts arbitrary: ks)
  case Nil
  then show ?case by simp
next
  case (Cons t ts)
  have next_prompt: "(if join_with '', '' ks = [] then [] else join_with '', '' ks @ '', '') @ t = join_with '', '' (ks @ [t])"
    using Cons.prems(1) by (cases "ks = []") (simp_all add: join_with_Nil join_with_snoc)
  show ?case
  proof (cases "length (join_with '', '' (ks @ [t])) \<le> WHISPER_PROMPT_TOKEN_BUDGET")
    case True
    have "prompt_from (join_with '', '' ks) (t # ts) = prompt_from (join_with '', '' (ks @ [t])) ts"
      using True next_prompt Cons.prems(1)
      by (cases "ks = []") (auto simp: Let_def token_upper_bound_def join_with_snoc join_with_Nil)
    moreover obtain n where "prompt_from (join_with '', '' (ks @ [t])) ts = join_with '', '' ((ks @ [t]) @ take n ts)"
      "length (prompt_from (join_with '', '' (ks @ [t])) ts) \<le> WHISPER_PROMPT_TOKEN_BUDGET"
      using Cons.IH [of "ks @ [t]"] Cons.prems(1) True by auto
    ultimately show ?thesis by (intro exI [of _ "Suc n"]) simp
  next
    case False
    then have "prompt_from (join_with '', '' ks) (t # ts) = join_with '', '' ks"
      using next_prompt Cons.prems(1)
      by (cases "ks = []") (auto simp: Let_def token_upper_bound_def join_with_snoc join_with_Nil)
    then show ?thesis using Cons.prems(2) by (intro exI [of _ 0]) simp
  qed
qed

section \<open>Properties\<close>

text \<open>
  Normalised boost words: every kept term is a trimmed, non-empty single line, no two are
  equal up to case, every usable word the user typed is represented, and normalising again changes
  nothing.
\<close>
theorem normalize_canonical:
  "(\<forall>t\<in>set (normalize lower terms). valid_term t)
   \<and> distinct (map lower (normalize lower terms))
   \<and> normalize lower (normalize lower terms) = normalize lower terms
   \<and> (\<forall>t\<in>set terms. valid_term (trim t) \<longrightarrow> (\<exists>u\<in>set (normalize lower terms). lower u = lower (trim t)))"
  using normalize_from_terms [of _ lower "{}" terms] normalize_from_distinct [of lower "{}" terms]
    normalize_from_complete [of _ terms lower "{}"]
    normalize_from_fixed [of "normalize_from lower {} terms" lower "{}"]
  by (auto simp: normalize_def)

theorem normalize_canonical_witness:
  "normalize id [''  Tauri '', [], ''Tauri'', ''C#''] = [''Tauri'', ''C#'']
   \<and> (\<exists>u\<in>set (normalize id [''  Tauri '', [], ''Tauri'', ''C#'']). id u = id (trim ''  Tauri ''))"
proof -
  have n: "normalize id [''  Tauri '', [], ''Tauri'', ''C#''] = [''Tauri'', ''C#'']" by code_simp
  have "valid_term (trim ''  Tauri '')" by code_simp
  then show ?thesis
    using normalize_canonical [of id "[''  Tauri '', [], ''Tauri'', ''C#'']"] n by auto
qed

text \<open>
  Deepgram's limits: the keyterms are a leading run of the list within 100 terms and 500
  bytes, it is the longest such run (the next term would break a limit), and a list that fits is sent
  whole.
\<close>
theorem keyterms_longest_prefix:
  "\<exists>n. deepgram_keyterms terms = take n terms
     \<and> length (deepgram_keyterms terms) \<le> DEEPGRAM_KEYTERM_COUNT_LIMIT
     \<and> bytes_of (deepgram_keyterms terms) \<le> DEEPGRAM_KEYTERM_TOKEN_BUDGET
     \<and> (length (deepgram_keyterms terms) < length terms \<longrightarrow>
          length (deepgram_keyterms terms) = DEEPGRAM_KEYTERM_COUNT_LIMIT
          \<or> bytes_of (deepgram_keyterms terms) + length (terms ! length (deepgram_keyterms terms))
              > DEEPGRAM_KEYTERM_TOKEN_BUDGET)
     \<and> (length terms \<le> DEEPGRAM_KEYTERM_COUNT_LIMIT \<and> bytes_of terms \<le> DEEPGRAM_KEYTERM_TOKEN_BUDGET \<longrightarrow>
          deepgram_keyterms terms = terms)"
  using keyterms_from_prefix [of "[]" 0 terms] keyterms_from_bounds [of "[]" 0 terms]
    keyterms_from_stop [of "[]" 0 terms] keyterms_from_all [of "[]" terms 0]
  by (auto simp: deepgram_keyterms_def)

theorem keyterms_longest_prefix_witness:
  "deepgram_keyterms [''Voisu'', ''Tauri''] = [''Voisu'', ''Tauri'']"
  using keyterms_longest_prefix [of "[''Voisu'', ''Tauri'']"]
  by (simp add: DEEPGRAM_KEYTERM_COUNT_LIMIT_def DEEPGRAM_KEYTERM_TOKEN_BUDGET_def)

text \<open>
  Whisper's prompt is the comma-separated glossary of a leading run of the words and never
  exceeds the budget.
\<close>
theorem prompt_is_glossary:
  assumes "\<forall>t\<in>set terms. t \<noteq> []"
  shows "\<exists>n. whisper_prompt terms = join_with '', '' (take n terms)
    \<and> length (whisper_prompt terms) \<le> WHISPER_PROMPT_TOKEN_BUDGET"
  using prompt_from_glossary [of "[]" terms] assms by (simp add: whisper_prompt_def)

theorem prompt_is_glossary_witness:
  "whisper_prompt [''Voisu'', ''Tauri''] = ''Voisu, Tauri''
   \<and> length (whisper_prompt [''Voisu'', ''Tauri'']) \<le> WHISPER_PROMPT_TOKEN_BUDGET"
  using prompt_is_glossary [of "[''Voisu'', ''Tauri'']"]
  by (simp add: whisper_prompt_def token_upper_bound_def WHISPER_PROMPT_TOKEN_BUDGET_def)

end
