(* ===== verification/Engine.thy ===== *)
theory Engine
  imports Gesture Providers Paste_Delivery Vocabulary
begin

text \<open>
  The Windows engine actor, \<open>apps/windows/src-tauri/src/engine.rs\<close>: from a trigger action to a
  delivered Transcript.

  The actor is one asynchronous task. Every \<open>await\<close> of the source is a control point here
  (\<open>engine_at\<close>), and one step is what the task does between two of them. The environment drives it:
  the trigger thread sends actions into the unbounded channel, the channel may be hung up, and the
  future the task waits for becomes ready with some result. \<open>Take\<close> is the task receiving the next
  action, where the source waits on the channel. The biased \<open>select!\<close>s are kept: while recording,
  queued actions are taken before a chunk is; while busy, finished work comes before actions.

  What the engine does to the rest of the system is its output: the \<open>ended\<close> sink, the
  \<open>recording-state\<close> events, the tray, the microphone and the provider streams, the stored
  Transcript and its delivery. \<open>apply_tone\<close> of \<open>crates/voisu-core/src/tone.rs\<close> and the lower-casing
  table are arguments.
\<close>

section \<open>State\<close>

definition PROVIDER_DEADLINE :: duration where "PROVIDER_DEADLINE = from_secs 15"
definition ABORT_DEADLINE :: duration where "ABORT_DEADLINE = from_secs 2"
definition LANGUAGE :: string where "LANGUAGE = ''en''"
definition KEYS_MISSING :: string where
  "KEYS_MISSING = ''Add your Groq and Deepgram keys to start dictating.''"
definition COPIED :: string where "COPIED = ''Transcript copied to the clipboard''"

datatype phase = PIdle | PRecording | PHandsFree | PProcessing | PDone | PError

definition DONE_DISPLAY :: duration where "DONE_DISPLAY = from_millis 600"
definition ERROR_DISPLAY :: duration where "ERROR_DISPLAY = from_secs 3"

definition display_time :: "phase \<Rightarrow> duration option" where
  "display_time p = (case p of PDone \<Rightarrow> Some DONE_DISPLAY | PError \<Rightarrow> Some ERROR_DISPLAY | _ \<Rightarrow> None)"

datatype tone = Formal | Informal

record recording =
  rec_id :: nat
  rec_target :: int
  rec_vocabulary :: "string list"
  rec_tone :: tone

datatype outcome = StopOutcome "capture_limit option" | CancelOutcome | FailedOutcome boundary_error

text \<open>Where the task waits.\<close>

datatype engine_at =
    AtRecv
  | AtBegin nat int
  | AtStartAbort nat boundary_error
  | AtPump recording
  | AtSend recording
  | AtAbort nat "boundary_error option"
  | AtFinish recording "capture_limit option"
  | AtFinishAbort nat boundary_error
  | AtDecide recording captured_audio
  | AtCopy nat string
  | AtPaste nat string
  | AtDrain
  | AtEnd

record engine =
  channel :: "action list"
  hung_up :: bool
  phase_now :: "(phase \<times> instant) option"
  last_transcript :: "string option"
  at :: engine_at

text \<open>A provider start is its result for each of the two streams; \<open>begin\<close> may also lose its thread.\<close>

datatype begin_result = Begun | BeginFailed boundary_error | BeginJoin string

datatype completion =
    BeginReady begin_result "string list" tone "boundary_error option" "boundary_error option"
  | ChunkReady "boundary_error + u8 list option"
  | SendReady "boundary_error + unit"
  | TornDown
  | FinishReady "boundary_error + captured_audio"
  | Decided "boundary_error + string" bool
  | CopyReady "(delivery_error + unit) option"
  | PasteReady "(delivery_error + delivery_outcome) option"
  | Drained bool

datatype engine_event =
    Sent action
  | HangUp
  | Take int bool instant
  | Ready completion instant

datatype engine_effect =
    EndedOut nat
  | StateOut phase "string option"
  | TrayStatus string
  | TrayReady
  | ShowSettings
  | MicOpened nat
  | MicReleased nat
  | DeepgramStart nat "string list" string
  | GroqStart nat string string
  | StreamsStarted nat
  | StreamsReleased nat
  | DeepgramAborted nat
  | Stored string
  | StateChanged
  | CopyText string
  | PasteTo int string

section \<open>Reporting\<close>

definition next_phase :: "(phase \<times> instant) option \<Rightarrow> phase \<Rightarrow> instant \<Rightarrow> (phase \<times> instant) option" where
  "next_phase prev p now =
     (case p of
        PIdle \<Rightarrow> None | PDone \<Rightarrow> None | PError \<Rightarrow> None
      | PRecording \<Rightarrow> Some (p, now)
      | PHandsFree \<Rightarrow> Some (p, case prev of Some (_, since) \<Rightarrow> since | None \<Rightarrow> now)
      | PProcessing \<Rightarrow> Some (p, case prev of Some (_, since) \<Rightarrow> since | None \<Rightarrow> now))"

definition current_phase :: "engine \<Rightarrow> instant \<Rightarrow> (phase \<times> nat) option" where
  "current_phase e now =
     (case phase_now e of None \<Rightarrow> None
      | Some (p, since) \<Rightarrow> Some (p, duration_millis (saturating_duration_since now since)))"

definition ELLIPSIS :: string where "ELLIPSIS = [CHR 0xE2, CHR 0x80, CHR 0xA6]"

definition tray_effect :: "phase \<Rightarrow> engine_effect" where
  "tray_effect p =
     (case p of
        PRecording \<Rightarrow> TrayStatus (''Voisu: recording'' @ ELLIPSIS)
      | PHandsFree \<Rightarrow> TrayStatus (''Voisu: recording'' @ ELLIPSIS)
      | PProcessing \<Rightarrow> TrayStatus (''Voisu: transcribing'' @ ELLIPSIS)
      | _ \<Rightarrow> TrayReady)"

definition emit_state :: "engine \<Rightarrow> phase \<Rightarrow> string option \<Rightarrow> instant \<Rightarrow> engine \<times> engine_effect list" where
  "emit_state e p message now =
     (e\<lparr>phase_now := next_phase (phase_now e) p now\<rparr>, [tray_effect p, StateOut p message])"

definition fail :: "engine \<Rightarrow> boundary_error \<Rightarrow> instant \<Rightarrow> engine \<times> engine_effect list" where
  "fail e err now =
     (if kind err \<in> {EmptyRecording, TooShortRecording, SilentRecording} then emit_state e PIdle None now
      else emit_state e PError (Some (public_message err)) now)"

definition delivered :: "engine \<Rightarrow> string option \<Rightarrow> instant \<Rightarrow> engine \<times> engine_effect list" where
  "delivered e message now =
     (case message of None \<Rightarrow> emit_state e PDone None now | Some m \<Rightarrow> emit_state e PError (Some m) now)"

section \<open>The capture phase\<close>

text \<open>Moves the task to another control point after some effects.\<close>

definition goto :: "engine_at \<Rightarrow> engine \<times> engine_effect list \<Rightarrow> engine \<times> engine_effect list" where
  "goto a x = ((fst x)\<lparr>at := a\<rparr>, snd x)"

definition before :: "engine_effect list \<Rightarrow> engine \<times> engine_effect list \<Rightarrow> engine \<times> engine_effect list" where
  "before os x = (fst x, os @ snd x)"

definition afterwards :: "engine \<times> engine_effect list \<Rightarrow> engine_effect list \<Rightarrow> engine \<times> engine_effect list" where
  "afterwards x os = (fst x, snd x @ os)"

text \<open>
  The start of \<open>record\<close>, up to the first await. A Recording refused for missing keys is over: the
  gesture is freed and only the cleanup drain is left.
\<close>

definition record_start :: "engine \<Rightarrow> nat \<Rightarrow> int \<Rightarrow> bool \<Rightarrow> instant \<Rightarrow> engine \<times> engine_effect list" where
  "record_start e i target keys_ready now =
     (if \<not> keys_ready
      then goto AtDrain (afterwards (emit_state e PError (Some KEYS_MISSING) now) [ShowSettings, EndedOut i])
      else goto (AtBegin i target) (emit_state e PRecording None now))"

text \<open>
  What follows the \<open>begin\<close> of the capture: the settings are read, both providers started, and the
  pump entered. The outputs name the budgets each provider was started with.
\<close>

definition start_providers :: "nat \<Rightarrow> string list \<Rightarrow> boundary_error option \<Rightarrow> boundary_error option
    \<Rightarrow> engine_effect list \<times> boundary_error option" where
  "start_providers i vocabulary dg gq =
     (let d = DeepgramStart i (deepgram_keyterms vocabulary) LANGUAGE;
          g = GroqStart i (whisper_prompt vocabulary) LANGUAGE
      in case dg of
           Some err \<Rightarrow> ([d], Some err)
         | None \<Rightarrow> (case gq of
                     Some err \<Rightarrow> ([d, g, DeepgramAborted i], Some err)
                   | None \<Rightarrow> ([d, g, StreamsStarted i], None)))"

definition after_begin ::
  "(string \<Rightarrow> string) \<Rightarrow> engine \<Rightarrow> nat \<Rightarrow> int \<Rightarrow> begin_result \<Rightarrow> string list \<Rightarrow> tone
    \<Rightarrow> boundary_error option \<Rightarrow> boundary_error option \<Rightarrow> instant \<Rightarrow> engine \<times> engine_effect list" where
  "after_begin lower e i target begun boost tn dg gq now =
     (case begun of
        BeginFailed err \<Rightarrow> goto AtDrain (afterwards (fail e err now) [EndedOut i])
      | BeginJoin why \<Rightarrow>
          goto AtDrain (afterwards (fail e (boundary_error_new Capture (''capture start failed: '' @ why)) now) [EndedOut i])
      | Begun \<Rightarrow>
          (let vocabulary = normalize lower boost
           in case start_providers i vocabulary dg gq of
                (os, Some err) \<Rightarrow> before (MicOpened i # os) (goto (AtStartAbort i err) (e, []))
              | (os, None) \<Rightarrow>
                  before (MicOpened i # os)
                    (goto (AtPump \<lparr>rec_id = i, rec_target = target, rec_vocabulary = vocabulary, rec_tone = tn\<rparr>) (e, []))))"

text \<open>\<open>on_action\<close>: the new state, the effects, and how the capture phase ends, if it does.\<close>

definition on_action :: "engine \<Rightarrow> nat \<Rightarrow> action option \<Rightarrow> instant \<Rightarrow> (engine \<times> engine_effect list) \<times> outcome option" where
  "on_action e i act now =
     (case act of
        None \<Rightarrow> ((e, []), Some CancelOutcome)
      | Some (HandsFree j) \<Rightarrow> (if j = i then (emit_state e PHandsFree None now, None) else ((e, []), None))
      | Some (Stop j) \<Rightarrow> ((e, []), if j = i then Some (StopOutcome None) else None)
      | Some (Cancel j) \<Rightarrow> ((e, []), if j = i then Some CancelOutcome else None)
      | Some (Start j) \<Rightarrow> ((e, [EndedOut j]), None))"

text \<open>
  The end of the capture phase: \<open>run\<close> frees the gesture, then \<open>settle\<close> runs up to its first await.
\<close>

definition capture_ends :: "engine \<Rightarrow> recording \<Rightarrow> outcome \<Rightarrow> instant \<Rightarrow> engine \<times> engine_effect list" where
  "capture_ends e r out now =
     before [EndedOut (rec_id r)]
       (case out of
          StopOutcome limit \<Rightarrow> goto (AtFinish r limit) (emit_state e PProcessing None now)
        | CancelOutcome \<Rightarrow> goto (AtAbort (rec_id r) None) (e, [])
        | FailedOutcome err \<Rightarrow> goto (AtAbort (rec_id r) (Some err)) (e, []))"

definition pump_action :: "engine \<Rightarrow> recording \<Rightarrow> action option \<Rightarrow> instant \<Rightarrow> engine \<times> engine_effect list" where
  "pump_action e r act now =
     (case on_action e (rec_id r) act now of
        ((e', os), None) \<Rightarrow> (e', os)
      | ((e', os), Some out) \<Rightarrow> before os (capture_ends e' r out now))"

definition pump_chunk :: "engine \<Rightarrow> recording \<Rightarrow> boundary_error + u8 list option \<Rightarrow> instant \<Rightarrow> engine \<times> engine_effect list" where
  "pump_chunk e r chunk now =
     (case chunk of
        Inr (Some _) \<Rightarrow> goto (AtSend r) (e, [])
      | Inr None \<Rightarrow> capture_ends e r (StopOutcome None) now
      | Inl err \<Rightarrow>
          (if kind err = RecordingDeadlineKind then capture_ends e r (StopOutcome (Some RecordingDeadline)) now
           else capture_ends e r (FailedOutcome err) now))"

definition pump_sent :: "engine \<Rightarrow> recording \<Rightarrow> boundary_error + unit \<Rightarrow> instant \<Rightarrow> engine \<times> engine_effect list" where
  "pump_sent e r sent now =
     (case sent of
        Inr _ \<Rightarrow> goto (AtPump r) (e, [])
      | Inl err \<Rightarrow> capture_ends e r (FailedOutcome err) now)"

section \<open>The processing phase\<close>

definition after_finish :: "engine \<Rightarrow> recording \<Rightarrow> capture_limit option \<Rightarrow> boundary_error + captured_audio \<Rightarrow> engine \<times> engine_effect list" where
  "after_finish e r limit result =
     (case result of
        Inl err \<Rightarrow> goto (AtFinishAbort (rec_id r) err) (e, [])
      | Inr audio \<Rightarrow>
          before [MicReleased (rec_id r)]
            (goto (AtDecide r (case limit of Some l \<Rightarrow> with_truncation audio l | None \<Rightarrow> audio)) (e, [])))"

text \<open>The Transcript is stored before it is delivered, so the fallback copy exists whatever happens.\<close>

definition after_decide ::
  "(string \<Rightarrow> tone \<Rightarrow> string) \<Rightarrow> engine \<Rightarrow> recording \<Rightarrow> boundary_error + string \<Rightarrow> bool \<Rightarrow> instant \<Rightarrow> engine \<times> engine_effect list" where
  "after_decide apply_tone e r result auto_paste now =
     before [StreamsReleased (rec_id r)]
       (case result of
          Inl err \<Rightarrow> goto AtDrain (fail e err now)
        | Inr validated \<Rightarrow>
            (let transcript = apply_tone validated (rec_tone r)
             in if auto_paste
                then goto (AtPaste (rec_id r) transcript)
                       (e\<lparr>last_transcript := Some transcript\<rparr>, [Stored transcript, StateChanged, PasteTo (rec_target r) transcript])
                else goto (AtCopy (rec_id r) transcript)
                       (e\<lparr>last_transcript := Some transcript\<rparr>, [Stored transcript, StateChanged, CopyText transcript])))"

definition after_copy :: "engine \<Rightarrow> (delivery_error + unit) option \<Rightarrow> instant \<Rightarrow> engine \<times> engine_effect list" where
  "after_copy e result now =
     (case result of
        Some (Inr _) \<Rightarrow> emit_state e PDone (Some COPIED) now
      | Some (Inl err) \<Rightarrow> delivered e (Some (delivery_error_text err)) now
      | None \<Rightarrow> delivered e (Some ''Couldn't copy the Transcript'') now)"

definition after_paste :: "engine \<Rightarrow> (delivery_error + delivery_outcome) option \<Rightarrow> instant \<Rightarrow> engine \<times> engine_effect list" where
  "after_paste e result now =
     (case result of
        Some r \<Rightarrow> delivered e (notice r) now
      | None \<Rightarrow> delivered e (Some ''Couldn't paste the Transcript'') now)"

definition after_abort :: "engine \<Rightarrow> nat \<Rightarrow> boundary_error option \<Rightarrow> instant \<Rightarrow> engine \<times> engine_effect list" where
  "after_abort e i err now =
     before [MicReleased i, StreamsReleased i]
       (goto AtDrain (case err of Some x \<Rightarrow> fail e x now | None \<Rightarrow> emit_state e PIdle None now))"

text \<open>\<open>while_busy\<close>: an action that arrives meanwhile is dropped, and a \<open>Start\<close> is ended at once.\<close>

definition refuse :: "action \<Rightarrow> engine_effect list" where
  "refuse a = (case a of Start i \<Rightarrow> [EndedOut i] | _ \<Rightarrow> [])"

section \<open>The actor\<close>

definition take_action :: "engine \<Rightarrow> int \<Rightarrow> bool \<Rightarrow> instant \<Rightarrow> engine \<times> engine_effect list" where
  "take_action e target keys_ready now =
     (case channel e of
        [] \<Rightarrow>
          (if \<not> hung_up e then (e, [])
           else case at e of
                  AtRecv \<Rightarrow> goto AtEnd (e, [])
                | AtPump r \<Rightarrow> pump_action e r None now
                | AtSend r \<Rightarrow> pump_action e r None now
                | _ \<Rightarrow> (e, []))
      | a # as \<Rightarrow>
          (case at e of
             AtRecv \<Rightarrow>
               (case a of
                  Start i \<Rightarrow> record_start (e\<lparr>channel := as\<rparr>) i target keys_ready now
                | _ \<Rightarrow> (e\<lparr>channel := as\<rparr>, []))
           | AtPump r \<Rightarrow> pump_action (e\<lparr>channel := as\<rparr>) r (Some a) now
           | AtSend r \<Rightarrow> pump_action (e\<lparr>channel := as\<rparr>) r (Some a) now
           | AtBegin _ _ \<Rightarrow> (e, [])
           | AtStartAbort _ _ \<Rightarrow> (e, [])
           | AtEnd \<Rightarrow> (e, [])
           | _ \<Rightarrow> (e\<lparr>channel := as\<rparr>, refuse a)))"

text \<open>A future that becomes ready moves the task only where the task waits for it.\<close>

definition completed ::
  "(string \<Rightarrow> string) \<Rightarrow> (string \<Rightarrow> tone \<Rightarrow> string) \<Rightarrow> engine \<Rightarrow> completion \<Rightarrow> instant \<Rightarrow> engine \<times> engine_effect list" where
  "completed lower apply_tone e c now =
     (case (at e, c) of
        (AtBegin i target, BeginReady begun boost tn dg gq) \<Rightarrow> after_begin lower e i target begun boost tn dg gq now
      | (AtStartAbort i err, TornDown) \<Rightarrow>
          before [MicReleased i] (goto AtDrain (afterwards (fail e err now) [EndedOut i]))
      | (AtPump r, ChunkReady chunk) \<Rightarrow> (if channel e = [] \<and> \<not> hung_up e then pump_chunk e r chunk now else (e, []))
      | (AtSend r, SendReady sent) \<Rightarrow> (if channel e = [] \<and> \<not> hung_up e then pump_sent e r sent now else (e, []))
      | (AtAbort i err, TornDown) \<Rightarrow> after_abort e i err now
      | (AtFinish r limit, FinishReady result) \<Rightarrow> after_finish e r limit result
      | (AtFinishAbort i err, TornDown) \<Rightarrow> after_abort e i (Some err) now
      | (AtDecide r _, Decided result auto_paste) \<Rightarrow> after_decide apply_tone e r result auto_paste now
      | (AtCopy _ _, CopyReady result) \<Rightarrow> goto AtDrain (after_copy e result now)
      | (AtPaste _ _, PasteReady result) \<Rightarrow> goto AtDrain (after_paste e result now)
      | (AtDrain, Drained _) \<Rightarrow> goto AtRecv (e, [])
      | _ \<Rightarrow> (e, []))"

definition engine_step ::
  "(string \<Rightarrow> string) \<Rightarrow> (string \<Rightarrow> tone \<Rightarrow> string) \<Rightarrow> engine \<Rightarrow> engine_event \<Rightarrow> engine \<times> engine_effect list" where
  "engine_step lower apply_tone e ev =
     (case ev of
        Sent a \<Rightarrow> (if hung_up e then (e, []) else (e\<lparr>channel := channel e @ [a]\<rparr>, []))
      | HangUp \<Rightarrow> (e\<lparr>hung_up := True\<rparr>, [])
      | Take target keys_ready now \<Rightarrow> take_action e target keys_ready now
      | Ready c now \<Rightarrow> completed lower apply_tone e c now)"

text \<open>The engine once \<open>run\<close> has reported \<open>Idle\<close> and waits for its first action.\<close>

definition engine_start :: engine where
  "engine_start = \<lparr>channel = [], hung_up = False, phase_now = None, last_transcript = None, at = AtRecv\<rparr>"

section \<open>The engine protocol\<close>

text \<open>
  The abstract view: which starts still owe the trigger an answer, what the capsule shows and since
  when, which Recording holds the microphone and the provider streams, and the Transcript last
  stored.
\<close>

record engine_view =
  ev_hung :: bool
  ev_owed :: "nat multiset"
  ev_ui :: "(phase \<times> instant) option"
  ev_mic :: "nat option"
  ev_streams :: "nat option"
  ev_last :: "string option"

definition resting :: "engine_view \<Rightarrow> bool" where
  "resting v \<longleftrightarrow> ev_mic v = None \<and> ev_streams v = None"

definition ui_next :: "instant \<Rightarrow> engine_view \<Rightarrow> phase \<Rightarrow> (phase \<times> instant) option option" where
  "ui_next now v p =
     (case ev_ui v of
        None \<Rightarrow> (if resting v then (case p of PRecording \<Rightarrow> Some (Some (PRecording, now)) | PError \<Rightarrow> Some None | _ \<Rightarrow> None)
                 else None)
      | Some (q, since) \<Rightarrow>
          (if q = PRecording \<or> q = PHandsFree then
             (case p of
                PHandsFree \<Rightarrow> Some (Some (PHandsFree, since))
              | PProcessing \<Rightarrow> Some (Some (PProcessing, since))
              | PIdle \<Rightarrow> (if resting v then Some None else None)
              | PError \<Rightarrow> (if resting v then Some None else None)
              | _ \<Rightarrow> None)
           else if q = PProcessing \<and> p \<in> {PIdle, PDone, PError} \<and> resting v then Some None
           else None))"

fun effect_mon :: "instant \<Rightarrow> engine_view \<Rightarrow> engine_effect \<Rightarrow> engine_view option" where
  "effect_mon now v (EndedOut i) = (if i \<in># ev_owed v then Some (v\<lparr>ev_owed := ev_owed v - {#i#}\<rparr>) else None)"
| "effect_mon now v (StateOut p _) =
     (case ui_next now v p of None \<Rightarrow> None | Some ui \<Rightarrow> Some (v\<lparr>ev_ui := ui\<rparr>))"
| "effect_mon now v (MicOpened i) = (if resting v then Some (v\<lparr>ev_mic := Some i\<rparr>) else None)"
| "effect_mon now v (MicReleased i) = (if ev_mic v = Some i then Some (v\<lparr>ev_mic := None\<rparr>) else None)"
| "effect_mon now v (StreamsStarted i) =
     (if ev_mic v = Some i \<and> ev_streams v = None then Some (v\<lparr>ev_streams := Some i\<rparr>) else None)"
| "effect_mon now v (StreamsReleased i) = (if ev_streams v = Some i then Some (v\<lparr>ev_streams := None\<rparr>) else None)"
| "effect_mon now v (Stored text) = Some (v\<lparr>ev_last := Some text\<rparr>)"
| "effect_mon now v (PasteTo _ text) = (if resting v \<and> ev_last v = Some text then Some v else None)"
| "effect_mon now v (CopyText text) = (if resting v \<and> ev_last v = Some text then Some v else None)"
| "effect_mon now v _ = Some v"

primrec effects_mon :: "instant \<Rightarrow> engine_view \<Rightarrow> engine_effect list \<Rightarrow> engine_view option" where
  "effects_mon now v [] = Some v"
| "effects_mon now v (o' # os) = (case effect_mon now v o' of None \<Rightarrow> None | Some v' \<Rightarrow> effects_mon now v' os)"

definition event_view :: "engine_view \<Rightarrow> engine_event \<Rightarrow> engine_view" where
  "event_view v ev =
     (case ev of
        Sent (Start i) \<Rightarrow> (if ev_hung v then v else v\<lparr>ev_owed := add_mset i (ev_owed v)\<rparr>)
      | HangUp \<Rightarrow> v\<lparr>ev_hung := True\<rparr>
      | _ \<Rightarrow> v)"

definition event_time :: "engine_event \<Rightarrow> instant" where
  "event_time ev = (case ev of Take _ _ now \<Rightarrow> now | Ready _ now \<Rightarrow> now | _ \<Rightarrow> 0)"

definition engine_mon :: "engine_view \<Rightarrow> engine_event \<times> engine_effect list \<Rightarrow> engine_view option" where
  "engine_mon v x = effects_mon (event_time (fst x)) (event_view v (fst x)) (snd x)"

definition capturing :: "engine_at \<Rightarrow> nat list" where
  "capturing a =
     (case a of AtBegin i _ \<Rightarrow> [i] | AtStartAbort i _ \<Rightarrow> [i] | AtPump r \<Rightarrow> [rec_id r] | AtSend r \<Rightarrow> [rec_id r] | _ \<Rightarrow> [])"

definition mic_of :: "engine_at \<Rightarrow> nat option" where
  "mic_of a =
     (case a of AtStartAbort i _ \<Rightarrow> Some i | AtPump r \<Rightarrow> Some (rec_id r) | AtSend r \<Rightarrow> Some (rec_id r)
      | AtAbort i _ \<Rightarrow> Some i | AtFinish r _ \<Rightarrow> Some (rec_id r) | AtFinishAbort i _ \<Rightarrow> Some i | _ \<Rightarrow> None)"

definition streams_of :: "engine_at \<Rightarrow> nat option" where
  "streams_of a =
     (case a of AtPump r \<Rightarrow> Some (rec_id r) | AtSend r \<Rightarrow> Some (rec_id r) | AtAbort i _ \<Rightarrow> Some i
      | AtFinish r _ \<Rightarrow> Some (rec_id r) | AtFinishAbort i _ \<Rightarrow> Some i | AtDecide r _ \<Rightarrow> Some (rec_id r) | _ \<Rightarrow> None)"

definition engine_abs :: "engine \<Rightarrow> engine_view" where
  "engine_abs e = \<lparr>ev_hung = hung_up e, ev_owed = mset (capturing (at e) @ started (channel e)),
     ev_ui = phase_now e, ev_mic = mic_of (at e), ev_streams = streams_of (at e),
     ev_last = last_transcript e\<rparr>"

definition phase_of :: "engine \<Rightarrow> phase option" where
  "phase_of e = map_option fst (phase_now e)"

definition phase_fits :: "engine_at \<Rightarrow> phase option \<Rightarrow> bool" where
  "phase_fits a p =
     (case a of
        AtRecv \<Rightarrow> p = None | AtDrain \<Rightarrow> p = None | AtEnd \<Rightarrow> p = None
      | AtBegin _ _ \<Rightarrow> p = Some PRecording
      | AtStartAbort _ _ \<Rightarrow> p = Some PRecording
      | AtPump _ \<Rightarrow> p = Some PRecording \<or> p = Some PHandsFree
      | AtSend _ \<Rightarrow> p = Some PRecording \<or> p = Some PHandsFree
      | AtAbort _ _ \<Rightarrow> p = Some PRecording \<or> p = Some PHandsFree
      | _ \<Rightarrow> p = Some PProcessing)"

definition engine_inv :: "engine \<Rightarrow> bool" where
  "engine_inv e \<longleftrightarrow> phase_fits (at e) (phase_of e) \<and> (at e = AtEnd \<longrightarrow> channel e = [] \<and> hung_up e)"

lemmas engine_flow = emit_state_def fail_def delivered_def goto_def before_def afterwards_def record_start_def
  after_begin_def start_providers_def on_action_def capture_ends_def pump_action_def pump_chunk_def pump_sent_def
  after_finish_def after_decide_def after_copy_def after_paste_def after_abort_def refuse_def tray_effect_def
  Let_def

lemmas engine_views = engine_abs_def engine_mon_def event_view_def event_time_def capturing_def mic_of_def streams_of_def
  resting_def ui_next_def next_phase_def phase_of_def

lemma take_action_accepted:
  assumes "engine_inv e"
  shows "engine_mon (engine_abs e) (Take t k now, snd (take_action e t k now)) = Some (engine_abs (fst (take_action e t k now)))
    \<and> engine_inv (fst (take_action e t k now))"
  using assms unfolding engine_inv_def take_action_def
  by (cases "channel e"; cases "at e")
     (auto simp: engine_flow engine_views phase_fits_def split: action.splits)

lemma completed_accepted:
  assumes "engine_inv e"
  shows "engine_mon (engine_abs e) (Ready c now, snd (completed lower tn e c now)) =
      Some (engine_abs (fst (completed lower tn e c now)))
    \<and> engine_inv (fst (completed lower tn e c now))"
  using assms unfolding engine_inv_def completed_def
  by (cases "at e"; cases c)
     (auto simp: engine_flow engine_views phase_fits_def
       split: begin_result.splits option.splits sum.splits prod.splits)

lemma sent_accepted:
  assumes "engine_inv e" "ev = Sent a \<or> ev = HangUp"
  shows "engine_mon (engine_abs e) (ev, snd (engine_step lower tn e ev)) = Some (engine_abs (fst (engine_step lower tn e ev)))
    \<and> engine_inv (fst (engine_step lower tn e ev))"
  using assms
  by (cases a; cases "hung_up e")
     (auto simp: engine_inv_def engine_step_def engine_abs_def engine_mon_def event_view_def started_append phase_of_def)

lemma engine_step_accepted:
  assumes "engine_inv e"
  shows "engine_mon (engine_abs e) (ev, snd (engine_step lower tn e ev)) = Some (engine_abs (fst (engine_step lower tn e ev)))
    \<and> engine_inv (fst (engine_step lower tn e ev))"
proof (cases ev)
  case (Take t k now)
  then show ?thesis using take_action_accepted [OF assms] by (simp add: engine_step_def)
next
  case (Ready c now)
  then show ?thesis using completed_accepted [OF assms] by (simp add: engine_step_def)
qed (use sent_accepted [OF assms] in blast)+

interpretation engine_run: monitored_machine "engine_step lower tn" engine_inv engine_mon engine_abs
  for lower tn
  by unfold_locales (simp_all add: engine_step_accepted)

lemma engine_start_inv: "engine_inv engine_start"
  by (simp add: engine_inv_def engine_start_def phase_fits_def phase_of_def)

section \<open>Properties\<close>

text \<open>
  Claim C2. The engine keeps its protocol on every schedule of trigger actions, awaited results and
  hang-up. Every \<open>Start\<close> the trigger sent is answered by \<open>ended\<close> exactly once, at the latest when its
  capture phase ends; the reported phases are Recordings one after another, each from \<open>recording\<close>
  through \<open>handsFree\<close> and \<open>processing\<close> to exactly one terminal state, timed from its own start; the
  microphone and the provider streams belong to one Recording at a time, are released before its
  terminal state is reported, and nothing is pasted or copied while they are held; what is pasted or
  copied is the Transcript last stored for the user to copy again.
\<close>
theorem engine_refines_protocol:
  "run_monitor engine_mon (engine_abs engine_start) (snd (run_machine (engine_step lower tn) engine_start evs)) =
     Some (engine_abs (fst (run_machine (engine_step lower tn) engine_start evs)))
   \<and> engine_inv (fst (run_machine (engine_step lower tn) engine_start evs))"
  using engine_run.run_accepted [OF engine_start_inv, of lower tn evs]
    engine_run.run_inv [OF engine_start_inv, of lower tn evs] by simp

text \<open>The result each control point of the processing phase waits for.\<close>

definition awaited :: "engine_at \<Rightarrow> completion \<Rightarrow> bool" where
  "awaited a c =
     (case (a, c) of
        (AtStartAbort _ _, TornDown) \<Rightarrow> True | (AtAbort _ _, TornDown) \<Rightarrow> True | (AtFinishAbort _ _, TornDown) \<Rightarrow> True
      | (AtFinish _ _, FinishReady _) \<Rightarrow> True | (AtDecide _ _, Decided _ _) \<Rightarrow> True | (AtCopy _ _, CopyReady _) \<Rightarrow> True
      | (AtPaste _ _, PasteReady _) \<Rightarrow> True | (AtDrain, Drained _) \<Rightarrow> True | _ \<Rightarrow> False)"

definition settling_rank :: "engine_at \<Rightarrow> nat option" where
  "settling_rank a =
     (case a of
        AtFinish _ _ \<Rightarrow> Some 4 | AtDecide _ _ \<Rightarrow> Some 3 | AtStartAbort _ _ \<Rightarrow> Some 2 | AtAbort _ _ \<Rightarrow> Some 2 | AtFinishAbort _ _ \<Rightarrow> Some 2
      | AtCopy _ _ \<Rightarrow> Some 2 | AtPaste _ _ \<Rightarrow> Some 2 | AtDrain \<Rightarrow> Some 1 | AtRecv \<Rightarrow> Some 0 | _ \<Rightarrow> None)"

lemma settle_progress:
  assumes "settling_rank (at e) = Some n" "awaited (at e) c"
  shows "\<exists>m < n. settling_rank (at (fst (completed lower tn e c now))) = Some m"
  using assms
  by (cases "at e"; cases c)
     (auto simp: awaited_def settling_rank_def completed_def engine_flow split: option.splits sum.splits)

lemma settle_take:
  assumes "settling_rank (at e) = Some n" "n \<noteq> 0"
  shows "at (fst (take_action e t k now)) = at e"
  using assms by (cases "at e"; cases "channel e") (auto simp: settling_rank_def take_action_def)

text \<open>The progress a list of events makes: the awaited results it brings, whatever comes in between.\<close>

fun answers :: "(string \<Rightarrow> string) \<Rightarrow> (string \<Rightarrow> tone \<Rightarrow> string) \<Rightarrow> engine \<Rightarrow> engine_event list \<Rightarrow> nat" where
  "answers lower tn e [] = 0"
| "answers lower tn e (ev # evs) =
     (case ev of Ready c _ \<Rightarrow> (if awaited (at e) c then 1 else 0) | _ \<Rightarrow> 0)
     + answers lower tn (fst (engine_step lower tn e ev)) evs"

lemma unawaited_ready:
  assumes "settling_rank (at e) = Some n" "\<not> awaited (at e) c"
  shows "completed lower tn e c now = (e, [])"
  using assms by (cases "at e"; cases c) (auto simp: awaited_def settling_rank_def completed_def)

text \<open>
  Claim C35. The engine always comes back: once a capture phase is over, at most four awaited
  results, whatever they are, take the engine back to waiting for the next Recording, and no action,
  hang-up or stray wake-up in between can delay or derail that.
\<close>
theorem engine_settles:
  assumes "settling_rank (at e) = Some n" "answers lower tn e evs \<ge> n"
  shows "\<exists>pre rest. evs = pre @ rest \<and> at (fst (run_machine (engine_step lower tn) e pre)) = AtRecv \<and> n \<le> 4"
  using assms
proof (induction evs arbitrary: e n)
  case Nil
  then have "n = 0" by simp
  with Nil(1) have "at e = AtRecv" by (cases "at e") (auto simp: settling_rank_def)
  then show ?case using \<open>n = 0\<close> by simp
next
  case (Cons ev evs)
  have n4: "n \<le> 4" using Cons.prems(1) by (cases "at e") (auto simp: settling_rank_def)
  show ?case
  proof (cases "n = 0")
    case True
    then have "at e = AtRecv" using Cons.prems(1) by (cases "at e") (auto simp: settling_rank_def)
    then show ?thesis using n4 by (intro exI [of _ "[]"] exI [of _ "ev # evs"]) simp
  next
    case False
    let ?e = "fst (engine_step lower tn e ev)"
    have "\<exists>m. settling_rank (at ?e) = Some m \<and> answers lower tn ?e evs \<ge> m"
    proof (cases ev)
      case (Ready c now)
      then show ?thesis
        using Cons.prems settle_progress [OF Cons.prems(1), of c lower tn now]
          unawaited_ready [OF Cons.prems(1), of c lower tn now]
        by (cases "awaited (at e) c") (auto simp: engine_step_def)
    next
      case (Take t k now)
      then show ?thesis using Cons.prems settle_take [OF Cons.prems(1) False] by (simp add: engine_step_def)
    qed (use Cons.prems in \<open>auto simp: engine_step_def\<close>)
    then obtain m where m: "settling_rank (at ?e) = Some m" "answers lower tn ?e evs \<ge> m" by blast
    from Cons.IH [OF m] obtain pre rest
      where "evs = pre @ rest" "at (fst (run_machine (engine_step lower tn) ?e pre)) = AtRecv" by blast
    then show ?thesis using n4 by (intro exI [of _ "ev # pre"] exI [of _ rest]) (simp add: split_beta Let_def)
  qed
qed

definition settling_sample :: engine where
  "settling_sample = engine_start\<lparr>at := AtAbort 1 None, phase_now := Some (PRecording, 3)\<rparr>"

theorem engine_settles_witness:
  "\<exists>pre rest. [Ready TornDown 5, Sent (Start 2), Take 0 True 6, Ready (Drained True) 7] = pre @ rest
    \<and> at (fst (run_machine (engine_step id (\<lambda>t _. t)) settling_sample pre)) = AtRecv \<and> (2::nat) \<le> 4"
  using engine_settles [of settling_sample 2 id "\<lambda>t _. t"
      "[Ready TornDown 5, Sent (Start 2), Take 0 True 6, Ready (Drained True) 7]"]
  by (simp add: settling_sample_def engine_start_def settling_rank_def awaited_def engine_step_def completed_def engine_flow
      take_action_def)

text \<open>
  Only the Recording's own commands end its capture: taking a queued action while it is
  recorded ends the capture exactly for its own \<open>Stop\<close> and \<open>Cancel\<close>; its own hands-free upgrade only
  changes the phase, another \<open>Start\<close> is refused on the spot, and anything else changes nothing.
\<close>
theorem capture_obeys_own_commands:
  assumes "at e = AtPump r \<or> at e = AtSend r" "channel e = a # as"
  shows "case take_action e t k now of (e', os) \<Rightarrow>
      channel e' = as
      \<and> (at e' = at e \<longleftrightarrow> a \<notin> {Stop (rec_id r), Cancel (rec_id r)})
      \<and> (a = Stop (rec_id r) \<longrightarrow> at e' = AtFinish r None \<and> EndedOut (rec_id r) \<in> set os)
      \<and> (a = Cancel (rec_id r) \<longrightarrow> at e' = AtAbort (rec_id r) None \<and> os = [EndedOut (rec_id r)])
      \<and> (a \<notin> {Stop (rec_id r), Cancel (rec_id r), HandsFree (rec_id r)} \<longrightarrow>
           e' = e\<lparr>channel := as\<rparr> \<and> os = (case a of Start j \<Rightarrow> [EndedOut j] | _ \<Rightarrow> []))"
  using assms by (cases a) (auto simp: take_action_def engine_flow split: if_splits)

definition recording_sample :: engine where
  "recording_sample = engine_start\<lparr>at := AtPump \<lparr>rec_id = 1, rec_target = 9, rec_vocabulary = [], rec_tone = Formal\<rparr>,
     phase_now := Some (PRecording, 3), channel := [Stop 1]\<rparr>"

theorem capture_obeys_own_commands_witness:
  "at (fst (take_action recording_sample 0 True 4)) =
     AtFinish \<lparr>rec_id = 1, rec_target = 9, rec_vocabulary = [], rec_tone = Formal\<rparr> None"
  using capture_obeys_own_commands [of recording_sample
      "\<lparr>rec_id = 1, rec_target = 9, rec_vocabulary = [], rec_tone = Formal\<rparr>" "Stop 1" "[]" 0 True 4]
  by (simp add: recording_sample_def split_beta)

end
