(* ===== verification/System.thy ===== *)
theory System
  imports Engine
begin

text \<open>
  The Windows dictation loop as one system: the keyboard hook, the gesture thread
  (\<open>trigger.rs\<close>, \<open>gesture.rs\<close>) and the engine actor (\<open>engine.rs\<close>), joined as
  \<open>apps/windows/src-tauri/src/lib.rs\<close> joins them: the thread's commands go into the engine's
  unbounded channel, and the engine's \<open>ended\<close> sink is the trigger's bounded queue.

  Nothing is assumed of the schedule: a full queue drops what is sent to it, the engine's notices
  included, and the Recording numbers wrap around. Two history variables, which no step reads, let the
  theorems speak of that: the notices the queue dropped, and how many Recordings were started.
\<close>

section \<open>The joined system\<close>

definition ended_ids :: "engine_effect list \<Rightarrow> nat list" where
  "ended_ids os = concat (map (\<lambda>o'. case o' of EndedOut i \<Rightarrow> [i] | _ \<Rightarrow> []) os)"

definition push_commands :: "engine \<Rightarrow> action list \<Rightarrow> engine" where
  "push_commands e acts = (if hung_up e then e else e\<lparr>channel := channel e @ acts\<rparr>)"

definition notify_ended :: "trigger \<Rightarrow> nat list \<Rightarrow> trigger" where
  "notify_ended t is = foldl trigger_ended t is"

definition task_event :: "engine_event \<Rightarrow> bool" where
  "task_event ev = (case ev of Take _ _ _ \<Rightarrow> True | Ready _ _ \<Rightarrow> True | _ \<Rightarrow> False)"

text \<open>The notices \<open>try_send\<close> has no room for.\<close>

definition dropped :: "trigger \<Rightarrow> nat list \<Rightarrow> nat list" where
  "dropped t is = drop (QUEUE - length (queue t)) is"

record joined =
  trg :: trigger
  eng :: engine
  lost :: "nat list"
  made :: nat

definition joined_start :: joined where
  "joined_start = \<lparr>trg = trigger_spawn, eng = engine_start, lost = [], made = 0\<rparr>"

inductive sys_step :: "(string \<Rightarrow> string) \<Rightarrow> (string \<Rightarrow> tone \<Rightarrow> string) \<Rightarrow> joined \<Rightarrow> joined \<Rightarrow> bool"
  for lower tn where
  hook_signals: "sys_step lower tn x (x\<lparr>trg := trigger_signal (trg x) s now\<rparr>)"
| thread_turns: "thread_turn (trg x) now = Some (t', w, acts) \<Longrightarrow>
    sys_step lower tn x (x\<lparr>trg := t', eng := push_commands (eng x) acts, made := made x + length (started acts)\<rparr>)"
| engine_moves: "task_event ev \<Longrightarrow> engine_step lower tn (eng x) ev = (e', os) \<Longrightarrow>
    sys_step lower tn x (x\<lparr>trg := notify_ended (trg x) (ended_ids os), eng := e', lost := lost x @ dropped (trg x) (ended_ids os)\<rparr>)"

inductive sys_reach :: "(string \<Rightarrow> string) \<Rightarrow> (string \<Rightarrow> tone \<Rightarrow> string) \<Rightarrow> joined \<Rightarrow> bool"
  for lower tn where
  sys_start: "sys_reach lower tn joined_start"
| sys_more: "sys_reach lower tn x \<Longrightarrow> sys_step lower tn x y \<Longrightarrow> sys_reach lower tn y"

section \<open>Who answers for a Recording\<close>

definition owed :: "engine \<Rightarrow> nat list" where
  "owed e = capturing (at e) @ started (channel e)"

definition has_stop :: "nat \<Rightarrow> action list \<Rightarrow> bool" where
  "has_stop i ch \<longleftrightarrow> Stop i \<in> set ch \<or> Cancel i \<in> set ch"

text \<open>The command that will end the Recording is queued: behind its start, if that is still queued.\<close>

fun stop_after :: "nat \<Rightarrow> action list \<Rightarrow> bool" where
  "stop_after i [] \<longleftrightarrow> False"
| "stop_after i (a # ch) \<longleftrightarrow> (if a = Start i then has_stop i ch else stop_after i ch)"

definition stop_queued :: "nat \<Rightarrow> engine \<Rightarrow> bool" where
  "stop_queued i e = (if i \<in> set (capturing (at e)) then has_stop i (channel e) else stop_after i (channel e))"

definition sys_inv :: "nat list \<Rightarrow> command_view \<Rightarrow> trigger_input list \<Rightarrow> engine \<Rightarrow> bool" where
  "sys_inv l v q e \<longleftrightarrow>
     \<not> hung_up e \<and> distinct (owed e) \<and> (\<forall>i\<in>set (owed e). i < cv_next v)
     \<and> (\<forall>i. Ended i \<in> set q \<longrightarrow> i < cv_next v \<and> i \<notin> set (owed e))
     \<and> (\<forall>i. cv_live v = Some i \<longrightarrow> i \<in> set (owed e) \<or> Ended i \<in> set q \<or> i \<in> set l)
     \<and> (\<forall>i\<in>set (owed e). cv_live v = Some i \<or> stop_queued i e)"

lemma has_stop_append [simp]: "has_stop i (xs @ ys) \<longleftrightarrow> has_stop i xs \<or> has_stop i ys"
  by (auto simp: has_stop_def)

lemma stop_after_append: "stop_after i xs \<Longrightarrow> stop_after i (xs @ ys)"
  by (induction xs) auto

lemma stop_after_new: "i \<in> set (started xs) \<Longrightarrow> has_stop i ys \<Longrightarrow> stop_after i (xs @ ys)"
proof (induction xs)
  case (Cons a xs)
  then show ?case by (cases a) (auto simp: has_stop_def)
qed simp

lemma stop_queued_append: "stop_queued i e \<Longrightarrow> stop_queued i (e\<lparr>channel := channel e @ as\<rparr>)"
  by (simp add: stop_queued_def stop_after_append)

lemma owed_push: "owed (e\<lparr>channel := channel e @ [a]\<rparr>) = owed e @ started [a]"
  by (simp add: owed_def started_append)

lemma sys_inv_command:
  assumes inv: "sys_inv l v q e" and mon: "command_mon v a = Some v'" and room: "cv_next v + length (started [a]) \<le> u64_max"
  shows "sys_inv l v' q (e\<lparr>channel := channel e @ [a]\<rparr>) \<and> cv_next v' = cv_next v + length (started [a])"
proof -
  have queued: "\<And>i. stop_queued i e \<Longrightarrow> stop_queued i (e\<lparr>channel := channel e @ [a]\<rparr>)" by (rule stop_queued_append)
  have ends: "has_stop i [a] \<Longrightarrow> i \<in> set (owed e) \<Longrightarrow> stop_queued i (e\<lparr>channel := channel e @ [a]\<rparr>)" for i
    by (auto simp: stop_queued_def owed_def intro: stop_after_new)
  show ?thesis
  proof (cases a)
    case (Start i)
    then have v: "cv_live v = None" "i = cv_next v" "v' = \<lparr>cv_live = Some i, cv_hands_free = False, cv_next = i + 1\<rparr>"
      using mon room by (auto simp: wrap_add_u64_small split: if_splits)
    show ?thesis
      using inv v queued unfolding sys_inv_def owed_push by (auto simp: Start less_Suc_eq)
  next
    case (HandsFree i)
    then have "cv_live v' = cv_live v" "cv_next v' = cv_next v" using mon by (auto split: if_splits)
    then show ?thesis using inv queued unfolding sys_inv_def owed_push by (auto simp: HandsFree)
  next
    case (Stop i)
    then have v: "cv_live v = Some i" "cv_live v' = None" "cv_next v' = cv_next v" using mon by (auto split: if_splits)
    have "has_stop i [a]" by (simp add: Stop has_stop_def)
    then show ?thesis using inv v queued ends [of i] unfolding sys_inv_def owed_push by (auto simp: Stop)
  next
    case (Cancel i)
    then have v: "cv_live v = Some i" "cv_live v' = None" "cv_next v' = cv_next v" using mon by (auto split: if_splits)
    have "has_stop i [a]" by (simp add: Cancel has_stop_def)
    then show ?thesis using inv v queued ends [of i] unfolding sys_inv_def owed_push by (auto simp: Cancel)
  qed
qed

lemma sys_inv_ended:
  assumes "sys_inv l v (Ended i # q) e"
  shows "sys_inv l (forget v i) q e"
  using assms by (auto simp: sys_inv_def forget_def)

lemma sys_inv_signal: "sys_inv l v (ChordInput s now # q) e \<longleftrightarrow> sys_inv l v q e" "sys_inv l v (q @ [ChordInput s now]) e \<longleftrightarrow> sys_inv l v q e"
  by (auto simp: sys_inv_def)

lemma sys_inv_commands:
  "sys_inv l v q e \<Longrightarrow> commands_mon v acts = Some v' \<Longrightarrow> cv_next v + length (started acts) \<le> u64_max \<Longrightarrow>
   sys_inv l v' q (e\<lparr>channel := channel e @ acts\<rparr>)"
proof (induction acts arbitrary: v e)
  case Nil
  then show ?case by simp
next
  case (Cons a acts)
  obtain v1 where v1: "command_mon v a = Some v1" "commands_mon v1 acts = Some v'"
    using Cons.prems(2) by (auto split: option.splits)
  have len: "length (started (a # acts)) = length (started [a]) + length (started acts)"
    using started_append [of "[a]" acts] by simp
  have "sys_inv l v1 q (e\<lparr>channel := channel e @ [a]\<rparr>)" "cv_next v1 = cv_next v + length (started [a])"
    using sys_inv_command [OF Cons.prems(1) v1(1)] Cons.prems(3) len by auto
  then show ?case using Cons.IH [OF _ v1(2)] Cons.prems(3) len by fastforce
qed

lemma sys_inv_turn:
  assumes inv: "sys_inv l (view_of (machine t)) (queue t) e" and room: "next_id (machine t) < u64_max"
    and turn: "thread_turn t now = Some (t', w, acts)"
  shows "sys_inv l (view_of (machine t')) (queue t') (push_commands e acts)"
proof -
  let ?m = "machine t"
  have m: "machine t' = fst (machine_step ?m w)" "acts = snd (machine_step ?m w)"
    using thread_turn_shape [OF turn] by auto
  have mon: "gesture_mon (view_of ?m) (w, acts) = Some (view_of (machine t'))"
    using machine_step_accepted [of ?m w] m by simp
  have one: "length (started acts) \<le> 1" using machine_step_started [OF room, of w] m by auto
  have push: "push_commands e acts = e\<lparr>channel := channel e @ acts\<rparr>" using inv by (simp add: push_commands_def sys_inv_def)
  have cmds: "sys_inv l v q e \<Longrightarrow> commands_mon v acts = Some v' \<Longrightarrow> cv_next v = next_id ?m \<Longrightarrow> sys_inv l v' q (push_commands e acts)" for v v' q
    using sys_inv_commands [of l v q e acts v'] room one push by simp
  have next_m: "cv_next (view_of ?m) = next_id ?m" by (simp add: view_of_def)
  show ?thesis
  proof (cases "(?m, w)" rule: machine_step.cases)
    case (1 m' s at)
    then have "queue t = ChordInput s at # queue t'"
      using turn by (auto simp: thread_turn_def Let_def split_beta split: list.splits option.splits if_splits)
    then show ?thesis using 1 inv mon cmds [OF _ _ next_m] by (simp add: gesture_mon_def sys_inv_signal split: option.splits)
  next
    case (2 m' i)
    then have q: "queue t = Ended i # queue t'"
      using turn by (auto simp: thread_turn_def Let_def split_beta split: list.splits option.splits if_splits)
    have "acts = []" "view_of (machine t') = forget (view_of ?m) i" using 2 m mon by (auto simp: gesture_mon_def)
    then show ?thesis using q inv push sys_inv_ended [of l "view_of ?m" i "queue t'" e] by simp
  next
    case (3 m' now')
    then have "queue t' = queue t"
      using turn by (auto simp: thread_turn_def Let_def split_beta split: list.splits option.splits if_splits)
    then show ?thesis using 3 inv mon cmds [OF _ _ next_m] by (simp add: gesture_mon_def split: option.splits)
  qed
qed

section \<open>The engine's moves\<close>

lemma ended_ids_simps [simp]:
  "ended_ids [] = []" "ended_ids (EndedOut i # os) = i # ended_ids os" "ended_ids (xs @ ys) = ended_ids xs @ ended_ids ys"
  by (simp_all add: ended_ids_def)

lemma effects_owed: "effects_mon now v os = Some v' \<Longrightarrow> ev_owed v = ev_owed v' + mset (ended_ids os)"
proof (induction os arbitrary: v)
  case (Cons o' os)
  then obtain v1 where "effect_mon now v o' = Some v1" "effects_mon now v1 os = Some v'" by (auto split: option.splits)
  then show ?case
    using Cons.IH [of v1] by (cases o') (auto simp: ended_ids_def dest!: multi_member_split split: if_splits option.splits)
qed (simp add: ended_ids_def)

lemma engine_owed:
  assumes "engine_inv e" "task_event ev" "engine_step lower tn e ev = (e', os)"
  shows "mset (owed e) = mset (owed e') + mset (ended_ids os)"
proof -
  have "engine_mon (engine_abs e) (ev, os) = Some (engine_abs e')"
    using engine_step_accepted [OF assms(1), of ev lower tn] assms(3) by simp
  then have "ev_owed (event_view (engine_abs e) ev) = ev_owed (engine_abs e') + mset (ended_ids os)"
    unfolding engine_mon_def by (intro effects_owed) simp
  then show ?thesis
    using assms(2) by (cases ev) (auto simp: task_event_def event_view_def engine_abs_def owed_def)
qed

lemma take_stop_queued:
  assumes "\<not> hung_up e" "distinct (owed e)" "i \<in> set (owed (fst (take_action e t k now)))" "stop_queued i e"
  shows "stop_queued i (fst (take_action e t k now))"
proof (cases "channel e")
  case Nil
  then show ?thesis using assms by (simp add: take_action_def)
next
  case (Cons a as)
  show ?thesis
    using assms Cons
    by (cases a; cases "at e")
       (auto simp: take_action_def engine_flow owed_def stop_queued_def capturing_def has_stop_def split: if_splits)
qed

lemma ready_capturing:
  "channel (fst (completed lower tn e c now)) = channel e
   \<and> (capturing (at (fst (completed lower tn e c now))) = capturing (at e)
      \<or> capturing (at (fst (completed lower tn e c now))) = [])"
  by (cases "at e"; cases c)
     (auto simp: completed_def engine_flow capturing_def split: begin_result.splits option.splits sum.splits prod.splits)

lemma engine_stop_queued:
  assumes "\<not> hung_up e" "distinct (owed e)" "task_event ev" "i \<in> set (owed (fst (engine_step lower tn e ev)))" "stop_queued i e"
  shows "stop_queued i (fst (engine_step lower tn e ev))"
proof (cases ev)
  case (Take t k now)
  then show ?thesis using take_stop_queued assms by (simp add: engine_step_def)
next
  case (Ready c now)
  then show ?thesis
    using assms ready_capturing [of lower tn e c now]
    by (auto simp: engine_step_def stop_queued_def owed_def split: if_splits)
qed (use assms(3) in \<open>auto simp: task_event_def\<close>)

lemma engine_not_hung:
  assumes "\<not> hung_up e" "task_event ev"
  shows "\<not> hung_up (fst (engine_step lower tn e ev))"
proof (cases ev)
  case (Take t k now)
  then show ?thesis
    using assms by (cases "channel e"; cases "at e") (auto simp: engine_step_def take_action_def engine_flow split: action.splits)
next
  case (Ready c now)
  then show ?thesis
    using assms by (cases "at e"; cases c)
      (auto simp: engine_step_def completed_def engine_flow split: begin_result.splits option.splits sum.splits prod.splits)
qed (use assms in \<open>auto simp: task_event_def\<close>)

lemma sys_inv_engine:
  assumes inv: "sys_inv l v q e" "engine_inv e" and ev: "task_event ev" and step: "engine_step lower tn e ev = (e', os)"
  shows "sys_inv l v (q @ map Ended (ended_ids os)) e'"
proof -
  have ms: "mset (owed e) = mset (owed e') + mset (ended_ids os)" by (rule engine_owed [OF inv(2) ev step])
  have d: "distinct (owed e)" and h: "\<not> hung_up e" using inv(1) by (auto simp: sys_inv_def)
  have "distinct (owed e' @ ended_ids os)" using d ms by (metis mset_append mset_eq_imp_distinct_iff)
  then have parts: "distinct (owed e')" "set (owed e') \<inter> set (ended_ids os) = {}" by auto
  have sets: "set (owed e) = set (owed e') \<union> set (ended_ids os)"
    using ms by (metis mset_append set_append set_mset_mset)
  have stops: "i \<in> set (owed e') \<Longrightarrow> stop_queued i e \<Longrightarrow> stop_queued i e'" for i
    using engine_stop_queued [OF h d ev, of i lower tn] step by simp
  have "\<not> hung_up e'" using engine_not_hung [OF h ev, of lower tn] step by simp
  then show ?thesis using inv(1) parts sets stops unfolding sys_inv_def by auto
qed

section \<open>Reachable states\<close>

lemma notify_queue:
  "queue (notify_ended t is) = queue t @ map Ended (take (QUEUE - length (queue t)) is) \<and> machine (notify_ended t is) = machine t"
proof (induction "is" arbitrary: t)
  case (Cons i "is")
  have step: "notify_ended t (i # is) = notify_ended (trigger_ended t i) is" by (simp add: notify_ended_def)
  show ?case
  proof (cases "length (queue t) < QUEUE")
    case True
    then have "trigger_ended t i = t\<lparr>queue := queue t @ [Ended i]\<rparr>" "QUEUE - length (queue t) = Suc (QUEUE - Suc (length (queue t)))"
      by (simp_all add: trigger_ended_def trigger_send_def)
    then show ?thesis using Cons.IH [of "t\<lparr>queue := queue t @ [Ended i]\<rparr>"] by (simp add: step)
  next
    case False
    then show ?thesis using Cons.IH [of t] by (simp add: step trigger_ended_def trigger_send_def)
  qed
qed (simp add: notify_ended_def)

lemma sys_inv_drop: "sys_inv l v (q @ map Ended is) e \<Longrightarrow> sys_inv (l @ drop n is) v (q @ map Ended (take n is)) e"
  using set_append [of "take n is" "drop n is"] by (auto simp: sys_inv_def dest: in_set_takeD in_set_dropD)

text \<open>As long as the counter has not come near its end, it counts the Recordings started.\<close>

definition sys_good :: "joined \<Rightarrow> bool" where
  "sys_good x \<longleftrightarrow> next_id (machine (trg x)) = Suc (made x)
     \<and> sys_inv (lost x) (view_of (machine (trg x))) (queue (trg x)) (eng x) \<and> engine_inv (eng x)"

lemma push_engine_inv: "engine_inv e \<Longrightarrow> \<not> hung_up e \<Longrightarrow> engine_inv (push_commands e acts)"
  by (auto simp: engine_inv_def push_commands_def phase_of_def)

lemma sys_step_good:
  assumes "sys_step lower tn x y" "sys_good x" "made x + 1 < u64_max"
  shows "sys_good y"
  using assms(1)
proof cases
  case (hook_signals s now)
  then show ?thesis
    using assms(2) by (auto simp: sys_good_def trigger_signal_def trigger_send_def sys_inv_signal)
next
  case (thread_turns now t' w acts)
  have inv: "sys_inv (lost x) (view_of (machine (trg x))) (queue (trg x)) (eng x)" "engine_inv (eng x)"
    and next_x: "next_id (machine (trg x)) = Suc (made x)" using assms(2) by (auto simp: sys_good_def)
  have room: "next_id (machine (trg x)) < u64_max" using next_x assms(3) by simp
  have "\<not> hung_up (eng x)" using inv(1) by (simp add: sys_inv_def)
  moreover have "next_id (machine t') = next_id (machine (trg x)) + length (started acts)"
    using machine_step_started [OF room, of w] thread_turn_shape [OF thread_turns(2)] by auto
  ultimately show ?thesis
    using sys_inv_turn [OF inv(1) room thread_turns(2)] push_engine_inv [OF inv(2)] thread_turns(1) next_x by (simp add: sys_good_def)
next
  case (engine_moves ev e' os)
  have inv: "sys_inv (lost x) (view_of (machine (trg x))) (queue (trg x)) (eng x)" "engine_inv (eng x)"
    using assms(2) by (auto simp: sys_good_def)
  have "sys_inv (lost x) (view_of (machine (trg x))) (queue (trg x) @ map Ended (ended_ids os)) e'"
    by (rule sys_inv_engine [OF inv engine_moves(2,3)])
  moreover have "engine_inv e'" using engine_step_accepted [OF inv(2), of ev lower tn] engine_moves(3) by simp
  ultimately show ?thesis
    using assms(2) sys_inv_drop notify_queue [of "trg x" "ended_ids os"] engine_moves(1) by (simp add: sys_good_def dropped_def)
qed

lemma sys_reach_good: "sys_reach lower tn x \<Longrightarrow> made x + 1 < u64_max \<Longrightarrow> sys_good x"
proof (induction rule: sys_reach.induct)
  case sys_start
  show ?case
    by (simp add: joined_start_def sys_good_def sys_inv_def trigger_spawn_def engine_start_def owed_def capturing_def view_of_def
        gesture_default_def live_id_def engine_inv_def phase_fits_def phase_of_def)
next
  case (sys_more x y)
  have "made x \<le> made y" using sys_more.hyps(2) by cases simp_all
  then have room: "made x + 1 < u64_max" using sys_more.prems by simp
  show ?case by (rule sys_step_good [OF sys_more.hyps(2) sys_more.IH [OF room] room])
qed

end
