(* ===== verification/Wav.thy ===== *)
theory Wav
  imports Voisu_Prelude
begin

text \<open>
  Locating the PCM payload inside a streamed WAV container, \<open>crates/voisu-core/src/wav.rs\<close>.

  The scan works on offsets into a growing prefix, as the source does, with \<open>usize\<close> arithmetic
  checked at 64 bits. The specification is a grammar of chunk chains, an inductive predicate that
  knows nothing of offsets; the scan is shown to find exactly the payloads the grammar admits.
\<close>

section \<open>The scan\<close>

definition EXPECTED_FORMAT_PCM :: nat where "EXPECTED_FORMAT_PCM = 1"
definition EXPECTED_CHANNELS :: nat where "EXPECTED_CHANNELS = 1"
definition EXPECTED_SAMPLE_RATE :: nat where "EXPECTED_SAMPLE_RATE = 16000"
definition EXPECTED_BITS_PER_SAMPLE :: nat where "EXPECTED_BITS_PER_SAMPLE = 16"
definition EXPECTED_BLOCK_ALIGN :: nat where "EXPECTED_BLOCK_ALIGN = 2"
definition EXPECTED_BYTE_RATE :: nat where "EXPECTED_BYTE_RATE = 32000"

datatype wav_scan = Incomplete | DataAt nat | Invalid string

text \<open>\<open>&bytes[from..to]\<close>.\<close>

definition sub_slice :: "u8 list \<Rightarrow> nat \<Rightarrow> nat \<Rightarrow> u8 list" where
  "sub_slice p from to' = take (to' - from) (drop from p)"

definition checked_add :: "nat \<Rightarrow> nat \<Rightarrow> nat option" where
  "checked_add a b = (if a + b \<le> u64_max then Some (a + b) else None)"

definition advance_past_chunk :: "nat \<Rightarrow> nat \<Rightarrow> nat" where
  "advance_past_chunk body_end csize = sat_add_u64 body_end (csize mod 2)"

definition fmt_ok :: "u8 list \<Rightarrow> bool" where
  "fmt_ok body \<longleftrightarrow>
     from_le_bytes (sub_slice body 0 2) = EXPECTED_FORMAT_PCM
     \<and> from_le_bytes (sub_slice body 2 4) = EXPECTED_CHANNELS
     \<and> from_le_bytes (sub_slice body 4 8) = EXPECTED_SAMPLE_RATE
     \<and> from_le_bytes (sub_slice body 14 16) = EXPECTED_BITS_PER_SAMPLE
     \<and> from_le_bytes (sub_slice body 12 14) = EXPECTED_BLOCK_ALIGN
     \<and> from_le_bytes (sub_slice body 8 12) = EXPECTED_BYTE_RATE"

lemma checked_add_Some: "checked_add a b = Some c \<longleftrightarrow> c = a + b \<and> c \<le> u64_max"
  by (auto simp: checked_add_def)

lemma advance_ge: "body_end \<le> u64_max \<Longrightarrow> body_end \<le> advance_past_chunk body_end csize"
  by (simp add: advance_past_chunk_def sat_add_u64_def)

lemma advance_smaller:
  assumes "checked_add offset 8 = Some h" "\<not> length p < h" "checked_add h csize = Some b"
  shows "length p - advance_past_chunk b csize < length p - offset"
proof -
  have "offset + 8 \<le> advance_past_chunk b csize"
    using assms advance_ge [of b csize] by (auto simp: checked_add_Some)
  then show ?thesis using assms by (auto simp: checked_add_Some)
qed

function scan_chunks :: "u8 list \<Rightarrow> nat \<Rightarrow> bool \<Rightarrow> wav_scan" where
  "scan_chunks p offset fmt_validated =
     (case checked_add offset 8 of
        None \<Rightarrow> Invalid ''WAV chunk offset overflowed''
      | Some header_end \<Rightarrow>
          (if length p < header_end then Incomplete
           else
             (let chunk_id = sub_slice p offset (offset + 4);
                  csize = from_le_bytes (sub_slice p (offset + 4) (offset + 8))
              in if chunk_id = ascii_bytes ''data'' then
                   (if fmt_validated then DataAt header_end else Invalid ''WAV data chunk precedes its fmt chunk'')
                 else if chunk_id = ascii_bytes ''fmt '' then
                   (if csize < 16 then Invalid ''WAV fmt chunk is too short''
                    else case checked_add header_end csize of
                           None \<Rightarrow> Invalid ''WAV fmt chunk size overflowed''
                         | Some body_end \<Rightarrow>
                             (if length p < header_end + 16 then Incomplete
                              else if fmt_ok (sub_slice p header_end (header_end + 16))
                              then scan_chunks p (advance_past_chunk body_end csize) True
                              else Invalid ''WAV fmt chunk is not s16 / 16 kHz / mono PCM''))
                 else case checked_add header_end csize of
                        None \<Rightarrow> Invalid ''WAV chunk size overflowed''
                      | Some body_end \<Rightarrow> scan_chunks p (advance_past_chunk body_end csize) fmt_validated)))"
  by pat_completeness auto

termination
  by (relation "measure (\<lambda>(p, offset, _). length p - offset)") (auto intro: advance_smaller)

declare scan_chunks.simps [simp del]

definition scan_wav_pcm :: "u8 list \<Rightarrow> wav_scan" where
  "scan_wav_pcm p =
     (if length p \<ge> 4 \<and> sub_slice p 0 4 \<noteq> ascii_bytes ''RIFF'' then Invalid ''capture stream is not a RIFF container''
      else if length p \<ge> 12 \<and> sub_slice p 8 12 \<noteq> ascii_bytes ''WAVE'' then Invalid ''capture stream is not a WAVE stream''
      else if length p < 12 then Incomplete
      else scan_chunks p 12 False)"

section \<open>The grammar\<close>

text \<open>
  The first sixteen bytes of the one format: PCM, one channel, 16000 frames a second of two bytes, 16 bits
  a sample, in the order of the WAV format chunk.
\<close>

definition pcm_format :: "u8 list" where
  "pcm_format = to_le_bytes 2 1 @ to_le_bytes 2 1 @ to_le_bytes 4 16000 @ to_le_bytes 4 (16000 * 2) @ to_le_bytes 2 2 @ to_le_bytes 2 16"

text \<open>
  \<open>chain ok bytes n\<close>: the bytes are chunks whose \<open>data\<close> payload starts at offset \<open>n\<close>, where \<open>ok\<close> says
  that a valid format chunk came before them.
\<close>

inductive chain :: "bool \<Rightarrow> u8 list \<Rightarrow> nat \<Rightarrow> bool" where
  chain_data: "length sz = 4 \<Longrightarrow> chain True (ascii_bytes ''data'' @ sz @ payload) 8"
| chain_fmt: "chain True rest n \<Longrightarrow> length sz = 4 \<Longrightarrow> from_le_bytes sz = length body \<Longrightarrow> 16 \<le> length body \<Longrightarrow>
    take 16 body = pcm_format \<Longrightarrow> length pad = length body mod 2 \<Longrightarrow>
    chain ok (ascii_bytes ''fmt '' @ sz @ body @ pad @ rest) (8 + length body + length pad + n)"
| chain_skip: "chain ok rest n \<Longrightarrow> length name = 4 \<Longrightarrow> name \<noteq> ascii_bytes ''data'' \<Longrightarrow> name \<noteq> ascii_bytes ''fmt '' \<Longrightarrow>
    length sz = 4 \<Longrightarrow> from_le_bytes sz = length body \<Longrightarrow> length pad = length body mod 2 \<Longrightarrow>
    chain ok (name @ sz @ body @ pad @ rest) (8 + length body + length pad + n)"

definition wav_stream :: "u8 list \<Rightarrow> nat \<Rightarrow> bool" where
  "wav_stream p n \<longleftrightarrow>
     (\<exists>sz rest m. length sz = 4 \<and> p = ascii_bytes ''RIFF'' @ sz @ ascii_bytes ''WAVE'' @ rest
        \<and> chain False rest m \<and> n = 12 + m)"

lemma data_fmt_differ [simp]: "ascii_bytes ''data'' \<noteq> ascii_bytes ''fmt ''" "ascii_bytes ''fmt '' \<noteq> ascii_bytes ''data''"
  by (simp_all add: ascii_bytes_def byte_def)

lemma to_from_le_bytes: "to_le_bytes (length bs) (from_le_bytes bs) = bs"
proof (induction bs)
  case (Cons b bs)
  have b: "unat b < 256" using unsigned_less [of b] by simp
  have zero: "(256 :: u8) = 0" by simp
  have "(of_nat (unat b + 256 * from_le_bytes bs) :: u8) = b" by (simp only: of_nat_add of_nat_mult of_nat_numeral zero) simp
  moreover have "(unat b + 256 * from_le_bytes bs) div 256 = from_le_bytes bs" using b by simp
  ultimately show ?case using Cons by simp
qed simp

lemma pcm_format_length [simp]: "length pcm_format = 16"
  by (simp add: pcm_format_def)

lemma fmt_ok_format:
  assumes "length b = 16"
  shows "fmt_ok b \<longleftrightarrow> b = pcm_format"
proof
  assume ok: "fmt_ok b"
  have parts: "b = sub_slice b 0 2 @ sub_slice b 2 4 @ sub_slice b 4 8 @ sub_slice b 8 12 @ sub_slice b 12 14 @ sub_slice b 14 16"
    using assms append_take_drop_id [of 2 b] append_take_drop_id [of 2 "drop 2 b"] append_take_drop_id [of 4 "drop 4 b"]
      append_take_drop_id [of 4 "drop 8 b"] append_take_drop_id [of 2 "drop 12 b"] by (simp add: sub_slice_def)
  have field: "sub_slice b i j = to_le_bytes (j - i) (from_le_bytes (sub_slice b i j))" if "i \<le> j" "j \<le> 16" for i j
    using that assms to_from_le_bytes [of "sub_slice b i j"] by (simp add: sub_slice_def)
  show "b = pcm_format"
    unfolding pcm_format_def
    by (subst parts) (use ok field [of 0 2] field [of 2 4] field [of 4 8] field [of 8 12] field [of 12 14] field [of 14 16] in
      \<open>simp add: fmt_ok_def EXPECTED_FORMAT_PCM_def EXPECTED_CHANNELS_def EXPECTED_SAMPLE_RATE_def EXPECTED_BITS_PER_SAMPLE_def
        EXPECTED_BLOCK_ALIGN_def EXPECTED_BYTE_RATE_def\<close>)
next
  assume "b = pcm_format"
  then show "fmt_ok b"
    by (simp add: fmt_ok_def pcm_format_def sub_slice_def from_to_le_bytes EXPECTED_FORMAT_PCM_def EXPECTED_CHANNELS_def
        EXPECTED_SAMPLE_RATE_def EXPECTED_BITS_PER_SAMPLE_def EXPECTED_BLOCK_ALIGN_def EXPECTED_BYTE_RATE_def)
qed

text \<open>A prefix of addressable memory: sizes cannot overflow \<open>usize\<close>.\<close>

definition addressable :: "u8 list \<Rightarrow> bool" where
  "addressable p \<longleftrightarrow> length p < 2 ^ 63"

lemma checked_add_header:
  assumes "addressable p" "offset + 8 \<le> length p" "csize < 2 ^ 32"
  shows "checked_add offset 8 = Some (offset + 8)" "checked_add (offset + 8) csize = Some (offset + 8 + csize)"
    "advance_past_chunk (offset + 8 + csize) csize = offset + 8 + csize + csize mod 2"
proof -
  have "offset + 8 + csize + csize mod 2 \<le> u64_max"
    using assms by (simp add: addressable_def u64_max_def)
  then show "checked_add offset 8 = Some (offset + 8)" "checked_add (offset + 8) csize = Some (offset + 8 + csize)"
    "advance_past_chunk (offset + 8 + csize) csize = offset + 8 + csize + csize mod 2"
    by (simp_all add: checked_add_def advance_past_chunk_def sat_add_u64_def)
qed

text \<open>The chunk at an offset, cut into its parts.\<close>

lemma slice_at:
  assumes "drop offset p = name @ sz @ tail" "length name = 4" "length sz = 4"
  shows "sub_slice p offset (offset + 4) = name" "sub_slice p (offset + 4) (offset + 8) = sz"
    "drop (offset + 8) p = tail" "offset + 8 \<le> length p"
proof -
  have d4: "drop (offset + 4) p = sz @ tail"
    using assms by (metis add.commute append_eq_conv_conj drop_drop)
  show "sub_slice p offset (offset + 4) = name" using assms by (simp add: sub_slice_def)
  show "sub_slice p (offset + 4) (offset + 8) = sz" using assms d4 by (simp add: sub_slice_def)
  show "drop (offset + 8) p = tail"
    using d4 assms(3) drop_drop [of 4 "offset + 4" p] by (simp add: add.commute)
  have "length (drop offset p) \<ge> 8" using assms by simp
  then show "offset + 8 \<le> length p" by simp
qed

lemma size_bound: "length sz = 4 \<Longrightarrow> from_le_bytes sz < 2 ^ 32"
  using from_le_bytes_bound [of sz] by simp

text \<open>One turn of the scan on an addressable prefix: the overflow branches are out of reach.\<close>

lemma scan_step:
  assumes "addressable p" "offset + 8 \<le> length p" "sub_slice p offset (offset + 4) = name"
    "sub_slice p (offset + 4) (offset + 8) = sz" "csize = from_le_bytes sz"
  shows "scan_chunks p offset b =
      (if name = ascii_bytes ''data'' then
         (if b then DataAt (offset + 8) else Invalid ''WAV data chunk precedes its fmt chunk'')
       else if name = ascii_bytes ''fmt '' then
         (if csize < 16 then Invalid ''WAV fmt chunk is too short''
          else if length p < offset + 8 + 16 then Incomplete
          else if fmt_ok (sub_slice p (offset + 8) (offset + 8 + 16)) then scan_chunks p (offset + 8 + csize + csize mod 2) True
          else Invalid ''WAV fmt chunk is not s16 / 16 kHz / mono PCM'')
       else scan_chunks p (offset + 8 + csize + csize mod 2) b)"
proof -
  have "length sz = 4" using assms(2,4) by (auto simp: sub_slice_def)
  then have "csize < 2 ^ 32" unfolding assms(5) by (rule size_bound)
  note adds = checked_add_header [OF assms(1,2) this]
  show ?thesis using adds assms by (subst scan_chunks.simps) (simp add: Let_def)
qed

lemma drop_append4: "drop offset p = name @ sz @ body @ pad @ rest \<Longrightarrow> length name = 4 \<Longrightarrow> length sz = 4 \<Longrightarrow>
    drop (offset + 8 + length body + length pad) p = rest"
proof -
  assume a: "drop offset p = name @ sz @ body @ pad @ rest" "length name = 4" "length sz = 4"
  have "drop (offset + 8 + length body + length pad) p = drop (8 + length body + length pad) (drop offset p)"
    by (simp add: ac_simps)
  then show ?thesis using a by simp
qed

lemma scan_complete:
  "chain b bs m \<Longrightarrow> drop offset p = bs \<Longrightarrow> addressable p \<Longrightarrow> scan_chunks p offset b = DataAt (offset + m)"
proof (induction arbitrary: offset rule: chain.induct)
  case (chain_data sz payload)
  note at = slice_at [OF chain_data(2) _ chain_data(1), simplified]
  show ?case using scan_step [OF chain_data(3) at(4,1,2) refl, of True] by simp
next
  case (chain_fmt rest n sz body pad ok)
  note at = slice_at [OF chain_fmt.prems(1) _ chain_fmt(2), simplified]
  have "length p - (offset + 8) \<ge> 16" using arg_cong [OF at(3), of length] chain_fmt(4) by simp
  then have room: "\<not> length p < offset + 8 + 16" by simp
  have body: "sub_slice p (offset + 8) (offset + 8 + 16) = take 16 body" using at(3) chain_fmt(4) by (simp add: sub_slice_def)
  have "scan_chunks p (offset + 8 + length body + length body mod 2) True = DataAt (offset + (8 + length body + length pad + n))"
    using chain_fmt.IH [OF drop_append4 [OF chain_fmt.prems(1) _ chain_fmt(2)] chain_fmt.prems(2)] chain_fmt(6)
    by (simp add: add.assoc)
  then show ?case
    using scan_step [OF chain_fmt.prems(2) at(4,1,2) chain_fmt(3) [symmetric], of ok] room chain_fmt(4,5) body fmt_ok_format [of "take 16 body"] by simp
next
  case (chain_skip ok rest n name sz body pad)
  note at = slice_at [OF chain_skip.prems(1) chain_skip(2) chain_skip(5)]
  have "scan_chunks p (offset + 8 + length body + length body mod 2) ok = DataAt (offset + (8 + length body + length pad + n))"
    using chain_skip.IH [OF drop_append4 [OF chain_skip.prems(1) chain_skip(2,5)] chain_skip.prems(2)] chain_skip(7)
    by (simp add: add.assoc)
  then show ?case
    using scan_step [OF chain_skip.prems(2) at(4,1,2) chain_skip(6) [symmetric], of ok] chain_skip(3,4) by simp
qed

lemma scan_data_header: "scan_chunks p offset b = DataAt n \<Longrightarrow> offset + 8 \<le> length p"
  by (subst (asm) scan_chunks.simps) (auto simp: checked_add_def split: if_splits)

text \<open>A chunk whose successor is still inside the prefix, cut into its parts.\<close>

lemma chunk_parts:
  assumes "offset + 8 + csize + csize mod 2 \<le> length p"
  shows "drop offset p = sub_slice p offset (offset + 4) @ sub_slice p (offset + 4) (offset + 8)
      @ sub_slice p (offset + 8) (offset + 8 + csize) @ sub_slice p (offset + 8 + csize) (offset + 8 + csize + csize mod 2)
      @ drop (offset + 8 + csize + csize mod 2) p"
proof -
  have cut: "\<And>a k. drop a p = take k (drop a p) @ drop (a + k) p"
    by (metis add.commute append_take_drop_id drop_drop)
  have "drop offset p = take 4 (drop offset p) @ drop (offset + 4) p" by (rule cut)
  also have "drop (offset + 4) p = take 4 (drop (offset + 4) p) @ drop (offset + 8) p"
    using cut [of "offset + 4" 4] by (simp add: add.commute)
  also have "drop (offset + 8) p = take csize (drop (offset + 8) p) @ drop (offset + 8 + csize) p" by (rule cut)
  also have "drop (offset + 8 + csize) p
      = take (csize mod 2) (drop (offset + 8 + csize) p) @ drop (offset + 8 + csize + csize mod 2) p" by (rule cut)
  finally show ?thesis by (simp add: sub_slice_def)
qed

lemma slice_length: "b \<le> length p \<Longrightarrow> length (sub_slice p a b) = b - a"
  by (simp add: sub_slice_def)

lemma scan_sound:
  "scan_chunks p offset b = DataAt n \<Longrightarrow> addressable p \<Longrightarrow> \<exists>m. n = offset + m \<and> chain b (drop offset p) m"
proof (induction p offset b rule: scan_chunks.induct)
  case (1 p offset b)
  let ?name = "sub_slice p offset (offset + 4)"
  let ?sz = "sub_slice p (offset + 4) (offset + 8)"
  define csize where "csize = from_le_bytes ?sz"
  let ?next = "offset + 8 + csize + csize mod 2"
  have h: "offset + 8 \<le> length p" using "1.prems"(1) by (rule scan_data_header)
  have len: "length ?name = 4" "length ?sz = 4" using h by (simp_all add: slice_length)
  have small: "csize < 2 ^ 32" unfolding csize_def by (rule size_bound [OF len(2)])
  note adds = checked_add_header [OF "1.prems"(2) h small]
  note step = scan_step [OF "1.prems"(2) h refl refl csize_def, of b]
  have rest: "length (sub_slice p (offset + 8) (offset + 8 + csize)) = csize"
    "length (sub_slice p (offset + 8 + csize) ?next) = csize mod 2" if "?next \<le> length p"
    using that by (simp_all add: slice_length)
  consider (data) "?name = ascii_bytes ''data''" "b" "n = offset + 8"
    | (fmt) "?name = ascii_bytes ''fmt ''" "\<not> csize < 16" "fmt_ok (sub_slice p (offset + 8) (offset + 8 + 16))"
        "offset + 8 + 16 \<le> length p" "scan_chunks p ?next True = DataAt n"
    | (skip) "?name \<noteq> ascii_bytes ''data''" "?name \<noteq> ascii_bytes ''fmt ''" "scan_chunks p ?next b = DataAt n"
    using "1.prems"(1) step by (auto split: if_splits)
  then show ?case
  proof cases
    case data
    have "drop offset p = ?name @ ?sz @ drop (offset + 8) p"
      using chunk_parts [of offset 0 p] h by (simp add: sub_slice_def)
    then show ?thesis using data chain.chain_data [OF len(2), of "drop (offset + 8) p"] by auto
  next
    case fmt
    have n: "?next \<le> length p" using scan_data_header [OF fmt(5)] by simp
    obtain m where m: "n = ?next + m" "chain True (drop ?next p) m"
      using "1.IH"(1) [OF adds(1) _ refl refl, of "offset + 8 + csize"] fmt len h adds "1.prems"(2)
      by (auto simp: csize_def [symmetric])
    have body: "take 16 (sub_slice p (offset + 8) (offset + 8 + csize)) = sub_slice p (offset + 8) (offset + 8 + 16)"
      using fmt(2) by (simp add: sub_slice_def min_def)
    show ?thesis
      using m rest [OF n] chunk_parts [OF n]
        chain.chain_fmt [OF m(2) len(2), of "sub_slice p (offset + 8) (offset + 8 + csize)"
          "sub_slice p (offset + 8 + csize) ?next" b] fmt body fmt_ok_format [of "sub_slice p (offset + 8) (offset + 8 + 16)"]
        slice_length [OF fmt(4), of "offset + 8"]
      by (intro exI [of _ "8 + csize + csize mod 2 + m"]) (simp add: csize_def [symmetric])
  next
    case skip
    have n: "?next \<le> length p" using scan_data_header [OF skip(3)] by simp
    obtain m where m: "n = ?next + m" "chain b (drop ?next p) m"
      using "1.IH"(2) [OF adds(1) _ refl refl, of "offset + 8 + csize"] skip len h adds "1.prems"(2)
      by (auto simp: csize_def [symmetric])
    show ?thesis
      using m rest [OF n] chunk_parts [OF n]
        chain.chain_skip [OF m(2) len(1) skip(1,2) len(2), of "sub_slice p (offset + 8) (offset + 8 + csize)"
          "sub_slice p (offset + 8 + csize) ?next"]
      by (intro exI [of _ "8 + csize + csize mod 2 + m"]) (simp add: csize_def [symmetric])
  qed
qed

lemma sub_slice_append: "b \<le> length p \<Longrightarrow> sub_slice (p @ q) a b = sub_slice p a b"
  by (simp add: sub_slice_def)

lemma scan_chunks_final:
  "scan_chunks p offset b \<noteq> Incomplete \<Longrightarrow> scan_chunks (p @ q) offset b = scan_chunks p offset b"
proof (induction p offset b rule: scan_chunks.induct)
  case (1 p offset b)
  show ?case
  proof (cases "checked_add offset 8")
    case None
    then show ?thesis by (simp add: scan_chunks.simps [of _ offset b])
  next
    case (Some h)
    then have "h \<le> length p" using "1.prems" by (subst (asm) scan_chunks.simps) (auto split: if_splits)
    then have same: "sub_slice (p @ q) offset (offset + 4) = sub_slice p offset (offset + 4)"
      "sub_slice (p @ q) (offset + 4) (offset + 8) = sub_slice p (offset + 4) (offset + 8)"
      "h + 16 \<le> length p \<Longrightarrow> sub_slice (p @ q) h (h + 16) = sub_slice p h (h + 16)"
      using Some by (auto simp: checked_add_Some sub_slice_append)
    show ?thesis
      using "1.prems" "1.IH" [OF Some] Some \<open>h \<le> length p\<close>
      by (simp add: scan_chunks.simps [of _ offset b] Let_def same split: option.splits if_splits)
  qed
qed

section \<open>Properties\<close>

text \<open>
  Claim C25. The scan is exact: it reports a payload at an offset exactly when the bytes are a
  RIFF/WAVE preamble followed by a chain of chunks that leads there, in which a complete s16, 16 kHz,
  mono format chunk comes before \<open>data\<close>, every format chunk before it is that format, and every other
  chunk is skipped by its size and pad byte.
\<close>
theorem scan_exact:
  assumes "addressable p"
  shows "scan_wav_pcm p = DataAt n \<longleftrightarrow> wav_stream p n"
proof
  assume scan: "scan_wav_pcm p = DataAt n"
  then have pre: "12 \<le> length p" "sub_slice p 0 4 = ascii_bytes ''RIFF''" "sub_slice p 8 12 = ascii_bytes ''WAVE''"
    "scan_chunks p 12 False = DataAt n"
    by (auto simp: scan_wav_pcm_def split: if_splits)
  obtain m where m: "n = 12 + m" "chain False (drop 12 p) m" using scan_sound [OF pre(4) assms] by auto
  have "p = take 4 p @ take 4 (drop 4 p) @ take 4 (drop 8 p) @ drop 12 p"
    using append_take_drop_id [of 4 p] append_take_drop_id [of 4 "drop 4 p"] append_take_drop_id [of 4 "drop 8 p"] by simp
  then have "p = ascii_bytes ''RIFF'' @ take 4 (drop 4 p) @ ascii_bytes ''WAVE'' @ drop 12 p"
    using pre(2,3) by (simp add: sub_slice_def)
  then show "wav_stream p n" unfolding wav_stream_def using m pre(1) by force
next
  assume "wav_stream p n"
  then obtain sz rest m where p: "length sz = 4" "p = ascii_bytes ''RIFF'' @ sz @ ascii_bytes ''WAVE'' @ rest"
    and m: "chain False rest m" "n = 12 + m"
    unfolding wav_stream_def by blast
  have "drop 12 p = rest" using p by simp
  then have "scan_chunks p 12 False = DataAt n" using scan_complete [OF m(1) _ assms] m(2) by simp
  then show "scan_wav_pcm p = DataAt n" using p by (simp add: scan_wav_pcm_def sub_slice_def)
qed

definition sample_wav :: "u8 list" where
  "sample_wav = ascii_bytes ''RIFF'' @ [0, 0, 0, 0] @ ascii_bytes ''WAVE''
     @ ascii_bytes ''LIST'' @ [1, 0, 0, 0, 7, 0]
     @ ascii_bytes ''fmt '' @ [16, 0, 0, 0] @ [1, 0, 1, 0, 0x80, 0x3E, 0, 0, 0, 0x7D, 0, 0, 2, 0, 16, 0]
     @ ascii_bytes ''data'' @ [255, 255, 255, 255] @ [1, 2]"

lemma sample_format: "pcm_format = [1, 0, 1, 0, 0x80, 0x3E, 0, 0, 0, 0x7D, 0, 0, 2, 0, 16, 0]"
  unfolding pcm_format_def to_le_bytes_4 to_le_bytes_2 by simp

lemma sample_wav_stream: "wav_stream sample_wav 54"
proof -
  let ?body = "[1, 0, 1, 0, 0x80, 0x3E, 0, 0, 0, 0x7D, 0, 0, 2, 0, 16, 0] :: u8 list"
  have "chain True (ascii_bytes ''data'' @ [255, 255, 255, 255] @ [1, 2]) 8" by (rule chain_data) simp
  then have "chain False (ascii_bytes ''fmt '' @ [16, 0, 0, 0] @ ?body @ [] @ ascii_bytes ''data'' @ [255, 255, 255, 255] @ [1, 2])
      (8 + length ?body + length ([] :: u8 list) + 8)"
    by (rule chain_fmt) (simp_all add: sample_format)
  then have "chain False (ascii_bytes ''LIST'' @ [1, 0, 0, 0] @ [7] @ [0] @ ascii_bytes ''fmt '' @ [16, 0, 0, 0] @ ?body @ []
      @ ascii_bytes ''data'' @ [255, 255, 255, 255] @ [1, 2]) (8 + length [7 :: u8] + length [0 :: u8] + (8 + length ?body + length ([] :: u8 list) + 8))"
    by (rule chain_skip) (simp_all add: ascii_bytes_def byte_def)
  then show ?thesis
    unfolding wav_stream_def sample_wav_def
    by (intro exI [of _ "[0, 0, 0, 0]"] exI conjI) (auto simp: numeral_eq_Suc)
qed

theorem scan_exact_witness: "scan_wav_pcm sample_wav = DataAt 54 \<and> addressable sample_wav"
proof -
  have "addressable sample_wav" by (simp add: addressable_def sample_wav_def)
  then show ?thesis using scan_exact [of sample_wav 54] sample_wav_stream by simp
qed

text \<open>
  The incremental verdict is final: once a prefix of the stream is accepted or refused,
  every longer prefix is, with the same offset or the same reason.
\<close>
theorem scan_verdict_final:
  assumes "scan_wav_pcm p \<noteq> Incomplete"
  shows "scan_wav_pcm (p @ q) = scan_wav_pcm p"
proof -
  have "length p \<ge> 4 \<Longrightarrow> sub_slice (p @ q) 0 4 = sub_slice p 0 4"
    "length p \<ge> 12 \<Longrightarrow> sub_slice (p @ q) 8 12 = sub_slice p 8 12"
    by (simp_all add: sub_slice_append)
  then show ?thesis
    using assms scan_chunks_final [of p 12 False q] by (auto simp: scan_wav_pcm_def split: if_splits)
qed

theorem scan_verdict_final_witness:
  "scan_wav_pcm (ascii_bytes ''OggS'' @ [3, 4]) = Invalid ''capture stream is not a RIFF container''"
proof -
  have "scan_wav_pcm (ascii_bytes ''OggS'') = Invalid ''capture stream is not a RIFF container''"
    by (simp add: scan_wav_pcm_def sub_slice_def ascii_bytes_def byte_def)
  then show ?thesis using scan_verdict_final [of "ascii_bytes ''OggS''" "[3, 4]"] by simp
qed

end
