(* ===== verification/Session.thy ===== *)
theory Session
  imports Boundary
begin

text \<open>
  Pure decisions of \<open>voisu-core\<close> about the running system: the display session and its clipboard tools
  (\<open>crates/voisu-core/src/session.rs\<close>), stop-anchored timings (\<open>timing.rs\<close>), and the ASR mode and
  Local readiness types (\<open>asr_mode.rs\<close>).
\<close>

section \<open>Display session\<close>

datatype session_kind = Wayland | X11 | UnknownSession

record session_resolution =
  session :: session_kind
  xwayland_fallback :: bool

definition is_present :: "string option \<Rightarrow> bool" where
  "is_present v = (case v of Some s \<Rightarrow> s \<noteq> [] | None \<Rightarrow> False)"

definition resolve_session :: "string option \<Rightarrow> string option \<Rightarrow> string option \<Rightarrow> session_resolution" where
  "resolve_session wayland_display x11_display session_type =
     (let wayland = is_present wayland_display;
          x11 = is_present x11_display;
          declared = (case session_type of Some v \<Rightarrow> (if v = [] then None else Some v) | None \<Rightarrow> None);
          declared_wayland = (case declared of Some v \<Rightarrow> eq_ignore_ascii_case v ''wayland'' | None \<Rightarrow> False);
          declared_x11 = (case declared of Some v \<Rightarrow> eq_ignore_ascii_case v ''x11'' | None \<Rightarrow> False)
      in \<lparr>session =
            (if declared_wayland then (if wayland then Wayland else if x11 then X11 else UnknownSession)
             else if declared_x11 then (if x11 then X11 else UnknownSession)
             else if wayland then Wayland
             else if x11 then X11
             else UnknownSession),
          xwayland_fallback = (declared_wayland \<and> \<not> wayland \<and> x11)\<rparr>)"

datatype clipboard_tool = WlClipboard | Xclip

fun write_command :: "clipboard_tool \<Rightarrow> string \<times> string list" where
  "write_command WlClipboard = (''wl-copy'', [''--''])"
| "write_command Xclip = (''xclip'', [''-selection'', ''clipboard'', ''-in''])"

fun read_command :: "clipboard_tool \<Rightarrow> string \<times> string list" where
  "read_command WlClipboard = (''wl-paste'', [''--no-newline''])"
| "read_command Xclip = (''xclip'', [''-selection'', ''clipboard'', ''-out''])"

fun install_package :: "clipboard_tool \<Rightarrow> string" where
  "install_package WlClipboard = ''wl-clipboard''"
| "install_package Xclip = ''xclip''"

fun clipboard_candidates :: "session_kind \<Rightarrow> clipboard_tool list" where
  "clipboard_candidates Wayland = [WlClipboard]"
| "clipboard_candidates X11 = [Xclip]"
| "clipboard_candidates UnknownSession = [WlClipboard, Xclip]"

datatype package_manager = Apt | Dnf | Pacman | Zypper

fun probe_binary :: "package_manager \<Rightarrow> string" where
  "probe_binary Apt = ''apt''"
| "probe_binary Dnf = ''dnf''"
| "probe_binary Pacman = ''pacman''"
| "probe_binary Zypper = ''zypper''"

fun install_command :: "package_manager \<Rightarrow> string \<Rightarrow> string" where
  "install_command Apt package = ''sudo apt install '' @ package"
| "install_command Dnf package = ''sudo dnf install '' @ package"
| "install_command Pacman package = ''sudo pacman -S '' @ package"
| "install_command Zypper package = ''sudo zypper install '' @ package"

definition PACKAGE_MANAGERS :: "package_manager list" where
  "PACKAGE_MANAGERS = [Apt, Dnf, Pacman, Zypper]"

definition install_instruction :: "package_manager option \<Rightarrow> string \<Rightarrow> string" where
  "install_instruction m package =
     (case m of Some manager \<Rightarrow> install_command manager package
      | None \<Rightarrow> ''install '' @ package @ '' with your package manager'')"

section \<open>Stop-anchored timings\<close>

record stop_anchored_timings_rec =
  recording_duration_ms :: nat
  stop_to_finalized_ms :: nat
  stop_to_delivered_ms :: nat

definition millis_between :: "instant \<Rightarrow> instant \<Rightarrow> nat" where
  "millis_between from to' = duration_millis (saturating_duration_since to' from)"

definition stop_anchored_timings :: "instant \<Rightarrow> instant \<Rightarrow> instant \<Rightarrow> instant \<Rightarrow> stop_anchored_timings_rec" where
  "stop_anchored_timings recording_start utterance_end finalized_at delivered_at =
     \<lparr>recording_duration_ms = millis_between recording_start utterance_end,
      stop_to_finalized_ms = millis_between utterance_end finalized_at,
      stop_to_delivered_ms = millis_between utterance_end delivered_at\<rparr>"

section \<open>ASR mode\<close>

datatype asr_mode = Cloud | Local

fun asr_mode_as_str :: "asr_mode \<Rightarrow> string" where
  "asr_mode_as_str Cloud = ''cloud''"
| "asr_mode_as_str Local = ''local''"

definition asr_mode_parse :: "string \<Rightarrow> asr_mode option" where
  "asr_mode_parse v = (if v = ''cloud'' then Some Cloud else if v = ''local'' then Some Local else None)"

datatype local_readiness =
    LocalAbsent | Verifying | Loading | LocalReady "string option" | Busy | Stopping | LocalUnavailable string

definition is_ready :: "local_readiness \<Rightarrow> bool" where
  "is_ready r = (case r of LocalReady _ \<Rightarrow> True | _ \<Rightarrow> False)"

definition admits_capture :: "local_readiness \<Rightarrow> bool" where
  "admits_capture r = is_ready r"

record asr_mode_status =
  pending_mode :: "asr_mode option"
  active_mode :: "asr_mode option"
  mode_revision :: "nat option"
  local_readiness_of :: local_readiness
  admission_error :: "string option"
  audio_retention :: "string option"
  local_path_clean :: "bool option"

section \<open>Properties\<close>

lemma asr_mode_roundtrip: "asr_mode_parse v = Some m \<longleftrightarrow> v = asr_mode_as_str m"
  by (cases m) (auto simp: asr_mode_parse_def)

lemma duration_millis_mono: "d \<le> d' \<Longrightarrow> duration_millis d \<le> duration_millis d'"
  by (simp add: duration_millis_def div_le_mono min_le_iff_disj)

lemma timings_ordered:
  "finalized_at \<le> delivered_at \<Longrightarrow>
   stop_to_finalized_ms (stop_anchored_timings s u finalized_at delivered_at) \<le>
   stop_to_delivered_ms (stop_anchored_timings s u finalized_at delivered_at)"
  by (simp add: stop_anchored_timings_def millis_between_def saturating_duration_since_def duration_millis_mono)

text \<open>
  A session is resolved only to a display that exists: Wayland needs its display variable,
  X11 needs its own, the XWayland report goes with an X11 session that has no Wayland display, and
  the session is unknown, so that every clipboard tool is tried, exactly when no display is present
  or the login session declares X11 and has no X11 display.
\<close>
theorem session_endpoint_exists:
  "(session (resolve_session w x t) = Wayland \<longrightarrow> is_present w)
   \<and> (session (resolve_session w x t) = X11 \<longrightarrow> is_present x)
   \<and> (xwayland_fallback (resolve_session w x t) \<longrightarrow> session (resolve_session w x t) = X11 \<and> \<not> is_present w)
   \<and> (clipboard_candidates (session (resolve_session w x t)) = [WlClipboard, Xclip] \<longleftrightarrow>
        \<not> is_present x \<and> (is_present w \<longrightarrow> (\<exists>v. t = Some v \<and> eq_ignore_ascii_case v ''x11'')))"
proof -
  have "\<not> eq_ignore_ascii_case [] ''x11''" "\<not> eq_ignore_ascii_case [] ''wayland''"
    by (simp_all add: eq_ignore_ascii_case_def)
  moreover have "eq_ignore_ascii_case v ''x11'' \<Longrightarrow> \<not> eq_ignore_ascii_case v ''wayland''" for v
    by (auto simp: eq_ignore_ascii_case_def)
  ultimately show ?thesis
    by (cases t) (auto simp: resolve_session_def Let_def split: if_splits)
qed

theorem session_endpoint_exists_witness:
  "session (resolve_session None (Some '':0'') (Some ''Wayland'')) = X11
   \<and> \<not> is_present (None :: string option)
   \<and> xwayland_fallback (resolve_session None (Some '':0'') (Some ''Wayland''))"
proof -
  have "xwayland_fallback (resolve_session None (Some '':0'') (Some ''Wayland''))" by code_simp
  then show ?thesis using session_endpoint_exists [of None "Some '':0''" "Some ''Wayland''"] by simp
qed

end
