(* ===== verification/Bounds.thy ===== *)
theory Bounds
  imports Voisu_Prelude
begin

text \<open>
  The Local worker's locked bounds and resource envelope,
  \<open>crates/voisu-app/src/local_worker/bounds.rs\<close>. The contents of \<open>/proc/meminfo\<close> and the number of
  cores the platform reports are arguments.
\<close>

section \<open>Constants\<close>

definition MAX_PCM_BYTES :: nat where "MAX_PCM_BYTES = 19200000"
definition MAX_RECORDING :: duration where "MAX_RECORDING = from_secs 600"
definition MAX_JSON_FRAME_BYTES :: nat where "MAX_JSON_FRAME_BYTES = 64 * 1024"
definition MAX_JSON_DEPTH :: nat where "MAX_JSON_DEPTH = 8"
definition MAX_JSON_FIELDS :: nat where "MAX_JSON_FIELDS = 64"
definition MAX_METADATA_BYTES :: nat where "MAX_METADATA_BYTES = 16 * 1024"
definition MAX_TRANSCRIPT_BYTES :: nat where "MAX_TRANSCRIPT_BYTES = 24 * 1024"
definition MAX_RETAINED_STDERR_BYTES :: nat where "MAX_RETAINED_STDERR_BYTES = 4 * 1024"
definition MAX_ERROR_METADATA_BYTES :: nat where "MAX_ERROR_METADATA_BYTES = 4 * 1024"
definition MAX_CACHE_BYTES :: nat where "MAX_CACHE_BYTES = 256 * 1024 * 1024"
definition LOAD_DEADLINE :: duration where "LOAD_DEADLINE = from_secs 60"
definition STOP_PROCESSING :: duration where "STOP_PROCESSING = from_secs 45"
definition CANCEL_GRACE :: duration where "CANCEL_GRACE = from_millis 500"
definition REAP_OBSERVE :: duration where "REAP_OBSERVE = from_secs 2"
definition IPC_MARGIN :: duration where "IPC_MARGIN = from_secs 3"
definition MAX_RESTARTS :: nat where "MAX_RESTARTS = 3"
definition RESTART_WINDOW :: duration where "RESTART_WINDOW = from_secs (5 * 60)"
definition MAX_WORKER_TASKS :: nat where "MAX_WORKER_TASKS = 64"
definition MAX_CPU_CORES :: nat where "MAX_CPU_CORES = 4"
definition MAX_MEMORY_BYTES :: nat where "MAX_MEMORY_BYTES = 4 * 1024 * 1024 * 1024"
definition MAX_VRAM_FRACTION_NUM :: nat where "MAX_VRAM_FRACTION_NUM = 75"
definition MAX_VRAM_FRACTION_DEN :: nat where "MAX_VRAM_FRACTION_DEN = 100"

section \<open>The envelope\<close>

definition local_response_deadline :: duration where
  "local_response_deadline = STOP_PROCESSING + CANCEL_GRACE + REAP_OBSERVE + IPC_MARGIN"

definition worker_memory_ceiling_bytes :: "nat \<Rightarrow> nat" where
  "worker_memory_ceiling_bytes physical_ram = min MAX_MEMORY_BYTES (physical_ram div 2)"

definition worker_cpu_quota_cores :: "nat \<Rightarrow> nat" where
  "worker_cpu_quota_cores host_cores = max 1 (min (host_cores div 2) MAX_CPU_CORES)"

record worker_resource_limits =
  memory_max_bytes :: nat
  cpu_quota_cores :: nat
  tasks_max :: nat
  cache_max_bytes :: nat

definition resolve_worker_limits :: "nat \<Rightarrow> nat \<Rightarrow> worker_resource_limits" where
  "resolve_worker_limits ram cores =
     \<lparr>memory_max_bytes = worker_memory_ceiling_bytes ram, cpu_quota_cores = worker_cpu_quota_cores cores,
      tasks_max = MAX_WORKER_TASKS, cache_max_bytes = MAX_CACHE_BYTES\<rparr>"

text \<open>\<open>str::lines\<close>, \<open>split_whitespace().next()\<close> and \<open>parse::<u64>()\<close>.\<close>

definition chomp :: "string \<Rightarrow> string" where
  "chomp l = (if l \<noteq> [] \<and> last l = CHR 0x0D then butlast l else l)"

definition str_lines :: "string \<Rightarrow> string list" where
  "str_lines s =
     (let ls = split_char (CHR 0x0A) s
      in map chomp (butlast ls) @ (if last ls = [] then [] else [last ls]))"

fun until_ws :: "string \<Rightarrow> string" where
  "until_ws [] = []"
| "until_ws (c # cs) = (if ws_len (c # cs) > 0 then [] else c # until_ws cs)"

definition first_word :: "string \<Rightarrow> string option" where
  "first_word s = (let t = until_ws (trim_start s) in if t = [] then None else Some t)"

definition decimal_value :: "string \<Rightarrow> nat" where
  "decimal_value ds = foldl (\<lambda>n d. n * 10 + (byte d - 48)) 0 ds"

definition parse_u64 :: "string \<Rightarrow> nat option" where
  "parse_u64 s =
     (let ds = (case s of c # r \<Rightarrow> if c = CHR ''+'' then r else s | [] \<Rightarrow> s)
      in if ds \<noteq> [] \<and> list_all is_ascii_digit ds \<and> decimal_value ds \<le> u64_max then Some (decimal_value ds) else None)"

fun mem_total :: "string list \<Rightarrow> nat option" where
  "mem_total [] = None"
| "mem_total (line # ls) =
     (case strip_prefix ''MemTotal:'' line of
        Some rest \<Rightarrow>
          (case first_word rest of None \<Rightarrow> None
           | Some w \<Rightarrow> (case parse_u64 w of None \<Rightarrow> None
                        | Some kib \<Rightarrow> (if kib * 1024 \<le> u64_max then Some (kib * 1024) else None)))
      | None \<Rightarrow> mem_total ls)"

definition host_physical_ram_bytes :: "string option \<Rightarrow> nat option" where
  "host_physical_ram_bytes meminfo = (case meminfo of None \<Rightarrow> None | Some t \<Rightarrow> mem_total (str_lines t))"

definition u32_max :: nat where "u32_max = 2 ^ 32 - 1"

definition host_cpu_cores :: "nat option \<Rightarrow> nat" where
  "host_cpu_cores available = max 1 (case available of Some n \<Rightarrow> min n u32_max | None \<Rightarrow> 1)"

record live_host_limits =
  lh_ram :: "nat option"
  lh_cores :: nat
  lh_limits :: worker_resource_limits

definition resolve_live_worker_limits :: "string option \<Rightarrow> nat option \<Rightarrow> live_host_limits option" where
  "resolve_live_worker_limits meminfo available =
     (case host_physical_ram_bytes meminfo of None \<Rightarrow> None
      | Some ram \<Rightarrow>
          (let cores = host_cpu_cores available
           in Some \<lparr>lh_ram = Some ram, lh_cores = cores, lh_limits = resolve_worker_limits ram cores\<rparr>))"

definition vram_budget_bytes :: "nat \<Rightarrow> nat" where
  "vram_budget_bytes total_vram = sat_mul_u64 total_vram MAX_VRAM_FRACTION_NUM div MAX_VRAM_FRACTION_DEN"

definition cache_usage_within_budget :: "nat \<Rightarrow> bool" where
  "cache_usage_within_budget used \<longleftrightarrow> used \<le> MAX_CACHE_BYTES"

definition cpu_max_cgroup_value :: "nat \<Rightarrow> string" where
  "cpu_max_cgroup_value q = show_nat (sat_mul_u64 q 100000) @ '' 100000''"

definition cpu_quota_per_sec_usec :: "nat \<Rightarrow> nat" where
  "cpu_quota_per_sec_usec q = sat_mul_u64 q 1000000"

definition cpu_quota_percent :: "nat \<Rightarrow> string" where
  "cpu_quota_percent q = show_nat (sat_mul_u64 q 100) @ ''%''"

record worker_cgroup_spec =
  scope_name :: string
  spec_memory_max :: nat
  spec_cpu_cores :: nat
  spec_tasks_max :: nat

definition desired_cgroup_spec :: "nat \<Rightarrow> nat \<Rightarrow> nat \<Rightarrow> worker_cgroup_spec" where
  "desired_cgroup_spec ram cores pid =
     (let limits = resolve_worker_limits ram cores
      in \<lparr>scope_name = ''voisu-worker-'' @ show_nat pid @ ''.scope'', spec_memory_max = memory_max_bytes limits,
          spec_cpu_cores = cpu_quota_cores limits, spec_tasks_max = tasks_max limits\<rparr>)"

record resource_evidence =
  re_ram :: "nat option"
  re_cores :: nat
  re_limits :: worker_resource_limits
  re_vram_budget :: "nat option"

definition record_resource_evidence :: "nat option \<Rightarrow> nat \<Rightarrow> nat option \<Rightarrow> resource_evidence option" where
  "record_resource_evidence ram cores vram =
     (case ram of None \<Rightarrow> None
      | Some r \<Rightarrow> Some \<lparr>re_ram = Some r, re_cores = cores, re_limits = resolve_worker_limits r cores,
                       re_vram_budget = map_option vram_budget_bytes vram\<rparr>)"

section \<open>Decimal text reads back\<close>

lemma decimal_value_snoc: "decimal_value (ds @ [d]) = decimal_value ds * 10 + (byte d - 48)"
  by (simp add: decimal_value_def)

lemma show_nat_digits: "show_nat n \<noteq> [] \<and> list_all is_ascii_digit (show_nat n) \<and> decimal_value (show_nat n) = n"
proof (induction n rule: show_nat.induct)
  case (1 n)
  show ?case
  proof (cases "n < 10")
    case True
    then show ?thesis
      by (subst show_nat.simps, subst (2) show_nat.simps, subst (3) show_nat.simps)
         (simp add: decimal_value_def is_ascii_digit_def byte_char_of)
  next
    case False
    have m: "n mod 10 < 10" by simp
    then have "byte (char_of (48 + n mod 10)) = 48 + n mod 10" by (simp add: byte_char_of)
    then have d: "is_ascii_digit (char_of (48 + n mod 10))" "byte (char_of (48 + n mod 10)) - 48 = n mod 10"
      using m by (simp_all add: is_ascii_digit_def)
    have s: "show_nat n = show_nat (n div 10) @ [char_of (48 + n mod 10)]"
      using False by (subst show_nat.simps) simp
    show ?thesis using 1 [OF False] d unfolding s by (simp add: decimal_value_snoc)
  qed
qed

lemma digit_not_plus: "is_ascii_digit c \<Longrightarrow> c \<noteq> CHR ''+''"
  by (auto simp: is_ascii_digit_def byte_def)

lemma parse_show_nat: "n \<le> u64_max \<Longrightarrow> parse_u64 (show_nat n) = Some n"
proof -
  assume n: "n \<le> u64_max"
  obtain c r where c: "show_nat n = c # r" "is_ascii_digit c"
    using show_nat_digits [of n] by (cases "show_nat n") auto
  then show ?thesis
    using show_nat_digits [of n] n digit_not_plus [OF c(2)] by (simp add: parse_u64_def)
qed

section \<open>Properties\<close>

text \<open>
  The worker envelope on every host: at most 4 GiB and at most half the memory, at least
  one core and at most four and, above the one-core floor, at most half the cores; the cgroup carries
  exactly that envelope; the video memory budget is at most 75 percent even where the multiplication
  saturates; and the quota written for the cgroup reads back as the granted cores.
\<close>
theorem worker_envelope:
  assumes "cores \<le> u32_max"
  shows "memory_max_bytes (resolve_worker_limits ram cores) \<le> MAX_MEMORY_BYTES
    \<and> 2 * memory_max_bytes (resolve_worker_limits ram cores) \<le> ram
    \<and> 1 \<le> cpu_quota_cores (resolve_worker_limits ram cores)
    \<and> cpu_quota_cores (resolve_worker_limits ram cores) \<le> MAX_CPU_CORES
    \<and> (2 \<le> cores \<longrightarrow> 2 * cpu_quota_cores (resolve_worker_limits ram cores) \<le> cores)
    \<and> spec_memory_max (desired_cgroup_spec ram cores pid) = memory_max_bytes (resolve_worker_limits ram cores)
    \<and> spec_cpu_cores (desired_cgroup_spec ram cores pid) = cpu_quota_cores (resolve_worker_limits ram cores)
    \<and> 100 * vram_budget_bytes vram \<le> 75 * vram
    \<and> parse_u64 (take (length (show_nat (cores * 100000))) (cpu_max_cgroup_value cores)) = Some (cores * 100000)"
proof -
  have small: "cores * 100000 \<le> u64_max" using assms by (simp add: u32_max_def u64_max_def)
  have "100 * vram_budget_bytes vram \<le> sat_mul_u64 vram 75"
    by (simp add: vram_budget_bytes_def MAX_VRAM_FRACTION_NUM_def MAX_VRAM_FRACTION_DEN_def)
  also have "\<dots> \<le> 75 * vram" by (simp add: sat_mul_u64_def)
  finally have v: "100 * vram_budget_bytes vram \<le> 75 * vram" .
  have p: "parse_u64 (take (length (show_nat (cores * 100000))) (cpu_max_cgroup_value cores)) = Some (cores * 100000)"
    using small by (simp add: cpu_max_cgroup_value_def sat_mul_u64_def min_absorb1 parse_show_nat)
  show ?thesis
    using v p
    by (auto simp: resolve_worker_limits_def worker_memory_ceiling_bytes_def worker_cpu_quota_cores_def
        desired_cgroup_spec_def Let_def MAX_CPU_CORES_def)
qed

theorem worker_envelope_witness:
  "2 * memory_max_bytes (resolve_worker_limits 1000 8) \<le> 1000
   \<and> 2 * cpu_quota_cores (resolve_worker_limits 1000 8) \<le> 8"
  using worker_envelope [of 8 1000] by (simp add: u32_max_def)

end
