(* ===== verification/Json_Text.thy ===== *)
theory Json_Text
  imports Bounds Json
begin

text \<open>
  What the sources rely on of the printer and the parser of \<open>serde_json\<close>, which are not part of the
  repository, and one printer and parser that satisfy it: the compact JSON text and a reader of it.

  \<open>serde_json\<close> documents that a value is read back from its own text, up to two limits: the parser
  refuses a nesting of 128 containers, and a float may come back as a neighbour unless a feature that no manifest
  here asks for is on. The contract is stated for the values without floats inside that nesting.
\<close>

section \<open>The contract\<close>

text \<open>Nesting depth; a scalar has depth one.\<close>

fun json_depth :: "json \<Rightarrow> nat" where
  "json_depth (JArray vs) = Suc (fold max (map json_depth vs) 0)"
| "json_depth (JObject m) = Suc (fold max (map (\<lambda>(k, v). json_depth v) m) 0)"
| "json_depth _ = 1"

text \<open>The order of \<open>String\<close>, in which an object lists its keys.\<close>

fun key_less :: "string \<Rightarrow> string \<Rightarrow> bool" where
  "key_less (c # s) (d # t) \<longleftrightarrow> byte c < byte d \<or> c = d \<and> key_less s t"
| "key_less [] (d # t) \<longleftrightarrow> True"
| "key_less _ [] \<longleftrightarrow> False"

definition utf8_ok :: "string \<Rightarrow> bool" where
  "utf8_ok s \<longleftrightarrow> utf8_decode (map byte s) \<noteq> None"

text \<open>A \<open>Value\<close> without floats: integers in their range, UTF-8 strings, keys in order.\<close>

fun wire_value :: "json \<Rightarrow> bool" where
  "wire_value (JNumber (PosInt n)) \<longleftrightarrow> n \<le> u64_max"
| "wire_value (JNumber (NegInt i)) \<longleftrightarrow> - (2 ^ 63) \<le> i \<and> i < 0"
| "wire_value (JNumber (FloatBits b)) \<longleftrightarrow> False"
| "wire_value (JString s) \<longleftrightarrow> utf8_ok s"
| "wire_value (JArray vs) \<longleftrightarrow> list_all wire_value vs"
| "wire_value (JObject m) \<longleftrightarrow> sorted_wrt key_less (map fst m) \<and> list_all utf8_ok (map fst m) \<and> list_all (\<lambda>kv. wire_value (snd kv)) m"
| "wire_value _ \<longleftrightarrow> True"

definition SERDE_JSON_DEPTH :: nat where "SERDE_JSON_DEPTH = 127"

definition serde_roundtrip :: "(json \<Rightarrow> u8 list option) \<Rightarrow> (u8 list \<Rightarrow> json option) \<Rightarrow> bool" where
  "serde_roundtrip to_vec from_str \<longleftrightarrow>
     (\<forall>v. wire_value v \<and> json_depth v \<le> SERDE_JSON_DEPTH \<longrightarrow>
        (\<exists>p. to_vec v = Some p \<and> p \<noteq> [] \<and> from_str p = Some v \<and> utf8_decode (map unat p) \<noteq> None))"

section \<open>The compact text\<close>

definition short_escapes :: "(char \<times> char) list" where
  "short_escapes = [(CHR 0x22, CHR 0x22), (CHR 0x5C, CHR 0x5C), (CHR 0x08, CHR ''b''), (CHR 0x09, CHR ''t''), (CHR 0x0A, CHR ''n''),
     (CHR 0x0C, CHR ''f''), (CHR 0x0D, CHR ''r'')]"

definition hex_char :: "nat \<Rightarrow> char" where
  "hex_char n = char_of (if n < 10 then 48 + n else 87 + n)"

definition hex_value :: "char \<Rightarrow> nat" where
  "hex_value c = (if byte c < 58 then byte c - 48 else byte c - 87)"

definition escape_char :: "char \<Rightarrow> string" where
  "escape_char c =
     (case map_of short_escapes c of
        Some d \<Rightarrow> [CHR 0x5C, d]
      | None \<Rightarrow> if byte c < 32 then CHR 0x5C # ''u00'' @ [hex_char (byte c div 16), hex_char (byte c mod 16)] else [c])"

definition quoted :: "string \<Rightarrow> string" where
  "quoted s = CHR 0x22 # concat (map escape_char s) @ [CHR 0x22]"

fun items_text :: "char \<Rightarrow> string list \<Rightarrow> string" where
  "items_text close [] = [close]"
| "items_text close [x] = x @ [close]"
| "items_text close (x # xs) = x @ CHR '','' # items_text close xs"

fun json_text :: "json \<Rightarrow> string" where
  "json_text JNull = ''null''"
| "json_text (JBool b) = (if b then ''true'' else ''false'')"
| "json_text (JNumber (PosInt n)) = show_nat n"
| "json_text (JNumber (NegInt i)) = CHR ''-'' # show_nat (nat (- i))"
| "json_text (JNumber (FloatBits b)) = ''0.0''"
| "json_text (JString s) = quoted s"
| "json_text (JArray vs) = CHR ''['' # items_text (CHR '']'') (map json_text vs)"
| "json_text (JObject m) = CHR ''{'' # items_text (CHR ''}'') (map (\<lambda>kv. quoted (fst kv) @ CHR '':'' # json_text (snd kv)) m)"

definition print_json :: "json \<Rightarrow> u8 list option" where
  "print_json v = (if wire_value v then Some (ascii_bytes (json_text v)) else None)"

section \<open>Reading it back\<close>

fun read_string :: "string \<Rightarrow> (string \<times> string) option" where
  "read_string [] = None"
| "read_string (c # r) =
     (if c = CHR 0x22 then Some ([], r)
      else if c = CHR 0x5C then
        (case r of
           [] \<Rightarrow> None
         | d # r' \<Rightarrow>
             if d = CHR ''u'' then
               (case r' of _ # _ # h # l # r'' \<Rightarrow> map_option (apfst (Cons (char_of (16 * hex_value h + hex_value l)))) (read_string r'') | _ \<Rightarrow> None)
             else (case map_of (map prod.swap short_escapes) d of
                     Some e \<Rightarrow> map_option (apfst (Cons e)) (read_string r') | None \<Rightarrow> None))
      else map_option (apfst (Cons c)) (read_string r))"

definition read_digits :: "string \<Rightarrow> nat \<times> string" where
  "read_digits s = (decimal_value (takeWhile is_ascii_digit s), dropWhile is_ascii_digit s)"

definition after_literal :: "string \<Rightarrow> json \<Rightarrow> string \<Rightarrow> (json \<times> string) option" where
  "after_literal w v r = (if take (length w) r = w then Some (v, drop (length w) r) else None)"

text \<open>The first argument bounds the recursion; the length of the text is enough.\<close>

fun read_value :: "nat \<Rightarrow> string \<Rightarrow> (json \<times> string) option"
  and read_items :: "nat \<Rightarrow> string \<Rightarrow> (json list \<times> string) option"
  and read_members :: "nat \<Rightarrow> string \<Rightarrow> ((string \<times> json) list \<times> string) option" where
  "read_value (Suc n) (c # r) =
     (if c = CHR 0x22 then map_option (apfst JString) (read_string r)
      else if c = CHR ''['' then (if take 1 r = '']'' then Some (JArray [], drop 1 r) else map_option (apfst JArray) (read_items n r))
      else if c = CHR ''{'' then (if take 1 r = ''}'' then Some (JObject [], drop 1 r) else map_option (apfst JObject) (read_members n r))
      else if c = CHR ''n'' then after_literal ''ull'' JNull r
      else if c = CHR ''t'' then after_literal ''rue'' (JBool True) r
      else if c = CHR ''f'' then after_literal ''alse'' (JBool False) r
      else if c = CHR ''-'' then (let (n, r) = read_digits r in Some (JNumber (NegInt (- int n)), r))
      else if is_ascii_digit c then (let (n, r) = read_digits (c # r) in Some (JNumber (PosInt n), r))
      else None)"
| "read_value _ _ = None"
| "read_items (Suc n) s =
     Option.bind (read_value n s) (\<lambda>(v, r).
       if take 1 r = '','' then map_option (apfst (Cons v)) (read_items n (drop 1 r))
       else if take 1 r = '']'' then Some ([v], drop 1 r) else None)"
| "read_items 0 s = None"
| "read_members (Suc n) s =
     (if take 1 s \<noteq> [CHR 0x22] then None
      else Option.bind (read_string (drop 1 s)) (\<lambda>(k, r).
        if take 1 r \<noteq> '':'' then None
        else Option.bind (read_value n (drop 1 r)) (\<lambda>(v, r).
          if take 1 r = '','' then map_option (apfst (Cons (k, v))) (read_members n (drop 1 r))
          else if take 1 r = ''}'' then Some ([(k, v)], drop 1 r) else None)))"
| "read_members 0 s = None"

declare read_value.simps(1) [simp del]

definition parse_json :: "u8 list \<Rightarrow> json option" where
  "parse_json p =
     (let s = map (\<lambda>b. char_of (unat b)) p
      in case read_value (length s) s of Some (v, []) \<Rightarrow> Some v | _ \<Rightarrow> None)"

section \<open>The text is read back\<close>

lemma hex_value_char: "n < 16 \<Longrightarrow> hex_value (hex_char n) = n"
  by (simp add: hex_value_def hex_char_def byte_char_of)

lemma read_escaped: "read_string (escape_char c @ r) = map_option (apfst (Cons c)) (read_string r)"
proof (cases "map_of short_escapes c")
  case (Some d)
  then show ?thesis by (auto simp: short_escapes_def escape_char_def split: if_splits)
next
  case None
  have quote: "c \<noteq> CHR 0x22" "c \<noteq> CHR 0x5C" using None by (auto simp: short_escapes_def split: if_splits)
  show ?thesis
  proof (cases "byte c < 32")
    case True
    have h: "hex_value (hex_char (byte c div 16)) = byte c div 16" "hex_value (hex_char (byte c mod 16)) = byte c mod 16"
      using True by (simp_all add: hex_value_char)
    have "char_of (16 * (byte c div 16) + byte c mod 16) = c" by (simp add: byte_def)
    then show ?thesis using None True by (simp add: escape_char_def h)
  next
    case False
    then show ?thesis using None quote by (simp add: escape_char_def)
  qed
qed

lemma read_quoted: "read_string (concat (map escape_char s) @ CHR 0x22 # r) = Some (s, r)"
  by (induction s) (simp_all add: read_escaped)

lemma read_show_nat:
  assumes "r = [] \<or> \<not> is_ascii_digit (hd r)"
  shows "read_digits (show_nat n @ r) = (n, r)"
proof -
  have all: "\<And>c. c \<in> set (show_nat n) \<Longrightarrow> is_ascii_digit c" using show_nat_digits [of n] by (simp add: list_all_iff)
  have "takeWhile is_ascii_digit r = []" "dropWhile is_ascii_digit r = r" using assms by (cases r; simp)+
  then show ?thesis using all show_nat_digits [of n] by (simp add: read_digits_def)
qed

lemma json_text_hd: "\<exists>c t. json_text v = c # t \<and> c \<noteq> CHR '']'' \<and> c \<noteq> CHR ''}''"
proof (cases v rule: json_text.cases)
  case (3 n)
  obtain c t where c: "show_nat n = c # t" "is_ascii_digit c" using show_nat_digits [of n] by (cases "show_nat n") auto
  have "c \<noteq> CHR '']''" "c \<noteq> CHR ''}''" using c(2) by (auto simp: is_ascii_digit_def byte_def)
  then show ?thesis using 3 c by simp
qed (auto simp: quoted_def)

text \<open>What the recursion gives for one element.\<close>

definition reads_back :: "json \<Rightarrow> bool" where
  "reads_back v \<longleftrightarrow> (\<forall>n r. length (json_text v) \<le> n \<longrightarrow> (r = [] \<or> \<not> is_ascii_digit (hd r)) \<longrightarrow> read_value n (json_text v @ r) = Some (v, r))"

lemma reads_backD: "reads_back v \<Longrightarrow> length (json_text v) \<le> n \<Longrightarrow> \<not> is_ascii_digit c \<Longrightarrow> read_value n (json_text v @ c # r) = Some (v, c # r)"
  by (simp add: reads_back_def)

lemma items_text_hd: "xs \<noteq> [] \<Longrightarrow> hd xs = c # t \<Longrightarrow> \<exists>u. items_text close xs = c # u"
  by (cases "(close, xs)" rule: items_text.cases) auto

lemma separators [simp]:
  "\<not> is_ascii_digit (CHR '','')" "\<not> is_ascii_digit (CHR '']'')" "\<not> is_ascii_digit (CHR ''}'')"
  by (simp_all add: is_ascii_digit_def byte_def)

lemma read_items_text:
  "vs \<noteq> [] \<Longrightarrow> (\<And>v. v \<in> set vs \<Longrightarrow> reads_back v) \<Longrightarrow> length (items_text (CHR '']'') (map json_text vs)) \<le> n \<Longrightarrow>
   read_items n (items_text (CHR '']'') (map json_text vs) @ r) = Some (vs, r)"
proof (induction vs arbitrary: n)
  case (Cons v vs)
  have v: "reads_back v" using Cons.prems(2) by simp
  obtain k where n: "n = Suc k" using Cons.prems(3) by (cases n; cases vs) auto
  show ?case
  proof (cases vs)
    case Nil
    then show ?thesis using reads_backD [OF v, of k] Cons.prems(3) n by simp
  next
    case (Cons w ws)
    have "read_items k (items_text (CHR '']'') (map json_text vs) @ r) = Some (vs, r)"
      by (rule Cons.IH) (use Cons.prems Cons n in auto)
    then show ?thesis using reads_backD [OF v, of k] Cons.prems(3) n Cons by simp
  qed
qed simp

lemma read_members_text:
  "m \<noteq> [] \<Longrightarrow> (\<And>kv. kv \<in> set m \<Longrightarrow> reads_back (snd kv)) \<Longrightarrow>
   length (items_text (CHR ''}'') (map (\<lambda>kv. quoted (fst kv) @ CHR '':'' # json_text (snd kv)) m)) \<le> n \<Longrightarrow>
   read_members n (items_text (CHR ''}'') (map (\<lambda>kv. quoted (fst kv) @ CHR '':'' # json_text (snd kv)) m) @ r) = Some (m, r)"
proof (induction m arbitrary: n)
  case (Cons kv m)
  obtain k v where kv: "kv = (k, v)" by (cases kv)
  have v: "reads_back v" using Cons.prems(2) [of kv] kv by simp
  obtain j where n: "n = Suc j" using Cons.prems(3) by (cases n; cases m) (auto simp: quoted_def)
  show ?case
  proof (cases m)
    case Nil
    then show ?thesis using reads_backD [OF v, of j] Cons.prems(3) n kv by (simp add: quoted_def read_quoted)
  next
    case (Cons w ws)
    have "read_members j (items_text (CHR ''}'') (map (\<lambda>kv. quoted (fst kv) @ CHR '':'' # json_text (snd kv)) m) @ r) = Some (m, r)"
      by (rule Cons.IH) (use Cons.prems Cons n in auto)
    then show ?thesis using reads_backD [OF v, of j] Cons.prems(3) n Cons kv by (simp add: quoted_def read_quoted)
  qed
qed simp

lemma wire_reads_back: "wire_value v \<Longrightarrow> reads_back v"
proof (induction v)
  case JNull
  show ?case unfolding reads_back_def by (auto simp: after_literal_def read_value.simps(1) Suc_le_eq dest!: less_imp_Suc_add)
next
  case (JBool b)
  show ?case unfolding reads_back_def by (cases b) (auto simp: after_literal_def read_value.simps(1) Suc_le_eq dest!: less_imp_Suc_add)
next
  case (JNumber x)
  then show ?case
  proof (cases x)
    case (PosInt k)
    obtain c t where c: "show_nat k = c # t" "is_ascii_digit c" using show_nat_digits [of k] by (cases "show_nat k") auto
    have "c \<notin> {CHR 0x22, CHR ''['', CHR ''{'', CHR ''n'', CHR ''t'', CHR ''f'', CHR ''-''}" using c(2) by (auto simp: is_ascii_digit_def byte_def)
    then show ?thesis
      using read_show_nat [of _ k] read_show_nat [of "[]" k] c PosInt unfolding reads_back_def
      by (auto simp: read_value.simps(1) Suc_le_eq dest!: less_imp_Suc_add)
  next
    case (NegInt i)
    then show ?thesis
      using JNumber read_show_nat [of _ "nat (- i)"] read_show_nat [of "[]" "nat (- i)"] unfolding reads_back_def
      by (auto simp: read_value.simps(1) Suc_le_eq dest!: less_imp_Suc_add)
  qed simp
next
  case (JString s)
  show ?case
    unfolding reads_back_def by (auto simp: read_value.simps(1) quoted_def read_quoted Suc_le_eq dest!: less_imp_Suc_add)
next
  case (JArray vs)
  have all: "\<And>v. v \<in> set vs \<Longrightarrow> reads_back v" using JArray by (auto simp: list_all_iff)
  show ?case
    unfolding reads_back_def
  proof (intro allI impI)
    fix n r assume len: "length (json_text (JArray vs)) \<le> n"
    obtain k where n: "n = Suc k" "length (items_text (CHR '']'') (map json_text vs)) \<le> k" using len by (cases n) auto
    show "read_value n (json_text (JArray vs) @ r) = Some (JArray vs, r)"
    proof (cases "vs = []")
      case False
      obtain c t where c: "json_text (hd vs) = c # t" "c \<noteq> CHR '']''" using json_text_hd by blast
      obtain u where "items_text (CHR '']'') (map json_text vs) = c # u"
        using items_text_hd [of "map json_text vs" c t] False c by (auto simp: hd_map)
      then show ?thesis using read_items_text [OF False all n(2), of r] n c by (simp add: read_value.simps(1))
    qed (simp add: n read_value.simps(1))
  qed
next
  case (JObject m)
  have all: "\<And>kv. kv \<in> set m \<Longrightarrow> reads_back (snd kv)" using JObject by (auto simp: list_all_iff snds.intros)
  show ?case
    unfolding reads_back_def
  proof (intro allI impI)
    fix n r assume len: "length (json_text (JObject m)) \<le> n"
    let ?t = "items_text (CHR ''}'') (map (\<lambda>kv. quoted (fst kv) @ CHR '':'' # json_text (snd kv)) m)"
    obtain k where n: "n = Suc k" "length ?t \<le> k" using len by (cases n) auto
    show "read_value n (json_text (JObject m) @ r) = Some (JObject m, r)"
    proof (cases "m = []")
      case False
      obtain u where "?t = CHR 0x22 # u"
        using items_text_hd [of "map (\<lambda>kv. quoted (fst kv) @ CHR '':'' # json_text (snd kv)) m" "CHR 0x22"] False by (auto simp: hd_map quoted_def)
      then show ?thesis using read_members_text [OF False all n(2), of r] n by (simp add: read_value.simps(1))
    qed (simp add: n read_value.simps(1))
  qed
qed

section \<open>The text is UTF-8\<close>

lemma utf8_append: "utf8_decode as \<noteq> None \<Longrightarrow> utf8_decode bs \<noteq> None \<Longrightarrow> utf8_decode (as @ bs) \<noteq> None"
proof (induction as rule: utf8_decode.induct)
  case (2 a r)
  then show ?case by (auto simp: utf8_decode.simps(2) [of a] split: if_splits list.splits)
qed simp

lemma utf8_ascii: "list_all (\<lambda>b. b < 0x80) as \<Longrightarrow> utf8_decode as \<noteq> None"
  by (induction as) (auto simp: utf8_decode.simps(2))

lemma utf8_ok_append: "utf8_ok s \<Longrightarrow> utf8_ok t \<Longrightarrow> utf8_ok (s @ t)"
  using utf8_append [of "map byte s" "map byte t"] by (simp add: utf8_ok_def)

lemma utf8_ok_ascii: "list_all (\<lambda>c. byte c < 0x80) s \<Longrightarrow> utf8_ok s"
  using utf8_ascii [of "map byte s"] by (simp add: utf8_ok_def list_all_length)

lemma utf8_ok_Cons: "byte c < 0x80 \<Longrightarrow> utf8_ok (c # s) \<longleftrightarrow> utf8_ok s"
  by (simp add: utf8_ok_def utf8_decode.simps(2))

definition escape_byte :: "nat \<Rightarrow> nat list" where
  "escape_byte b = map byte (escape_char (char_of b))"

lemma escape_high: "0x80 \<le> b \<Longrightarrow> b < 256 \<Longrightarrow> escape_byte b = [b]"
  by (auto simp: escape_byte_def escape_char_def short_escapes_def byte_char_of of_char_of dest: arg_cong [where f = byte] simp: byte_def)

lemma escape_ascii:
  assumes b: "b < 0x80"
  shows "utf8_decode (escape_byte b) \<noteq> None"
proof (rule utf8_ascii)
  have c: "byte (char_of b) = b" using b by (simp add: byte_char_of)
  have hex: "n < 16 \<Longrightarrow> byte (hex_char n) < 0x80" for n by (simp add: hex_char_def byte_char_of)
  have digits: "byte (CHR 0x5C) < 0x80" "byte (CHR ''u'') < 0x80" "byte (CHR ''0'') < 0x80" by (simp_all add: byte_def)
  show "list_all (\<lambda>b. b < 0x80) (escape_byte b)"
  proof (cases "map_of short_escapes (char_of b)")
    case None
    then show ?thesis using b c hex digits by (simp add: escape_byte_def escape_char_def)
  next
    case (Some d)
    have "list_all (\<lambda>(_, d). byte d < 0x80) short_escapes" by (simp add: short_escapes_def byte_def)
    then have "byte d < 0x80" using map_of_SomeD [OF Some] by (auto simp: list_all_iff)
    then show ?thesis using Some digits by (simp add: escape_byte_def escape_char_def)
  qed
qed

lemma utf8_escaped: "utf8_decode bs \<noteq> None \<Longrightarrow> list_all (\<lambda>b. b < 256) bs \<Longrightarrow> utf8_decode (concat (map escape_byte bs)) \<noteq> None"
proof (induction bs rule: utf8_decode.induct)
  case (2 a r)
  then show ?case
    using utf8_append [OF escape_ascii [of a], of "concat (map escape_byte r)"]
    by (auto simp: utf8_decode.simps(2) [of a] cont_def escape_high split: if_splits list.splits)
qed simp

lemma utf8_ok_quoted: "utf8_ok s \<Longrightarrow> utf8_ok (quoted s)"
proof -
  assume s: "utf8_ok s"
  have "map byte (concat (map escape_char s)) = concat (map escape_byte (map byte s))"
    by (simp add: escape_byte_def byte_def map_concat comp_def)
  then have "utf8_ok (concat (map escape_char s))"
    using utf8_escaped [of "map byte s"] s by (simp add: utf8_ok_def list_all_length byte_less)
  then show ?thesis
    using utf8_ok_append [OF _ utf8_ok_ascii, of _ "[CHR 0x22]"] by (simp add: quoted_def utf8_ok_Cons byte_def)
qed

lemma utf8_ok_items: "list_all utf8_ok xs \<Longrightarrow> byte close < 0x80 \<Longrightarrow> utf8_ok (items_text close xs)"
  by (induction close xs rule: items_text.induct) (auto intro!: utf8_ok_append simp: utf8_ok_Cons utf8_ok_ascii byte_def)

lemma utf8_ok_show_nat: "utf8_ok (show_nat n)"
  by (rule utf8_ok_ascii) (use show_nat_digits [of n] in \<open>auto simp: list_all_iff is_ascii_digit_def\<close>)

lemma utf8_ok_json: "wire_value v \<Longrightarrow> utf8_ok (json_text v)"
proof (induction v rule: wire_value.induct)
  case (6 m)
  have "utf8_ok (quoted (fst kv) @ CHR '':'' # json_text (snd kv))" if "kv \<in> set m" for kv
    using 6 that by (cases kv) (auto intro!: utf8_ok_append utf8_ok_quoted simp: list_all_iff utf8_ok_Cons byte_def)
  then show ?case using utf8_ok_items by (simp add: list_all_iff utf8_ok_Cons byte_def)
next
  case (5 vs)
  then show ?case using utf8_ok_items [of "map json_text vs"] by (simp add: list_all_iff utf8_ok_Cons byte_def)
qed (auto simp: utf8_ok_show_nat utf8_ok_quoted utf8_ok_Cons byte_def intro!: utf8_ok_ascii)

section \<open>The contract holds\<close>

lemma json_roundtrip: "serde_roundtrip print_json parse_json"
  unfolding serde_roundtrip_def
proof (intro allI impI, elim conjE)
  fix v assume v: "wire_value v"
  let ?p = "ascii_bytes (json_text v)"
  have chars: "map (\<lambda>b. char_of (unat b)) ?p = json_text v" and bytes: "map unat ?p = map byte (json_text v)"
    by (simp_all add: ascii_bytes_def comp_def unat_of_nat byte_less mod_less) (simp add: byte_def)
  have "read_value (length (json_text v)) (json_text v) = Some (v, [])"
    using wire_reads_back [OF v] unfolding reads_back_def by (metis append_Nil2 order_refl)
  then have "parse_json ?p = Some v" using chars by (simp add: parse_json_def Let_def)
  moreover have "?p \<noteq> []" using json_text_hd [of v] by (auto simp: ascii_bytes_def)
  ultimately show "\<exists>p. print_json v = Some p \<and> p \<noteq> [] \<and> parse_json p = Some v \<and> utf8_decode (map unat p) \<noteq> None"
    using v utf8_ok_json [OF v] bytes by (auto simp: print_json_def utf8_ok_def)
qed

end
