(* ===== verification/Protocol.thy ===== *)
theory Protocol
  imports Json_Text
begin

text \<open>
  The length-prefixed worker protocol, \<open>crates/voisu-app/src/local_worker/protocol.rs\<close>.

  \<open>serde_json\<close> is a third-party crate: its \<open>Value\<close> is the datatype \<open>json\<close>, and its printer
  \<open>to_vec\<close> and parser \<open>from_str\<close> are arguments. What the frames rely on of them is
  \<open>serde_roundtrip\<close> of \<open>Json_Text\<close>, and the examples run on the printer and parser given there.
\<close>

section \<open>Frames\<close>

definition PROTOCOL_VERSION :: nat where "PROTOCOL_VERSION = 1"

datatype frame_error =
    OddPcmLength
  | PcmTooLarge nat
  | DeclaredPcmMismatch nat nat
  | JsonTooLarge nat
  | JsonTooDeep
  | JsonTooManyFields
  | Truncated
  | InvalidUtf8
  | InvalidJson
  | UnknownVersion nat
  | DuplicateTerminal
  | Unsolicited
  | TranscriptTooLarge nat
  | UnsupportedControl
  | EmbeddedNul
  | ExtraAudio
  | CorrelationMismatch
  | MetadataTooLarge nat

record correlation =
  daemon_nonce :: string
  generation :: nat
  request_id :: string
  recording_id :: string
  model_receipt_hash :: string

datatype control_frame =
    Prepare correlation
  | Transcribe correlation nat
  | CancelFrame string

datatype worker_frame =
    ReadyFrame correlation string
  | TranscriptFrame correlation string
  | NoTextFrame correlation string
  | ErrorFrame string "(string \<times> json) list"

text \<open>The recursion over a value, with the field counter threaded through it.\<close>

fun check_json_bounds :: "json \<Rightarrow> nat \<Rightarrow> nat \<Rightarrow> frame_error + nat"
  and check_all :: "json list \<Rightarrow> nat \<Rightarrow> nat \<Rightarrow> frame_error + nat"
  and check_fields :: "(string \<times> json) list \<Rightarrow> nat \<Rightarrow> nat \<Rightarrow> frame_error + nat" where
  "check_json_bounds v depth count =
     (if depth > MAX_JSON_DEPTH then Inl JsonTooDeep
      else case v of
             JObject m \<Rightarrow>
               (let count' = sat_add_u64 count (length m)
                in if count' > MAX_JSON_FIELDS then Inl JsonTooManyFields else check_fields m (depth + 1) count')
           | JArray items \<Rightarrow> check_all items (depth + 1) count
           | _ \<Rightarrow> Inr count)"
| "check_all [] depth count = Inr count"
| "check_all (v # vs) depth count =
     (case check_json_bounds v depth count of Inl e \<Rightarrow> Inl e | Inr count' \<Rightarrow> check_all vs depth count')"
| "check_fields [] depth count = Inr count"
| "check_fields ((k, v) # m) depth count =
     (case check_json_bounds v depth count of Inl e \<Rightarrow> Inl e | Inr count' \<Rightarrow> check_fields m depth count')"

declare check_json_bounds.simps [simp del]

definition encode_json_frame :: "(json \<Rightarrow> u8 list option) \<Rightarrow> json \<Rightarrow> frame_error + u8 list" where
  "encode_json_frame to_vec v =
     (case check_json_bounds v 1 0 of
        Inl e \<Rightarrow> Inl e
      | Inr _ \<Rightarrow>
          (case to_vec v of
             None \<Rightarrow> Inl InvalidJson
           | Some payload \<Rightarrow>
               (if length payload > MAX_JSON_FRAME_BYTES then Inl (JsonTooLarge (length payload))
                else Inr (to_le_bytes 4 (length payload mod 2 ^ 32) @ payload))))"

definition decode_json_frame :: "(u8 list \<Rightarrow> json option) \<Rightarrow> u8 list \<Rightarrow> frame_error + json \<times> nat" where
  "decode_json_frame from_str bytes =
     (if length bytes < 4 then Inl Truncated
      else
        (let len = from_le_bytes (take 4 bytes); end' = 4 + len
         in if len = 0 \<or> len > MAX_JSON_FRAME_BYTES then Inl (JsonTooLarge len)
            else if length bytes < end' then Inl Truncated
            else
              (let payload = take len (drop 4 bytes)
               in if utf8_decode (map unat payload) = None then Inl InvalidUtf8
                  else case from_str payload of
                         None \<Rightarrow> Inl InvalidJson
                       | Some v \<Rightarrow>
                           (case check_json_bounds v 1 0 of
                              Inl e \<Rightarrow> Inl e
                            | Inr _ \<Rightarrow>
                                (case Option.bind (json_get v ''v'') as_u64 of
                                   Some version \<Rightarrow>
                                     (if version \<noteq> PROTOCOL_VERSION then Inl (UnknownVersion (version mod 2 ^ 32))
                                      else Inr (v, end'))
                                 | None \<Rightarrow> Inl (UnknownVersion 0))))))"

definition validate_pcm :: "u8 list \<Rightarrow> nat option \<Rightarrow> frame_error + unit" where
  "validate_pcm pcm_bytes declared =
     (if length pcm_bytes mod 2 \<noteq> 0 then Inl OddPcmLength
      else if length pcm_bytes > MAX_PCM_BYTES then Inl (PcmTooLarge (length pcm_bytes))
      else case declared of
             Some d \<Rightarrow> (if d \<noteq> length pcm_bytes then Inl (DeclaredPcmMismatch d (length pcm_bytes)) else Inr ())
           | None \<Rightarrow> Inr ())"

definition unsupported_control :: "nat \<Rightarrow> bool" where
  "unsupported_control n \<longleftrightarrow> (n < 0x20 \<and> n \<notin> {0x09, 0x0A, 0x0D}) \<or> (0x7F \<le> n \<and> n \<le> 0x9F)"

definition validate_transcript :: "string \<Rightarrow> frame_error + unit" where
  "validate_transcript t =
     (if length t > MAX_TRANSCRIPT_BYTES then Inl (TranscriptTooLarge (length t))
      else if CHR 0x00 \<in> set t then Inl EmbeddedNul
      else if \<exists>c\<in>set (str_chars t). unsupported_control c then Inl UnsupportedControl
      else Inr ())"

text \<open>\<open>as_chunks::<2>\<close>: whole pairs; an odd byte at the end is not looked at.\<close>

fun is_silence_pcm :: "u8 list \<Rightarrow> bool" where
  "is_silence_pcm (a # b # r) \<longleftrightarrow> a = 0 \<and> b = 0 \<and> is_silence_pcm r"
| "is_silence_pcm _ \<longleftrightarrow> True"

definition required_string :: "json \<Rightarrow> string \<Rightarrow> frame_error + string" where
  "required_string v k = (case Option.bind (json_get v k) as_str of Some s \<Rightarrow> Inr s | None \<Rightarrow> Inl InvalidJson)"

definition correlation_from :: "json \<Rightarrow> frame_error + correlation" where
  "correlation_from v =
     bind_result (required_string v ''daemon_nonce'') (\<lambda>nonce.
     bind_result (case Option.bind (json_get v ''generation'') as_u64 of Some g \<Rightarrow> Inr g | None \<Rightarrow> Inl InvalidJson) (\<lambda>g.
     bind_result (required_string v ''request_id'') (\<lambda>req.
     bind_result (required_string v ''recording_id'') (\<lambda>rec.
     bind_result (required_string v ''model_receipt_hash'') (\<lambda>hash.
       Inr \<lparr>daemon_nonce = nonce, generation = g, request_id = req, recording_id = rec, model_receipt_hash = hash\<rparr>)))))"

definition parse_control :: "json \<Rightarrow> frame_error + control_frame" where
  "parse_control v =
     (case Option.bind (json_get v ''kind'') as_str of
        None \<Rightarrow> Inl InvalidJson
      | Some k \<Rightarrow>
          (if k = ''prepare'' then bind_result (correlation_from v) (\<lambda>c. Inr (Prepare c))
           else if k = ''transcribe'' then
             (case Option.bind (json_get v ''pcm_bytes'') as_u64 of
                None \<Rightarrow> Inl InvalidJson
              | Some n \<Rightarrow>
                  (if n > MAX_PCM_BYTES \<or> n mod 2 \<noteq> 0
                   then Inl (if n mod 2 \<noteq> 0 then OddPcmLength else PcmTooLarge n)
                   else bind_result (correlation_from v) (\<lambda>c. Inr (Transcribe c n))))
           else if k = ''cancel'' then bind_result (required_string v ''request_id'') (\<lambda>r. Inr (CancelFrame r))
           else Inl InvalidJson))"

definition retain_error_metadata :: "(json \<Rightarrow> u8 list option) \<Rightarrow> (string \<times> json) list \<Rightarrow> frame_error + unit" where
  "retain_error_metadata to_vec m =
     (case to_vec (JObject m) of
        None \<Rightarrow> Inl InvalidJson
      | Some e \<Rightarrow>
          (if length e > MAX_ERROR_METADATA_BYTES \<or> length e > MAX_METADATA_BYTES
           then Inl (MetadataTooLarge (length e)) else Inr ()))"

definition parse_worker :: "(json \<Rightarrow> u8 list option) \<Rightarrow> json \<Rightarrow> frame_error + worker_frame" where
  "parse_worker to_vec v =
     (case Option.bind (json_get v ''kind'') as_str of
        None \<Rightarrow> Inl InvalidJson
      | Some k \<Rightarrow>
          (if k = ''ready'' then
             bind_result (correlation_from v) (\<lambda>c.
             bind_result (required_string v ''observed_device'') (\<lambda>d. Inr (ReadyFrame c d)))
           else if k = ''transcript'' then
             bind_result (required_string v ''text'') (\<lambda>t.
             bind_result (validate_transcript t) (\<lambda>_.
             bind_result (correlation_from v) (\<lambda>c. Inr (TranscriptFrame c t))))
           else if k = ''no_text'' then
             bind_result (correlation_from v) (\<lambda>c.
             bind_result (required_string v ''reason'') (\<lambda>r. Inr (NoTextFrame c r)))
           else if k = ''error'' then
             (let m = (case Option.bind (json_get v ''metadata'') as_object of Some m \<Rightarrow> m | None \<Rightarrow> [])
              in bind_result (retain_error_metadata to_vec m) (\<lambda>_.
                 bind_result (required_string v ''code'') (\<lambda>c. Inr (ErrorFrame c m))))
           else Inl InvalidJson))"

definition correlations_match :: "correlation \<Rightarrow> correlation \<Rightarrow> frame_error + unit" where
  "correlations_match expected got = (if expected = got then Inr () else Inl CorrelationMismatch)"

section \<open>The bounds check against its meaning\<close>

text \<open>Beside the nesting depth, the total number of object fields.\<close>

fun json_fields :: "json \<Rightarrow> nat" where
  "json_fields (JArray vs) = sum_list (map json_fields vs)"
| "json_fields (JObject m) = length m + sum_list (map (\<lambda>(k, v). json_fields v) m)"
| "json_fields _ = 0"

lemma fold_max_le: "fold max xs a \<le> k \<longleftrightarrow> a \<le> k \<and> (\<forall>x\<in>set xs. x \<le> (k::nat))"
  by (induction xs arbitrary: a) auto

lemma add_fold_max_le: "d + fold max xs 0 \<le> k \<longleftrightarrow> d \<le> k \<and> (\<forall>x\<in>set xs. d + x \<le> (k::nat))"
proof (cases "d \<le> k")
  case True
  then have "d + fold max xs 0 \<le> k \<longleftrightarrow> fold max xs 0 \<le> k - d" "\<And>x. d + x \<le> k \<longleftrightarrow> x \<le> k - d" by arith+
  then show ?thesis using True by (simp add: fold_max_le)
qed auto

lemma json_depth_pos: "0 < json_depth v"
  by (cases v rule: json_depth.cases) auto

lemma check_bounds_meaning:
  "count \<le> MAX_JSON_FIELDS \<Longrightarrow> check_json_bounds v depth count = Inr g \<longleftrightarrow>
     depth + json_depth v \<le> Suc MAX_JSON_DEPTH \<and> count + json_fields v \<le> MAX_JSON_FIELDS \<and> g = count + json_fields v"
  "count \<le> MAX_JSON_FIELDS \<Longrightarrow> check_all vs depth count = Inr g \<longleftrightarrow>
     (\<forall>v\<in>set vs. depth + json_depth v \<le> Suc MAX_JSON_DEPTH) \<and> count + sum_list (map json_fields vs) \<le> MAX_JSON_FIELDS
     \<and> g = count + sum_list (map json_fields vs)"
  "count \<le> MAX_JSON_FIELDS \<Longrightarrow> check_fields m depth count = Inr g \<longleftrightarrow>
     (\<forall>(k, v)\<in>set m. depth + json_depth v \<le> Suc MAX_JSON_DEPTH)
     \<and> count + sum_list (map (\<lambda>(k, v). json_fields v) m) \<le> MAX_JSON_FIELDS
     \<and> g = count + sum_list (map (\<lambda>(k, v). json_fields v) m)"
proof (induction v depth count and vs depth count and m depth count arbitrary: g and g and g
    rule: check_json_bounds_check_all_check_fields.induct)
  case (1 v depth count)
  show ?case
  proof (cases "depth > MAX_JSON_DEPTH")
    case True
    then show ?thesis using json_depth_pos [of v] by (simp add: check_json_bounds.simps)
  next
    case False
    show ?thesis
    proof (cases v)
      case (JObject m)
      have sat: "sat_add_u64 count (length m) > MAX_JSON_FIELDS \<longleftrightarrow> count + length m > MAX_JSON_FIELDS"
        "\<not> count + length m > MAX_JSON_FIELDS \<Longrightarrow> sat_add_u64 count (length m) = count + length m"
        by (auto simp: sat_add_u64_def u64_max_def MAX_JSON_FIELDS_def)
      show ?thesis
      proof (cases "count + length m > MAX_JSON_FIELDS")
        case True
        then show ?thesis using False JObject sat by (simp add: check_json_bounds.simps Let_def)
      next
        case room: False
        then have "check_json_bounds v depth count = check_fields m (Suc depth) (count + length m)"
          using False JObject sat by (simp add: check_json_bounds.simps Let_def)
        then show ?thesis
          using "1.IH"(2) [OF False JObject refl, of g] room False JObject sat
          by (auto simp: add_fold_max_le)
      qed
    next
      case (JArray items)
      then show ?thesis
        using "1.IH"(1) [OF False JArray, of g] "1.prems" False by (auto simp: check_json_bounds.simps add_fold_max_le)
    qed (use 1 False in \<open>auto simp: check_json_bounds.simps\<close>)
  qed
next
  case (3 v vs depth count)
  show ?case
  proof (cases "check_json_bounds v depth count")
    case (Inl e)
    then show ?thesis using "3.IH"(1) [OF "3.prems", of "count + json_fields v"] by auto
  next
    case (Inr h)
    then show ?thesis using "3.IH"(1) [OF "3.prems", of h] "3.IH"(2) [OF Inr, of g] by auto
  qed
next
  case (5 k v m depth count)
  show ?case
  proof (cases "check_json_bounds v depth count")
    case (Inl e)
    then show ?thesis using "5.IH"(1) [OF "5.prems", of "count + json_fields v"] by auto
  next
    case (Inr h)
    then show ?thesis using "5.IH"(1) [OF "5.prems", of h] "5.IH"(2) [OF Inr, of g] by auto
  qed
qed auto

corollary check_whole_value:
  "check_json_bounds v 1 0 = Inr g \<longleftrightarrow> json_depth v \<le> MAX_JSON_DEPTH \<and> json_fields v \<le> MAX_JSON_FIELDS \<and> g = json_fields v"
  using check_bounds_meaning(1) [of 0 v 1 g] by simp

section \<open>Properties\<close>

text \<open>
  Claim C26. Frames round-trip: a value of this protocol version without floating-point numbers that was
  encoded is decoded from the stream, whatever follows it, to the same value, and exactly its own
  bytes are consumed. Of \<open>serde_json\<close> it is assumed that values without floats and nested at
  most 127 deep are printed as UTF-8 text that parses back to them.
\<close>
theorem frame_roundtrip:
  assumes "serde_roundtrip to_vec from_str" "wire_value v" "encode_json_frame to_vec v = Inr bytes"
    "json_get v ''v'' = Some (JNumber (PosInt PROTOCOL_VERSION))"
  shows "decode_json_frame from_str (bytes @ rest) = Inr (v, length bytes)"
proof -
  obtain g payload where g: "check_json_bounds v 1 0 = Inr g" and payload: "to_vec v = Some payload"
    "length payload \<le> MAX_JSON_FRAME_BYTES" "bytes = to_le_bytes 4 (length payload mod 2 ^ 32) @ payload"
    using assms(3) by (auto simp: encode_json_frame_def split: sum.splits option.splits if_splits)
  have "json_depth v \<le> SERDE_JSON_DEPTH" using g unfolding check_whole_value by (simp add: MAX_JSON_DEPTH_def SERDE_JSON_DEPTH_def)
  then have ok: "payload \<noteq> []" "from_str payload = Some v" "utf8_decode (map unat payload) \<noteq> None"
    using assms(1,2) payload(1) by (auto simp: serde_roundtrip_def)
  have small: "length payload < 2 ^ 32" using payload(2) by (simp add: MAX_JSON_FRAME_BYTES_def)
  then have "from_le_bytes (take 4 (bytes @ rest)) = length payload"
    using payload(3) by (simp add: from_to_le_bytes)
  moreover have "take (length payload) (drop 4 (bytes @ rest)) = payload" "length bytes = 4 + length payload"
    using payload(3) by simp_all
  ultimately show ?thesis
    using ok g assms(4) payload(2) by (simp add: decode_json_frame_def Let_def as_u64_def)
qed

definition hello :: json where
  "hello = JObject [(''kind'', JString ''cancel''), (''request_id'', JString ''r1''), (''v'', JNumber (PosInt 1))]"

definition hello_bytes :: "u8 list" where
  "hello_bytes = the (print_json hello)"

definition hello_frame :: "u8 list" where
  "hello_frame = [41, 0, 0, 0] @ hello_bytes"

lemma hello_wire: "wire_value hello"
  by (simp add: hello_def utf8_ok_def utf8_decode.simps byte_def u64_max_def)

lemma hello_printed: "print_json hello = Some hello_bytes" "length hello_bytes = 41"
  using hello_wire
  by (simp_all add: hello_bytes_def print_json_def)
     (simp add: hello_def quoted_def escape_char_def short_escapes_def show_nat.simps byte_def)

lemma hello_bounds: "check_json_bounds hello 1 0 = Inr 3"
  unfolding check_whole_value by (simp add: hello_def MAX_JSON_DEPTH_def MAX_JSON_FIELDS_def)

lemma hello_encoded: "encode_json_frame print_json hello = Inr hello_frame"
  by (simp add: encode_json_frame_def hello_bounds [simplified] hello_printed MAX_JSON_FRAME_BYTES_def to_le_bytes_4 hello_frame_def)

theorem frame_roundtrip_witness:
  "encode_json_frame print_json hello = Inr hello_frame
   \<and> decode_json_frame parse_json (hello_frame @ [7]) = Inr (hello, 45)"
  using hello_encoded frame_roundtrip [OF json_roundtrip hello_wire hello_encoded, of "[7]"] hello_printed(2)
  by (simp add: hello_def json_get_def PROTOCOL_VERSION_def hello_frame_def)

text \<open>
  Nothing a worker sends escapes the bounds: whatever the parser returns, a frame that is
  accepted lies inside the bytes received, is no longer than a control frame may be, is nested at
  most eight deep with at most 64 fields, and carries this protocol version.
\<close>
theorem decoded_frame_bounded:
  assumes "decode_json_frame from_str bytes = Inr (v, n)"
  shows "4 < n \<and> n \<le> length bytes \<and> n \<le> 4 + MAX_JSON_FRAME_BYTES
    \<and> json_depth v \<le> MAX_JSON_DEPTH \<and> json_fields v \<le> MAX_JSON_FIELDS
    \<and> Option.bind (json_get v ''v'') as_u64 = Some PROTOCOL_VERSION"
proof -
  let ?len = "from_le_bytes (take 4 bytes)"
  have n: "n = 4 + ?len" "0 < ?len" "?len \<le> MAX_JSON_FRAME_BYTES" "4 + ?len \<le> length bytes"
    and v: "Option.bind (json_get v ''v'') as_u64 = Some PROTOCOL_VERSION" "\<exists>g. check_json_bounds v 1 0 = Inr g"
    using assms by (auto simp: decode_json_frame_def Let_def split: if_splits option.splits sum.splits)
  then show ?thesis by (auto simp: check_whole_value [simplified])
qed

theorem decoded_frame_bounded_witness:
  "json_fields hello \<le> MAX_JSON_FIELDS \<and> json_depth hello \<le> MAX_JSON_DEPTH"
proof -
  have "json_depth hello \<le> SERDE_JSON_DEPTH" by (simp add: hello_def SERDE_JSON_DEPTH_def)
  then have "utf8_decode (map unat hello_bytes) \<noteq> None" "parse_json hello_bytes = Some hello"
    using json_roundtrip hello_wire hello_printed(1) by (auto simp: serde_roundtrip_def)
  moreover have "from_le_bytes [41, 0, 0, 0] = 41" by code_simp
  ultimately have "decode_json_frame parse_json hello_frame = Inr (hello, 45)"
    using hello_printed(2) hello_bounds by (simp add: decode_json_frame_def Let_def hello_frame_def hello_def
        json_get_def as_u64_def PROTOCOL_VERSION_def MAX_JSON_FRAME_BYTES_def)
  then show ?thesis using decoded_frame_bounded [of parse_json hello_frame hello 45] by simp
qed

text \<open>
  A Transcript accepted from the worker is within its size, has no NUL and no control
  character but tab, newline and carriage return, and came with a complete correlation.
\<close>
theorem worker_transcript_clean:
  assumes "parse_worker to_vec v = Inr (TranscriptFrame c t)"
  shows "length t \<le> MAX_TRANSCRIPT_BYTES \<and> CHR 0x00 \<notin> set t
    \<and> (\<forall>ch\<in>set (str_chars t). (0x20 \<le> ch \<or> ch \<in> {0x09, 0x0A, 0x0D}) \<and> \<not> (0x7F \<le> ch \<and> ch \<le> 0x9F))
    \<and> correlation_from v = Inr c"
proof -
  have "validate_transcript t = Inr ()" "correlation_from v = Inr c"
    using assms by (auto simp: parse_worker_def bind_result_def Let_def split: option.splits if_splits sum.splits)
  then show ?thesis
    by (auto simp: validate_transcript_def unsupported_control_def split: if_splits)
qed

definition transcript_value :: json where
  "transcript_value = JObject [(''kind'', JString ''transcript''), (''text'', JString ''hi''), (''daemon_nonce'', JString ''n''),
     (''generation'', JNumber (PosInt 3)), (''request_id'', JString ''r''), (''recording_id'', JString ''c''),
     (''model_receipt_hash'', JString ''h'')]"

theorem worker_transcript_clean_witness:
  "correlation_from transcript_value =
     Inr \<lparr>daemon_nonce = ''n'', generation = 3, request_id = ''r'', recording_id = ''c'', model_receipt_hash = ''h''\<rparr>
   \<and> CHR 0x00 \<notin> set ''hi''"
proof -
  have "parse_worker (\<lambda>_. None) transcript_value = Inr (TranscriptFrame
      \<lparr>daemon_nonce = ''n'', generation = 3, request_id = ''r'', recording_id = ''c'', model_receipt_hash = ''h''\<rparr> ''hi'')"
    by (simp add: parse_worker_def transcript_value_def json_get_def as_str_def as_u64_def bind_result_def required_string_def
        correlation_from_def validate_transcript_def MAX_TRANSCRIPT_BYTES_def str_chars_def utf8_decode.simps byte_def
        unsupported_control_def)
  then show ?thesis using worker_transcript_clean [of "\<lambda>_. None" transcript_value] by blast
qed

end
