(* ===== verification/Supervisor.thy ===== *)
theory Supervisor
  imports Protocol
begin

text \<open>
  The Local worker supervisor, \<open>crates/voisu-app/src/local_worker/supervisor.rs\<close>, with the program
  check of \<open>runtime.rs\<close> it calls.

  The trait \<open>WorkerChild\<close> is a record of functions, and the supervisor's operations take it as an
  argument, as the source is generic in it. An exchange also says when it returned, because the
  supervisor reads the clock after it. \<open>FakeWorker\<close>, the scripted child of the harness, is one
  instance.
\<close>

section \<open>Types\<close>

datatype worker_state =
  WorkerAbsent | WorkerVerifying | WorkerLoading | WorkerReady | WorkerBusy | WorkerStopping | WorkerUnavailable

datatype runtime_error = ProductionDownloadForbidden | OllamaRejected | MissingRuntime | RelativeProgram

datatype supervisor_error =
    NotReady worker_state
  | RestartExhausted
  | ExchangeTimedOut
  | ProtocolError frame_error
  | RuntimeRefused runtime_error
  | SupervisorBusy
  | Unavailable string
  | Crashed
  | OutOfMemory
  | LoadAborted
  | Refused string string

record transcribe_request =
  req_correlation :: correlation
  req_pcm :: "u8 list"

record inference_metrics =
  backend :: "string option"
  resident :: "bool option"
  inference_ms :: "nat option"
  peak_host_ram_bytes :: "nat option"
  peak_gpu_memory_bytes :: "nat option"
  cpu_time_ms :: "nat option"

definition metrics_default :: inference_metrics where
  "metrics_default = \<lparr>backend = None, resident = None, inference_ms = None, peak_host_ram_bytes = None,
     peak_gpu_memory_bytes = None, cpu_time_ms = None\<rparr>"

datatype worker_outcome =
    TranscriptOutcome string string inference_metrics
  | NoTextOutcome string string inference_metrics

datatype reap_outcome = Exited | Killed | Unreaped

section \<open>Restart budget\<close>

definition retain_recent :: "instant list \<Rightarrow> instant \<Rightarrow> instant list" where
  "retain_recent starts now = filter (\<lambda>s. saturating_duration_since now s < RESTART_WINDOW) starts"

definition try_register :: "instant list \<Rightarrow> instant \<Rightarrow> instant list \<times> (supervisor_error + unit)" where
  "try_register starts now =
     (let recent = retain_recent starts now
      in if length recent \<ge> MAX_RESTARTS then (recent, Inl RestartExhausted) else (recent @ [now], Inr ()))"

definition exhausted :: "instant list \<Rightarrow> instant \<Rightarrow> instant list \<times> bool" where
  "exhausted starts now = (let recent = retain_recent starts now in (recent, length recent \<ge> MAX_RESTARTS))"

section \<open>The child\<close>

record 'c worker_child =
  exchange :: "'c \<Rightarrow> control_frame \<Rightarrow> u8 list option \<Rightarrow> instant \<Rightarrow> instant \<Rightarrow> (supervisor_error + worker_frame) \<times> 'c \<times> instant"
  cancel_and_reap :: "'c \<Rightarrow> (supervisor_error + reap_outcome) \<times> 'c"
  last_inference_metrics :: "'c \<Rightarrow> inference_metrics"

section \<open>The supervisor\<close>

record 'c worker_supervisor =
  sup_state :: worker_state
  child :: "'c option"
  restarts :: "instant list"
  observed_device :: string
  last_terminal_request :: "string option"

definition supervisor_absent :: "'c worker_supervisor" where
  "supervisor_absent = \<lparr>sup_state = WorkerAbsent, child = None, restarts = [], observed_device = ''unknown'',
     last_terminal_request = None\<rparr>"

definition attach_as :: "worker_state \<Rightarrow> 'c worker_supervisor \<Rightarrow> 'c \<Rightarrow> instant \<Rightarrow> 'c worker_supervisor \<times> (supervisor_error + unit)" where
  "attach_as st s c now =
     (if child s \<noteq> None then (s, Inl (Unavailable ''worker still attached''))
      else case try_register (restarts s) now of
             (starts, Inl e) \<Rightarrow> (s\<lparr>restarts := starts\<rparr>, Inl e)
           | (starts, Inr _) \<Rightarrow>
               (s\<lparr>restarts := starts, child := Some c, sup_state := st, last_terminal_request := None\<rparr>, Inr ()))"

definition attach_ready :: "'c worker_supervisor \<Rightarrow> 'c \<Rightarrow> instant \<Rightarrow> 'c worker_supervisor \<times> (supervisor_error + unit)" where
  "attach_ready s c now = attach_as WorkerReady s c now"

definition attach_pending :: "'c worker_supervisor \<Rightarrow> 'c \<Rightarrow> instant \<Rightarrow> 'c worker_supervisor \<times> (supervisor_error + unit)" where
  "attach_pending s c now = attach_as WorkerLoading s c now"

definition restart_exhausted :: "'c worker_supervisor \<Rightarrow> instant \<Rightarrow> 'c worker_supervisor \<times> bool" where
  "restart_exhausted s now = (let (starts, b) = exhausted (restarts s) now in (s\<lparr>restarts := starts\<rparr>, b))"

definition has_child :: "'c worker_supervisor \<Rightarrow> bool" where
  "has_child s \<longleftrightarrow> child s \<noteq> None"

definition released :: "'c worker_supervisor \<Rightarrow> bool" where
  "released s \<longleftrightarrow> child s = None \<and> sup_state s \<notin> {WorkerBusy, WorkerStopping}"

definition can_launch_replacement :: "'c worker_supervisor \<Rightarrow> bool" where
  "can_launch_replacement s \<longleftrightarrow> released s \<and> \<not> has_child s"

definition mark_unavailable :: "'c worker_supervisor \<Rightarrow> 'c worker_supervisor" where
  "mark_unavailable s = s\<lparr>last_terminal_request := None, sup_state := WorkerUnavailable\<rparr>"

definition apply_reap :: "'c worker_supervisor \<Rightarrow> reap_outcome \<Rightarrow> 'c worker_supervisor" where
  "apply_reap s r =
     (case r of
        Unreaped \<Rightarrow> s\<lparr>last_terminal_request := None, sup_state := WorkerUnavailable\<rparr>
      | _ \<Rightarrow> s\<lparr>last_terminal_request := None, child := None, sup_state := WorkerAbsent\<rparr>)"

text \<open>\<open>child.cancel_and_reap()\<close> of the attached child; without one it has already exited.\<close>

definition reap_child :: "'c worker_child \<Rightarrow> 'c worker_supervisor \<Rightarrow> 'c worker_supervisor \<times> (supervisor_error + reap_outcome)" where
  "reap_child ops s =
     (case child s of
        Some c \<Rightarrow> (case cancel_and_reap ops c of (r, c') \<Rightarrow> (s\<lparr>child := Some c'\<rparr>, r))
      | None \<Rightarrow> (s, Inr Exited))"

definition reap_or_unreaped :: "'c worker_child \<Rightarrow> 'c worker_supervisor \<Rightarrow> 'c worker_supervisor" where
  "reap_or_unreaped ops s =
     (case reap_child ops s of (s', Inr r) \<Rightarrow> apply_reap s' r | (s', Inl _) \<Rightarrow> apply_reap s' Unreaped)"

definition timeout_and_reap :: "'c worker_child \<Rightarrow> 'c worker_supervisor \<Rightarrow> 'c worker_supervisor \<times> supervisor_error" where
  "timeout_and_reap ops s = (reap_or_unreaped ops s, ExchangeTimedOut)"

definition fail_and_reap :: "'c worker_child \<Rightarrow> 'c worker_supervisor \<Rightarrow> supervisor_error \<Rightarrow> 'c worker_supervisor \<times> supervisor_error" where
  "fail_and_reap ops s e = ((reap_or_unreaped ops s)\<lparr>sup_state := WorkerUnavailable\<rparr>, e)"

definition unload_idle :: "'c worker_child \<Rightarrow> 'c worker_supervisor \<Rightarrow> 'c worker_supervisor \<times> (supervisor_error + reap_outcome)" where
  "unload_idle ops s =
     (if sup_state s \<in> {WorkerBusy, WorkerStopping} then (s, Inl SupervisorBusy)
      else if sup_state s = WorkerUnavailable \<and> child s \<noteq> None
      then (s, Inl (Unavailable ''worker unreaped; reap before new work''))
      else case reap_child ops s of
             (s', Inl e) \<Rightarrow> (s', Inl e)
           | (s', Inr r) \<Rightarrow> (apply_reap s' r, Inr r))"

definition drain_for_switch :: "'c worker_child \<Rightarrow> 'c worker_supervisor \<Rightarrow> 'c worker_supervisor \<times> (supervisor_error + reap_outcome)" where
  "drain_for_switch ops s =
     (if sup_state s \<in> {WorkerBusy, WorkerStopping} then (s, Inl SupervisorBusy)
      else if sup_state s = WorkerUnavailable \<and> child s \<noteq> None
      then (s, Inl (Unavailable ''worker unreaped; reap before new work''))
      else case unload_idle ops s of
             (s', Inl e) \<Rightarrow> (s', Inl e)
           | (s', Inr r) \<Rightarrow>
               (if child s' \<noteq> None
                then (s'\<lparr>sup_state := WorkerUnavailable\<rparr>, Inl (Unavailable ''previous worker unreaped; Local unavailable''))
                else (s', Inr r)))"

text \<open>\<open>conclude_exchange\<close>: the frame to act on, or the error after the state it leads to.\<close>

definition conclude_exchange ::
  "'c worker_child \<Rightarrow> 'c worker_supervisor \<Rightarrow> supervisor_error + worker_frame \<Rightarrow> instant \<Rightarrow> instant \<Rightarrow> worker_state
    \<Rightarrow> 'c worker_supervisor \<times> (supervisor_error + worker_frame)" where
  "conclude_exchange ops s result finished dl on_protocol =
     (if result = Inl ExchangeTimedOut \<or> finished > dl
      then (let (s', e) = timeout_and_reap ops s in (s', Inl e))
      else case result of
             Inr frame \<Rightarrow> (s, Inr frame)
           | Inl e \<Rightarrow>
               (case e of
                  ProtocolError _ \<Rightarrow> (s\<lparr>sup_state := on_protocol\<rparr>, Inl e)
                | Crashed \<Rightarrow> (let (s', e') = fail_and_reap ops s e in (s', Inl e'))
                | OutOfMemory \<Rightarrow> (let (s', e') = fail_and_reap ops s e in (s', Inl e'))
                | LoadAborted \<Rightarrow> (let (s', e') = fail_and_reap ops s e in (s', Inl e'))
                | _ \<Rightarrow> (s\<lparr>sup_state := WorkerUnavailable, last_terminal_request := None\<rparr>, Inl e)))"

definition map_worker_error ::
  "'c worker_child \<Rightarrow> 'c worker_supervisor \<Rightarrow> string \<Rightarrow> (string \<times> json) list \<Rightarrow> worker_state \<Rightarrow> 'c worker_supervisor \<times> supervisor_error" where
  "map_worker_error ops s code metadata unknown =
     (if code = ''oom'' then fail_and_reap ops s OutOfMemory
      else if code = ''crash'' then fail_and_reap ops s Crashed
      else if code = ''load_abort'' then fail_and_reap ops s LoadAborted
      else (s\<lparr>sup_state := unknown\<rparr>,
            Refused code (case Option.bind (map_of metadata ''message'') as_str of Some m \<Rightarrow> m | None \<Rightarrow> [])))"

definition protocol_reject :: "'c worker_supervisor \<Rightarrow> frame_error \<Rightarrow> 'c worker_supervisor \<times> supervisor_error" where
  "protocol_reject s e = (s\<lparr>sup_state := WorkerReady\<rparr>, ProtocolError e)"

definition prepare_until ::
  "'c worker_child \<Rightarrow> 'c worker_supervisor \<Rightarrow> correlation \<Rightarrow> instant \<Rightarrow> instant \<Rightarrow> 'c worker_supervisor \<times> (supervisor_error + duration)" where
  "prepare_until ops s corr now dl =
     (if sup_state s \<in> {WorkerBusy, WorkerStopping} then (s, Inl SupervisorBusy)
      else case child s of
             None \<Rightarrow> (s, Inl (NotReady (sup_state s)))
           | Some c \<Rightarrow>
               (case exchange ops c (Prepare corr) None dl now of (result, c', finished) \<Rightarrow>
                  (case conclude_exchange ops (s\<lparr>sup_state := WorkerLoading, child := Some c'\<rparr>) result finished dl WorkerUnavailable of
                     (s', Inl e) \<Rightarrow> (s', Inl e)
                   | (s', Inr (ReadyFrame got device)) \<Rightarrow>
                       (case correlations_match corr got of
                          Inl e \<Rightarrow> (s'\<lparr>sup_state := WorkerUnavailable\<rparr>, Inl (ProtocolError e))
                        | Inr _ \<Rightarrow>
                            (s'\<lparr>observed_device := device, sup_state := WorkerReady\<rparr>,
                             Inr (saturating_duration_since finished now)))
                   | (s', Inr (ErrorFrame code metadata)) \<Rightarrow>
                       (let (s'', e) = map_worker_error ops s' code metadata WorkerUnavailable in (s'', Inl e))
                   | (s', Inr _) \<Rightarrow>
                       (s'\<lparr>sup_state := WorkerUnavailable, last_terminal_request := None\<rparr>, Inl (ProtocolError Unsolicited)))))"

definition prepare ::
  "'c worker_child \<Rightarrow> 'c worker_supervisor \<Rightarrow> correlation \<Rightarrow> instant \<Rightarrow> 'c worker_supervisor \<times> (supervisor_error + duration)" where
  "prepare ops s corr now = prepare_until ops s corr now (now + LOAD_DEADLINE)"

definition transcribe_until ::
  "'c worker_child \<Rightarrow> 'c worker_supervisor \<Rightarrow> transcribe_request \<Rightarrow> instant \<Rightarrow> instant
    \<Rightarrow> 'c worker_supervisor \<times> (supervisor_error + worker_outcome)" where
  "transcribe_until ops s req now dl =
     (if sup_state s \<noteq> WorkerReady then (s, Inl (NotReady (sup_state s)))
      else case validate_pcm (req_pcm req) (Some (length (req_pcm req))) of
             Inl e \<Rightarrow> (s, Inl (ProtocolError e))
           | Inr _ \<Rightarrow>
               (let rid = request_id (req_correlation req)
                in if last_terminal_request s = Some rid then (s, Inl (ProtocolError DuplicateTerminal))
                   else case child s of
                          None \<Rightarrow> (s, Inl (NotReady (sup_state s)))
                        | Some c \<Rightarrow>
                            (case exchange ops c (Transcribe (req_correlation req) (length (req_pcm req))) (Some (req_pcm req)) dl now of
                               (result, c', finished) \<Rightarrow>
                               (case conclude_exchange ops (s\<lparr>sup_state := WorkerBusy, child := Some c'\<rparr>) result finished dl WorkerReady of
                                  (s', Inl e) \<Rightarrow> (s', Inl e)
                                | (s', Inr frame) \<Rightarrow>
                                    (let metrics = (case child s' of Some c'' \<Rightarrow> last_inference_metrics ops c'' | None \<Rightarrow> metrics_default)
                                     in case frame of
                                          TranscriptFrame got t \<Rightarrow>
                                            (case correlations_match (req_correlation req) got of
                                               Inl e \<Rightarrow> (let (s'', e') = protocol_reject s' e in (s'', Inl e'))
                                             | Inr _ \<Rightarrow>
                                                 (s'\<lparr>last_terminal_request := Some rid, sup_state := WorkerReady\<rparr>,
                                                  Inr (if trim t = [] then NoTextOutcome ''empty'' (observed_device s') metrics
                                                       else TranscriptOutcome t (observed_device s') metrics)))
                                        | NoTextFrame got reason \<Rightarrow>
                                            (case correlations_match (req_correlation req) got of
                                               Inl e \<Rightarrow> (let (s'', e') = protocol_reject s' e in (s'', Inl e'))
                                             | Inr _ \<Rightarrow>
                                                 (s'\<lparr>last_terminal_request := Some rid, sup_state := WorkerReady\<rparr>,
                                                  Inr (NoTextOutcome reason (observed_device s') metrics)))
                                        | ErrorFrame code metadata \<Rightarrow>
                                            (let (s'', e) = map_worker_error ops s' code metadata WorkerReady in (s'', Inl e))
                                        | ReadyFrame _ _ \<Rightarrow>
                                            (s'\<lparr>sup_state := WorkerReady\<rparr>, Inl (ProtocolError Unsolicited)))))))"

definition transcribe ::
  "'c worker_child \<Rightarrow> 'c worker_supervisor \<Rightarrow> transcribe_request \<Rightarrow> instant \<Rightarrow> 'c worker_supervisor \<times> (supervisor_error + worker_outcome)" where
  "transcribe ops s req now = transcribe_until ops s req now (now + STOP_PROCESSING)"

definition sup_cancel :: "'c worker_child \<Rightarrow> 'c worker_supervisor \<Rightarrow> 'c worker_supervisor \<times> (supervisor_error + reap_outcome)" where
  "sup_cancel ops s =
     (case reap_child ops (s\<lparr>sup_state := WorkerStopping\<rparr>) of
        (s', Inl e) \<Rightarrow> (s', Inl e)
      | (s', Inr r) \<Rightarrow> (apply_reap s' r, Inr r))"

text \<open>\<open>Path::file_name\<close> of a Unix path, empty where there is none, and \<open>is_absolute\<close>.\<close>

definition path_file_name :: "string \<Rightarrow> string" where
  "path_file_name p =
     (let cs = filter (\<lambda>c. c \<noteq> [] \<and> c \<noteq> ''.'') (split_char (CHR ''/'') p)
      in if cs = [] \<or> last cs = ''..'' then [] else last cs)"

definition reject_forbidden_program :: "string \<Rightarrow> runtime_error + unit" where
  "reject_forbidden_program p =
     (if eq_ignore_ascii_case (path_file_name p) ''ollama'' then Inl OllamaRejected
      else if take 1 p \<noteq> ''/'' then Inl RelativeProgram else Inr ())"

definition spawn_program_allowed :: "string \<Rightarrow> supervisor_error + unit" where
  "spawn_program_allowed p = (case reject_forbidden_program p of Inl e \<Rightarrow> Inl (RuntimeRefused e) | Inr u \<Rightarrow> Inr u)"

definition worker_frame_from_json :: "(json \<Rightarrow> u8 list option) \<Rightarrow> json \<Rightarrow> supervisor_error + worker_frame" where
  "worker_frame_from_json to_vec v = (case parse_worker to_vec v of Inl e \<Rightarrow> Inl (ProtocolError e) | Inr f \<Rightarrow> Inr f)"

definition control_frame_from_json :: "json \<Rightarrow> supervisor_error + control_frame" where
  "control_frame_from_json v = (case parse_control v of Inl e \<Rightarrow> Inl (ProtocolError e) | Inr f \<Rightarrow> Inr f)"

section \<open>The scripted child\<close>

record fake_worker =
  fw_generation :: nat
  fw_model_receipt_hash :: string
  fw_observed_device :: string
  scripted_text :: "string option"
  block_for :: "duration option"
  prepare_count :: nat
  transcribe_count :: nat
  response_correlation :: "correlation option"
  fw_reap :: reap_outcome
  scripted_error :: "string option"
  crash :: bool
  ignore_cancel :: bool
  hold_until_cancel :: bool
  queued_late :: "string option"

definition fake_worker_default :: fake_worker where
  "fake_worker_default = \<lparr>fw_generation = 1, fw_model_receipt_hash = ''harness-no-weights'', fw_observed_device = ''cpu'',
     scripted_text = None, block_for = None, prepare_count = 0, transcribe_count = 0, response_correlation = None,
     fw_reap = Exited, scripted_error = None, crash = False, ignore_cancel = False, hold_until_cancel = False,
     queued_late = None\<rparr>"

definition would_exceed_deadline :: "instant \<Rightarrow> instant \<Rightarrow> duration option \<Rightarrow> bool" where
  "would_exceed_deadline now dl blk \<longleftrightarrow>
     now \<ge> dl \<or> (case blk of Some b \<Rightarrow> saturating_duration_since dl now < b | None \<Rightarrow> False)"

definition live_correlation :: "fake_worker \<Rightarrow> correlation \<Rightarrow> correlation" where
  "live_correlation w offered = offered\<lparr>generation := fw_generation w, model_receipt_hash := fw_model_receipt_hash w\<rparr>"

definition outbound_correlation :: "fake_worker \<Rightarrow> correlation \<Rightarrow> correlation" where
  "outbound_correlation w inbound = (case response_correlation w of Some c \<Rightarrow> c | None \<Rightarrow> inbound)"

definition sat_incr_u32 :: "nat \<Rightarrow> nat" where
  "sat_incr_u32 n = min (n + 1) u32_max"

definition fake_transcribe :: "fake_worker \<Rightarrow> correlation \<Rightarrow> nat \<Rightarrow> u8 list \<Rightarrow> (supervisor_error + worker_frame) \<times> fake_worker" where
  "fake_transcribe w corr pcm_bytes pcm =
     (if hold_until_cancel w then (Inl SupervisorBusy, w\<lparr>queued_late := scripted_text w\<rparr>)
      else case validate_pcm pcm None of
             Inl e \<Rightarrow> (Inl (ProtocolError e), w)
           | Inr _ \<Rightarrow>
               (if length pcm > pcm_bytes then (Inl (ProtocolError ExtraAudio), w)
                else if length pcm \<noteq> pcm_bytes then (Inl (ProtocolError (DeclaredPcmMismatch pcm_bytes (length pcm))), w)
                else case correlations_match (live_correlation w corr) corr of
                       Inl e \<Rightarrow> (Inl (ProtocolError e), w)
                     | Inr _ \<Rightarrow>
                         (let c = outbound_correlation w corr;
                              w' = w\<lparr>transcribe_count := sat_incr_u32 (transcribe_count w)\<rparr>
                          in if is_silence_pcm pcm then (Inr (NoTextFrame c ''silence''), w')
                             else case scripted_text w of
                                    None \<Rightarrow> (Inr (NoTextFrame c ''no-scripted-hypothesis''), w')
                                  | Some t \<Rightarrow>
                                      (case validate_transcript t of
                                         Inl e \<Rightarrow> (Inl (ProtocolError e), w')
                                       | Inr _ \<Rightarrow>
                                           (Inr (if trim t = [] then NoTextFrame c ''empty'' else TranscriptFrame c t), w')))))"

definition fake_exchange ::
  "fake_worker \<Rightarrow> control_frame \<Rightarrow> u8 list option \<Rightarrow> instant \<Rightarrow> instant \<Rightarrow> (supervisor_error + worker_frame) \<times> fake_worker \<times> instant" where
  "fake_exchange w ctl pcm dl now =
     (if would_exceed_deadline now dl (block_for w) then (Inl ExchangeTimedOut, w, now)
      else if crash w then (Inl Crashed, w, now)
      else case scripted_error w of
             Some code \<Rightarrow> (Inr (ErrorFrame code []), w, now)
           | None \<Rightarrow>
               (case ctl of
                  Prepare corr \<Rightarrow>
                    (case correlations_match (live_correlation w corr) corr of
                       Inl e \<Rightarrow> (Inl (ProtocolError e), w, now)
                     | Inr _ \<Rightarrow>
                         (Inr (ReadyFrame (outbound_correlation w corr) (fw_observed_device w)),
                          w\<lparr>prepare_count := sat_incr_u32 (prepare_count w)\<rparr>, now))
                | Transcribe corr n \<Rightarrow>
                    (case fake_transcribe w corr n (case pcm of Some p \<Rightarrow> p | None \<Rightarrow> []) of (r, w') \<Rightarrow> (r, w', now))
                | CancelFrame _ \<Rightarrow> (Inr (ErrorFrame ''cancelled'' []), w, now)))"

definition fake_cancel_and_reap :: "fake_worker \<Rightarrow> (supervisor_error + reap_outcome) \<times> fake_worker" where
  "fake_cancel_and_reap w = (if ignore_cancel w then (Inr Unreaped, w) else (Inr (fw_reap w), w))"

definition fake_child :: "fake_worker worker_child" where
  "fake_child = \<lparr>exchange = fake_exchange, cancel_and_reap = fake_cancel_and_reap,
     last_inference_metrics = (\<lambda>_. metrics_default)\<rparr>"

section \<open>The supervisor as a machine\<close>

datatype 'c sup_op =
    AttachReady 'c instant
  | AttachPending 'c instant
  | PrepareOp correlation instant
  | TranscribeOp transcribe_request instant
  | CancelOp
  | UnloadOp
  | DrainOp
  | MarkUnavailableOp
  | ExhaustedOp instant

text \<open>What an operation puts out: the time of a start that the budget granted.\<close>

definition sup_step :: "'c worker_child \<Rightarrow> 'c worker_supervisor \<Rightarrow> 'c sup_op \<Rightarrow> 'c worker_supervisor \<times> instant list" where
  "sup_step ops s op =
     (case op of
        AttachReady c now \<Rightarrow> (case attach_ready s c now of (s', Inr _) \<Rightarrow> (s', [now]) | (s', Inl _) \<Rightarrow> (s', []))
      | AttachPending c now \<Rightarrow> (case attach_pending s c now of (s', Inr _) \<Rightarrow> (s', [now]) | (s', Inl _) \<Rightarrow> (s', []))
      | PrepareOp corr now \<Rightarrow> (fst (prepare ops s corr now), [])
      | TranscribeOp req now \<Rightarrow> (fst (transcribe ops s req now), [])
      | CancelOp \<Rightarrow> (fst (sup_cancel ops s), [])
      | UnloadOp \<Rightarrow> (fst (unload_idle ops s), [])
      | DrainOp \<Rightarrow> (fst (drain_for_switch ops s), [])
      | MarkUnavailableOp \<Rightarrow> (mark_unavailable s, [])
      | ExhaustedOp now \<Rightarrow> (fst (restart_exhausted s now), []))"

text \<open>
  A worker is loading, ready or stopping only while the supervisor owns it, no call leaves it busy,
  and the start budget is never overdrawn.
\<close>

definition sup_inv :: "'c worker_supervisor \<Rightarrow> bool" where
  "sup_inv s \<longleftrightarrow>
     (child s = None \<longrightarrow> sup_state s \<in> {WorkerAbsent, WorkerUnavailable})
     \<and> (sup_state s = WorkerAbsent \<longrightarrow> child s = None)
     \<and> sup_state s \<notin> {WorkerBusy, WorkerVerifying}
     \<and> length (restarts s) \<le> MAX_RESTARTS"

lemmas sup_ops_simps = attach_ready_def attach_pending_def attach_as_def try_register_def restart_exhausted_def exhausted_def
  mark_unavailable_def apply_reap_def reap_child_def reap_or_unreaped_def timeout_and_reap_def fail_and_reap_def
  unload_idle_def drain_for_switch_def conclude_exchange_def map_worker_error_def protocol_reject_def sup_cancel_def Let_def

lemma retain_recent_length: "length (retain_recent xs now) \<le> length xs"
  by (simp add: retain_recent_def)

lemma reap_or_unreaped_sel:
  "restarts (reap_or_unreaped ops s) = restarts s"
  "(child (reap_or_unreaped ops s) = None \<and> sup_state (reap_or_unreaped ops s) = WorkerAbsent)
   \<or> (child (reap_or_unreaped ops s) \<noteq> None \<and> sup_state (reap_or_unreaped ops s) = WorkerUnavailable)"
  by (auto simp: reap_or_unreaped_def reap_child_def apply_reap_def split: option.splits prod.splits sum.splits reap_outcome.splits)

text \<open>An exchange that is concluded leaves the supervisor settled, or with the frame in hand.\<close>

lemma conclude_exchange_sel:
  assumes "conclude_exchange ops s r fin dl st = (s', x)" "child s \<noteq> None" "st \<in> {WorkerReady, WorkerUnavailable}"
  shows "restarts s' = restarts s
    \<and> (case x of
         Inr f \<Rightarrow> s' = s \<and> r = Inr f \<and> fin \<le> dl
       | Inl _ \<Rightarrow> (child s' = None \<longrightarrow> sup_state s' \<in> {WorkerAbsent, WorkerUnavailable})
           \<and> (sup_state s' = WorkerAbsent \<longrightarrow> child s' = None) \<and> sup_state s' \<notin> {WorkerBusy, WorkerVerifying})"
  using assms reap_or_unreaped_sel [of ops s]
  by (auto simp: conclude_exchange_def timeout_and_reap_def fail_and_reap_def Let_def
      split: if_splits sum.splits supervisor_error.splits)

lemma map_worker_error_sel:
  assumes "map_worker_error ops s code m st = (s', e)" "child s \<noteq> None" "st \<in> {WorkerReady, WorkerUnavailable}"
  shows "restarts s' = restarts s \<and> (child s' = None \<longrightarrow> sup_state s' \<in> {WorkerAbsent, WorkerUnavailable})
    \<and> (sup_state s' = WorkerAbsent \<longrightarrow> child s' = None) \<and> sup_state s' \<notin> {WorkerBusy, WorkerVerifying}"
  using assms reap_or_unreaped_sel [of ops s] by (auto simp: map_worker_error_def fail_and_reap_def split: if_splits)

definition settled :: "instant list \<Rightarrow> 'c worker_supervisor \<Rightarrow> bool" where
  "settled starts s \<longleftrightarrow>
     restarts s = starts
     \<and> (child s = None \<longrightarrow> sup_state s \<in> {WorkerAbsent, WorkerUnavailable})
     \<and> (sup_state s = WorkerAbsent \<longrightarrow> child s = None)
     \<and> sup_state s \<notin> {WorkerBusy, WorkerVerifying}"

lemma settled_inv: "settled starts s \<Longrightarrow> length starts \<le> MAX_RESTARTS \<Longrightarrow> sup_inv s"
  by (simp add: settled_def sup_inv_def)

lemma inv_settled: "sup_inv s \<Longrightarrow> settled (restarts s) s"
  by (simp add: settled_def sup_inv_def)

lemma conclude_error_settled:
  assumes "conclude_exchange ops s r fin dl st = (s', Inl e)" "child s \<noteq> None" "st \<in> {WorkerReady, WorkerUnavailable}"
  shows "settled (restarts s) s'"
  using conclude_exchange_sel [OF assms] by (simp add: settled_def)

lemma map_worker_error_settled:
  assumes "map_worker_error ops s code m st = (s', e)" "child s \<noteq> None" "st \<in> {WorkerReady, WorkerUnavailable}"
  shows "settled (restarts s) s'"
  using map_worker_error_sel [OF assms] by (simp add: settled_def)

lemma prepare_settled: "sup_inv s \<Longrightarrow> settled (restarts s) (fst (prepare_until ops s corr now dl))"
proof (cases "sup_state s \<in> {WorkerBusy, WorkerStopping} \<or> child s = None")
  case True
  then show "sup_inv s \<Longrightarrow> ?thesis" by (auto simp: prepare_until_def inv_settled)
next
  case False
  then obtain c where c: "child s = Some c" by auto
  obtain r c' fin where ex: "exchange ops c (Prepare corr) None dl now = (r, c', fin)" by (metis prod_cases3)
  let ?s = "s\<lparr>sup_state := WorkerLoading, child := Some c'\<rparr>"
  obtain s' x where con: "conclude_exchange ops ?s r fin dl WorkerUnavailable = (s', x)" by fastforce
  note sel = conclude_exchange_sel [OF con]
  show ?thesis
  proof (cases x)
    case (Inl e)
    then show ?thesis
      using False c ex con conclude_error_settled [of ops ?s r fin dl WorkerUnavailable s' e]
      by (simp add: prepare_until_def)
  next
    case (Inr f)
    then have s': "s' = ?s" using sel by simp
    show ?thesis
      using False c ex con Inr map_worker_error_settled [of ops ?s _ _ WorkerUnavailable]
      by (cases f; auto simp: prepare_until_def s' settled_def correlations_match_def Let_def split: prod.splits)
  qed
qed

lemma transcribe_settled: "sup_inv s \<Longrightarrow> settled (restarts s) (fst (transcribe_until ops s req now dl))"
proof (cases "sup_state s \<noteq> WorkerReady \<or> validate_pcm (req_pcm req) (Some (length (req_pcm req))) \<noteq> Inr ()
    \<or> last_terminal_request s = Some (request_id (req_correlation req)) \<or> child s = None")
  case True
  then show "sup_inv s \<Longrightarrow> ?thesis"
    by (auto simp: transcribe_until_def inv_settled Let_def split: sum.splits option.splits)
next
  case False
  then obtain c where c: "child s = Some c" by auto
  obtain r c' fin where
    ex: "exchange ops c (Transcribe (req_correlation req) (length (req_pcm req))) (Some (req_pcm req)) dl now = (r, c', fin)"
    by (metis prod_cases3)
  let ?s = "s\<lparr>sup_state := WorkerBusy, child := Some c'\<rparr>"
  obtain s' x where con: "conclude_exchange ops ?s r fin dl WorkerReady = (s', x)" by fastforce
  note sel = conclude_exchange_sel [OF con]
  show ?thesis
  proof (cases x)
    case (Inl e)
    then show ?thesis
      using False c ex con conclude_error_settled [of ops ?s r fin dl WorkerReady s' e]
      by (simp add: transcribe_until_def Let_def)
  next
    case (Inr f)
    then have s': "s' = ?s" using sel by simp
    show ?thesis
      using False c ex con Inr map_worker_error_settled [of ops ?s _ _ WorkerReady]
      by (cases f; auto simp: transcribe_until_def s' settled_def correlations_match_def protocol_reject_def Let_def split: prod.splits)
  qed
qed

lemma idle_settled:
  assumes "sup_inv s"
  shows "settled (restarts s) (fst (sup_cancel ops s))" "settled (restarts s) (fst (unload_idle ops s))"
    "settled (restarts s) (fst (drain_for_switch ops s))" "settled (restarts s) (mark_unavailable s)"
  using assms
  by (auto simp: settled_def sup_inv_def sup_cancel_def unload_idle_def drain_for_switch_def mark_unavailable_def reap_child_def
      apply_reap_def split: option.splits prod.splits sum.splits reap_outcome.splits if_splits)

lemma attach_inv: "sup_inv s \<Longrightarrow> st \<in> {WorkerReady, WorkerLoading} \<Longrightarrow> sup_inv (fst (attach_as st s c now))"
  using retain_recent_length [of "restarts s" now]
  by (auto simp: sup_inv_def attach_as_def try_register_def Let_def)

lemma sup_step_inv:
  assumes inv: "sup_inv s"
  shows "sup_inv (fst (sup_step ops s op))"
proof -
  have len: "length (restarts s) \<le> MAX_RESTARTS" using inv by (simp add: sup_inv_def)
  note settle = prepare_settled [OF inv] transcribe_settled [OF inv] idle_settled [OF inv]
  note kept = settle [THEN settled_inv, OF len]
  show ?thesis
  proof (cases op)
    case (AttachReady c now)
    have "fst (sup_step ops s op) = fst (attach_as WorkerReady s c now)"
      by (simp add: AttachReady sup_step_def attach_ready_def split_beta split: sum.splits)
    then show ?thesis using attach_inv [OF inv] by simp
  next
    case (AttachPending c now)
    have "fst (sup_step ops s op) = fst (attach_as WorkerLoading s c now)"
      by (simp add: AttachPending sup_step_def attach_pending_def split_beta split: sum.splits)
    then show ?thesis using attach_inv [OF inv] by simp
  next
    case (ExhaustedOp now)
    then show ?thesis
      using retain_recent_length [of "restarts s" now] inv
      by (simp add: sup_step_def restart_exhausted_def exhausted_def Let_def sup_inv_def)
  qed (simp_all add: sup_step_def prepare_def transcribe_def kept)
qed

interpretation supervisor_run: invariant_machine "sup_step ops" sup_inv for ops
  by unfold_locales (rule sup_step_inv)

section \<open>The restart rate\<close>

definition op_clock :: "'c sup_op \<Rightarrow> instant list" where
  "op_clock op = (case op of AttachReady _ now \<Rightarrow> [now] | AttachPending _ now \<Rightarrow> [now] | ExhaustedOp now \<Rightarrow> [now] | _ \<Rightarrow> [])"

text \<open>Any start is a full window after the third one before it.\<close>

definition spaced :: "instant list \<Rightarrow> bool" where
  "spaced ts \<longleftrightarrow> (\<forall>i. i + MAX_RESTARTS < length ts \<longrightarrow> ts ! i + RESTART_WINDOW \<le> ts ! (i + MAX_RESTARTS))"

text \<open>The budget holds the recent end of the history; what it forgot is older than the window.\<close>

definition rate_inv :: "instant list \<Rightarrow> instant list \<Rightarrow> instant \<Rightarrow> bool" where
  "rate_inv budget ts now \<longleftrightarrow>
     (\<exists>old. ts = old @ budget \<and> (\<forall>d\<in>set old. d + RESTART_WINDOW \<le> now))
     \<and> sorted ts \<and> (\<forall>x\<in>set ts. x \<le> now) \<and> spaced ts"

lemma retain_recent_suffix:
  "sorted xs \<Longrightarrow> \<forall>x\<in>set xs. x \<le> now \<Longrightarrow>
   \<exists>old. xs = old @ retain_recent xs now \<and> (\<forall>d\<in>set old. d + RESTART_WINDOW \<le> now)"
proof (induction xs)
  case Nil
  then show ?case by (simp add: retain_recent_def)
next
  case (Cons x xs)
  then obtain old where old: "xs = old @ retain_recent xs now" "\<forall>d\<in>set old. d + RESTART_WINDOW \<le> now" by auto
  show ?case
  proof (cases "now - x < RESTART_WINDOW")
    case True
    then have "\<forall>y\<in>set (x # xs). now - y < RESTART_WINDOW" using Cons.prems by (fastforce intro: le_less_trans diff_le_mono2)
    then have "retain_recent (x # xs) now = x # xs"
      by (simp add: retain_recent_def saturating_duration_since_def)
    then show ?thesis by (intro exI [of _ "[]"]) simp
  next
    case False
    then have "retain_recent (x # xs) now = retain_recent xs now" "x + RESTART_WINDOW \<le> now"
      using Cons.prems(2) by (auto simp: retain_recent_def saturating_duration_since_def)
    then show ?thesis using old by (intro exI [of _ "x # old"]) auto
  qed
qed

lemma rate_inv_later:
  assumes "rate_inv budget ts t" "t \<le> now"
  shows "rate_inv (retain_recent budget now) ts now"
proof -
  obtain old where old: "ts = old @ budget" "\<forall>d\<in>set old. d + RESTART_WINDOW \<le> t" and ts: "sorted ts" "\<forall>x\<in>set ts. x \<le> t" "spaced ts"
    using assms(1) unfolding rate_inv_def by blast
  have "sorted budget" using ts(1) old(1) by (simp add: sorted_append)
  moreover have "\<forall>x\<in>set budget. x \<le> now"
  proof
    fix x assume "x \<in> set budget"
    then have "x \<le> t" using ts(2) old(1) by simp
    then show "x \<le> now" using assms(2) by simp
  qed
  ultimately obtain old' where old': "budget = old' @ retain_recent budget now" "\<forall>d\<in>set old'. d + RESTART_WINDOW \<le> now"
    using retain_recent_suffix by blast
  have "ts = (old @ old') @ retain_recent budget now" using old(1) old'(1) by simp
  moreover have "\<forall>d\<in>set (old @ old'). d + RESTART_WINDOW \<le> now" using old(2) old'(2) assms(2) by fastforce
  ultimately show ?thesis unfolding rate_inv_def using ts assms(2) by fastforce
qed

lemma rate_inv_start:
  assumes "rate_inv budget ts now" "length budget < MAX_RESTARTS"
  shows "rate_inv (budget @ [now]) (ts @ [now]) now"
proof -
  obtain old where old: "ts = old @ budget" "\<forall>d\<in>set old. d + RESTART_WINDOW \<le> now"
    and ts: "sorted ts" "\<forall>x\<in>set ts. x \<le> now" "spaced ts"
    using assms(1) unfolding rate_inv_def by blast
  have "spaced (ts @ [now])"
    unfolding spaced_def
  proof (intro allI impI)
    fix i assume i: "i + MAX_RESTARTS < length (ts @ [now])"
    show "(ts @ [now]) ! i + RESTART_WINDOW \<le> (ts @ [now]) ! (i + MAX_RESTARTS)"
    proof (cases "i + MAX_RESTARTS < length ts")
      case True
      then show ?thesis using ts(3) by (simp add: spaced_def nth_append)
    next
      case False
      then have last: "i + MAX_RESTARTS = length ts" using i by simp
      then have "i < length old" using assms(2) old(1) by simp
      then have "ts ! i \<in> set old" "i < length ts" using old(1) by (simp_all add: nth_append)
      then show ?thesis using old(2) last by (simp add: nth_append)
    qed
  qed
  then show ?thesis using old ts unfolding rate_inv_def by (auto simp: sorted_append)
qed

lemma attach_rate:
  assumes "rate_inv (restarts s) ts t" "t \<le> now"
  shows "rate_inv (restarts (fst (attach_as st s c now)))
      (ts @ (case snd (attach_as st s c now) of Inr _ \<Rightarrow> [now] | Inl _ \<Rightarrow> [])) (if child s = None then now else t)"
  using assms rate_inv_later [OF assms] rate_inv_start [OF rate_inv_later [OF assms]]
  by (auto simp: attach_as_def try_register_def Let_def)

lemma rate_inv_weaken: "rate_inv b ts t \<Longrightarrow> t \<le> now \<Longrightarrow> rate_inv b ts now"
  by (fastforce simp: rate_inv_def)

lemma step_rate:
  assumes "rate_inv (restarts s) ts t" "sup_inv s" "\<forall>now\<in>set (op_clock op). t \<le> now"
  shows "rate_inv (restarts (fst (sup_step ops s op))) (ts @ snd (sup_step ops s op)) (last (t # op_clock op))"
proof (cases op)
  case (AttachReady c now)
  then show ?thesis
    using attach_rate [OF assms(1), of now WorkerReady c] assms(3)
      rate_inv_weaken [of "restarts (fst (attach_as WorkerReady s c now))" _ t now]
    by (auto simp: sup_step_def attach_ready_def op_clock_def split_beta split: sum.splits if_splits)
next
  case (AttachPending c now)
  then show ?thesis
    using attach_rate [OF assms(1), of now WorkerLoading c] assms(3)
      rate_inv_weaken [of "restarts (fst (attach_as WorkerLoading s c now))" _ t now]
    by (auto simp: sup_step_def attach_pending_def op_clock_def split_beta split: sum.splits if_splits)
next
  case (ExhaustedOp now)
  then show ?thesis
    using rate_inv_later [OF assms(1), of now] assms(3)
    by (simp add: sup_step_def restart_exhausted_def exhausted_def Let_def op_clock_def)
qed (use assms prepare_settled [OF assms(2), of ops] transcribe_settled [OF assms(2), of ops] idle_settled [OF assms(2)]
  in \<open>simp_all add: sup_step_def op_clock_def prepare_def transcribe_def settled_def\<close>)

lemma sorted_last_Cons: "sorted (t # xs @ ys) \<Longrightarrow> sorted (last (t # xs) # ys)" for t :: nat
  by (cases xs rule: rev_cases) (auto simp: sorted_append)

lemma run_rate:
  "rate_inv (restarts s) ts t \<Longrightarrow> sup_inv s \<Longrightarrow> sorted (t # concat (map op_clock steps)) \<Longrightarrow>
   spaced (ts @ trace_outputs (snd (run_machine (sup_step ops) s steps)))"
proof (induction steps arbitrary: s ts t)
  case Nil
  then show ?case by (simp add: trace_outputs_def rate_inv_def)
next
  case (Cons op steps)
  let ?s = "fst (sup_step ops s op)"
  have "rate_inv (restarts ?s) (ts @ snd (sup_step ops s op)) (last (t # op_clock op))"
    using step_rate Cons.prems by fastforce
  moreover have "sorted (last (t # op_clock op) # concat (map op_clock steps))"
    using Cons.prems(3) by (intro sorted_last_Cons) simp
  ultimately have "spaced ((ts @ snd (sup_step ops s op)) @ trace_outputs (snd (run_machine (sup_step ops) ?s steps)))"
    using Cons.IH sup_step_inv [OF Cons.prems(2)] by blast
  then show ?case by (simp add: trace_outputs_def split_beta Let_def)
qed

section \<open>Properties\<close>

text \<open>
  Claim C22. On every sequence of calls, with any child: a worker that is loading, ready or stopping
  is owned by the supervisor, no call leaves it busy, an absent worker is really gone, and the start
  budget is within its limit.
\<close>
theorem supervisor_invariant:
  "sup_inv (fst (run_machine (sup_step ops) supervisor_absent steps))"
  by (rule supervisor_run.run_inv) (simp add: sup_inv_def supervisor_absent_def)

text \<open>
  Claim C23. Crash loops are throttled: on every sequence of calls under a clock that does not run
  backwards, each start the supervisor grants comes a full restart window after the third start
  before it, so no window of five minutes holds more than three.
\<close>
theorem restart_rate_bounded:
  assumes "sorted (concat (map op_clock steps))"
  shows "spaced (trace_outputs (snd (run_machine (sup_step ops) supervisor_absent steps)))"
  using run_rate [of supervisor_absent "[]" 0 steps ops] assms
  by (simp add: rate_inv_def spaced_def supervisor_absent_def sup_inv_def)

theorem restart_rate_bounded_witness:
  "trace_outputs (snd (run_machine (sup_step fake_child) supervisor_absent
     [AttachReady fake_worker_default 1, CancelOp, AttachReady fake_worker_default 2])) = [1, 2]
   \<and> spaced (trace_outputs (snd (run_machine (sup_step fake_child) supervisor_absent
     [AttachReady fake_worker_default 1, CancelOp, AttachReady fake_worker_default 2])))"
  using restart_rate_bounded [of "[AttachReady fake_worker_default 1, CancelOp, AttachReady fake_worker_default 2]" fake_child]
  by (simp add: op_clock_def trace_outputs_def sup_step_def supervisor_absent_def attach_ready_def attach_as_def try_register_def
      retain_recent_def sup_cancel_def reap_child_def fake_child_def fake_cancel_and_reap_def fake_worker_default_def
      apply_reap_def MAX_RESTARTS_def Let_def)

text \<open>
  An answer belongs to its request: a transcription succeeds only for a ready worker whose
  frame came back in time under exactly the request's correlation; a Transcript has text; the worker
  is ready again; and the same request is refused from then on without reaching the worker.
\<close>
theorem transcribe_answers_request:
  assumes "transcribe ops s req now = (s', Inr outcome)"
  shows "sup_state s = WorkerReady \<and> sup_state s' = WorkerReady
    \<and> (\<exists>c r c' fin. child s = Some c
         \<and> exchange ops c (Transcribe (req_correlation req) (length (req_pcm req))) (Some (req_pcm req)) (now + STOP_PROCESSING) now =
             (Inr r, c', fin)
         \<and> fin \<le> now + STOP_PROCESSING
         \<and> (\<exists>x. r = TranscriptFrame (req_correlation req) x \<or> r = NoTextFrame (req_correlation req) x)
         \<and> (\<forall>t d m. outcome = TranscriptOutcome t d m \<longrightarrow> r = TranscriptFrame (req_correlation req) t \<and> trim t \<noteq> []))
    \<and> transcribe ops s' req later = (s', Inl (ProtocolError DuplicateTerminal))"
proof -
  let ?dl = "now + STOP_PROCESSING"
  have pre: "sup_state s = WorkerReady" "validate_pcm (req_pcm req) (Some (length (req_pcm req))) = Inr ()"
    "last_terminal_request s \<noteq> Some (request_id (req_correlation req))"
    using assms by (auto simp: transcribe_def transcribe_until_def Let_def split: if_splits sum.splits)
  obtain c where c: "child s = Some c"
    using assms pre by (auto simp: transcribe_def transcribe_until_def Let_def split: option.splits)
  obtain r c' fin where
    ex: "exchange ops c (Transcribe (req_correlation req) (length (req_pcm req))) (Some (req_pcm req)) ?dl now = (r, c', fin)"
    by (metis prod_cases3)
  let ?s = "s\<lparr>sup_state := WorkerBusy, child := Some c'\<rparr>"
  obtain s1 x where con: "conclude_exchange ops ?s r fin ?dl WorkerReady = (s1, x)" by fastforce
  obtain f where f: "x = Inr f"
    using assms pre c ex con by (cases x) (auto simp: transcribe_def transcribe_until_def Let_def)
  have s1: "s1 = ?s" "r = Inr f" "fin \<le> ?dl" using conclude_exchange_sel [OF con] f by auto
  show ?thesis
    using assms pre c ex con f s1
    by (cases f) (auto simp: transcribe_def transcribe_until_def correlations_match_def protocol_reject_def Let_def
        split: if_splits prod.splits)
qed

definition sample_correlation :: correlation where
  "sample_correlation = \<lparr>daemon_nonce = ''n'', generation = 1, request_id = ''q'', recording_id = ''r'',
     model_receipt_hash = ''harness-no-weights''\<rparr>"

definition sample_supervisor :: "fake_worker worker_supervisor" where
  "sample_supervisor = fst (attach_ready supervisor_absent (fake_worker_default\<lparr>scripted_text := Some ''hi''\<rparr>) 0)"

definition sample_request :: transcribe_request where
  "sample_request = \<lparr>req_correlation = sample_correlation, req_pcm = [1, 0]\<rparr>"

theorem transcribe_answers_request_witness:
  "\<exists>s'. transcribe fake_child sample_supervisor sample_request 0 = (s', Inr (TranscriptOutcome ''hi'' ''unknown'' metrics_default))
    \<and> transcribe fake_child s' sample_request 9 = (s', Inl (ProtocolError DuplicateTerminal))"
proof -
  have t: "trim ''hi'' = ''hi''" by code_simp
  have v: "validate_transcript ''hi'' = Inr ()"
    by (simp add: validate_transcript_def MAX_TRANSCRIPT_BYTES_def str_chars_def utf8_decode.simps byte_def unsupported_control_def)
  obtain s' where "transcribe fake_child sample_supervisor sample_request 0 =
      (s', Inr (TranscriptOutcome ''hi'' ''unknown'' metrics_default))"
    by (simp add: transcribe_def transcribe_until_def sample_supervisor_def sample_request_def sample_correlation_def
        supervisor_absent_def attach_ready_def attach_as_def try_register_def retain_recent_def fake_child_def fake_exchange_def
        fake_transcribe_def fake_worker_default_def would_exceed_deadline_def validate_pcm_def MAX_PCM_BYTES_def MAX_RESTARTS_def
        correlations_match_def live_correlation_def outbound_correlation_def conclude_exchange_def STOP_PROCESSING_def
        from_secs_def t v Let_def)
  then show ?thesis using transcribe_answers_request by metis
qed

end
