(* ===== verification/Delivery.thy ===== *)
theory Delivery
  imports Supervisor
begin

text \<open>
  Single-use Delivery on the Local path: the seams of
  \<open>crates/voisu-app/src/local_worker/seams.rs\<close>, the Cloud capability sentinel of
  \<open>local_worker/sandbox.rs\<close>, and the coordinator and terminal decision of
  \<open>crates/voisu-app/src/local_tail.rs\<close>.

  The trait \<open>DeliverySeam\<close> is an interface: the locale \<open>delivery_seam\<close> states what its
  implementations promise, and what a client gets from that, and it is interpreted on the harness's
  \<open>FakeDelivery\<close> and on the production \<open>DeliveryCoordinator\<close>.

  The text passes the terminal decision calls (the outro sanitizer, the dictionary, the local
  formatter and the silence-phrase test, which need Unicode tables) are arguments of it.
\<close>

section \<open>The interface\<close>

text \<open>
  The state of a seam, its tokens and the Recordings it has delivered. Authorizing delivers nothing,
  a token names the Recording it was asked for, which was not delivered before, and a delivery
  delivers the token's Recording or fails and delivers nothing.
\<close>

locale delivery_seam =
  fixes authorize :: "'d \<Rightarrow> string \<Rightarrow> 'd \<times> ('e + 't)"
    and deliver :: "'d \<Rightarrow> 't \<Rightarrow> string \<Rightarrow> 'd \<times> ('e + unit)"
    and spent_of :: "'d \<Rightarrow> string set"
    and token_id :: "'t \<Rightarrow> string"
  assumes authorize_keeps: "spent_of (fst (authorize d r)) = spent_of d"
    and authorize_token: "authorize d r = (d', Inr tok) \<Longrightarrow> token_id tok = r \<and> r \<notin> spent_of d"
    and deliver_ok: "deliver d tok x = (d', Inr u) \<Longrightarrow> token_id tok \<notin> spent_of d \<and> spent_of d' = insert (token_id tok) (spent_of d)"
    and deliver_failed: "deliver d tok x = (d', Inl e) \<Longrightarrow> spent_of d' = spent_of d"
begin

text \<open>
  A client may authorize, deliver with any token it holds, and do anything else that leaves what was
  delivered alone. The history lists the Recordings delivered, oldest first.
\<close>

inductive client :: "'d \<Rightarrow> string list \<Rightarrow> 'd \<Rightarrow> bool" where
  start: "client d [] d"
| authorize: "client d h d1 \<Longrightarrow> client d h (fst (authorize d1 r))"
| deliver: "client d h d1 \<Longrightarrow> deliver d1 tok x = (d2, Inr u) \<Longrightarrow> client d (h @ [token_id tok]) d2"
| refused: "client d h d1 \<Longrightarrow> deliver d1 tok x = (d2, Inl e) \<Longrightarrow> client d h d2"
| other: "client d h d1 \<Longrightarrow> spent_of d2 = spent_of d1 \<Longrightarrow> client d h d2"

lemma client_history: "client d h d' \<Longrightarrow> distinct h \<and> set h \<inter> spent_of d = {} \<and> spent_of d' = spent_of d \<union> set h"
proof (induction rule: client.induct)
  case (deliver d h d1 tok x d2 u)
  then show ?case using deliver_ok [OF deliver.hyps(2)] by auto
qed (auto simp: authorize_keeps dest: deliver_failed)

end

section \<open>The harness seam\<close>

datatype seam_error = CaptureSeamError string | SeamDuplicateDelivery | StaleToken | Unauthorized | SeamCloudCapabilityUsed

record delivery_token =
  token_recording :: string
  token_generation :: nat

record fake_delivery =
  fd_delivered :: "string list"
  fd_spent :: "string set"
  next_generation :: nat

definition fake_delivery_default :: fake_delivery where
  "fake_delivery_default = \<lparr>fd_delivered = [], fd_spent = {}, next_generation = 0\<rparr>"

text \<open>The generation is a \<open>u64\<close> under a plain \<open>+= 1\<close>: in a build without overflow checks it wraps around.\<close>

definition fake_authorize :: "fake_delivery \<Rightarrow> string \<Rightarrow> fake_delivery \<times> (seam_error + delivery_token)" where
  "fake_authorize d r =
     (if r \<in> fd_spent d then (d, Inl SeamDuplicateDelivery)
      else (let g = wrap_add_u64 (next_generation d) 1
            in (d\<lparr>next_generation := g\<rparr>, Inr \<lparr>token_recording = r, token_generation = g\<rparr>)))"

definition fake_deliver :: "fake_delivery \<Rightarrow> delivery_token \<Rightarrow> string \<Rightarrow> fake_delivery \<times> (seam_error + unit)" where
  "fake_deliver d tok transcript =
     (if token_recording tok \<in> fd_spent d then (d, Inl SeamDuplicateDelivery)
      else if token_generation tok \<noteq> next_generation d then (d, Inl StaleToken)
      else (d\<lparr>fd_spent := insert (token_recording tok) (fd_spent d), fd_delivered := fd_delivered d @ [transcript]\<rparr>, Inr ()))"

interpretation fake_seam: delivery_seam fake_authorize fake_deliver fd_spent token_recording
  by unfold_locales (auto simp: fake_authorize_def fake_deliver_def Let_def split: if_splits)

record finalized_recording =
  fr_recording_id :: string
  fr_pcm :: "u8 list"
  recording_start :: instant
  utterance_end :: instant

definition fake_finalize :: "string \<Rightarrow> u8 list \<Rightarrow> duration \<Rightarrow> instant \<Rightarrow> finalized_recording" where
  "fake_finalize r pcm speech now =
     \<lparr>fr_recording_id = r, fr_pcm = pcm, recording_start = (if speech \<le> now then now - speech else now), utterance_end = now\<rparr>"

section \<open>The Cloud capability sentinel\<close>

record cloud_capability_sentinel =
  cloud_client_constructed :: bool
  credential_read :: bool
  ip_attempted :: bool

definition sentinel_new :: cloud_capability_sentinel where
  "sentinel_new = \<lparr>cloud_client_constructed = False, credential_read = False, ip_attempted = False\<rparr>"

definition construct_cloud_client :: "cloud_capability_sentinel \<Rightarrow> cloud_capability_sentinel" where
  "construct_cloud_client s = s\<lparr>cloud_client_constructed := True\<rparr>"

definition read_cloud_credential :: "cloud_capability_sentinel \<Rightarrow> cloud_capability_sentinel" where
  "read_cloud_credential s = s\<lparr>credential_read := True\<rparr>"

definition attempt_ip :: "cloud_capability_sentinel \<Rightarrow> cloud_capability_sentinel" where
  "attempt_ip s = s\<lparr>ip_attempted := True\<rparr>"

definition sentinel_clean :: "cloud_capability_sentinel \<Rightarrow> bool" where
  "sentinel_clean s \<longleftrightarrow> \<not> cloud_client_constructed s \<and> \<not> credential_read s \<and> \<not> ip_attempted s"

definition transcribe_through_supervisor ::
  "'c worker_child \<Rightarrow> 'c worker_supervisor \<Rightarrow> correlation \<Rightarrow> u8 list \<Rightarrow> cloud_capability_sentinel \<Rightarrow> instant
    \<Rightarrow> 'c worker_supervisor \<times> (supervisor_error + worker_outcome)" where
  "transcribe_through_supervisor ops s corr pcm sentinel now =
     (if \<not> sentinel_clean sentinel then (s, Inl (Unavailable ''Cloud capability used on the Local path''))
      else if sup_state s \<noteq> WorkerReady then (s, Inl (NotReady (sup_state s)))
      else transcribe ops s \<lparr>req_correlation = corr, req_pcm = pcm\<rparr> now)"

section \<open>The Delivery coordinator\<close>

datatype terminal_decision = FinalTranscript string | FinalNoText string

datatype tail_error = DuplicateDecision | UnauthorizedDelivery | DuplicateDelivery | CloudCapabilityUsed

record delivery_coordinator =
  live :: "string option"
  authorized :: "string set"
  spent :: "string set"
  decided :: "string set"

definition coordinator_new :: delivery_coordinator where
  "coordinator_new = \<lparr>live = None, authorized = {}, spent = {}, decided = {}\<rparr>"

definition begin_live :: "delivery_coordinator \<Rightarrow> string \<Rightarrow> delivery_coordinator" where
  "begin_live c r = c\<lparr>live := Some r\<rparr>"

definition abandon_live :: "delivery_coordinator \<Rightarrow> string \<Rightarrow> delivery_coordinator" where
  "abandon_live c r = (if live c = Some r then c\<lparr>live := None\<rparr> else c)"

text \<open>A permit is the identity of the Recording it was issued for.\<close>

definition authorize_live :: "delivery_coordinator \<Rightarrow> string \<Rightarrow> delivery_coordinator \<times> (tail_error + string)" where
  "authorize_live c r =
     (if r \<in> spent c \<or> r \<in> authorized c then (c, Inl DuplicateDelivery)
      else if live c = Some r then (c\<lparr>live := None, authorized := insert r (authorized c)\<rparr>, Inr r)
      else (c, Inl UnauthorizedDelivery))"

definition confirm_delivery :: "delivery_coordinator \<Rightarrow> string \<Rightarrow> string \<Rightarrow> delivery_coordinator \<times> (tail_error + unit)" where
  "confirm_delivery c permit transcript =
     (if permit \<in> spent c then (c, Inl DuplicateDelivery)
      else if permit \<notin> authorized c then (c, Inl UnauthorizedDelivery)
      else (c\<lparr>authorized := authorized c - {permit}, spent := insert permit (spent c)\<rparr>, Inr ()))"

definition remember_decision :: "delivery_coordinator \<Rightarrow> string \<Rightarrow> delivery_coordinator \<times> (tail_error + unit)" where
  "remember_decision c r =
     (if r \<in> decided c then (c, Inl DuplicateDecision) else (c\<lparr>decided := insert r (decided c)\<rparr>, Inr ()))"

interpretation coordinator_seam: delivery_seam authorize_live confirm_delivery spent "\<lambda>permit. permit"
  by unfold_locales (auto simp: authorize_live_def confirm_delivery_def split: if_splits)

text \<open>The text passes of the decision.\<close>

record text_passes =
  sanitize :: "string \<Rightarrow> string"
  silence_phrase :: "string \<Rightarrow> bool"
  dictionary :: "string \<Rightarrow> string"
  format_rendered :: "string \<Rightarrow> string"

definition outcome_decision :: "text_passes \<Rightarrow> u8 list \<Rightarrow> worker_outcome \<Rightarrow> terminal_decision" where
  "outcome_decision tp pcm outcome =
     (if is_silence_pcm pcm then FinalNoText ''silence''
      else case outcome of
             NoTextOutcome reason _ _ \<Rightarrow> FinalNoText reason
           | TranscriptOutcome t _ _ \<Rightarrow>
               (let trimmed = trim t
                in if trimmed = [] then FinalNoText ''empty''
                   else let sanitized = sanitize tp trimmed
                        in if trim sanitized = [] then FinalNoText ''no words heard''
                           else if silence_phrase tp sanitized then FinalNoText ''no words heard''
                           else let rendered = trim (format_rendered tp (dictionary tp sanitized))
                                in if rendered = [] then FinalNoText ''empty'' else FinalTranscript rendered))"

definition decide_transcript ::
  "text_passes \<Rightarrow> string \<Rightarrow> u8 list \<Rightarrow> worker_outcome \<Rightarrow> delivery_coordinator \<Rightarrow> cloud_capability_sentinel
    \<Rightarrow> delivery_coordinator \<times> (tail_error + terminal_decision)" where
  "decide_transcript tp r pcm outcome c sentinel =
     (if \<not> sentinel_clean sentinel then (c, Inl CloudCapabilityUsed)
      else case remember_decision c r of
             (c', Inl e) \<Rightarrow> (c', Inl e)
           | (c', Inr _) \<Rightarrow> (c', Inr (outcome_decision tp pcm outcome)))"

definition decide_replay ::
  "text_passes \<Rightarrow> string \<Rightarrow> u8 list \<Rightarrow> worker_outcome \<Rightarrow> delivery_coordinator \<Rightarrow> cloud_capability_sentinel
    \<Rightarrow> delivery_coordinator \<times> (tail_error + terminal_decision)" where
  "decide_replay tp r pcm outcome c sentinel =
     (case decide_transcript tp r pcm outcome c sentinel of
        (c', Inl e) \<Rightarrow> (c', Inl e)
      | (c', Inr d) \<Rightarrow>
          (case authorize_live c' r of
             (c'', Inr _) \<Rightarrow> (c'', Inl UnauthorizedDelivery)
           | (c'', Inl _) \<Rightarrow> (c'', Inr d)))"

section \<open>The coordinator's life\<close>

datatype tail_op =
    BeginLive string
  | AbandonLive string
  | Authorize string
  | Confirm string string
  | Decide string "u8 list" worker_outcome cloud_capability_sentinel
  | Replay string "u8 list" worker_outcome cloud_capability_sentinel

text \<open>What an operation puts out: a Recording delivered, or decided.\<close>

datatype tail_out = Delivered string | Terminal string terminal_decision

definition tail_step :: "text_passes \<Rightarrow> delivery_coordinator \<Rightarrow> tail_op \<Rightarrow> delivery_coordinator \<times> tail_out list" where
  "tail_step tp c op =
     (case op of
        BeginLive r \<Rightarrow> (begin_live c r, [])
      | AbandonLive r \<Rightarrow> (abandon_live c r, [])
      | Authorize r \<Rightarrow> (fst (authorize_live c r), [])
      | Confirm p t \<Rightarrow> (case confirm_delivery c p t of (c', Inr _) \<Rightarrow> (c', [Delivered p]) | (c', Inl _) \<Rightarrow> (c', []))
      | Decide r pcm out sen \<Rightarrow>
          (case decide_transcript tp r pcm out c sen of (c', Inr d) \<Rightarrow> (c', [Terminal r d]) | (c', Inl _) \<Rightarrow> (c', []))
      | Replay r pcm out sen \<Rightarrow>
          (case decide_replay tp r pcm out c sen of (c', Inr d) \<Rightarrow> (c', [Terminal r d]) | (c', Inl _) \<Rightarrow> (c', [])))"

definition delivered_ids :: "tail_out list \<Rightarrow> string list" where
  "delivered_ids os = concat (map (\<lambda>o'. case o' of Delivered r \<Rightarrow> [r] | _ \<Rightarrow> []) os)"

definition decided_ids :: "tail_out list \<Rightarrow> string list" where
  "decided_ids os = concat (map (\<lambda>o'. case o' of Terminal r _ \<Rightarrow> [r] | _ \<Rightarrow> []) os)"

lemma ids_append [simp]:
  "delivered_ids (xs @ ys) = delivered_ids xs @ delivered_ids ys" "decided_ids (xs @ ys) = decided_ids xs @ decided_ids ys"
  by (simp_all add: delivered_ids_def decided_ids_def)

lemma ids_single [simp]:
  "delivered_ids [] = []" "delivered_ids [Delivered r] = [r]" "delivered_ids [Terminal r d] = []"
  "decided_ids [] = []" "decided_ids [Delivered r] = []" "decided_ids [Terminal r d] = [r]"
  by (simp_all add: delivered_ids_def decided_ids_def)

lemma decide_transcript_keeps:
  "spent (fst (decide_transcript tp r pcm out c sen)) = spent c"
  "live (fst (decide_transcript tp r pcm out c sen)) = live c"
  "authorized (fst (decide_transcript tp r pcm out c sen)) = authorized c"
  by (auto simp: decide_transcript_def remember_decision_def)

lemma decide_replay_spent: "spent (fst (decide_replay tp r pcm out c sen)) = spent c"
  using decide_transcript_keeps [of tp r pcm out c sen] coordinator_seam.authorize_keeps
  by (auto simp: decide_replay_def split_beta split: sum.splits)

text \<open>Every step is one a client of the seam may take, so the seam's guarantee is the coordinator's.\<close>

lemma tail_step_client:
  assumes "coordinator_seam.client c0 h c"
  shows "coordinator_seam.client c0 (h @ delivered_ids (snd (tail_step tp c op))) (fst (tail_step tp c op))"
proof (cases op)
  case (Confirm p t)
  then show ?thesis
    using assms coordinator_seam.deliver [of c0 h c p t] coordinator_seam.refused [of c0 h c p t]
    by (cases "confirm_delivery c p t") (auto simp: tail_step_def split: sum.splits)
next
  case (Authorize r)
  then show ?thesis using coordinator_seam.authorize [OF assms, of r] by (simp add: tail_step_def)
next
  case (Decide r pcm out sen)
  have "coordinator_seam.client c0 h (fst (decide_transcript tp r pcm out c sen))"
    using coordinator_seam.other [OF assms] decide_transcript_keeps(1) by blast
  then show ?thesis using Decide by (auto simp: tail_step_def split_beta split: sum.splits)
next
  case (Replay r pcm out sen)
  have "coordinator_seam.client c0 h (fst (decide_replay tp r pcm out c sen))"
    using coordinator_seam.other [OF assms] decide_replay_spent by blast
  then show ?thesis using Replay by (auto simp: tail_step_def split_beta split: sum.splits)
qed (use coordinator_seam.other [OF assms] in \<open>simp_all add: tail_step_def begin_live_def abandon_live_def\<close>)

lemma run_client:
  "coordinator_seam.client c0 h c \<Longrightarrow>
   coordinator_seam.client c0 (h @ delivered_ids (trace_outputs (snd (run_machine (tail_step tp) c steps))))
     (fst (run_machine (tail_step tp) c steps))"
proof (induction steps arbitrary: h c)
  case Nil
  then show ?case by (simp add: trace_outputs_def)
next
  case (Cons op steps)
  show ?case
    using Cons.IH [OF tail_step_client [OF Cons.prems, of tp op]]
    by (simp add: trace_outputs_def split_beta Let_def)
qed

lemma tail_step_decided:
  "decided (fst (tail_step tp c op)) = decided c \<union> set (decided_ids (snd (tail_step tp c op)))
     \<and> set (decided_ids (snd (tail_step tp c op))) \<inter> decided c = {} \<and> distinct (decided_ids (snd (tail_step tp c op)))
   \<or> decided c \<subseteq> decided (fst (tail_step tp c op)) \<and> decided_ids (snd (tail_step tp c op)) = []"
  by (cases op)
     (auto simp: tail_step_def begin_live_def abandon_live_def authorize_live_def confirm_delivery_def decide_transcript_def
       decide_replay_def remember_decision_def split: if_splits)

lemma run_decided:
  "distinct (decided_ids (trace_outputs (snd (run_machine (tail_step tp) c steps))))
   \<and> set (decided_ids (trace_outputs (snd (run_machine (tail_step tp) c steps)))) \<inter> decided c = {}"
proof (induction steps arbitrary: c)
  case Nil
  then show ?case by (simp add: trace_outputs_def)
next
  case (Cons op steps)
  show ?case
    using Cons.IH [of "fst (tail_step tp c op)"] tail_step_decided [of tp c op]
    by (auto simp: trace_outputs_def split_beta Let_def)
qed

section \<open>Properties\<close>

text \<open>
  Claim C20. Each Recording is decided at most once and delivered at most once, on every sequence of
  live sessions, authorizations, confirmations with any permit, decisions and replays.
\<close>
theorem one_decision_one_delivery:
  "distinct (delivered_ids (trace_outputs (snd (run_machine (tail_step tp) coordinator_new steps))))
   \<and> distinct (decided_ids (trace_outputs (snd (run_machine (tail_step tp) coordinator_new steps))))"
  using coordinator_seam.client_history [OF run_client [OF coordinator_seam.start, of coordinator_new tp steps]]
    run_decided [of tp coordinator_new steps] by simp

text \<open>
  A replay never opens Delivery: when it returns a decision, no permit was issued and the
  live Recording, the issued permits and the delivered Recordings are as before; and when the
  sentinel saw any Cloud capability it decides nothing at all.
\<close>
theorem replay_never_authorizes:
  "case decide_replay tp r pcm out c sen of
     (c', Inr d) \<Rightarrow> live c' = live c \<and> authorized c' = authorized c \<and> spent c' = spent c
        \<and> d = outcome_decision tp pcm out \<and> r \<notin> decided c \<and> sentinel_clean sen
   | (c', Inl e) \<Rightarrow> (e = CloudCapabilityUsed \<longleftrightarrow> \<not> sentinel_clean sen) \<and> (\<not> sentinel_clean sen \<longrightarrow> c' = c)
        \<and> (e = UnauthorizedDelivery \<longrightarrow> live c = Some r)"
  by (auto simp: decide_replay_def decide_transcript_def remember_decision_def authorize_live_def split: if_splits)

definition plain_passes :: text_passes where
  "plain_passes = \<lparr>sanitize = (\<lambda>t. t), silence_phrase = (\<lambda>t. t = ''you''), dictionary = (\<lambda>t. t), format_rendered = (\<lambda>t. t)\<rparr>"

theorem replay_never_authorizes_witness:
  "decide_replay plain_passes ''r'' [1, 0] (NoTextOutcome ''empty'' ''cpu'' metrics_default)
     (begin_live coordinator_new ''r'') sentinel_new =
   (\<lparr>live = None, authorized = {''r''}, spent = {}, decided = {''r''}\<rparr>, Inl UnauthorizedDelivery)
   \<and> live (begin_live coordinator_new ''r'') = Some ''r''"
proof -
  have eq: "decide_replay plain_passes ''r'' [1, 0] (NoTextOutcome ''empty'' ''cpu'' metrics_default)
     (begin_live coordinator_new ''r'') sentinel_new =
   (\<lparr>live = None, authorized = {''r''}, spent = {}, decided = {''r''}\<rparr>, Inl UnauthorizedDelivery)"
    by (simp add: decide_replay_def decide_transcript_def remember_decision_def authorize_live_def begin_live_def
        coordinator_new_def sentinel_new_def sentinel_clean_def)
  show ?thesis
    using replay_never_authorizes [where tp = plain_passes and r = "''r''" and pcm = "[1, 0]" and sen = sentinel_new
        and out = "NoTextOutcome ''empty'' ''cpu'' metrics_default" and c = "begin_live coordinator_new ''r''"]
    unfolding eq by simp
qed

text \<open>
  Replaying the Recording that is live is refused, but the refusal has already taken the live slot
  and issued the permit it drops, so that Recording can no longer be delivered.
\<close>
theorem replay_of_live_loses_delivery:
  assumes "live c = Some r" "r \<notin> authorized c" "r \<notin> spent c" "r \<notin> decided c" "sentinel_clean sen"
  shows "snd (authorize_live c r) = Inr r
    \<and> snd (decide_replay tp r pcm out c sen) = Inl UnauthorizedDelivery
    \<and> snd (authorize_live (fst (decide_replay tp r pcm out c sen)) r) = Inl DuplicateDelivery"
  using assms by (simp add: authorize_live_def decide_replay_def decide_transcript_def remember_decision_def)

theorem replay_of_live_loses_delivery_witness:
  "snd (decide_replay plain_passes ''r'' [] (NoTextOutcome ''empty'' ''cpu'' metrics_default) (begin_live coordinator_new ''r'') sentinel_new) =
     Inl UnauthorizedDelivery
   \<and> snd (authorize_live (fst (decide_replay plain_passes ''r'' [] (NoTextOutcome ''empty'' ''cpu'' metrics_default)
            (begin_live coordinator_new ''r'') sentinel_new)) ''r'') = Inl DuplicateDelivery"
  by (intro conjI; rule replay_of_live_loses_delivery [THEN conjunct2, THEN conjunct1]
        replay_of_live_loses_delivery [THEN conjunct2, THEN conjunct2])
     (simp_all add: begin_live_def coordinator_new_def sentinel_clean_def sentinel_new_def)

end
