(* ===== verification/Lifecycle.thy ===== *)
theory Lifecycle
  imports Delivery
begin

text \<open>
  The Local worker lifecycle, \<open>crates/voisu-app/src/local_worker/lifecycle.rs\<close>: the supervisor and a
  Delivery seam under one generation counter.

  The lifecycle is generic in the worker and in the seam; both are arguments here. Its client
  guarantee is proved from the seam's contract alone, in the locale \<open>lifecycle_seam\<close>, and reaches
  the code through \<open>FakeDelivery\<close>, the only seam the sources run it with.
\<close>

section \<open>State and operations\<close>

record live_work =
  lw_generation :: nat
  lw_request_id :: string
  lw_recording_id :: string
  lw_token :: "delivery_token option"

record ('c, 'd) local_lifecycle =
  lc_supervisor :: "'c worker_supervisor"
  lc_delivery :: 'd
  lc_live :: "live_work option"
  lc_daemon_nonce :: string
  lc_generation :: nat
  lc_model_receipt_hash :: string

record 'd seam_ops =
  seam_authorize :: "'d \<Rightarrow> string \<Rightarrow> 'd \<times> (seam_error + delivery_token)"
  seam_deliver :: "'d \<Rightarrow> delivery_token \<Rightarrow> string \<Rightarrow> 'd \<times> (seam_error + unit)"

definition lifecycle_new :: "'d \<Rightarrow> ('c, 'd) local_lifecycle" where
  "lifecycle_new d = \<lparr>lc_supervisor = supervisor_absent, lc_delivery = d, lc_live = None, lc_daemon_nonce = ''l3'',
     lc_generation = 0, lc_model_receipt_hash = []\<rparr>"

definition harness :: "(fake_worker, fake_delivery) local_lifecycle" where
  "harness = lifecycle_new fake_delivery_default"

definition pin_model_receipt_hash :: "('c, 'd) local_lifecycle \<Rightarrow> string \<Rightarrow> ('c, 'd) local_lifecycle" where
  "pin_model_receipt_hash l h = l\<lparr>lc_model_receipt_hash := h\<rparr>"

definition lc_mark_unavailable :: "('c, 'd) local_lifecycle \<Rightarrow> ('c, 'd) local_lifecycle" where
  "lc_mark_unavailable l = l\<lparr>lc_supervisor := mark_unavailable (lc_supervisor l)\<rparr>"

definition take_supervisor :: "('c, 'd) local_lifecycle \<Rightarrow> ('c, 'd) local_lifecycle \<times> 'c worker_supervisor" where
  "take_supervisor l = (l\<lparr>lc_supervisor := supervisor_absent\<rparr>, lc_supervisor l)"

definition restore_supervisor :: "('c, 'd) local_lifecycle \<Rightarrow> 'c worker_supervisor \<Rightarrow> ('c, 'd) local_lifecycle" where
  "restore_supervisor l s = l\<lparr>lc_supervisor := s\<rparr>"

definition invalidate :: "('c, 'd) local_lifecycle \<Rightarrow> ('c, 'd) local_lifecycle" where
  "invalidate l = l\<lparr>lc_live := None, lc_generation := sat_add_u64 (lc_generation l) 1\<rparr>"

definition lc_correlation :: "('c, 'd) local_lifecycle \<Rightarrow> string \<Rightarrow> string \<Rightarrow> correlation" where
  "lc_correlation l recording request =
     \<lparr>daemon_nonce = lc_daemon_nonce l, generation = max (lc_generation l) 1, request_id = request,
      recording_id = recording, model_receipt_hash = lc_model_receipt_hash l\<rparr>"

definition lc_attach :: "('c, 'd) local_lifecycle \<Rightarrow> 'c \<Rightarrow> instant \<Rightarrow> ('c, 'd) local_lifecycle \<times> (supervisor_error + unit)" where
  "lc_attach l c now =
     (case attach_pending (lc_supervisor l) c now of
        (s, Inl e) \<Rightarrow> (l\<lparr>lc_supervisor := s\<rparr>, Inl e)
      | (s, Inr _) \<Rightarrow> (l\<lparr>lc_supervisor := s, lc_generation := sat_add_u64 (lc_generation l) 1\<rparr>, Inr ()))"

definition lc_prepare ::
  "'c worker_child \<Rightarrow> ('c, 'd) local_lifecycle \<Rightarrow> string \<Rightarrow> instant \<Rightarrow> ('c, 'd) local_lifecycle \<times> (supervisor_error + unit)" where
  "lc_prepare ops l recording now =
     (case prepare ops (lc_supervisor l) (lc_correlation l recording ''prepare'') now of
        (s, Inl e) \<Rightarrow> (l\<lparr>lc_supervisor := s\<rparr>, Inl e)
      | (s, Inr _) \<Rightarrow> (l\<lparr>lc_supervisor := s\<rparr>, Inr ()))"

definition commit_delivery :: "'d seam_ops \<Rightarrow> ('c, 'd) local_lifecycle \<Rightarrow> string \<Rightarrow> string \<Rightarrow> ('c, 'd) local_lifecycle \<times> (seam_error + unit)" where
  "commit_delivery sops l recording transcript =
     (case lc_live l of
        None \<Rightarrow> (l, Inl Unauthorized)
      | Some w \<Rightarrow>
          (if lw_recording_id w \<noteq> recording then (l, Inl StaleToken)
           else case seam_authorize sops (lc_delivery l) recording of
                  (d, Inl e) \<Rightarrow> (l\<lparr>lc_delivery := d\<rparr>, Inl e)
                | (d, Inr tok) \<Rightarrow>
                    (case seam_deliver sops d tok transcript of
                       (d', Inl e) \<Rightarrow> (l\<lparr>lc_delivery := d', lc_live := Some (w\<lparr>lw_token := Some tok\<rparr>)\<rparr>, Inl e)
                     | (d', Inr _) \<Rightarrow> (l\<lparr>lc_delivery := d', lc_live := None\<rparr>, Inr ()))))"

fun seam_error_text :: "seam_error \<Rightarrow> string" where
  "seam_error_text SeamDuplicateDelivery = ''stale Delivery rejected''"
| "seam_error_text StaleToken = ''stale Delivery rejected''"
| "seam_error_text Unauthorized = ''Delivery unauthorized''"
| "seam_error_text SeamCloudCapabilityUsed = ''Cloud capability used''"
| "seam_error_text (CaptureSeamError _) = ''capture seam''"

definition lc_transcribe ::
  "'c worker_child \<Rightarrow> 'd seam_ops \<Rightarrow> ('c, 'd) local_lifecycle \<Rightarrow> string \<Rightarrow> string \<Rightarrow> u8 list \<Rightarrow> instant
    \<Rightarrow> ('c, 'd) local_lifecycle \<times> (supervisor_error + worker_outcome)" where
  "lc_transcribe ops sops l recording request pcm now =
     (if sup_state (lc_supervisor l) \<noteq> WorkerReady then (l, Inl (NotReady (sup_state (lc_supervisor l))))
      else
        (let corr = \<lparr>daemon_nonce = lc_daemon_nonce l, generation = lc_generation l, request_id = request,
                     recording_id = recording, model_receipt_hash = lc_model_receipt_hash l\<rparr>;
             l1 = l\<lparr>lc_live := Some \<lparr>lw_generation = lc_generation l, lw_request_id = request,
                     lw_recording_id = recording, lw_token = None\<rparr>\<rparr>
         in case transcribe ops (lc_supervisor l1) \<lparr>req_correlation = corr, req_pcm = pcm\<rparr> now of
              (s, Inl e) \<Rightarrow> (invalidate (l1\<lparr>lc_supervisor := s\<rparr>), Inl e)
            | (s, Inr outcome) \<Rightarrow>
                (let l2 = l1\<lparr>lc_supervisor := s\<rparr>
                 in case outcome of
                      NoTextOutcome _ _ _ \<Rightarrow> (l2, Inr outcome)
                    | TranscriptOutcome t _ _ \<Rightarrow>
                        (case commit_delivery sops l2 recording t of
                           (l3, Inl e) \<Rightarrow> (invalidate l3, Inl (Unavailable (seam_error_text e)))
                         | (l3, Inr _) \<Rightarrow> (l3, Inr outcome)))))"

definition lc_cancel :: "'c worker_child \<Rightarrow> ('c, 'd) local_lifecycle \<Rightarrow> ('c, 'd) local_lifecycle \<times> (supervisor_error + reap_outcome)" where
  "lc_cancel ops l =
     (let l1 = invalidate l; (s, r) = sup_cancel ops (lc_supervisor l1) in (l1\<lparr>lc_supervisor := s\<rparr>, r))"

definition drain_for_cloud_selection ::
  "'c worker_child \<Rightarrow> ('c, 'd) local_lifecycle \<Rightarrow> ('c, 'd) local_lifecycle \<times> (supervisor_error + reap_outcome)" where
  "drain_for_cloud_selection ops l =
     (let l1 = invalidate l; (s, r) = unload_idle ops (lc_supervisor l1) in (l1\<lparr>lc_supervisor := s\<rparr>, r))"

definition begin_idle_switch ::
  "'c worker_child \<Rightarrow> ('c, 'd) local_lifecycle \<Rightarrow> ('c, 'd) local_lifecycle \<times> (supervisor_error + reap_outcome)" where
  "begin_idle_switch ops l =
     (if sup_state (lc_supervisor l) \<in> {WorkerBusy, WorkerStopping} then (l, Inl SupervisorBusy)
      else
        (let l1 = invalidate l
         in case drain_for_switch ops (lc_supervisor l1) of
              (s, Inl e) \<Rightarrow> (l1\<lparr>lc_supervisor := s\<rparr>, Inl e)
            | (s, Inr r) \<Rightarrow>
                (if has_child s
                 then (l1\<lparr>lc_supervisor := mark_unavailable s\<rparr>,
                       Inl (Unavailable ''previous worker unreaped; Local unavailable''))
                 else (l1\<lparr>lc_supervisor := s\<rparr>, Inr r))))"

definition attach_replacement :: "('c, 'd) local_lifecycle \<Rightarrow> 'c \<Rightarrow> instant \<Rightarrow> ('c, 'd) local_lifecycle \<times> (supervisor_error + unit)" where
  "attach_replacement l c now =
     (if \<not> released (lc_supervisor l) \<or> has_child (lc_supervisor l)
      then (lc_mark_unavailable l, Inl (Unavailable ''previous model still loaded; Local unavailable''))
      else case lc_attach l c now of
             (l1, Inl e) \<Rightarrow> (lc_mark_unavailable l1, Inl e)
           | (l1, Inr _) \<Rightarrow> (l1, Inr ()))"

definition restart_budget_exhausted :: "('c, 'd) local_lifecycle \<Rightarrow> instant \<Rightarrow> ('c, 'd) local_lifecycle \<times> bool" where
  "restart_budget_exhausted l now = (let (s, b) = restart_exhausted (lc_supervisor l) now in (l\<lparr>lc_supervisor := s\<rparr>, b))"

definition frame_correlation :: "worker_frame \<Rightarrow> correlation option" where
  "frame_correlation f =
     (case f of TranscriptFrame c _ \<Rightarrow> Some c | NoTextFrame c _ \<Rightarrow> Some c | ReadyFrame c _ \<Rightarrow> Some c | ErrorFrame _ _ \<Rightarrow> None)"

definition inject_late_frame :: "('c, 'd) local_lifecycle \<Rightarrow> worker_frame \<Rightarrow> string \<Rightarrow> supervisor_error + unit" where
  "inject_late_frame l f recording =
     (case lc_live l of
        None \<Rightarrow> Inr ()
      | Some w \<Rightarrow>
          (case frame_correlation f of
             None \<Rightarrow> Inr ()
           | Some c \<Rightarrow>
               (if generation c \<noteq> lw_generation w \<or> request_id c \<noteq> lw_request_id w \<or> recording_id c \<noteq> recording
                then Inr () else Inl (ProtocolError Unsolicited))))"

text \<open>\<open>child_mut\<close>: what a caller does to the worker through the reference it is given.\<close>

definition lc_child_mut :: "('c, 'd) local_lifecycle \<Rightarrow> ('c \<Rightarrow> 'c) \<Rightarrow> ('c, 'd) local_lifecycle" where
  "lc_child_mut l f = l\<lparr>lc_supervisor := (lc_supervisor l)\<lparr>child := map_option f (child (lc_supervisor l))\<rparr>\<rparr>"

text \<open>\<open>delivery_mut\<close>: the two calls a caller can make through the seam's trait.\<close>

definition lc_delivery_authorize :: "'d seam_ops \<Rightarrow> ('c, 'd) local_lifecycle \<Rightarrow> string \<Rightarrow> ('c, 'd) local_lifecycle \<times> (seam_error + delivery_token)" where
  "lc_delivery_authorize sops l r = (let (d, x) = seam_authorize sops (lc_delivery l) r in (l\<lparr>lc_delivery := d\<rparr>, x))"

definition lc_delivery_deliver ::
  "'d seam_ops \<Rightarrow> ('c, 'd) local_lifecycle \<Rightarrow> delivery_token \<Rightarrow> string \<Rightarrow> ('c, 'd) local_lifecycle \<times> (seam_error + unit)" where
  "lc_delivery_deliver sops l tok t = (let (d, x) = seam_deliver sops (lc_delivery l) tok t in (l\<lparr>lc_delivery := d\<rparr>, x))"

section \<open>The lifecycle as a machine\<close>

datatype 'c life_op =
    LAttach 'c instant
  | LPrepare string instant
  | LTranscribe string string "u8 list" instant
  | LCancel
  | LDrainCloud
  | LIdleSwitch
  | LAttachReplacement 'c instant
  | LMarkUnavailable
  | LPin string
  | LExhausted instant
  | LTakeSupervisor
  | LRestoreSupervisor "'c worker_supervisor"
  | LChild "'c \<Rightarrow> 'c"
  | LSeamAuthorize string
  | LSeamDeliver delivery_token string
  | LLateFrame worker_frame string

text \<open>What an operation puts out: the Recording whose Transcript it delivered.\<close>

definition life_step ::
  "'c worker_child \<Rightarrow> 'd seam_ops \<Rightarrow> ('c, 'd) local_lifecycle \<Rightarrow> 'c life_op \<Rightarrow> ('c, 'd) local_lifecycle \<times> string list" where
  "life_step ops sops l op =
     (case op of
        LAttach c now \<Rightarrow> (fst (lc_attach l c now), [])
      | LPrepare r now \<Rightarrow> (fst (lc_prepare ops l r now), [])
      | LTranscribe r q pcm now \<Rightarrow>
          (case lc_transcribe ops sops l r q pcm now of
             (l', Inr (TranscriptOutcome _ _ _)) \<Rightarrow> (l', [r])
           | (l', _) \<Rightarrow> (l', []))
      | LCancel \<Rightarrow> (fst (lc_cancel ops l), [])
      | LDrainCloud \<Rightarrow> (fst (drain_for_cloud_selection ops l), [])
      | LIdleSwitch \<Rightarrow> (fst (begin_idle_switch ops l), [])
      | LAttachReplacement c now \<Rightarrow> (fst (attach_replacement l c now), [])
      | LMarkUnavailable \<Rightarrow> (lc_mark_unavailable l, [])
      | LPin h \<Rightarrow> (pin_model_receipt_hash l h, [])
      | LExhausted now \<Rightarrow> (fst (restart_budget_exhausted l now), [])
      | LTakeSupervisor \<Rightarrow> (fst (take_supervisor l), [])
      | LRestoreSupervisor s \<Rightarrow> (restore_supervisor l s, [])
      | LChild f \<Rightarrow> (lc_child_mut l f, [])
      | LSeamAuthorize r \<Rightarrow> (fst (lc_delivery_authorize sops l r), [])
      | LSeamDeliver tok t \<Rightarrow>
          (case lc_delivery_deliver sops l tok t of (l', Inr _) \<Rightarrow> (l', [token_recording tok]) | (l', Inl _) \<Rightarrow> (l', []))
      | LLateFrame f r \<Rightarrow> (case inject_late_frame l f r of Inl _ \<Rightarrow> (l, []) | Inr _ \<Rightarrow> (l, [])))"

section \<open>What the seam's contract gives the lifecycle\<close>

locale lifecycle_seam = delivery_seam "seam_authorize sops" "seam_deliver sops" spent_of token_recording
  for sops :: "'d seam_ops" and spent_of :: "'d \<Rightarrow> string set"
begin

lemma commit_client:
  assumes "client d0 h (lc_delivery l)"
  shows "case commit_delivery sops l r t of
      (l', Inr _) \<Rightarrow> client d0 (h @ [r]) (lc_delivery l')
    | (l', Inl _) \<Rightarrow> client d0 h (lc_delivery l')"
proof (cases "seam_authorize sops (lc_delivery l) r")
  case (Pair d x)
  have d: "client d0 h d" using client.authorize [OF assms, of r] Pair by simp
  show ?thesis
  proof (cases x)
    case (Inl e)
    then show ?thesis using assms d Pair by (auto simp: commit_delivery_def split: option.splits)
  next
    case (Inr tok)
    have r: "token_recording tok = r" using authorize_token Pair Inr by blast
    show ?thesis
      using assms d Pair Inr r client.deliver [OF d, of tok t] client.refused [OF d, of tok t]
      by (cases "seam_deliver sops d tok t") (auto simp: commit_delivery_def split: option.splits sum.splits)
  qed
qed

lemma transcribe_client:
  assumes "client d0 h (lc_delivery l)"
  shows "case lc_transcribe ops sops l r q pcm now of
      (l', Inr (TranscriptOutcome _ _ _)) \<Rightarrow> client d0 (h @ [r]) (lc_delivery l')
    | (l', _) \<Rightarrow> client d0 h (lc_delivery l')"
proof -
  have c: "client d0 h (lc_delivery l2) \<Longrightarrow> commit_delivery sops l2 r t = (l3, x) \<Longrightarrow>
      (case x of Inr _ \<Rightarrow> client d0 (h @ [r]) (lc_delivery l3) | Inl _ \<Rightarrow> client d0 h (lc_delivery l3))" for l2 l3 t x
    using commit_client [of d0 h l2 r t] by (simp split: sum.splits)
  show ?thesis
    using assms
    by (auto simp: lc_transcribe_def Let_def invalidate_def dest: c [rotated] split: prod.splits sum.splits worker_outcome.splits)
qed

lemma life_step_client:
  assumes "client d0 h (lc_delivery l)"
  shows "client d0 (h @ snd (life_step ops sops l op)) (lc_delivery (fst (life_step ops sops l op)))"
proof (cases op)
  case (LTranscribe r q pcm now)
  then show ?thesis
    using transcribe_client [OF assms, where ops = ops and r = r and q = q and pcm = pcm and now = now]
    by (auto simp: life_step_def split: prod.splits sum.splits worker_outcome.splits)
next
  case (LSeamAuthorize r)
  then show ?thesis using client.authorize [OF assms, of r] by (simp add: life_step_def lc_delivery_authorize_def split_beta Let_def)
next
  case (LSeamDeliver tok t)
  then show ?thesis
    using assms client.deliver [OF assms, of tok t] client.refused [OF assms, of tok t]
    by (cases "seam_deliver sops (lc_delivery l) tok t") (auto simp: life_step_def lc_delivery_deliver_def split: sum.splits)
qed (use assms in \<open>auto simp: life_step_def lc_attach_def lc_prepare_def lc_cancel_def drain_for_cloud_selection_def
    begin_idle_switch_def attach_replacement_def lc_mark_unavailable_def pin_model_receipt_hash_def invalidate_def
    restart_budget_exhausted_def take_supervisor_def restore_supervisor_def lc_child_mut_def Let_def split_beta split: sum.splits if_splits prod.splits\<close>)

lemma life_run_client:
  "client d0 h (lc_delivery l) \<Longrightarrow>
   client d0 (h @ trace_outputs (snd (run_machine (life_step ops sops) l steps)))
     (lc_delivery (fst (run_machine (life_step ops sops) l steps)))"
proof (induction steps arbitrary: h l)
  case Nil
  then show ?case by (simp add: trace_outputs_def)
next
  case (Cons op steps)
  show ?case
    using Cons.IH [OF life_step_client [OF Cons.prems, of ops op]] by (simp add: trace_outputs_def split_beta Let_def)
qed

lemma life_run_once:
  "distinct (trace_outputs (snd (run_machine (life_step ops sops) l steps)))
   \<and> set (trace_outputs (snd (run_machine (life_step ops sops) l steps))) \<inter> spent_of (lc_delivery l) = {}"
  using client_history [OF life_run_client [OF client.start, of l ops steps]] by simp

end

definition fake_seam_ops :: "fake_delivery seam_ops" where
  "fake_seam_ops = \<lparr>seam_authorize = fake_authorize, seam_deliver = fake_deliver\<rparr>"

interpretation daemon_life: lifecycle_seam fake_seam_ops fd_spent
  unfolding lifecycle_seam_def fake_seam_ops_def by (simp add: fake_seam.delivery_seam_axioms)

section \<open>Properties\<close>

text \<open>
  Claim C19. The lifecycle delivers each Recording's Transcript at most once: on every sequence of
  attaches, preparations, transcriptions with any request and any worker, cancels, drains, model
  switches, late frames, exchanges of the supervisor, changes of the worker and calls of the seam with any token, no
  Recording's transcription is delivered twice, and none that was delivered before.
\<close>
theorem lifecycle_delivers_once:
  "distinct (trace_outputs (snd (run_machine (life_step ops fake_seam_ops) l steps)))
   \<and> set (trace_outputs (snd (run_machine (life_step ops fake_seam_ops) l steps))) \<inter> fd_spent (lc_delivery l) = {}"
  by (rule daemon_life.life_run_once)

lemma invalidated_ignores: "lc_live l = None \<Longrightarrow> inject_late_frame l f recording = Inr ()"
  by (simp add: inject_late_frame_def)

text \<open>
  Failed work is retired before control returns: after a transcription that failed at the
  worker, in its protocol or at Delivery, and after every cancel and drain, there is no live work,
  the generation has moved on, and any late frame is ignored.
\<close>
theorem failed_work_is_retired:
  assumes "lc_generation l < u64_max"
  shows "(sup_state (lc_supervisor l) = WorkerReady \<longrightarrow>
       lc_transcribe ops sops l r q pcm now = (l', Inl e) \<longrightarrow>
         lc_live l' = None \<and> lc_generation l' = lc_generation l + 1 \<and> inject_late_frame l' f rec = Inr ())
    \<and> (\<forall>l' x. lc_cancel ops l = (l', x) \<or> drain_for_cloud_selection ops l = (l', x) \<longrightarrow>
         lc_live l' = None \<and> lc_generation l' = lc_generation l + 1 \<and> inject_late_frame l' f rec = Inr ())"
proof -
  have commit: "commit_delivery sops l1 r t = (l2, x) \<Longrightarrow> lc_generation l2 = lc_generation l1" for l1 l2 t x
    by (auto simp: commit_delivery_def split: option.splits if_splits prod.splits sum.splits)
  have sat: "sat_add_u64 (lc_generation l) 1 = lc_generation l + 1" using assms by (simp add: sat_add_u64_def)
  have retired: "lc_live (invalidate l1) = None" "lc_generation (invalidate l1) = sat_add_u64 (lc_generation l1) 1" for l1 :: "('a, 'b) local_lifecycle"
    by (simp_all add: invalidate_def)
  have "sup_state (lc_supervisor l) = WorkerReady \<Longrightarrow> lc_transcribe ops sops l r q pcm now = (l', Inl e) \<Longrightarrow>
      \<exists>l1. l' = invalidate l1 \<and> lc_generation l1 = lc_generation l"
    by (auto simp: lc_transcribe_def Let_def dest!: commit split: prod.splits sum.splits worker_outcome.splits)
  then show ?thesis
    using sat retired
    by (auto simp: lc_cancel_def drain_for_cloud_selection_def invalidate_def invalidated_ignores Let_def split: prod.splits)
qed

definition ready_harness :: "(fake_worker, fake_delivery) local_lifecycle" where
  "ready_harness = harness\<lparr>lc_supervisor := fst (attach_ready supervisor_absent (fake_worker_default\<lparr>crash := True\<rparr>) 0)\<rparr>"

theorem failed_work_is_retired_witness:
  "\<exists>l'. lc_transcribe fake_child fake_seam_ops ready_harness ''r'' ''q'' [1, 0] 0 = (l', Inl Crashed)
     \<and> inject_late_frame l' (TranscriptFrame sample_correlation ''late'') ''r'' = Inr () \<and> lc_generation l' = 1"
proof -
  obtain l' where run: "lc_transcribe fake_child fake_seam_ops ready_harness ''r'' ''q'' [1, 0] 0 = (l', Inl Crashed)"
    by (simp add: lc_transcribe_def ready_harness_def harness_def lifecycle_new_def attach_ready_def attach_as_def supervisor_absent_def
        try_register_def retain_recent_def MAX_RESTARTS_def transcribe_def transcribe_until_def validate_pcm_def MAX_PCM_BYTES_def
        fake_child_def fake_exchange_def fake_worker_default_def would_exceed_deadline_def conclude_exchange_def fail_and_reap_def
        STOP_PROCESSING_def from_secs_def Let_def)
  have "sup_state (lc_supervisor ready_harness) = WorkerReady" "lc_generation ready_harness = 0"
    by (simp_all add: ready_harness_def harness_def lifecycle_new_def attach_ready_def attach_as_def supervisor_absent_def
        try_register_def retain_recent_def MAX_RESTARTS_def)
  then show ?thesis
    using failed_work_is_retired [of ready_harness fake_child fake_seam_ops "''r''" "''q''" "[1, 0]" 0 l' Crashed] run
    by (auto simp: u64_max_def)
qed

lemma switch_released:
  "begin_idle_switch ops l = (l', Inr r) \<Longrightarrow>
    child (lc_supervisor l') = None \<and> released (lc_supervisor l') \<and> r \<noteq> Unreaped"
  by (auto simp: begin_idle_switch_def drain_for_switch_def unload_idle_def reap_child_def apply_reap_def released_def has_child_def
      invalidate_def Let_def split: if_splits prod.splits sum.splits option.splits reap_outcome.splits)

lemma replacement_attached:
  "attach_replacement l c now = (l', x) \<Longrightarrow>
    (case x of
       Inr _ \<Rightarrow> child (lc_supervisor l) = None \<and> child (lc_supervisor l') = Some c \<and> sup_state (lc_supervisor l') = WorkerLoading
     | Inl _ \<Rightarrow> sup_state (lc_supervisor l') = WorkerUnavailable \<and> child (lc_supervisor l') = child (lc_supervisor l))"
  by (auto simp: attach_replacement_def lc_attach_def attach_pending_def attach_as_def try_register_def lc_mark_unavailable_def
      mark_unavailable_def has_child_def Let_def split: if_splits prod.splits sum.splits option.splits)

text \<open>
  Never two models: a model switch succeeds only once the previous worker is reaped and
  detached, a replacement is attached only when nothing is loaded, it starts without being ready,
  and every other outcome leaves the worker unavailable, busy or as it was.
\<close>
theorem never_two_models:
  "(begin_idle_switch ops l = (l', Inr r) \<longrightarrow>
      child (lc_supervisor l') = None \<and> released (lc_supervisor l') \<and> r \<noteq> Unreaped)
   \<and> (attach_replacement l c now = (l', x) \<longrightarrow>
        (case x of
           Inr _ \<Rightarrow> child (lc_supervisor l) = None \<and> child (lc_supervisor l') = Some c \<and> sup_state (lc_supervisor l') = WorkerLoading
         | Inl _ \<Rightarrow> sup_state (lc_supervisor l') = WorkerUnavailable \<and> child (lc_supervisor l') = child (lc_supervisor l)))"
  using switch_released [of ops l l' r] replacement_attached [of l c now l' x] by blast

theorem never_two_models_witness:
  "\<exists>l' l''. begin_idle_switch fake_child ready_harness = (l', Inr Exited) \<and> child (lc_supervisor l') = None
    \<and> attach_replacement l' fake_worker_default 1 = (l'', Inr ()) \<and> sup_state (lc_supervisor l'') = WorkerLoading"
proof -
  obtain l' where run: "begin_idle_switch fake_child ready_harness = (l', Inr Exited)"
    and l': "restarts (lc_supervisor l') = [0]"
    by (simp add: begin_idle_switch_def drain_for_switch_def unload_idle_def reap_child_def apply_reap_def has_child_def
        ready_harness_def harness_def lifecycle_new_def attach_ready_def attach_as_def supervisor_absent_def try_register_def
        retain_recent_def MAX_RESTARTS_def fake_child_def fake_cancel_and_reap_def fake_worker_default_def invalidate_def Let_def)
  have gone: "child (lc_supervisor l') = None" "released (lc_supervisor l')"
    using never_two_models [of fake_child ready_harness l' Exited] run by auto
  then obtain l'' where att: "attach_replacement l' fake_worker_default 1 = (l'', Inr ())"
    using l' retain_recent_length [of "[0]" 1]
    by (cases "attach_replacement l' fake_worker_default 1")
       (auto simp: attach_replacement_def lc_attach_def attach_pending_def attach_as_def try_register_def has_child_def
         MAX_RESTARTS_def Let_def split: prod.splits sum.splits)
  then have "sup_state (lc_supervisor l'') = WorkerLoading"
    using never_two_models [of fake_child l' l'' Exited fake_worker_default 1 "Inr ()"] by auto
  then show ?thesis using run gone att by blast
qed

end
