(* ===== verification/Edit_Distance.thy ===== *)
theory Edit_Distance
  imports Voisu_Prelude
begin

text \<open>
  The two edit-distance routines of \<open>crates/voisu-core/src/lib.rs\<close>, \<open>char_edit_distance\<close> and
  \<open>word_edit_distance\<close>: one dynamic program over two rows, swapped after each element of the left
  sequence. It is shown equal to the recursive distance \<open>lev\<close>, and \<open>lev\<close> to be the least number of
  insertions, deletions and replacements that turn one sequence into the other.
\<close>

section \<open>The program\<close>

text \<open>The inner loop: one cell per element of the right sequence, at index \<open>j + 1\<close>.\<close>

definition edit_cell :: "'a \<Rightarrow> nat list \<Rightarrow> nat \<times> 'a \<Rightarrow> nat list \<Rightarrow> nat list" where
  "edit_cell l previous jr current =
     (case jr of (j, r) \<Rightarrow>
        current[j + 1 := if l = r then previous ! j
                         else 1 + min (min (previous ! j) (current ! j)) (previous ! (j + 1))])"

text \<open>The outer loop: fill \<open>current\<close> from \<open>previous\<close>, then swap the two.\<close>

definition edit_row :: "'a list \<Rightarrow> nat \<times> 'a \<Rightarrow> nat list \<times> nat list \<Rightarrow> nat list \<times> nat list" where
  "edit_row right il rows =
     (case (il, rows) of ((i, l), (previous, current)) \<Rightarrow>
        (fold (edit_cell l previous) (enumerate 0 right) (current[0 := i + 1]), previous))"

definition edit_distance :: "'a list \<Rightarrow> 'a list \<Rightarrow> nat" where
  "edit_distance left right =
     fst (fold (edit_row right) (enumerate 0 left)
            ([0..<length right + 1], replicate (length right + 1) 0)) ! length right"

section \<open>The distance\<close>

fun lev :: "'a list \<Rightarrow> 'a list \<Rightarrow> nat" where
  "lev [] ys = length ys"
| "lev xs [] = length xs"
| "lev (x # xs) (y # ys) =
     (if x = y then lev xs ys else 1 + min (min (lev xs ys) (lev (x # xs) ys)) (lev xs (y # ys)))"

text \<open>\<open>edits n xs ys\<close>: some \<open>n\<close> single-element edits turn \<open>xs\<close> into \<open>ys\<close>.\<close>

inductive edits :: "nat \<Rightarrow> 'a list \<Rightarrow> 'a list \<Rightarrow> bool" where
  stop: "edits 0 [] []"
| keep: "edits n xs ys \<Longrightarrow> edits n (x # xs) (x # ys)"
| replace: "edits n xs ys \<Longrightarrow> edits (Suc n) (x # xs) (y # ys)"
| insert: "edits n xs ys \<Longrightarrow> edits (Suc n) xs (y # ys)"
| delete: "edits n xs ys \<Longrightarrow> edits (Suc n) (x # xs) ys"

lemma lev_Nil2 [simp]: "lev xs [] = length xs"
  by (cases xs) auto

lemma edits_Nil_left: "edits (length ys) [] ys"
  by (induction ys) (auto intro: edits.intros)

lemma edits_Nil_right: "edits (length xs) xs []"
  by (induction xs) (auto intro: edits.intros)

lemma edits_length: "edits n xs ys \<Longrightarrow> length ys \<le> length xs + n \<and> length xs \<le> length ys + n"
  by (induction rule: edits.induct) auto

lemma edits_sym: "edits n xs ys \<Longrightarrow> edits n ys xs"
  by (induction rule: edits.induct) (auto intro: edits.intros)

lemma edits_append: "edits m xs ys \<Longrightarrow> edits n us vs \<Longrightarrow> edits (m + n) (xs @ us) (ys @ vs)"
  by (induction rule: edits.induct) (auto intro: edits.intros)

lemma edits_rev: "edits n xs ys \<Longrightarrow> edits n (rev xs) (rev ys)"
proof (induction rule: edits.induct)
  case (keep n xs ys x)
  have "edits 0 [x] [x]" by (auto intro: edits.intros)
  from edits_append [OF keep.IH this] show ?case by simp
next
  case (replace n xs ys x y)
  have "edits (Suc 0) [x] [y]" by (auto intro: edits.intros)
  from edits_append [OF replace.IH this] show ?case by simp
next
  case (insert n xs ys y)
  have "edits (Suc 0) [] [y]" by (auto intro: edits.intros)
  from edits_append [OF insert.IH this] show ?case by simp
next
  case (delete n xs ys x)
  have "edits (Suc 0) [x] []" by (auto intro: edits.intros)
  from edits_append [OF delete.IH this] show ?case by simp
qed (auto intro: edits.intros)

lemma lev_edits: "edits (lev xs ys) xs ys"
proof (induction xs ys rule: lev.induct)
  case (3 x xs y ys)
  show ?case
  proof (cases "x = y")
    case True
    from edits.keep [OF "3.IH"(1) [OF True]] show ?thesis using True by simp
  next
    case False
    note steps = edits.replace [OF "3.IH"(2) [OF False]] edits.insert [OF "3.IH"(3) [OF False]]
      edits.delete [OF "3.IH"(4) [OF False]]
    have "lev (x # xs) (y # ys) \<in> {Suc (lev xs ys), Suc (lev (x # xs) ys), Suc (lev xs (y # ys))}"
      using False by (simp add: min_def)
    then show ?thesis using steps by fastforce
  qed
next
  case (2 v va)
  show ?case using edits_Nil_right [of "v # va"] by (simp only: lev.simps)
qed (simp only: lev.simps edits_Nil_left)

text \<open>Without its first element a sequence needs at most one edit more.\<close>

lemma edits_drop_left: "edits n (x # xs) ys \<Longrightarrow> \<exists>m\<le>Suc n. edits m xs ys"
proof (induction n "x # xs" ys arbitrary: x xs rule: edits.induct)
  case (keep n xs ys x)
  from edits.insert [OF keep(1)] show ?case by (intro exI [of _ "Suc n"]) simp
next
  case (replace n xs ys x y)
  from edits.insert [OF replace(1)] show ?case by (intro exI [of _ "Suc n"]) simp
next
  case (insert n ys y)
  then obtain m where "m \<le> Suc n" "edits m xs ys" by blast
  then show ?case by (intro exI [of _ "Suc m"]) (simp add: edits.insert)
next
  case (delete n xs ys x)
  then show ?case by (intro exI [of _ n]) simp
qed

lemma edits_drop_right:
  assumes "edits n xs (y # ys)"
  shows "\<exists>m\<le>Suc n. edits m xs ys"
proof -
  obtain m where "m \<le> Suc n" "edits m ys xs" using edits_drop_left [OF edits_sym [OF assms]] by blast
  then show ?thesis using edits_sym by blast
qed

lemma lev_least: "edits n xs ys \<Longrightarrow> lev xs ys \<le> n"
proof (induction xs ys arbitrary: n rule: lev.induct)
  case (3 x xs y ys)
  from "3.prems" consider "x = y" "edits n xs ys" | m where "n = Suc m" "edits m xs ys"
    | m where "n = Suc m" "edits m (x # xs) ys" | m where "n = Suc m" "edits m xs (y # ys)"
    by (cases rule: edits.cases) blast+
  then show ?case
  proof cases
    case 1
    then show ?thesis using "3.IH"(1) by simp
  next
    case (2 m)
    show ?thesis
    proof (cases "x = y")
      case True
      then show ?thesis using "3.IH"(1) [OF True 2(2)] 2(1) by simp
    next
      case False
      then show ?thesis using "3.IH"(2) [OF False 2(2)] 2(1) by simp
    qed
  next
    case (3 m)
    from edits_drop_left [OF 3(2)] obtain k where k: "k \<le> Suc m" "edits k xs ys" by auto
    show ?thesis
    proof (cases "x = y")
      case True
      then show ?thesis using "3.IH"(1) [OF True k(2)] k(1) 3(1) by simp
    next
      case False
      then show ?thesis using "3.IH"(3) [OF False 3(2)] 3(1) by simp
    qed
  next
    case (4 m)
    from edits_drop_right [OF 4(2)] obtain k where k: "k \<le> Suc m" "edits k xs ys" by auto
    show ?thesis
    proof (cases "x = y")
      case True
      then show ?thesis using "3.IH"(1) [OF True k(2)] k(1) 4(1) by simp
    next
      case False
      then show ?thesis using "3.IH"(4) [OF False 4(2)] 4(1) by simp
    qed
  qed
qed (auto dest: edits_length)

lemma lev_eqI: "edits n xs ys \<Longrightarrow> (\<And>m. edits m xs ys \<Longrightarrow> n \<le> m) \<Longrightarrow> lev xs ys = n"
  by (meson le_antisym lev_edits lev_least)

lemma lev_rev: "lev (rev xs) (rev ys) = lev xs ys"
proof (rule lev_eqI)
  show "edits (lev xs ys) (rev xs) (rev ys)" by (intro edits_rev lev_edits)
  show "lev xs ys \<le> m" if "edits m (rev xs) (rev ys)" for m
    using edits_rev [OF that] lev_least by simp
qed

lemma lev_sym: "lev xs ys = lev ys xs"
  by (rule lev_eqI) (auto intro: edits_sym lev_edits lev_least)

lemma lev_le_max: "lev xs ys \<le> max (length xs) (length ys)"
  by (induction xs ys rule: lev.induct) auto

lemma lev_self [simp]: "lev xs xs = 0"
  by (induction xs) auto

lemma lev_eq_0_iff: "lev xs ys = 0 \<longleftrightarrow> xs = ys"
  by (induction xs ys rule: lev.induct) auto

section \<open>The program computes the distance\<close>

text \<open>The cell the program fills for the prefixes of lengths \<open>i\<close> and \<open>j\<close>.\<close>

definition prefix_lev :: "'a list \<Rightarrow> 'a list \<Rightarrow> nat \<Rightarrow> nat \<Rightarrow> nat" where
  "prefix_lev left right i j = lev (take i left) (take j right)"

lemma prefix_lev_0 [simp]:
  "j \<le> length right \<Longrightarrow> prefix_lev left right 0 j = j"
  "i \<le> length left \<Longrightarrow> prefix_lev left right i 0 = i"
  by (simp_all add: prefix_lev_def)

lemma prefix_lev_step:
  assumes "i < length left" "j < length right"
  shows "prefix_lev left right (Suc i) (Suc j) =
    (if left ! i = right ! j then prefix_lev left right i j
     else 1 + min (min (prefix_lev left right i j) (prefix_lev left right (Suc i) j)) (prefix_lev left right i (Suc j)))"
proof -
  have "prefix_lev left right (Suc i) (Suc j) = lev (left ! i # rev (take i left)) (right ! j # rev (take j right))"
    using assms by (simp add: prefix_lev_def take_Suc_conv_app_nth flip: lev_rev [of "_ @ _"])
  then show ?thesis
    using assms by (simp add: prefix_lev_def take_Suc_conv_app_nth lev_rev flip: lev_rev [of "_ @ _"] lev_rev [of _ "_ @ _"])
qed

text \<open>The row of a prefix of the left sequence, and the inner loop's invariant.\<close>

definition lev_row :: "'a list \<Rightarrow> 'a list \<Rightarrow> nat \<Rightarrow> nat list" where
  "lev_row left right i = map (prefix_lev left right i) [0..<length right + 1]"

lemma enumerate_snoc: "enumerate k (xs @ [x]) = enumerate k xs @ [(k + length xs, x)]"
  by (simp add: enumerate_append_eq)

lemma edit_cells:
  assumes "i < length left" "k \<le> length right" "length current = length right + 1"
  defines "row \<equiv> fold (edit_cell (left ! i) (lev_row left right i)) (enumerate 0 (take k right)) (current[0 := i + 1])"
  shows "length row = length right + 1 \<and> (\<forall>j\<le>k. row ! j = prefix_lev left right (Suc i) j)"
  using assms(2) unfolding row_def
proof (induction k)
  case 0
  then show ?case using assms(1,3) by simp
next
  case (Suc k)
  let ?row = "fold (edit_cell (left ! i) (lev_row left right i)) (enumerate 0 (take k right)) (current[0 := i + 1])"
  have IH: "length ?row = length right + 1" "\<forall>j\<le>k. ?row ! j = prefix_lev left right (Suc i) j"
    using Suc by simp_all
  have cells: "lev_row left right i ! k = prefix_lev left right i k"
    "lev_row left right i ! Suc k = prefix_lev left right i (Suc k)"
    using Suc.prems by (simp_all add: lev_row_def del: upt_Suc)
  have "fold (edit_cell (left ! i) (lev_row left right i)) (enumerate 0 (take (Suc k) right)) (current[0 := i + 1]) =
      ?row[Suc k := prefix_lev left right (Suc i) (Suc k)]"
    using Suc.prems assms(1) IH(2)
    by (simp add: take_Suc_conv_app_nth enumerate_snoc edit_cell_def cells prefix_lev_step)
  then show ?case using IH Suc.prems by (auto simp: nth_list_update le_Suc_eq)
qed

lemma edit_row_correct:
  assumes "i < length left" "length current = length right + 1"
  shows "edit_row right (i, left ! i) (lev_row left right i, current) = (lev_row left right (Suc i), lev_row left right i)"
proof -
  have "length (fold (edit_cell (left ! i) (lev_row left right i)) (enumerate 0 right) (current[0 := i + 1])) = length right + 1
     \<and> (\<forall>j\<le>length right. fold (edit_cell (left ! i) (lev_row left right i)) (enumerate 0 right) (current[0 := i + 1]) ! j
          = prefix_lev left right (Suc i) j)"
    using edit_cells [OF assms(1) order_refl assms(2)] by simp
  then show ?thesis
    by (auto simp: edit_row_def lev_row_def intro!: nth_equalityI simp del: upt_Suc)
qed

lemma edit_rows:
  assumes "k \<le> length left"
  shows "\<exists>current. length current = length right + 1 \<and>
    fold (edit_row right) (enumerate 0 (take k left)) ([0..<length right + 1], replicate (length right + 1) 0)
      = (lev_row left right k, current)"
  using assms
proof (induction k)
  case 0
  have "lev_row left right 0 = [0..<length right + 1]"
    by (auto simp: lev_row_def intro!: map_idI)
  then show ?case by simp
next
  case (Suc k)
  then obtain current where "length current = length right + 1"
    "fold (edit_row right) (enumerate 0 (take k left)) ([0..<length right + 1], replicate (length right + 1) 0)
      = (lev_row left right k, current)" by auto
  then show ?case using Suc.prems
    by (simp add: take_Suc_conv_app_nth enumerate_snoc edit_row_correct) (simp add: lev_row_def)
qed

theorem edit_distance_lev: "edit_distance left right = lev left right"
proof -
  obtain current where
    "fold (edit_row right) (enumerate 0 left) ([0..<length right + 1], replicate (length right + 1) 0)
      = (lev_row left right (length left), current)"
    using edit_rows [of "length left" left right] by auto
  then show ?thesis
    by (simp add: edit_distance_def lev_row_def prefix_lev_def nth_append del: upt_Suc)
qed

end
