(* ===== verification/Float64.thy ===== *)
theory Float64
  imports Voisu_Prelude Complex_Main
begin

text \<open>
  The \<open>f64\<close> arithmetic of the transcript code. A finite double is the rational it denotes, and each
  operation is the exact one followed by \<open>fl\<close>, rounding to the nearest 53-bit significand with ties
  to even, as IEEE 754 prescribes. The sources only form ratios of word counts, convex combinations
  of them and confidences, so every value is zero or between \<open>2 ^ -64\<close> and \<open>2 ^ 64\<close> in magnitude and
  subnormals, infinities and NaN do not arise; the rounding has no exponent bounds.
  \<open>format_fixed\<close> is \<open>{:.p}\<close>, the exact value rounded to \<open>p\<close> decimals with ties to even.
\<close>

type_synonym f64 = rat

section \<open>Rounding\<close>

text \<open>Rounding to an integer, ties to even.\<close>

definition round_even :: "rat \<Rightarrow> int" where
  "round_even x =
     (let f = \<lfloor>x\<rfloor>; r = x - of_int f
      in if r < 1 / 2 then f else if 1 / 2 < r then f + 1 else if even f then f else f + 1)"

text \<open>The position of the highest bit of a positive integer, and of a positive rational.\<close>

function ilog2 :: "int \<Rightarrow> nat" where
  "ilog2 n = (if n < 2 then 0 else Suc (ilog2 (n div 2)))"
  by pat_completeness auto
termination by (relation "measure nat") auto

declare ilog2.simps [simp del]

definition exponent :: "rat \<Rightarrow> int" where
  "exponent x =
     (case quotient_of x of (a, b) \<Rightarrow>
        (let k = int (ilog2 a) - int (ilog2 b) in if 2 powi k \<le> x then k else k - 1))"

definition fl :: "rat \<Rightarrow> f64" where
  "fl x =
     (if x = 0 then 0
      else let e = exponent \<bar>x\<bar> - 52 in of_int (round_even (x / 2 powi e)) * 2 powi e)"

section \<open>Operations\<close>

text \<open>\<open>n as f64\<close>, and the quotient of two counts.\<close>

definition f64_of :: "nat \<Rightarrow> f64" where
  "f64_of n = fl (of_nat n)"

definition f64_div :: "f64 \<Rightarrow> f64 \<Rightarrow> f64" where "f64_div a b = fl (a / b)"
definition f64_mul :: "f64 \<Rightarrow> f64 \<Rightarrow> f64" where "f64_mul a b = fl (a * b)"
definition f64_add :: "f64 \<Rightarrow> f64 \<Rightarrow> f64" where "f64_add a b = fl (a + b)"
definition f64_sub :: "f64 \<Rightarrow> f64 \<Rightarrow> f64" where "f64_sub a b = fl (a - b)"

definition ratio :: "nat \<Rightarrow> nat \<Rightarrow> f64" where
  "ratio a b = f64_div (f64_of a) (f64_of b)"

section \<open>Confidences\<close>

text \<open>
  A word's confidence is whatever number its provider sent, so here a double may also be an infinity
  or not a number. \<open>f64::min\<close> and \<open>f64::max\<close> ignore a NaN operand; every comparison with one is false.
\<close>

datatype xf64 = NaN | NegInf | Fin f64 | PosInf

fun xf_le :: "xf64 \<Rightarrow> xf64 \<Rightarrow> bool" where
  "xf_le NaN _ = False"
| "xf_le _ NaN = False"
| "xf_le NegInf _ = True"
| "xf_le _ NegInf = False"
| "xf_le _ PosInf = True"
| "xf_le PosInf _ = False"
| "xf_le (Fin a) (Fin b) = (a \<le> b)"

definition xf_less :: "xf64 \<Rightarrow> xf64 \<Rightarrow> bool" where
  "xf_less a b \<longleftrightarrow> xf_le a b \<and> \<not> xf_le b a"

definition xf_min :: "xf64 \<Rightarrow> xf64 \<Rightarrow> xf64" where
  "xf_min a b = (if a = NaN then b else if b = NaN then a else if xf_le a b then a else b)"

definition xf_max :: "xf64 \<Rightarrow> xf64 \<Rightarrow> xf64" where
  "xf_max a b = (if a = NaN then b else if b = NaN then a else if xf_le a b then b else a)"

section \<open>Printing\<close>

definition pad_zeros :: "nat \<Rightarrow> string \<Rightarrow> string" where
  "pad_zeros k s = replicate (k - length s) (CHR ''0'') @ s"

definition format_fixed :: "nat \<Rightarrow> f64 \<Rightarrow> string" where
  "format_fixed p x =
     (let n = nat (round_even (\<bar>x\<bar> * 10 ^ p))
      in (if x < 0 then ''-'' else []) @ show_nat (n div 10 ^ p)
         @ (if p = 0 then [] else ''.'' @ pad_zeros p (show_nat (n mod 10 ^ p))))"

section \<open>Rounding to an integer\<close>

lemma round_even_bounds: "\<lfloor>x\<rfloor> \<le> round_even x" "round_even x \<le> \<lfloor>x\<rfloor> + 1"
  by (auto simp: round_even_def Let_def)

lemma round_even_error: "\<bar>of_int (round_even x) - x\<bar> \<le> 1 / 2"
proof -
  have "of_int \<lfloor>x\<rfloor> \<le> x" "x < of_int \<lfloor>x\<rfloor> + 1" using floor_correct [of x] by linarith+
  then show ?thesis unfolding round_even_def Let_def abs_le_iff by (auto simp del: of_int_floor_le)
qed

lemma round_even_of_int [simp]: "round_even (of_int n) = n"
  by (simp add: round_even_def)

lemma round_even_mono: "x \<le> y \<Longrightarrow> round_even x \<le> round_even y"
proof (cases "\<lfloor>x\<rfloor> = \<lfloor>y\<rfloor>")
  case True
  assume "x \<le> y"
  then show ?thesis using True by (auto simp: round_even_def Let_def)
next
  case False
  assume "x \<le> y"
  then have "\<lfloor>x\<rfloor> + 1 \<le> \<lfloor>y\<rfloor>" using False floor_mono [of x y] by linarith
  then show ?thesis using round_even_bounds [of x] round_even_bounds [of y] by linarith
qed

lemma round_even_minus: "round_even (- x) = - round_even x"
proof (cases "x = of_int \<lfloor>x\<rfloor>")
  case True
  then have "round_even (- x) = round_even (of_int (- \<lfloor>x\<rfloor>))" by simp
  then show ?thesis using True by (metis round_even_of_int)
next
  case False
  then have f: "\<lfloor>- x\<rfloor> = - \<lfloor>x\<rfloor> - 1"
    using of_int_floor_le [of x] floor_correct [of x] by (intro floor_unique) (auto simp: less_le)
  show ?thesis by (auto simp: round_even_def Let_def f)
qed

section \<open>The exponent\<close>

lemma powi_less_cancel: "(2::rat) powi a < 2 powi b \<Longrightarrow> a < b"
  using power_int_increasing [of b a "2::rat"] by (meson linorder_not_le one_le_numeral)

lemma ilog2_bounds: "1 \<le> n \<Longrightarrow> 2 ^ ilog2 n \<le> n \<and> n < 2 ^ Suc (ilog2 n)"
proof (induction n rule: ilog2.induct)
  case (1 n)
  show ?case
  proof (cases "n < 2")
    case True
    then show ?thesis using 1 by (simp add: ilog2.simps [of n])
  next
    case False
    then have "2 ^ ilog2 (n div 2) \<le> n div 2 \<and> n div 2 < 2 ^ Suc (ilog2 (n div 2))" using 1 by simp
    then show ?thesis using False by (simp add: ilog2.simps [of n]) linarith
  qed
qed

lemma exponent_bounds:
  assumes "0 < x"
  shows "2 powi exponent x \<le> x" "x < 2 powi (exponent x + 1)"
proof -
  obtain a b where q: "quotient_of x = (a, b)" by force
  have b: "0 < b" and x: "x = of_int a / of_int b"
    using q quotient_of_denom_pos [OF q] quotient_of_div [OF q] by auto
  have a: "0 < a" using assms b x by (simp add: zero_less_divide_iff)
  let ?k = "int (ilog2 a) - int (ilog2 b)"
  have A: "2 ^ ilog2 a \<le> a" "a < 2 ^ Suc (ilog2 a)" and B: "2 ^ ilog2 b \<le> b" "b < 2 ^ Suc (ilog2 b)"
    using ilog2_bounds [of a] ilog2_bounds [of b] a b by auto
  have a1: "(2::rat) ^ ilog2 a \<le> of_int a" using A(1) of_int_le_iff [of "2 ^ ilog2 a" a] by simp
  have a2: "of_int a < (2::rat) ^ Suc (ilog2 a)" using A(2) of_int_less_iff [of a "2 ^ Suc (ilog2 a)"] by simp
  have b1: "(2::rat) ^ ilog2 b \<le> of_int b" using B(1) of_int_le_iff [of "2 ^ ilog2 b" b] by simp
  have b2: "of_int b < (2::rat) ^ Suc (ilog2 b)" using B(2) of_int_less_iff [of b "2 ^ Suc (ilog2 b)"] by simp
  have up: "x < 2 powi (?k + 1)"
  proof -
    have "x < 2 ^ Suc (ilog2 a) / 2 ^ ilog2 b" unfolding x
      using a a2 b1 b by (intro frac_less) auto
    also have "\<dots> = 2 powi (?k + 1)" by (simp add: power_int_diff power_int_add)
    finally show ?thesis .
  qed
  have low: "2 powi (?k - 1) \<le> x"
  proof -
    have "2 powi (?k - 1) = (2::rat) ^ ilog2 a / 2 ^ Suc (ilog2 b)"
      by (simp add: power_int_diff)
    also have "\<dots> \<le> x" unfolding x using a a1 b2 b by (intro frac_le) auto
    finally show ?thesis .
  qed
  show "2 powi exponent x \<le> x" using low by (simp add: exponent_def q Let_def)
  show "x < 2 powi (exponent x + 1)" using up by (simp add: exponent_def q Let_def)
qed

lemma exponent_unique:
  assumes "2 powi e \<le> x" "x < 2 powi (e + 1)"
  shows "exponent x = e"
proof -
  have "(0::rat) < 2 powi e" by simp
  then have pos: "0 < x" using assms(1) by (rule less_le_trans)
  have "(2::rat) powi e < 2 powi (exponent x + 1)" "(2::rat) powi exponent x < 2 powi (e + 1)"
    using exponent_bounds [OF pos] assms by auto
  then have "e < exponent x + 1" "exponent x < e + 1" by (blast dest: powi_less_cancel)+
  then show ?thesis by simp
qed

section \<open>Properties of the rounding\<close>

lemma fl_zero [simp]: "fl 0 = 0"
  by (simp add: fl_def)

lemma fl_minus: "fl (- x) = - fl x"
  by (simp add: fl_def Let_def round_even_minus)

text \<open>A positive number and its rounding have the same leading power of two.\<close>

lemma fl_binade:
  assumes "0 < x"
  shows "2 powi exponent x \<le> fl x" "fl x \<le> 2 powi (exponent x + 1)"
proof -
  let ?e = "exponent x - 52"
  let ?m = "round_even (x / 2 powi ?e)"
  have pe: "(0::rat) < 2 powi ?e" by simp
  have split: "(2::rat) powi exponent x = 2 ^ 52 * 2 powi ?e" "(2::rat) powi (exponent x + 1) = 2 ^ 53 * 2 powi ?e"
    by (simp_all add: power_int_diff power_int_add)
  have "(2::rat) ^ 52 \<le> x / 2 powi ?e" "x / 2 powi ?e \<le> 2 ^ 53"
    using exponent_bounds [OF assms] pe unfolding split by (simp_all add: pos_le_divide_eq pos_divide_le_eq)
  from this [THEN round_even_mono] have "2 ^ 52 \<le> ?m" "?m \<le> 2 ^ 53"
    using round_even_of_int [of "2 ^ 52"] round_even_of_int [of "2 ^ 53"] by simp_all
  then have m: "(2::rat) ^ 52 \<le> of_int ?m" "of_int ?m \<le> (2::rat) ^ 53"
    using of_int_le_iff [of "2 ^ 52" ?m, where 'a = rat] of_int_le_iff [of ?m "2 ^ 53", where 'a = rat] by simp_all
  have f: "fl x = of_int ?m * 2 powi ?e" using assms by (simp add: fl_def Let_def)
  show "2 powi exponent x \<le> fl x" "fl x \<le> 2 powi (exponent x + 1)"
    unfolding f split using m pe by (simp_all add: mult_right_mono)
qed

lemma fl_pos: "0 < x \<Longrightarrow> 0 < fl x"
  using fl_binade(1) [of x] by (meson less_le_trans zero_less_numeral zero_less_power_int)

lemma exponent_mono:
  assumes "0 < x" "x \<le> y"
  shows "exponent x \<le> exponent y"
proof -
  have "(2::rat) powi exponent x < 2 powi (exponent y + 1)"
    using exponent_bounds [of x] exponent_bounds [of y] assms by linarith
  then have "exponent x < exponent y + 1" by (rule powi_less_cancel)
  then show ?thesis by simp
qed

lemma fl_mono_pos:
  assumes "0 < x" "x \<le> y"
  shows "fl x \<le> fl y"
proof (cases "exponent x = exponent y")
  case True
  have "x / 2 powi (exponent y - 52) \<le> y / 2 powi (exponent y - 52)"
    using assms(2) by (intro divide_right_mono) simp_all
  from round_even_mono [OF this] show ?thesis
    using assms True by (auto simp: fl_def Let_def intro!: mult_right_mono)
next
  case False
  then have "exponent x + 1 \<le> exponent y" using exponent_mono [OF assms] by simp
  then have "(2::rat) powi (exponent x + 1) \<le> 2 powi exponent y" by (intro power_int_increasing) auto
  then show ?thesis using fl_binade [of x] fl_binade [of y] assms by linarith
qed

lemma fl_mono: "x \<le> y \<Longrightarrow> fl x \<le> fl y"
proof -
  assume le: "x \<le> y"
  consider "0 < x" | "x \<le> 0" "0 \<le> y" | "y < 0" by linarith
  then show ?thesis
  proof cases
    case 1 then show ?thesis using fl_mono_pos le by blast
  next
    case 2
    have "fl x \<le> 0" using 2(1) fl_pos [of "- x"] by (cases "x = 0") (auto simp: fl_minus)
    moreover have "0 \<le> fl y" using 2(2) fl_pos [of y] by (cases "y = 0") auto
    ultimately show ?thesis by linarith
  next
    case 3 then show ?thesis using fl_mono_pos [of "- y" "- x"] le by (simp add: fl_minus)
  qed
qed

lemma fl_nonneg: "0 \<le> x \<Longrightarrow> 0 \<le> fl x"
  using fl_mono [of 0 x] by simp

text \<open>Integers below \<open>2 ^ 53\<close> are represented exactly.\<close>

lemma fl_of_nat:
  assumes "n < 2 ^ 53"
  shows "fl (of_nat n) = of_nat n"
proof (cases "n = 0")
  case False
  let ?x = "rat_of_nat n"
  have pos: "0 < ?x" using False by simp
  have "(2::rat) powi exponent ?x < 2 powi 53"
    using exponent_bounds(1) [OF pos] assms of_nat_less_iff [of n "2 ^ 53", where 'a = rat] by simp
  then have "exponent ?x < 53" by (rule powi_less_cancel)
  then have "exponent ?x - 52 = - int (nat (52 - exponent ?x))" by simp
  then obtain k where k: "exponent ?x - 52 = - int k" by blast
  have "?x / 2 powi (- int k) = of_int (int n * 2 ^ k)" by (simp add: power_int_minus field_simps)
  then have "round_even (?x / 2 powi (- int k)) = int n * 2 ^ k" by (simp only: round_even_of_int)
  then show ?thesis using False by (simp add: fl_def Let_def k power_int_minus field_simps)
qed simp

lemma f64_of_exact: "n < 2 ^ 53 \<Longrightarrow> f64_of n = of_nat n"
  by (simp add: f64_of_def fl_of_nat)

text \<open>In the unit interval the rounding error is at most \<open>2 ^ -54\<close>.\<close>

lemma fl_error:
  assumes "0 \<le> x" "x < 1"
  shows "\<bar>fl x - x\<bar> \<le> 1 / 2 ^ 54"
proof (cases "x = 0")
  case False
  then have pos: "0 < x" using assms by simp
  let ?e = "exponent x - 52"
  let ?y = "x / 2 powi ?e"
  have "(2::rat) powi exponent x < 2 powi 0" using exponent_bounds(1) [OF pos] assms by simp
  then have "exponent x < 0" by (rule powi_less_cancel)
  then have small: "(2::rat) powi ?e \<le> 2 powi (-53)" by (intro power_int_increasing) auto
  have pe: "(0::rat) < 2 powi ?e" by simp
  have "fl x - x = (of_int (round_even ?y) - ?y) * 2 powi ?e"
    using pos by (simp add: fl_def Let_def algebra_simps)
  then have "\<bar>fl x - x\<bar> = \<bar>of_int (round_even ?y) - ?y\<bar> * 2 powi ?e"
    by (simp add: abs_mult)
  also have "\<dots> \<le> 1 / 2 * 2 powi (-53)"
    using round_even_error [of ?y] small pe by (intro mult_mono) auto
  also have "\<dots> = 1 / 2 ^ 54" by (simp add: power_int_minus)
  finally show ?thesis .
qed simp

section \<open>Ratios of counts\<close>

lemma ratio_exact: "a < 2 ^ 53 \<Longrightarrow> b < 2 ^ 53 \<Longrightarrow> ratio a b = fl (of_nat a / of_nat b)"
  by (simp add: ratio_def f64_div_def f64_of_exact)

text \<open>
  A ratio of word counts compared with a decimal threshold \<open>p / q\<close> falls on the side the exact ratio
  does: counts below \<open>2 ^ 40\<close> and thresholds of at most three decimals are further apart than two
  rounding errors.
\<close>

lemma ratio_less_iff:
  assumes "a \<le> b" "0 < b" "b < 2 ^ 40" "p < q" "q \<le> 1000"
  shows "ratio a b < fl (of_nat p / of_nat q) \<longleftrightarrow> a * q < p * b"
proof -
  have lim: "a < 2 ^ 53" "b < 2 ^ 53" using assms by simp_all
  let ?r = "rat_of_nat a / rat_of_nat b" and ?t = "rat_of_nat p / rat_of_nat q"
  have q: "0 < q" using assms by simp
  have cmp: "?r < ?t \<longleftrightarrow> a * q < p * b"
    using assms q by (simp add: divide_less_eq less_divide_eq field_simps flip: of_nat_mult)
  show ?thesis
  proof (cases "?r < ?t")
    case False
    then have "fl ?t \<le> fl ?r" by (intro fl_mono) simp
    then show ?thesis using False cmp by (simp add: ratio_exact [OF lim])
  next
    case True
    have "?t < 1" using assms q by (simp add: divide_less_eq)
    then have r1: "?r < 1" "?t < 1" using True by linarith+
    have "a * q + 1 \<le> p * b" using cmp True by simp
    then have "rat_of_nat (a * q + 1) \<le> rat_of_nat (p * b)" by (simp only: of_nat_le_iff)
    then have num: "1 \<le> rat_of_nat p * rat_of_nat b - rat_of_nat a * rat_of_nat q" by simp
    have "rat_of_nat b * rat_of_nat q < 2 ^ 40 * 1000"
      using assms(3,5) q assms(2) by (intro mult_less_le_imp_less) (simp_all flip: of_nat_power)
    then have small: "rat_of_nat b * rat_of_nat q < 2 ^ 52" by simp
    have "?t - ?r = (rat_of_nat p * rat_of_nat b - rat_of_nat a * rat_of_nat q) / (rat_of_nat b * rat_of_nat q)"
      using assms(2) q by (simp add: field_simps)
    also have "\<dots> \<ge> 1 / (rat_of_nat b * rat_of_nat q)"
      using num assms(2) q by (intro divide_right_mono) simp_all
    finally have gap: "1 / (rat_of_nat b * rat_of_nat q) \<le> ?t - ?r" .
    have "1 / 2 ^ 52 < 1 / (rat_of_nat b * rat_of_nat q)"
      using small assms(2) q by (intro divide_strict_left_mono) simp_all
    then have "1 / 2 ^ 52 < ?t - ?r" using gap by linarith
    moreover have "\<bar>fl ?r - ?r\<bar> \<le> 1 / 2 ^ 54" "\<bar>fl ?t - ?t\<bar> \<le> 1 / 2 ^ 54"
      by (rule fl_error [OF _ r1(1)], simp) (rule fl_error [OF _ r1(2)], simp)
    moreover have "1 / 2 ^ 52 = 4 * (1 / 2 ^ 54 :: rat)" "0 < (1 / 2 ^ 54 :: rat)" by simp_all
    ultimately have "fl ?r < fl ?t" unfolding abs_le_iff by linarith
    then show ?thesis using True cmp by (simp add: ratio_exact [OF lim])
  qed
qed

section \<open>Rounding in integers\<close>

text \<open>The same rounding on numerator and denominator, which is how it is evaluated.\<close>

definition round_div :: "int \<Rightarrow> int \<Rightarrow> int" where
  "round_div n d =
     (let q = n div d; r = n mod d
      in if 2 * r < d then q else if d < 2 * r then q + 1 else if even q then q else q + 1)"

lemma round_even_div: "0 < d \<Longrightarrow> round_even (of_int n / of_int d) = round_div n d"
proof -
  assume d: "0 < d"
  have "rat_of_int n = of_int (n div d) * of_int d + of_int (n mod d)"
    by (metis div_mult_mod_eq of_int_add of_int_mult)
  then have r: "rat_of_int n / of_int d - of_int (n div d) = of_int (n mod d) / of_int d" using d by (simp add: field_simps)
  have "(rat_of_int (n mod d) / of_int d < 1 / 2) = (2 * (n mod d) < d)"
    using d of_int_less_iff [of "2 * (n mod d)" d, where 'a = rat] by (simp add: field_simps)
  moreover have "(1 / 2 < rat_of_int (n mod d) / of_int d) = (d < 2 * (n mod d))"
    using d of_int_less_iff [of d "2 * (n mod d)", where 'a = rat] by (simp add: field_simps)
  ultimately show ?thesis
    by (simp only: round_even_def round_div_def Let_def floor_divide_of_int_eq r)
qed

definition shift_le :: "int \<Rightarrow> int \<Rightarrow> int \<Rightarrow> bool" where
  "shift_le k a b = (if 0 \<le> k then b * 2 ^ nat k \<le> a else b \<le> a * 2 ^ nat (- k))"

lemma powi_le_iff:
  assumes "0 < b"
  shows "2 powi k \<le> rat_of_int a / of_int b \<longleftrightarrow> shift_le k a b"
proof (cases "0 \<le> k")
  case True
  then have "2 powi k \<le> rat_of_int a / of_int b \<longleftrightarrow> rat_of_int (b * 2 ^ nat k) \<le> of_int a"
    using assms by (simp add: power_int_def pos_le_divide_eq mult.commute)
  then show ?thesis using True by (simp only: of_int_le_iff shift_le_def if_True)
next
  case False
  then have "2 powi k \<le> rat_of_int a / of_int b \<longleftrightarrow> rat_of_int b \<le> of_int (a * 2 ^ nat (- k))"
    using assms by (simp add: power_int_def field_simps)
  then show ?thesis using False by (simp only: of_int_le_iff shift_le_def if_False)
qed

definition fl_pos_div :: "int \<Rightarrow> int \<Rightarrow> rat" where
  "fl_pos_div a b =
     (let k = int (ilog2 a) - int (ilog2 b); e = (if shift_le k a b then k else k - 1) - 52
      in if 0 \<le> e then of_int (round_div a (b * 2 ^ nat e) * 2 ^ nat e)
         else of_int (round_div (a * 2 ^ nat (- e)) b) / of_int (2 ^ nat (- e)))"

lemma fl_pos_div:
  assumes "quotient_of x = (a, b)" "0 < a"
  shows "fl x = fl_pos_div a b"
proof -
  have b: "0 < b" and x: "x = of_int a / of_int b"
    using quotient_of_denom_pos [OF assms(1)] quotient_of_div [OF assms(1)] by auto
  have pos: "0 < x" using assms(2) b x by simp
  define e where "e = exponent x - 52"
  have e: "e = (if shift_le (int (ilog2 a) - int (ilog2 b)) a b then int (ilog2 a) - int (ilog2 b)
      else int (ilog2 a) - int (ilog2 b) - 1) - 52"
    using powi_le_iff [OF b, of "int (ilog2 a) - int (ilog2 b)" a, folded x]
    by (simp add: e_def exponent_def assms(1) Let_def)
  have g: "fl_pos_div a b = (if 0 \<le> e then of_int (round_div a (b * 2 ^ nat e) * 2 ^ nat e)
      else of_int (round_div (a * 2 ^ nat (- e)) b) / of_int (2 ^ nat (- e)))"
    by (simp only: fl_pos_div_def Let_def e [symmetric])
  have f: "fl x = of_int (round_even (x / 2 powi e)) * 2 powi e" using pos by (simp add: fl_def Let_def e_def)
  show ?thesis
  proof (cases "0 \<le> e")
    case True
    have "x / 2 powi e = of_int a / of_int (b * 2 ^ nat e)" using True by (simp add: x power_int_def)
    moreover have "0 < b * 2 ^ nat e" using b by simp
    ultimately have "round_even (x / 2 powi e) = round_div a (b * 2 ^ nat e)" by (simp only: round_even_div)
    then show ?thesis using True f by (simp add: g power_int_def)
  next
    case False
    have "x / 2 powi e = of_int (a * 2 ^ nat (- e)) / of_int b" using False by (simp add: x power_int_def field_simps)
    then have "round_even (x / 2 powi e) = round_div (a * 2 ^ nat (- e)) b" using b by (simp only: round_even_div)
    then show ?thesis using False f by (simp add: g power_int_def field_simps)
  qed
qed

lemma fl_code [code]:
  "fl x = (case quotient_of x of (a, b) \<Rightarrow> if a = 0 then 0 else if 0 < a then fl_pos_div a b else - fl_pos_div (- a) b)"
proof -
  obtain a b where q: "quotient_of x = (a, b)" by force
  have b: "0 < b" and x: "x = of_int a / of_int b"
    using quotient_of_denom_pos [OF q] quotient_of_div [OF q] by auto
  have "quotient_of (- x) = (- a, b)" by (simp add: rat_uminus_code q)
  then show ?thesis
    using q x fl_minus [of "- x"] fl_pos_div [of x a b] fl_pos_div [of "- x" "- a" b] by (auto simp: q)
qed

end
