(* ===== verification/Words.thy ===== *)
theory Words
  imports Unicode_Text Edit_Distance Float64 "HOL-Library.Product_Lexorder" "HOL-Library.Code_Target_Nat"
begin

text \<open>
  The word level of \<open>crates/voisu-core/src/lib.rs\<close>: how a text is reduced to normalized words, which
  words carry content, when two words sound alike, and the measurements the source comparison takes
  of a word list (density, degeneracy, repetition, cohesion).

  A \<open>HashSet\<close> of words is a list without duplicates; the theorems show that its order is not seen. A
  \<open>HashMap\<close> from words to counts is \<open>count_list\<close> of the list it was filled from, or a partial
  function where the code consumes it.
\<close>

section \<open>Normalized words\<close>

definition CONTRACTIONS :: "(utext \<times> utext list) list" where
  "CONTRACTIONS = map (map_prod lit (map lit))
    [(''aren't'', [''are'', ''not'']), (''can't'', [''can'', ''not'']), (''couldn't'', [''could'', ''not'']),
     (''didn't'', [''did'', ''not'']), (''doesn't'', [''does'', ''not'']), (''don't'', [''do'', ''not'']),
     (''hadn't'', [''had'', ''not'']), (''hasn't'', [''has'', ''not'']), (''haven't'', [''have'', ''not'']),
     (''needn't'', [''need'', ''not'']), (''isn't'', [''is'', ''not'']), (''let's'', [''let'', ''us'']),
     (''mustn't'', [''must'', ''not'']), (''shan't'', [''shall'', ''not'']), (''shouldn't'', [''should'', ''not'']),
     (''they're'', [''they'', ''are'']), (''wasn't'', [''was'', ''not'']), (''we're'', [''we'', ''are'']),
     (''weren't'', [''were'', ''not'']), (''won't'', [''will'', ''not'']), (''wouldn't'', [''would'', ''not'']),
     (''you're'', [''you'', ''are'']), (''i'm'', [''i'', ''am'']), (''he's'', [''he'', ''is'']),
     (''she's'', [''she'', ''is'']), (''it's'', [''it'', ''is'']), (''that's'', [''that'', ''is'']),
     (''there's'', [''there'', ''is'']), (''here's'', [''here'', ''is'']), (''what's'', [''what'', ''is'']),
     (''where's'', [''where'', ''is'']), (''who's'', [''who'', ''is'']), (''how's'', [''how'', ''is'']),
     (''i've'', [''i'', ''have'']), (''we've'', [''we'', ''have'']), (''they've'', [''they'', ''have'']),
     (''you've'', [''you'', ''have'']), (''i'll'', [''i'', ''will'']), (''we'll'', [''we'', ''will'']),
     (''they'll'', [''they'', ''will'']), (''you'll'', [''you'', ''will'']), (''i'd'', [''i'', ''would'']),
     (''he'd'', [''he'', ''would'']), (''she'd'', [''she'', ''would'']), (''we'd'', [''we'', ''would'']),
     (''they'd'', [''they'', ''would'']), (''you'd'', [''you'', ''would''])]"

lemmas CONTRACTIONS_code [code] =
  CONTRACTIONS_def [simplified list.map map_prod_simp, simplified lit_def list.map of_char_Char, simplified]

text \<open>The character filter of \<open>normalize_token\<close>: letters, digits and apostrophes, the curly one folded.\<close>

definition token_char :: "unicode \<Rightarrow> nat \<Rightarrow> nat option" where
  "token_char u c =
     (if c = 0x2019 then Some 39 else if is_alphanumeric u c \<or> c = 39 then Some c else None)"

definition folded_token :: "unicode \<Rightarrow> utext \<Rightarrow> utext" where
  "folded_token u w = concat (map (u_to_lower u) (List.map_filter (token_char u) w))"

definition normalize_token :: "unicode \<Rightarrow> utext \<Rightarrow> utext list" where
  "normalize_token u w =
     (let word = folded_token u w
      in case map_of CONTRACTIONS word of
           Some expansion \<Rightarrow> expansion
         | None \<Rightarrow> [filter (\<lambda>c. c \<noteq> 39) word])"

definition normalized_words :: "unicode \<Rightarrow> utext \<Rightarrow> utext list" where
  "normalized_words u t = filter (\<lambda>w. w \<noteq> []) (concat (map (normalize_token u) (split_whitespace t)))"

section \<open>Content words\<close>

definition STOPWORDS :: "utext list" where
  "STOPWORDS = map lit
     [''a'', ''an'', ''and'', ''or'', ''but'', ''of'', ''to'', ''in'', ''on'', ''at'', ''for'', ''with'', ''is'', ''are'', ''was'',
     ''were'', ''be'', ''been'', ''being'', ''am'', ''the'', ''this'', ''that'', ''these'', ''those'', ''it'', ''its'',
     ''as'', ''by'', ''from'', ''into'', ''onto'', ''over'', ''under'', ''out'', ''up'', ''down'', ''off'', ''so'', ''then'',
     ''than'', ''we'', ''you'', ''i'', ''he'', ''she'', ''they'', ''them'', ''our'', ''your'', ''my'', ''me'', ''his'', ''her'',
     ''their'', ''do'', ''does'', ''did'', ''not'', ''no'', ''yes'', ''if'', ''when'', ''while'', ''about'', ''before'',
     ''after'', ''near'', ''would'', ''could'', ''should'', ''will'', ''can'', ''um'', ''uh'', ''uhh'', ''yeah'', ''like'',
     ''just'', ''kind'', ''sort'', ''mean'', ''know'', ''well'', ''okay'', ''ok'', ''there'', ''here'', ''gonna'',
     ''wanna'', ''sorta'', ''kinda'', ''really'', ''actually'']"

lemmas STOPWORDS_code [code] = STOPWORDS_def [simplified lit_def list.map of_char_Char, simplified]

definition is_stopword :: "utext \<Rightarrow> bool" where
  "is_stopword w \<longleftrightarrow> w \<in> set STOPWORDS"

definition FILLERS :: "utext list" where
  "FILLERS = map lit [''um'', ''uh'', ''uhh'', ''erm'', ''hmm'']"

lemmas FILLERS_code [code] = FILLERS_def [simplified lit_def list.map of_char_Char, simplified]

definition is_known_filler :: "utext \<Rightarrow> bool" where
  "is_known_filler w \<longleftrightarrow> w \<in> set FILLERS"

definition content_words :: "utext list \<Rightarrow> utext list" where
  "content_words ws = filter (\<lambda>w. \<not> is_stopword w) ws"

definition distinct_content_words :: "utext list \<Rightarrow> utext list" where
  "distinct_content_words ws = remdups (content_words ws)"

section \<open>Words that sound alike\<close>

definition char_edit_distance :: "utext \<Rightarrow> utext \<Rightarrow> nat" where
  "char_edit_distance l r = edit_distance l r"

definition word_edit_distance :: "utext list \<Rightarrow> utext list \<Rightarrow> nat" where
  "word_edit_distance l r = edit_distance l r"

definition div_ceil :: "nat \<Rightarrow> nat \<Rightarrow> nat" where
  "div_ceil a b = a div b + (if a mod b > 0 then 1 else 0)"

definition words_sound_alike :: "utext \<Rightarrow> utext \<Rightarrow> bool" where
  "words_sound_alike l r =
     (let longer = max (length l) (length r)
      in if longer = 0 then False
         else if longer \<le> 3 then l = r
         else char_edit_distance l r \<le> div_ceil longer 3)"

text \<open>The greedy one-to-one matching over the candidate pairs, closest first.\<close>

type_synonym candidate = "nat \<times> utext \<times> utext"

definition candidates :: "utext list \<Rightarrow> utext list \<Rightarrow> candidate list" where
  "candidates left right =
     concat (map (\<lambda>l. map (\<lambda>r. (char_edit_distance l r, l, r)) (filter (words_sound_alike l) right)) left)"

definition candidate_key :: "candidate \<Rightarrow> nat \<times> utext \<times> utext" where
  "candidate_key c = (case c of (d, l, r) \<Rightarrow> (d, min l r, max l r))"

fun match_greedy :: "utext list \<Rightarrow> utext list \<Rightarrow> candidate list \<Rightarrow> (utext \<times> utext) list" where
  "match_greedy left_used right_used [] = []"
| "match_greedy left_used right_used ((d, l, r) # cs) =
     (if l \<notin> set left_used \<and> r \<notin> set right_used
      then (l, r) # match_greedy (l # left_used) (r # right_used) cs
      else match_greedy left_used right_used cs)"

definition phonetic_matching :: "utext list \<Rightarrow> utext list \<Rightarrow> (utext \<times> utext) list" where
  "phonetic_matching left right = match_greedy [] [] (sort_key candidate_key (candidates left right))"

section \<open>Measurements of a word list\<close>

definition CONTENT_REPETITION_FLOOR :: f64 where "CONTENT_REPETITION_FLOOR = fl (4 / 10)"
definition MIN_REPETITION_CONTENT :: nat where "MIN_REPETITION_CONTENT = 8"
definition MIN_LOOP_VOCABULARY :: nat where "MIN_LOOP_VOCABULARY = 4"
definition CONTENT_OVERLAP_FLOOR :: f64 where "CONTENT_OVERLAP_FLOOR = fl (2 / 10)"
definition MIN_COMPARABLE_CONTENT :: nat where "MIN_COMPARABLE_CONTENT = 5"
definition CONFIRMATION_MARGIN :: f64 where "CONFIRMATION_MARGIN = fl (15 / 100)"

fun adjacent_repeats :: "utext list \<Rightarrow> nat" where
  "adjacent_repeats (x # y # ws) = (if x = y then 1 else 0) + adjacent_repeats (y # ws)"
| "adjacent_repeats _ = 0"

definition source_quality :: "utext list \<Rightarrow> f64" where
  "source_quality ws =
     (let total = length ws
      in if total = 0 then 0
         else let content_fraction = ratio (length (content_words ws)) total;
                  richness = min (f64_div (f64_of (length (distinct_content_words ws))) 8) 1;
                  duplication = ratio (adjacent_repeats ws) total
              in f64_mul (f64_add (f64_mul (fl (6 / 10)) content_fraction) (f64_mul (fl (4 / 10)) richness))
                   (f64_sub 1 duplication))"

definition is_degenerate :: "utext list \<Rightarrow> bool" where
  "is_degenerate ws =
     (let total = length ws
      in if total < 6 then False
         else ratio (length (content_words ws)) total < fl (1 / 4) \<or> length (distinct_content_words ws) < 3)"

definition is_repetition_loop :: "utext list \<Rightarrow> bool" where
  "is_repetition_loop ws =
     (let content_count = length (content_words ws); distinct_content = length (distinct_content_words ws)
      in MIN_REPETITION_CONTENT \<le> content_count \<and> MIN_LOOP_VOCABULARY \<le> distinct_content
         \<and> f64_of distinct_content < f64_mul CONTENT_REPETITION_FLOOR (f64_of content_count))"

text \<open>The words the other side's budget does not cover, in order, and what is left of the budget.\<close>

type_synonym budget = "utext \<Rightarrow> nat option"

definition word_budget :: "utext list \<Rightarrow> budget" where
  "word_budget ws w = (if w \<in> set ws then Some (count_list ws w) else None)"

fun surplus_words :: "budget \<Rightarrow> utext list \<Rightarrow> utext list" where
  "surplus_words b [] = []"
| "surplus_words b (w # ws) =
     (case b w of
        Some remaining \<Rightarrow>
          (if 0 < remaining then surplus_words (b(w \<mapsto> remaining - 1)) ws else w # surplus_words b ws)
      | None \<Rightarrow> w # surplus_words b ws)"

definition surplus_is_self_repetition :: "utext list \<Rightarrow> utext list \<Rightarrow> bool" where
  "surplus_is_self_repetition candidate other =
     (let content = content_words (surplus_words (word_budget other) candidate); unique = remdups content
      in if length content < MIN_REPETITION_CONTENT then False
         else if list_ex (\<lambda>w. w \<notin> set other) unique then False
         else f64_of (length unique) < f64_mul CONTENT_REPETITION_FLOOR (f64_of (length content)))"

definition repetition_discount_of :: "utext list \<Rightarrow> utext list \<Rightarrow> nat" where
  "repetition_discount_of candidate other =
     (let fillers = filter is_known_filler candidate;
          filler_discount = sum_list (map (\<lambda>w. count_list fillers w - 2) (remdups fillers))
      in if surplus_is_self_repetition candidate other
         then max filler_discount (length (surplus_words (word_budget other) candidate))
         else filler_discount)"

definition is_garbage_against :: "utext list \<Rightarrow> utext list \<Rightarrow> bool" where
  "is_garbage_against own confirmed =
     (if is_degenerate own then True
      else if \<not> is_repetition_loop own then False
      else let content = content_words own;
               recycled = filter (\<lambda>w. 2 \<le> count_list content w) (remdups content);
               confirmed_recycled = length (filter (\<lambda>w. w \<in> set confirmed) recycled);
               stolen = length recycled < confirmed_recycled * 2;
               distinct_content = length (distinct_content_words own);
               hollow = MIN_COMPARABLE_CONTENT \<le> distinct_content
                 \<and> f64_of (length confirmed) < f64_mul CONTENT_OVERLAP_FLOOR (f64_of distinct_content)
           in stolen \<or> hollow)"

text \<open>The positions of a word, and whether two consecutive ones are apart.\<close>

definition positions :: "utext list \<Rightarrow> utext \<Rightarrow> nat list" where
  "positions ws w = map fst (filter (\<lambda>p. snd p = w) (enumerate 0 ws))"

fun has_gap :: "nat list \<Rightarrow> bool" where
  "has_gap (a # b # ps) \<longleftrightarrow> 1 < b - a \<or> has_gap (b # ps)"
| "has_gap _ \<longleftrightarrow> False"

definition topical_cohesion :: "utext list \<Rightarrow> nat" where
  "topical_cohesion ws = length (filter (\<lambda>w. has_gap (positions ws w)) (distinct_content_words ws))"

section \<open>White space at the ends does not matter\<close>

lemma split_on_nonempty: "split_on P t \<noteq> []"
  by (induction t) (auto split: list.splits)

lemma split_on_snoc: "P c \<Longrightarrow> split_on P (t @ [c]) = split_on P t @ [[]]"
  by (induction t) (auto simp: split_on_nonempty split: list.splits)

lemma split_whitespace_trim_start: "split_whitespace (utrim_start t) = split_whitespace t"
  by (induction t) (auto simp: split_whitespace_def trim_start_matches_def)

lemma split_whitespace_trim_end: "split_whitespace (utrim_end t) = split_whitespace t"
  by (induction t rule: rev_induct) (auto simp: split_whitespace_def trim_end_matches_snoc split_on_snoc)

lemma split_whitespace_utrim [simp]: "split_whitespace (utrim t) = split_whitespace t"
  by (simp add: utrim_def split_whitespace_trim_start split_whitespace_trim_end)

lemma normalized_words_utrim [simp]: "normalized_words u (utrim t) = normalized_words u t"
  by (simp add: normalized_words_def)

lemma normalized_words_nonempty: "w \<in> set (normalized_words u t) \<Longrightarrow> w \<noteq> []"
  by (simp add: normalized_words_def)

section \<open>The edit distances are minimal\<close>

text \<open>
  Claim C38. Both edit-distance routines return the least number of single-element insertions,
  deletions and replacements that turn the left sequence into the right one.
\<close>
theorem edit_distances_minimal:
  "char_edit_distance a b = (LEAST n. edits n a b) \<and> word_edit_distance ws vs = (LEAST n. edits n ws vs)"
  by (auto simp: char_edit_distance_def word_edit_distance_def edit_distance_lev
      intro!: Least_equality [symmetric] lev_edits lev_least)

lemma char_edit_distance_sym: "char_edit_distance l r = char_edit_distance r l"
  by (simp add: char_edit_distance_def edit_distance_lev lev_sym)

lemma char_edit_distance_0 [simp]: "char_edit_distance l r = 0 \<longleftrightarrow> l = r"
  by (simp add: char_edit_distance_def edit_distance_lev lev_eq_0_iff)

lemma char_edit_distance_pos [simp]: "0 < char_edit_distance l r \<longleftrightarrow> l \<noteq> r"
  using char_edit_distance_0 [of l r] by (metis gr0I less_irrefl)

lemma words_sound_alike_sym: "words_sound_alike l r = words_sound_alike r l"
  by (auto simp: words_sound_alike_def max.commute char_edit_distance_sym [of l])

lemma words_sound_alike_refl: "words_sound_alike w w \<longleftrightarrow> w \<noteq> []"
  by (auto simp: words_sound_alike_def char_edit_distance_def edit_distance_lev)

lemma words_sound_alike_nonempty:
  assumes "words_sound_alike l r" shows "l \<noteq> []" "r \<noteq> []"
proof -
  have "\<not> words_sound_alike [] w" for w
    by (auto simp: words_sound_alike_def char_edit_distance_def edit_distance_lev div_ceil_def Let_def split: if_splits)
  then show "l \<noteq> []" "r \<noteq> []" using assms words_sound_alike_sym by blast+
qed

section \<open>The phonetic matching\<close>

lemma set_candidates:
  "set (candidates left right) =
    {(char_edit_distance l r, l, r) |l r. l \<in> set left \<and> r \<in> set right \<and> words_sound_alike l r}"
  by (auto simp: candidates_def)

lemma distinct_candidates:
  "distinct left \<Longrightarrow> distinct right \<Longrightarrow> distinct (candidates left right)"
  by (induction left) (auto simp: candidates_def distinct_map inj_on_def)

text \<open>What the greedy pass takes: fresh candidates, one to one, and as many as possible.\<close>

lemma match_greedy_sound:
  "(l, r) \<in> set (match_greedy lu ru cs) \<Longrightarrow> l \<notin> set lu \<and> r \<notin> set ru \<and> (\<exists>d. (d, l, r) \<in> set cs)"
  by (induction lu ru cs rule: match_greedy.induct) (auto split: if_splits)

lemma match_greedy_distinct:
  "distinct (map fst (match_greedy lu ru cs)) \<and> distinct (map snd (match_greedy lu ru cs))"
  by (induction lu ru cs rule: match_greedy.induct) (auto dest: match_greedy_sound)

lemma match_greedy_maximal:
  "(d, l, r) \<in> set cs \<Longrightarrow>
     l \<in> set lu \<union> fst ` set (match_greedy lu ru cs) \<or> r \<in> set ru \<union> snd ` set (match_greedy lu ru cs)"
  by (induction lu ru cs rule: match_greedy.induct) (auto split: if_splits)

text \<open>Candidates whose words are already used can be dropped beforehand.\<close>

lemma match_greedy_filter:
  "A \<subseteq> set lu \<Longrightarrow> B \<subseteq> set ru \<Longrightarrow>
     match_greedy lu ru (filter (\<lambda>(d, l, r). l \<notin> A \<and> r \<notin> B) cs) = match_greedy lu ru cs"
  by (induction lu ru cs rule: match_greedy.induct) (auto 4 3)

lemma match_greedy_swap:
  "match_greedy ru lu (map (\<lambda>(d, l, r). (d, r, l)) cs) = map prod.swap (match_greedy lu ru cs)"
  by (induction lu ru cs rule: match_greedy.induct) auto

lemma match_greedy_cong:
  "set lu = set lu' \<Longrightarrow> set ru = set ru' \<Longrightarrow> match_greedy lu ru cs = match_greedy lu' ru' cs"
  by (induction lu ru cs arbitrary: lu' ru' rule: match_greedy.induct) auto

text \<open>Identical words are at distance zero and come first: all of them are matched.\<close>

definition common_words :: "utext list \<Rightarrow> utext list \<Rightarrow> utext list" where
  "common_words left right = sort (filter (\<lambda>w. w \<in> set right \<and> w \<noteq> []) left)"

definition close_candidates :: "utext list \<Rightarrow> utext list \<Rightarrow> candidate list" where
  "close_candidates left right =
     sort_key candidate_key
       (filter (\<lambda>(d, l, r). l \<notin> set (common_words left right) \<and> r \<notin> set (common_words left right)) (candidates left right))"

lemma set_common_words: "set (common_words left right) = {w \<in> set left. w \<in> set right \<and> w \<noteq> []}"
  by (auto simp: common_words_def)

lemma match_greedy_identical:
  "distinct ws \<Longrightarrow> set ws \<inter> set lu = {} \<Longrightarrow> set lu = set ru \<Longrightarrow>
     match_greedy lu ru (map (\<lambda>w. (0, w, w)) ws @ cs) = map (\<lambda>w. (w, w)) ws @ match_greedy (rev ws @ lu) (rev ws @ ru) cs"
  by (induction ws arbitrary: lu ru) auto

lemma sorted_split:
  fixes f :: "'a \<Rightarrow> nat \<times> 'b::linorder"
  assumes "sorted (map f xs)"
  shows "xs = filter (\<lambda>x. fst (f x) = 0) xs @ filter (\<lambda>x. fst (f x) \<noteq> 0) xs"
  using assms
proof (induction xs)
  case (Cons x xs)
  then have IH: "xs = filter (\<lambda>x. fst (f x) = 0) xs @ filter (\<lambda>x. fst (f x) \<noteq> 0) xs" by simp
  show ?case
  proof (cases "fst (f x) = 0")
    case True
    then show ?thesis using IH by simp
  next
    case False
    then have "fst (f y) \<noteq> 0" if "y \<in> set xs" for y
      using that Cons.prems by (force simp: less_eq_prod_def)
    then have "filter (\<lambda>x. fst (f x) = 0) xs = []" "filter (\<lambda>x. fst (f x) \<noteq> 0) xs = xs"
      by (auto simp: filter_empty_conv)
    then show ?thesis using False by simp
  qed
qed simp

lemma fst_candidate_key [simp]: "fst (candidate_key c) = fst c"
  by (auto simp: candidate_key_def split: prod.splits)

lemma filter_sort_key: "filter P (sort_key f xs) = sort_key f (filter P xs)"
  by (simp add: filter_sort)

lemma zero_candidates:
  assumes "distinct left" "distinct right"
  shows "filter (\<lambda>c. fst c = 0) (sort_key candidate_key (candidates left right))
    = map (\<lambda>w. (0, w, w)) (common_words left right)" (is "?zs = ?ws")
proof (rule map_sorted_distinct_set_unique [where f = candidate_key])
  have zs: "set ?zs = {(0, w, w) |w. w \<in> set left \<and> w \<in> set right \<and> w \<noteq> []}"
    by (auto simp: set_candidates words_sound_alike_refl)
  also have "\<dots> = set ?ws" by (auto simp: set_common_words)
  finally show eq: "set ?zs = set ?ws" .
  have inj: "inj_on candidate_key (set ?ws)" by (auto simp: inj_on_def candidate_key_def)
  then show "inj_on candidate_key (set ?zs \<union> set ?ws)" by (simp only: eq Un_absorb)
  have "sorted (map candidate_key (sort_key candidate_key (candidates left right)))" by simp
  then show "sorted (map candidate_key ?zs)" by (rule sorted_filter)
  have "inj_on candidate_key (set ?zs)" using inj by (simp only: eq)
  then show "distinct (map candidate_key ?zs)"
    using distinct_candidates [OF assms] by (simp only: distinct_map distinct_filter distinct_sort simp_thms)
  have "sorted (common_words left right)" by (simp add: common_words_def)
  then show "sorted (map candidate_key ?ws)"
    by (simp add: candidate_key_def sorted_map sorted_wrt_map less_eq_prod_def sorted_wrt_iff_nth_less o_def)
  show "distinct (map candidate_key ?ws)"
    using assms inj by (simp add: distinct_map inj_on_def common_words_def)
qed

lemma phonetic_matching_phases:
  assumes "distinct left" "distinct right"
  shows "phonetic_matching left right =
    map (\<lambda>w. (w, w)) (common_words left right) @
    match_greedy (common_words left right) (common_words left right) (close_candidates left right)"
proof -
  let ?S = "sort_key candidate_key (candidates left right)" and ?ws = "common_words left right"
  have "?S = filter (\<lambda>c. fst c = 0) ?S @ filter (\<lambda>c. fst c \<noteq> 0) ?S"
    using sorted_split [of candidate_key ?S] by simp
  then have S: "?S = map (\<lambda>w. (0, w, w)) ?ws @ filter (\<lambda>c. fst c \<noteq> 0) ?S"
    by (simp only: zero_candidates [OF assms])
  have d: "distinct ?ws" using assms by (simp add: common_words_def)
  have drop: "filter (\<lambda>(d, l, r). l \<notin> set ?ws \<and> r \<notin> set ?ws) (filter (\<lambda>c. fst c \<noteq> 0) ?S) = close_candidates left right"
    unfolding close_candidates_def filter_sort_key filter_filter
    by (intro arg_cong [where f = "sort_key candidate_key"] filter_cong refl)
       (auto simp: set_candidates set_common_words dest: words_sound_alike_nonempty)
  have "phonetic_matching left right = map (\<lambda>w. (w, w)) ?ws @ match_greedy (rev ?ws) (rev ?ws) (filter (\<lambda>c. fst c \<noteq> 0) ?S)"
    unfolding phonetic_matching_def using match_greedy_identical [OF d, of "[]" "[]"] by (subst S) simp
  also have "match_greedy (rev ?ws) (rev ?ws) (filter (\<lambda>c. fst c \<noteq> 0) ?S) = match_greedy ?ws ?ws (close_candidates left right)"
    using match_greedy_filter [of "set ?ws" ?ws "set ?ws" ?ws "filter (\<lambda>c. fst c \<noteq> 0) ?S"]
    unfolding drop by (simp only: match_greedy_cong [of "rev ?ws" ?ws "rev ?ws" ?ws] set_rev refl)
  finally show ?thesis .
qed

text \<open>Without the words both sides share, no two candidates have the same key.\<close>

lemma set_close_candidates:
  "set (close_candidates left right) =
    {(char_edit_distance l r, l, r) |l r.
       l \<in> set left \<and> l \<notin> set right \<and> r \<in> set right \<and> r \<notin> set left \<and> words_sound_alike l r}"
  by (auto simp: close_candidates_def set_candidates set_common_words dest: words_sound_alike_nonempty)

lemma close_candidates_key: "inj_on candidate_key (set (close_candidates left right))"
  by (auto simp: inj_on_def set_close_candidates candidate_key_def min_def max_def split: if_splits)

lemma close_candidates_sorted:
  assumes "distinct left" "distinct right"
  shows "sorted (map candidate_key (close_candidates left right))"
    "distinct (map candidate_key (close_candidates left right))"
  using close_candidates_key [of left right] distinct_candidates [OF assms]
  by (simp_all add: distinct_map) (simp_all add: close_candidates_def)

lemma close_candidates_unique:
  assumes "distinct left" "distinct right" "distinct left'" "distinct right'"
    "set (close_candidates left' right') = set (close_candidates left right)"
  shows "close_candidates left' right' = close_candidates left right"
  using close_candidates_sorted [OF assms(1,2)] close_candidates_sorted [OF assms(3,4)]
    close_candidates_key [of left right]
  by (intro map_sorted_distinct_set_unique [where f = candidate_key]) (simp_all add: assms(5))

lemma common_words_unique:
  assumes "distinct left" "distinct left'" "set (common_words left' right') = set (common_words left right)"
  shows "common_words left' right' = common_words left right"
  using assms by (intro sorted_distinct_set_unique) (auto simp: common_words_def)

lemma close_candidates_swap:
  assumes "distinct left" "distinct right"
  shows "close_candidates right left = map (\<lambda>(d, l, r). (d, r, l)) (close_candidates left right)"
proof (rule map_sorted_distinct_set_unique [where f = candidate_key])
  let ?flip = "\<lambda>(d, l, r). (d, r, l) :: candidate"
  have key: "candidate_key \<circ> ?flip = candidate_key"
    by (auto simp: candidate_key_def fun_eq_iff min.commute max.commute)
  show eq: "set (close_candidates right left) = set (map ?flip (close_candidates left right))"
    by (force simp: set_close_candidates image_iff words_sound_alike_sym char_edit_distance_sym)
  show "inj_on candidate_key (set (close_candidates right left) \<union> set (map ?flip (close_candidates left right)))"
    using close_candidates_key [of right left] by (simp only: eq [symmetric] Un_absorb)
  show "sorted (map candidate_key (map ?flip (close_candidates left right)))"
    "distinct (map candidate_key (map ?flip (close_candidates left right)))"
    using close_candidates_sorted [OF assms] by (simp_all only: map_map key)
qed (use close_candidates_sorted [OF assms(2,1)] in auto)

lemma phonetic_matching_swap:
  assumes "distinct left" "distinct right"
  shows "phonetic_matching right left = map prod.swap (phonetic_matching left right)"
proof -
  have "common_words right left = common_words left right"
    using assms by (intro common_words_unique) (auto simp: set_common_words)
  then show ?thesis
    by (simp add: phonetic_matching_phases assms close_candidates_swap [OF assms] match_greedy_swap)
qed

text \<open>
  The phonetic matching is a function of the two vocabularies alone: enumerating the hash
  sets in any other order gives the same matching, although the sort is unstable and two candidates
  may share a key, and exchanging the two sources exchanges the components of every pair.
\<close>
theorem phonetic_matching_unbiased:
  assumes "distinct left" "distinct right" "distinct left'" "distinct right'"
    and "set left' = set left" "set right' = set right"
  shows "phonetic_matching left' right' = phonetic_matching left right
    \<and> phonetic_matching right left = map prod.swap (phonetic_matching left right)"
proof
  have "common_words left' right' = common_words left right"
    using assms by (intro common_words_unique) (simp_all add: set_common_words)
  moreover have "close_candidates left' right' = close_candidates left right"
    using assms by (intro close_candidates_unique) (simp_all add: set_close_candidates)
  ultimately show "phonetic_matching left' right' = phonetic_matching left right"
    using assms by (simp add: phonetic_matching_phases)
  show "phonetic_matching right left = map prod.swap (phonetic_matching left right)"
    by (rule phonetic_matching_swap [OF assms(1,2)])
qed

text \<open>
  The phonetic matching pairs every word at most once on either side, pairs only words of
  the two vocabularies that sound alike, matches every shared word with itself, and is maximal: of
  two words that sound alike at least one is matched.
\<close>
theorem phonetic_matching_one_to_one:
  assumes "distinct left" "distinct right"
  defines "m \<equiv> phonetic_matching left right"
  shows "distinct (map fst m) \<and> distinct (map snd m)
    \<and> (\<forall>(l, r)\<in>set m. l \<in> set left \<and> r \<in> set right \<and> words_sound_alike l r)
    \<and> (\<forall>w\<in>set left \<inter> set right. w \<noteq> [] \<longrightarrow> (w, w) \<in> set m)
    \<and> (\<forall>l\<in>set left. \<forall>r\<in>set right. words_sound_alike l r \<longrightarrow> l \<in> fst ` set m \<or> r \<in> snd ` set m)"
proof (intro conjI)
  show "distinct (map fst m)" "distinct (map snd m)"
    using match_greedy_distinct by (simp_all add: m_def phonetic_matching_def)
  show "\<forall>(l, r)\<in>set m. l \<in> set left \<and> r \<in> set right \<and> words_sound_alike l r"
    by (auto simp: m_def phonetic_matching_def set_candidates dest!: match_greedy_sound)
  show "\<forall>w\<in>set left \<inter> set right. w \<noteq> [] \<longrightarrow> (w, w) \<in> set m"
    using phonetic_matching_phases [OF assms(1,2)] by (auto simp: m_def set_common_words)
  show "\<forall>l\<in>set left. \<forall>r\<in>set right. words_sound_alike l r \<longrightarrow> l \<in> fst ` set m \<or> r \<in> snd ` set m"
  proof (intro ballI impI)
    fix l r assume "l \<in> set left" "r \<in> set right" "words_sound_alike l r"
    then have "(char_edit_distance l r, l, r) \<in> set (sort_key candidate_key (candidates left right))"
      by (simp add: set_candidates)
    from match_greedy_maximal [OF this, of "[]" "[]"] show "l \<in> fst ` set m \<or> r \<in> snd ` set m"
      by (simp add: m_def phonetic_matching_def)
  qed
qed

theorem phonetic_matching_unbiased_witness:
  "phonetic_matching [lit ''cash'', lit ''cache''] [lit ''cache''] = phonetic_matching [lit ''cache'', lit ''cash''] [lit ''cache'']
    \<and> phonetic_matching [lit ''cache''] [lit ''cache'', lit ''cash'']
        = map prod.swap (phonetic_matching [lit ''cache'', lit ''cash''] [lit ''cache''])"
  by (rule phonetic_matching_unbiased) (auto simp: lit_def)

theorem phonetic_matching_one_to_one_witness:
  "distinct (map fst (phonetic_matching [lit ''cache'', lit ''cash''] [lit ''cache'']))
    \<and> phonetic_matching [lit ''cache'', lit ''cash''] [lit ''cache''] = [(lit ''cache'', lit ''cache'')]"
proof
  show "distinct (map fst (phonetic_matching [lit ''cache'', lit ''cash''] [lit ''cache'']))"
    using phonetic_matching_one_to_one [of "[lit ''cache'', lit ''cash'']" "[lit ''cache'']"] by (simp add: lit_def)
  show "phonetic_matching [lit ''cache'', lit ''cash''] [lit ''cache''] = [(lit ''cache'', lit ''cache'')]" by code_simp
qed

end
