(* ===== verification/Outro.thy ===== *)
theory Outro
  imports Words Boundary
begin

text \<open>
  The outro sanitizer of \<open>crates/voisu-core/src/lib.rs\<close>: the closed list of phrases that speech
  recognisers append to silence, where such a phrase counts (at the start of the final sentence or at
  the end of the text), and the loop that removes one after another before any Source Transcript is
  looked at. Byte offsets of the source are character offsets here; both only cut the text between
  characters.
\<close>

section \<open>Sentences\<close>

definition HALLUCINATED_SUFFIXES :: "utext list" where
  "HALLUCINATED_SUFFIXES = map lit
     [''thank you for watching'', ''thanks for watching'', ''like and subscribe'', ''subtitles by'', ''transcribed by'']"

lemmas HALLUCINATED_SUFFIXES_code [code] = HALLUCINATED_SUFFIXES_def [simplified lit_def list.map of_char_Char, simplified]

definition is_terminator :: "nat \<Rightarrow> bool" where
  "is_terminator c \<longleftrightarrow> c \<in> {46, 63, 33}"

text \<open>A terminator ends a sentence when white space follows it.\<close>

definition ends_sentence :: "utext \<Rightarrow> nat \<Rightarrow> bool" where
  "ends_sentence body i \<longleftrightarrow> is_terminator (body ! i) \<and> i + 1 < length body \<and> is_whitespace (body ! (i + 1))"

definition final_sentence_boundary_start :: "utext \<Rightarrow> nat" where
  "final_sentence_boundary_start body =
     (case rev (filter (ends_sentence body) [0..<length body]) of i # _ \<Rightarrow> i + 1 | [] \<Rightarrow> 0)"

definition final_sentence_content_start :: "unicode \<Rightarrow> utext \<Rightarrow> nat" where
  "final_sentence_content_start u body =
     (let after_terminator = case rev (filter (ends_sentence body) [0..<length body]) of i # _ \<Rightarrow> i + 1 | [] \<Rightarrow> 0
      in case find (\<lambda>i. is_alphanumeric u (body ! i)) [after_terminator..<length body] of
           Some i \<Rightarrow> i
         | None \<Rightarrow> after_terminator)"

definition final_sentence :: "unicode \<Rightarrow> utext \<Rightarrow> utext" where
  "final_sentence u t =
     (let body = trim_end_matches (\<lambda>c. \<not> is_alphanumeric u c) t
      in trim_start_matches (\<lambda>c. \<not> is_alphanumeric u c) (drop (final_sentence_content_start u body) body))"

definition has_anchored_hallucinated_outro :: "unicode \<Rightarrow> utext \<Rightarrow> bool" where
  "has_anchored_hallucinated_outro u t =
     (let text = utrim t
      in if text = [] then False
         else let lower = to_lowercase u text;
                  tail = trim_end_matches (\<lambda>c. \<not> is_alphanumeric u c) lower;
                  outro = final_sentence u lower
              in list_ex (\<lambda>s. starts_with s outro \<or> ends_with s tail) HALLUCINATED_SUFFIXES)"

section \<open>Stripping\<close>

text \<open>The end of the last letter or digit.\<close>

definition alnum_end :: "unicode \<Rightarrow> utext \<Rightarrow> nat" where
  "alnum_end u t =
     (case find (\<lambda>i. is_alphanumeric u (t ! i)) (rev [0..<length t]) of Some i \<Rightarrow> i + 1 | None \<Rightarrow> 0)"

text \<open>The second anchor: the first listed phrase the body ends with, dropped by its character count.\<close>

fun strip_suffix :: "utext \<Rightarrow> utext \<Rightarrow> utext list \<Rightarrow> utext option" where
  "strip_suffix body body_lower [] = None"
| "strip_suffix body body_lower (s # ss) =
     (if \<not> ends_with s body_lower then strip_suffix body body_lower ss
      else if length body < length s then strip_suffix body body_lower ss
      else Some (utrim_end (take (length body - length s) body)))"

definition strip_one_anchored_hallucinated_outro :: "unicode \<Rightarrow> utext \<Rightarrow> utext option" where
  "strip_one_anchored_hallucinated_outro u t =
     (let text = utrim t
      in if text = [] then None
         else let body = take (alnum_end u text) text
              in if body = [] then None
                 else let final_content = drop (final_sentence_content_start u body) body;
                          final_lower = to_lowercase u final_content
                      in if list_ex (\<lambda>s. starts_with s final_lower) HALLUCINATED_SUFFIXES
                         then Some (utrim_end (take (final_sentence_boundary_start body) body))
                         else strip_suffix body (to_lowercase u body) HALLUCINATED_SUFFIXES)"

definition TRIVIAL_OUTRO_PREFIXES :: "utext list" where
  "TRIVIAL_OUTRO_PREFIXES = map lit
     [''please'', ''thanks'', ''thank'', ''hi'', ''hello'', ''hey'', ''bye'', ''alright'', ''oh'']"

lemmas TRIVIAL_OUTRO_PREFIXES_code [code] = TRIVIAL_OUTRO_PREFIXES_def [simplified lit_def list.map of_char_Char, simplified]

definition remainder_is_substantial_speech :: "unicode \<Rightarrow> utext \<Rightarrow> bool" where
  "remainder_is_substantial_speech u t =
     (let ws = normalized_words u t
      in if ws = [] then False
         else if list_ex (\<lambda>w. \<not> is_stopword w \<and> w \<notin> set TRIVIAL_OUTRO_PREFIXES) ws then True
         else 3 \<le> length ws)"

section \<open>Every strip shortens the text\<close>

lemma boundary_le_content: "final_sentence_boundary_start body \<le> final_sentence_content_start u body"
  by (auto simp: final_sentence_boundary_start_def final_sentence_content_start_def Let_def
      dest!: find_SomeD split: list.splits option.splits)

lemma suffixes_nonempty: "s \<in> set HALLUCINATED_SUFFIXES \<Longrightarrow> s \<noteq> []"
  by (auto simp: HALLUCINATED_SUFFIXES_def lit_def)

lemma strip_suffix_prefix:
  "strip_suffix body lower ss = Some t \<Longrightarrow> \<forall>s\<in>set ss. s \<noteq> [] \<Longrightarrow> body \<noteq> [] \<Longrightarrow>
     \<exists>n. n < length body \<and> t = utrim_end (take n body)"
proof (induction ss)
  case (Cons s ss)
  show ?case
  proof (cases "ends_with s lower \<and> length s \<le> length body")
    case True
    then show ?thesis using Cons.prems by (intro exI [of _ "length body - length s"]) auto
  next
    case False
    then show ?thesis using Cons by (simp split: if_splits)
  qed
qed simp

text \<open>What a strip leaves is a proper prefix of the body, without trailing white space.\<close>

lemma strip_one_cut:
  assumes "strip_one_anchored_hallucinated_outro u t = Some t'"
  shows "\<exists>n < length (utrim t). t' = utrim_end (take n (utrim t))"
proof -
  let ?text = "utrim t" and ?body = "take (alnum_end u (utrim t)) (utrim t)"
  have body: "?body \<noteq> []" "length ?body \<le> length ?text"
    using assms by (auto simp: strip_one_anchored_hallucinated_outro_def Let_def split: if_splits)
  have "\<exists>n < length ?body. t' = utrim_end (take n ?body)"
  proof (cases "list_ex (\<lambda>s. starts_with s (to_lowercase u (drop (final_sentence_content_start u ?body) ?body))) HALLUCINATED_SUFFIXES")
    case True
    then have "drop (final_sentence_content_start u ?body) ?body \<noteq> []"
      using suffixes_nonempty by (auto simp: list_ex_iff starts_with_def)
    then have "final_sentence_boundary_start ?body < length ?body"
      using boundary_le_content [of ?body u] by (simp only: drop_eq_Nil not_le)
    then show ?thesis using True assms
      by (auto simp: strip_one_anchored_hallucinated_outro_def Let_def split: if_splits)
  next
    case False
    then show ?thesis
      using assms body suffixes_nonempty strip_suffix_prefix [of ?body "to_lowercase u ?body" HALLUCINATED_SUFFIXES t']
      by (auto simp: strip_one_anchored_hallucinated_outro_def Let_def split: if_splits)
  qed
  then obtain n where "n < length ?body" "t' = utrim_end (take n ?body)" by blast
  then show ?thesis using body(2) by (intro exI [of _ n]) simp
qed

lemma strip_one_shorter:
  assumes "strip_one_anchored_hallucinated_outro u t = Some t'"
  shows "length t' < length t"
proof -
  obtain n where "n < length (utrim t)" "t' = utrim_end (take n (utrim t))" using strip_one_cut [OF assms] by blast
  then show ?thesis
    using utrim_length [of t] trim_end_matches_length [of is_whitespace "take n (utrim t)"] by simp
qed

section \<open>The sanitizer\<close>

text \<open>The \<open>while let\<close> loop, with the flag \<open>stripped_any\<close>.\<close>

function strip_outros :: "unicode \<Rightarrow> bool \<times> utext \<Rightarrow> bool \<times> utext" where
  "strip_outros u (stripped_any, current) =
     (case strip_one_anchored_hallucinated_outro u current of
        Some stripped \<Rightarrow> strip_outros u (True, stripped)
      | None \<Rightarrow> (stripped_any, current))"
  by pat_completeness auto
termination by (relation "measure (\<lambda>(u, _, current). length current)") (auto dest: strip_one_shorter)

declare strip_outros.simps [simp del]

definition sanitize_source_transcript_text :: "unicode \<Rightarrow> utext \<Rightarrow> utext" where
  "sanitize_source_transcript_text u t =
     (case strip_outros u (False, utrim t) of (stripped_any, current) \<Rightarrow>
        (if stripped_any \<and> \<not> remainder_is_substantial_speech u current then [] else current))"

definition sanitize_source_transcripts :: "unicode \<Rightarrow> source_transcript list \<Rightarrow> source_transcript list" where
  "sanitize_source_transcripts u ss =
     map (\<lambda>s. \<lparr>st_provider = st_provider s, st_text = sanitize_source_transcript_text u (st_text s)\<rparr>) ss"

section \<open>What sanitizing leaves\<close>

lemma strip_outros_no_outro:
  "strip_one_anchored_hallucinated_outro u (snd (strip_outros u (b, t))) = None"
  by (induction u "(b, t)" arbitrary: b t rule: strip_outros.induct)
     (simp add: strip_outros.simps split: option.splits)

lemma strip_outros_prefix:
  "utrimmed t \<Longrightarrow> utrimmed (snd (strip_outros u (b, t))) \<and> prefix (snd (strip_outros u (b, t))) t"
proof (induction u "(b, t)" arbitrary: b t rule: strip_outros.induct)
  case (1 u b t)
  show ?case
  proof (cases "strip_one_anchored_hallucinated_outro u t")
    case None
    then show ?thesis using 1 by (simp add: strip_outros.simps)
  next
    case (Some t')
    then obtain n where t': "t' = utrim_end (take n t)" using strip_one_cut [OF Some] utrim_id [OF "1.prems"] by auto
    have p: "prefix t' t" using t' trim_end_matches_prefix take_is_prefix prefix_order.trans by blast
    have "utrimmed t'" using t' utrimmed_utrim_end [OF take_is_prefix "1.prems"] by simp
    from "1.hyps" [OF Some this] have
      "utrimmed (snd (strip_outros u (True, t'))) \<and> prefix (snd (strip_outros u (True, t'))) t'" .
    then show ?thesis using p Some prefix_order.trans by (auto simp: strip_outros.simps [of u b t])
  qed
qed

lemma strip_outros_flag: "fst (strip_outros u (b, t)) \<longleftrightarrow> b \<or> strip_one_anchored_hallucinated_outro u t \<noteq> None"
  by (induction u "(b, t)" arbitrary: b t rule: strip_outros.induct)
     (auto simp: strip_outros.simps split: option.splits)

lemma strip_outros_none: "strip_one_anchored_hallucinated_outro u t = None \<Longrightarrow> strip_outros u (b, t) = (b, t)"
  by (simp add: strip_outros.simps)

lemma strip_one_Nil [simp]: "strip_one_anchored_hallucinated_outro u [] = None"
  by (simp add: strip_one_anchored_hallucinated_outro_def)

lemma sanitize_cases:
  "sanitize_source_transcript_text u t = [] \<or>
   sanitize_source_transcript_text u t = snd (strip_outros u (False, utrim t))"
  by (auto simp: sanitize_source_transcript_text_def split: prod.splits)

lemma sanitize_trimmed: "utrimmed (sanitize_source_transcript_text u t)"
  using sanitize_cases [of u t] strip_outros_prefix [OF utrim_trimmed [of t], of u False]
  by (auto simp: utrimmed_def)

lemma utrim_sanitize [simp]: "utrim (sanitize_source_transcript_text u t) = sanitize_source_transcript_text u t"
  by (rule utrim_id [OF sanitize_trimmed])

lemma sanitize_no_outro:
  "strip_one_anchored_hallucinated_outro u (sanitize_source_transcript_text u t) = None"
  using sanitize_cases [of u t] strip_outros_no_outro [of u False "utrim t"] by auto

lemma sanitize_idem [simp]:
  "sanitize_source_transcript_text u (sanitize_source_transcript_text u t) = sanitize_source_transcript_text u t"
proof -
  have "strip_outros u (False, utrim (sanitize_source_transcript_text u t)) = (False, sanitize_source_transcript_text u t)"
    using sanitize_no_outro [of u t] by (simp add: strip_outros_none)
  then show ?thesis by (simp add: sanitize_source_transcript_text_def [of u "sanitize_source_transcript_text u t"])
qed

text \<open>
  Claim C28. The outro sanitizer ends on every text and leaves a prefix of the trimmed text that is
  itself trimmed and carries no outro it would still strip, so sanitizing twice changes nothing; a
  text without an anchored outro is only trimmed, and what is left after a strip is either empty or
  substantial speech.
\<close>
theorem sanitizer_contract:
  "prefix (sanitize_source_transcript_text u t) (utrim t)
    \<and> utrimmed (sanitize_source_transcript_text u t)
    \<and> strip_one_anchored_hallucinated_outro u (sanitize_source_transcript_text u t) = None
    \<and> sanitize_source_transcript_text u (sanitize_source_transcript_text u t) = sanitize_source_transcript_text u t
    \<and> (case strip_one_anchored_hallucinated_outro u (utrim t) of
         None \<Rightarrow> sanitize_source_transcript_text u t = utrim t
       | Some _ \<Rightarrow> sanitize_source_transcript_text u t = []
                 \<or> remainder_is_substantial_speech u (sanitize_source_transcript_text u t))"
proof (intro conjI)
  show "prefix (sanitize_source_transcript_text u t) (utrim t)"
    using sanitize_cases [of u t] strip_outros_prefix [OF utrim_trimmed [of t], of u False] by auto
  show "case strip_one_anchored_hallucinated_outro u (utrim t) of
         None \<Rightarrow> sanitize_source_transcript_text u t = utrim t
       | Some _ \<Rightarrow> sanitize_source_transcript_text u t = []
                 \<or> remainder_is_substantial_speech u (sanitize_source_transcript_text u t)"
    using strip_outros_flag [of u False "utrim t"]
    by (auto simp: sanitize_source_transcript_text_def strip_outros_none split: option.splits prod.splits)
qed (simp_all add: sanitize_trimmed sanitize_no_outro)

end
