(* ===== verification/Source_Selection.thy ===== *)
theory Source_Selection
  imports Words Boundary
begin

text \<open>
  How two disagreeing Source Transcripts are compared, from \<open>crates/voisu-core/src/lib.rs\<close>: the
  classification of a pair (\<open>source_pair_classification\<close>), the ordered evidence tiers
  (\<open>select_better_source\<close>) and the divergence gate that skips the merge (\<open>source_quality_gate\<close>).
  The comparison knows a left and a right side only; the caller maps the sides to providers.
\<close>

section \<open>Classification of a pair\<close>

definition source_similarity :: "unicode \<Rightarrow> utext \<Rightarrow> utext \<Rightarrow> f64" where
  "source_similarity u left right =
     (let l = normalized_words u left; r = normalized_words u right; longest = max (length l) (length r)
      in if longest = 0 then 1
         else f64_sub 1 (ratio (word_edit_distance l r) longest))"

datatype pair_classification = NearIdentical (lexically_identical: bool) | MaterialDisagreement

datatype intent_reconstruction_eligibility =
    RepairPath | SingleSource | NearIdenticalHighConfidence | LowConfidenceSelection | EligibleDisagreement

definition is_near_identical :: "pair_classification \<Rightarrow> bool" where
  "is_near_identical c = (case c of NearIdentical _ \<Rightarrow> True | MaterialDisagreement \<Rightarrow> False)"

definition is_lexically_identical :: "pair_classification \<Rightarrow> bool" where
  "is_lexically_identical c = (case c of NearIdentical same \<Rightarrow> same | MaterialDisagreement \<Rightarrow> False)"

text \<open>\<open>confidence\<close> is unreachable for a material disagreement, \<open>diagnostic_confidence\<close> total.\<close>

definition pair_confidence :: "pair_classification \<Rightarrow> source_selection_confidence option" where
  "pair_confidence c =
     (case c of NearIdentical True \<Rightarrow> Some High | NearIdentical False \<Rightarrow> Some Low | MaterialDisagreement \<Rightarrow> None)"

definition diagnostic_confidence :: "pair_classification \<Rightarrow> source_selection_confidence option" where
  "diagnostic_confidence c = (if is_near_identical c then pair_confidence c else None)"

definition intent_eligibility :: "pair_classification \<Rightarrow> intent_reconstruction_eligibility option" where
  "intent_eligibility c =
     (case c of NearIdentical True \<Rightarrow> None | NearIdentical False \<Rightarrow> Some LowConfidenceSelection
      | MaterialDisagreement \<Rightarrow> Some EligibleDisagreement)"

definition source_pair_classification :: "unicode \<Rightarrow> utext \<Rightarrow> utext \<Rightarrow> pair_classification" where
  "source_pair_classification u left right =
     (if fl (85 / 100) \<le> source_similarity u left right
      then NearIdentical (normalized_words u left = normalized_words u right)
      else MaterialDisagreement)"

section \<open>The evidence tiers\<close>

datatype gate_winner = LeftSide | RightSide

datatype selection_evidence = Garbage | Confirmation | Cohesion | Quality | Default

definition is_low_confidence :: "selection_evidence \<Rightarrow> bool" where
  "is_low_confidence e \<longleftrightarrow> e \<in> {Cohesion, Quality, Default}"

definition evidence_confidence :: "selection_evidence \<Rightarrow> source_selection_confidence" where
  "evidence_confidence e = (if is_low_confidence e then Low else High)"

text \<open>The share of a side's distinct content words that the matching confirmed.\<close>

definition confirmation :: "utext list \<Rightarrow> utext list \<Rightarrow> f64" where
  "confirmation confirmed content = (if content = [] then 0 else ratio (length confirmed) (length content))"

definition select_better_source :: "utext list \<Rightarrow> utext list \<Rightarrow> gate_winner \<times> selection_evidence" where
  "select_better_source left right =
     (let left_content = distinct_content_words left; right_content = distinct_content_words right;
          matching = phonetic_matching left_content right_content;
          left_confirmed = remdups (map fst matching); right_confirmed = remdups (map snd matching);
          left_garbage = is_garbage_against left left_confirmed;
          right_garbage = is_garbage_against right right_confirmed
      in if left_garbage \<noteq> right_garbage then (if left_garbage then RightSide else LeftSide, Garbage)
         else let left_confirmation = confirmation left_confirmed left_content;
                  right_confirmation = confirmation right_confirmed right_content
              in if CONFIRMATION_MARGIN < \<bar>f64_sub left_confirmation right_confirmation\<bar>
                 then (if right_confirmation < left_confirmation then LeftSide else RightSide, Confirmation)
                 else let left_cohesion = topical_cohesion left; right_cohesion = topical_cohesion right
                      in if left_cohesion \<noteq> right_cohesion
                         then (if right_cohesion < left_cohesion then LeftSide else RightSide, Cohesion)
                         else let left_quality = source_quality left; right_quality = source_quality right
                              in if right_quality < left_quality then (LeftSide, Quality)
                                 else if left_quality < right_quality then (RightSide, Quality)
                                 else (RightSide, Default))"

section \<open>The divergence gate\<close>

definition DIVERGENCE_LENGTH_RATIO_FLOOR :: f64 where "DIVERGENCE_LENGTH_RATIO_FLOOR = fl (34 / 100)"

record quality_gate =
  qg_winner :: gate_winner
  qg_reason :: string
  qg_confidence :: source_selection_confidence

definition WORDLESS_REASON :: string where
  "WORDLESS_REASON =
     ''catastrophically divergent (one Source Transcript is wordless); selected the only Source Transcript with words''"

definition GARBAGE_REASON :: string where
  "GARBAGE_REASON =
     ''catastrophically divergent (one Source Transcript is a degenerate filler/repetition loop without independent cross-source support); selected the coherent Source Transcript''"

definition fragment_reason :: "f64 \<Rightarrow> string" where
  "fragment_reason length_ratio =
     ''catastrophically divergent (length ratio '' @ format_fixed 2 length_ratio @ '' below ''
     @ format_fixed 2 DIVERGENCE_LENGTH_RATIO_FLOOR
     @ ''); selected the fuller Source Transcript, the other is a fragment''"

definition agreement_reason :: "f64 \<Rightarrow> selection_evidence \<Rightarrow> string" where
  "agreement_reason agreement evidence =
     ''catastrophically divergent (cross-source content agreement '' @ format_fixed 2 agreement @ '' below ''
     @ format_fixed 2 CONTENT_OVERLAP_FLOOR
     @ ''); selected the Source Transcript better supported by cross-source evidence''
     @ (if is_low_confidence evidence
        then ''; low-confidence selection: cross-source evidence could not distinguish the Source Transcripts''
        else '''')"

definition word_gate :: "utext list \<Rightarrow> utext list \<Rightarrow> quality_gate option" where
  "word_gate left right =
     (let fewer = min (length left) (length right); more = max (length left) (length right)
      in if fewer = 0
         then (if more = 0 then None
               else Some \<lparr>qg_winner = if left = [] then RightSide else LeftSide, qg_reason = WORDLESS_REASON, qg_confidence = High\<rparr>)
         else
           let left_content = distinct_content_words left; right_content = distinct_content_words right;
               matching = phonetic_matching left_content right_content;
               left_garbage = is_garbage_against left (remdups (map fst matching));
               right_garbage = is_garbage_against right (remdups (map snd matching))
           in if left_garbage \<noteq> right_garbage
              then Some \<lparr>qg_winner = if left_garbage then RightSide else LeftSide, qg_reason = GARBAGE_REASON, qg_confidence = High\<rparr>
              else
                let length_ratio = ratio fewer more
                in if length_ratio < DIVERGENCE_LENGTH_RATIO_FLOOR
                   then Some \<lparr>qg_winner = if length right \<le> length left then LeftSide else RightSide,
                          qg_reason = fragment_reason length_ratio, qg_confidence = High\<rparr>
                   else if left_garbage then None
                   else
                     let smaller_content = min (length left_content) (length right_content)
                     in if smaller_content < MIN_COMPARABLE_CONTENT then None
                        else
                          let agreement = ratio (length matching) smaller_content
                          in if agreement < CONTENT_OVERLAP_FLOOR
                             then (case select_better_source left right of (winner, evidence) \<Rightarrow>
                                     Some \<lparr>qg_winner = winner, qg_reason = agreement_reason agreement evidence,
                                       qg_confidence = evidence_confidence evidence\<rparr>)
                             else None)"

definition source_quality_gate :: "unicode \<Rightarrow> utext \<Rightarrow> utext \<Rightarrow> quality_gate option" where
  "source_quality_gate u left right = word_gate (normalized_words u left) (normalized_words u right)"

section \<open>No provider preference\<close>

fun other_side :: "gate_winner \<Rightarrow> gate_winner" where
  "other_side LeftSide = RightSide"
| "other_side RightSide = LeftSide"

lemma distinct_content_distinct [simp]: "distinct (distinct_content_words ws)"
  by (simp add: distinct_content_words_def)

lemma content_matching_swap:
  "phonetic_matching (distinct_content_words r) (distinct_content_words l) =
     map prod.swap (phonetic_matching (distinct_content_words l) (distinct_content_words r))"
  by (rule phonetic_matching_swap) simp_all

lemma map_swap [simp]: "map fst (map prod.swap xs) = map snd xs" "map snd (map prod.swap xs) = map fst xs"
  by simp_all

lemma f64_sub_abs_commute: "\<bar>f64_sub a b\<bar> = \<bar>f64_sub b a\<bar>"
  using fl_minus [of "a - b"] by (simp add: f64_sub_def)

text \<open>Above the margin the two confirmations differ, so exactly one side has the larger one.\<close>

lemma confirmed_differ: "CONFIRMATION_MARGIN < \<bar>f64_sub a b\<bar> \<Longrightarrow> a \<noteq> b"
  using fl_nonneg [of "15 / 100"] by (auto simp: f64_sub_def CONFIRMATION_MARGIN_def)

text \<open>
  Selecting between two sources by evidence has no side preference: with the sources
  exchanged the evidence tier is the same and the same text wins, except in the last tier, where no
  evidence separates them and the right side (Groq) is the default.
\<close>
theorem select_better_source_unbiased:
  "select_better_source right left =
     (case select_better_source left right of
        (winner, Default) \<Rightarrow> (winner, Default)
      | (winner, evidence) \<Rightarrow> (other_side winner, evidence))"
  using confirmed_differ [of "confirmation (remdups (map fst (phonetic_matching (distinct_content_words left) (distinct_content_words right)))) (distinct_content_words left)"
      "confirmation (remdups (map snd (phonetic_matching (distinct_content_words left) (distinct_content_words right)))) (distinct_content_words right)"]
  unfolding select_better_source_def Let_def content_matching_swap [of right left] map_swap
    f64_sub_abs_commute [of "confirmation _ (distinct_content_words right)"]
  by auto

end
