(* ===== verification/Quality_Guards.thy ===== *)
theory Quality_Guards
  imports Outro Source_Selection
begin

text \<open>
  The guards a text must pass before it may become the Transcript, and the formatting evidence that
  decides between two near-identical sources, from \<open>crates/voisu-core/src/lib.rs\<close>:
  \<open>quality_failure_reason\<close> and its contraction-free variant, \<open>is_source_derived\<close>, the script checks,
  and \<open>near_identical_selection\<close>.
\<close>

section \<open>Scripts\<close>

datatype script_class = Latin | Greek | Cyrillic

definition in_range :: "nat \<Rightarrow> nat \<times> nat \<Rightarrow> bool" where
  "in_range c r \<longleftrightarrow> fst r \<le> c \<and> c \<le> snd r"

definition confusable_script :: "nat \<Rightarrow> script_class option" where
  "confusable_script c =
     (if list_ex (in_range c)
          [(0x0041, 0x024f), (0x1e00, 0x1eff), (0x2c60, 0x2c7f), (0xa720, 0xa7ff), (0xab30, 0xab6f),
           (0x10780, 0x107bf), (0x1df00, 0x1dfff)] then Some Latin
      else if list_ex (in_range c) [(0x0370, 0x03ff), (0x1f00, 0x1fff)] then Some Greek
      else if list_ex (in_range c)
          [(0x0400, 0x052f), (0x1c80, 0x1c8f), (0x2de0, 0x2dff), (0xa640, 0xa69f), (0x1e030, 0x1e08f)]
      then Some Cyrillic
      else None)"

definition token_mixes_confusable_scripts :: "unicode \<Rightarrow> utext \<Rightarrow> bool" where
  "token_mixes_confusable_scripts u token =
     (let scripts = map confusable_script (filter (u_alphabetic u) token)
      in 2 \<le> (if Some Latin \<in> set scripts then 1 else 0) + (if Some Greek \<in> set scripts then 1 else 0)
            + (if Some Cyrillic \<in> set scripts then 1 else (0::nat)))"

definition script_index :: "nat \<Rightarrow> nat" where
  "script_index c =
     (case confusable_script c of
        Some Latin \<Rightarrow> 0 | Some Greek \<Rightarrow> 1 | Some Cyrillic \<Rightarrow> 2
      | None \<Rightarrow>
          (if in_range c (0x0600, 0x06ff) then 3
           else if in_range c (0x0900, 0x097f) then 4
           else if in_range c (0x3040, 0x30ff) \<or> in_range c (0x3400, 0x9fff) then 5
           else 6))"

text \<open>The seven flags of \<open>script_count\<close>.\<close>

definition script_count :: "unicode \<Rightarrow> utext \<Rightarrow> nat" where
  "script_count u t =
     length (filter id (fold (\<lambda>c flags. flags[script_index c := True]) (filter (u_alphabetic u) t) (replicate 7 False)))"

section \<open>The quality guards\<close>

definition MERGE_CONTRACTION_RATIO_FLOOR :: f64 where "MERGE_CONTRACTION_RATIO_FLOOR = fl (90 / 100)"

datatype quality_failure =
    OtherFailure string
  | Contraction (contraction_ratio: f64) (candidate_count: nat) (source_count: nat)

definition is_contraction :: "quality_failure \<Rightarrow> bool" where
  "is_contraction f = (case f of Contraction _ _ _ \<Rightarrow> True | OtherFailure _ \<Rightarrow> False)"

definition failure_reason :: "quality_failure \<Rightarrow> string" where
  "failure_reason f =
     (case f of
        OtherFailure reason \<Rightarrow> reason
      | Contraction r candidate_words source_words \<Rightarrow>
          ''suspicious contraction ratio '' @ format_fixed 4 r @ '' below ''
          @ format_fixed 2 MERGE_CONTRACTION_RATIO_FLOOR @ '' ('' @ show_nat candidate_words
          @ '' candidate words, '' @ show_nat source_words @ '' longest-source words)'')"

definition PROMPT_ARTIFACTS :: "utext list" where
  "PROMPT_ARTIFACTS = map lit
     [''ignore previous instructions'', ''ignore all instructions'', ''system:'', ''assistant:'',
      ''<|system|>'', ''<|assistant|>'', ''### instruction'']"

lemmas PROMPT_ARTIFACTS_code [code] = PROMPT_ARTIFACTS_def [simplified lit_def list.map of_char_Char, simplified]

definition META_REASONING :: "utext list" where
  "META_REASONING = map lit
     [''i think the user said'', ''the user said'', ''my final answer'', ''here is the transcript'',
      ''here is the reconciled'', ''based on the source'']"

lemmas META_REASONING_code [code] = META_REASONING_def [simplified lit_def list.map of_char_Char, simplified]

definition source_word_counts :: "unicode \<Rightarrow> source_transcript list \<Rightarrow> nat list" where
  "source_word_counts u ss = map (\<lambda>s. length (normalized_words u (st_text s))) ss"

definition longest_source :: "unicode \<Rightarrow> source_transcript list \<Rightarrow> nat" where
  "longest_source u ss = foldr max (source_word_counts u ss) 0"

text \<open>The length guards, on the counts alone.\<close>

definition length_failure :: "nat \<Rightarrow> nat \<Rightarrow> nat \<Rightarrow> quality_failure option" where
  "length_failure sources source_words candidate_words =
     (if source_words = 0 then None
      else let contraction_ratio = ratio candidate_words source_words
           in if 2 \<le> sources \<and> contraction_ratio < MERGE_CONTRACTION_RATIO_FLOOR
              then Some (Contraction contraction_ratio candidate_words source_words)
              else if sat_add_u64 (sat_mul_u64 source_words 2) 8 < candidate_words
              then Some (OtherFailure ''suspicious expansion'')
              else None)"

definition quality_failure_reason :: "unicode \<Rightarrow> utext \<Rightarrow> source_transcript list \<Rightarrow> quality_failure option" where
  "quality_failure_reason u candidate ss =
     (let text = utrim candidate
      in if text = [] \<or> 0 \<in> set text \<or> 100000 < byte_len text then Some (OtherFailure ''invalid candidate text'')
         else let lower = to_lowercase u text
              in if list_ex (\<lambda>a. contains_text a lower) PROMPT_ARTIFACTS then Some (OtherFailure ''prompt artifact'')
                 else let preamble = trim_start_matches (\<lambda>c. \<not> is_alphanumeric u c) lower
                      in if list_ex (\<lambda>a. starts_with a preamble) META_REASONING
                         then Some (OtherFailure ''meta-reasoning'')
                         else if has_anchored_hallucinated_outro u text then Some (OtherFailure ''hallucinated suffix'')
                         else if 3 \<le> script_count u text \<or> list_ex (token_mixes_confusable_scripts u) (split_whitespace text)
                         then Some (OtherFailure ''mixed-script garbage'')
                         else length_failure (length ss) (longest_source u ss) (length (normalized_words u text)))"

definition non_contraction_quality_failure_reason :: "unicode \<Rightarrow> utext \<Rightarrow> source_transcript list \<Rightarrow> string option" where
  "non_contraction_quality_failure_reason u candidate ss =
     (case quality_failure_reason u candidate ss of
        None \<Rightarrow> None
      | Some failure \<Rightarrow> (if is_contraction failure then None else Some (failure_reason failure)))"

section \<open>Source derivation\<close>

definition is_source_derived :: "unicode \<Rightarrow> utext \<Rightarrow> source_transcript list \<Rightarrow> bool" where
  "is_source_derived u candidate ss =
     (let source_words = concat (map (\<lambda>s. normalized_words u (st_text s)) ss);
          candidate_words = normalized_words u candidate;
          content = content_words candidate_words
      in if content = []
         then candidate_words \<noteq> [] \<and> list_all (\<lambda>w. w \<in> set source_words) candidate_words
         else list_all (\<lambda>w. w \<in> set (distinct_content_words source_words)) content)"

section \<open>Formatting evidence\<close>

record formatting_evidence =
  capitalised_sentence_starts :: nat
  sentence_starts :: nat
  all_caps :: bool
  punctuation_boundaries :: nat
  dictionary_matches :: nat

text \<open>Runs of sentence punctuation.\<close>

fun sentence_punctuation_boundaries :: "bool \<Rightarrow> utext \<Rightarrow> nat" where
  "sentence_punctuation_boundaries in_boundary [] = 0"
| "sentence_punctuation_boundaries in_boundary (c # t) =
     (if is_terminator c
      then (if in_boundary then 0 else 1) + sentence_punctuation_boundaries True t
      else sentence_punctuation_boundaries False t)"

definition sentence_boundary_credit :: "unicode \<Rightarrow> utext \<Rightarrow> nat" where
  "sentence_boundary_credit u t =
     min (sentence_punctuation_boundaries False t) (max (div_ceil (length (normalized_words u t)) 6) 1)"

text \<open>The state of \<open>sentence_start_capitalisation\<close>: at a sentence start, capitalised so far, starts so far.\<close>

definition capitalisation_step :: "unicode \<Rightarrow> nat \<Rightarrow> bool \<times> nat \<times> nat \<Rightarrow> bool \<times> nat \<times> nat" where
  "capitalisation_step u c st =
     (case st of (at_start, capitalised, starts) \<Rightarrow>
        if u_alphabetic u c \<and> at_start
        then (False, capitalised + (if u_uppercase u c then 1 else 0), starts + 1)
        else if is_terminator c then (True, capitalised, starts)
        else st)"

definition sentence_start_capitalisation :: "unicode \<Rightarrow> utext \<Rightarrow> nat \<times> nat" where
  "sentence_start_capitalisation u t = snd (fold (capitalisation_step u) t (True, 0, 0))"

definition at_word_boundaries :: "unicode \<Rightarrow> utext \<Rightarrow> nat \<Rightarrow> nat \<Rightarrow> bool" where
  "at_word_boundaries u t start stop \<longleftrightarrow>
     (start = 0 \<or> \<not> is_alphanumeric u (t ! (start - 1))) \<and> (length t \<le> stop \<or> \<not> is_alphanumeric u (t ! stop))"

definition term_matches :: "unicode \<Rightarrow> utext \<Rightarrow> utext \<Rightarrow> (utext \<times> nat \<times> nat) list" where
  "term_matches u t w =
     map (\<lambda>i. (w, i, i + length w))
       (filter (\<lambda>i. at_word_boundaries u t i (i + length w)) (match_indices w 0 0 t))"

fun select_matches :: "utext list \<Rightarrow> (nat \<times> nat) list \<Rightarrow> (utext \<times> nat \<times> nat) list \<Rightarrow> utext list" where
  "select_matches chosen spans [] = chosen"
| "select_matches chosen spans ((w, start, stop) # cs) =
     (if w \<in> set chosen \<or> list_ex (\<lambda>(a, b). start < b \<and> a < stop) spans
      then select_matches chosen spans cs
      else select_matches (w # chosen) (spans @ [(start, stop)]) cs)"

definition distinct_nonoverlapping_dictionary_matches :: "unicode \<Rightarrow> utext \<Rightarrow> utext list \<Rightarrow> nat" where
  "distinct_nonoverlapping_dictionary_matches u t terms =
     length (select_matches [] []
       (sort_key (\<lambda>(w, start, _). (- int (byte_len w), int start))
         (concat (map (term_matches u t) (remdups (filter (\<lambda>w. w \<noteq> []) terms))))))"

definition formatting_evidence_of :: "unicode \<Rightarrow> utext \<Rightarrow> utext list \<Rightarrow> formatting_evidence" where
  "formatting_evidence_of u t terms =
     (case sentence_start_capitalisation u t of (capitalised, starts) \<Rightarrow>
        \<lparr>capitalised_sentence_starts = capitalised, sentence_starts = starts,
         all_caps = 4 \<le> length (filter (u_alphabetic u) t) \<and> length (filter (u_lowercase u) t) = 0,
         punctuation_boundaries = sentence_boundary_credit u t,
         dictionary_matches = distinct_nonoverlapping_dictionary_matches u t terms\<rparr>)"

definition capitalisation_score :: "formatting_evidence \<Rightarrow> f64" where
  "capitalisation_score e =
     (if all_caps e \<or> sentence_starts e = 0 then 0
      else ratio (capitalised_sentence_starts e) (sentence_starts e))"

record formatting_comparison =
  left_signals :: nat
  right_signals :: nat
  measurements :: string

definition signal :: "bool \<Rightarrow> nat" where "signal b = (if b then 1 else 0)"

definition evidence_text :: "formatting_evidence \<Rightarrow> string" where
  "evidence_text e = show_nat (capitalised_sentence_starts e) @ ''/'' @ show_nat (sentence_starts e)
     @ (if all_caps e then '' (all-caps)'' else '''')"

definition compare_formatting :: "unicode \<Rightarrow> utext \<Rightarrow> utext \<Rightarrow> utext list \<Rightarrow> formatting_comparison" where
  "compare_formatting u left right terms =
     (let l = formatting_evidence_of u left terms; r = formatting_evidence_of u right terms
      in \<lparr>left_signals = signal (capitalisation_score r < capitalisation_score l)
            + signal (punctuation_boundaries r < punctuation_boundaries l)
            + signal (dictionary_matches r < dictionary_matches l),
          right_signals = signal (capitalisation_score l < capitalisation_score r)
            + signal (punctuation_boundaries l < punctuation_boundaries r)
            + signal (dictionary_matches l < dictionary_matches r),
          measurements = ''capitalised sentence starts '' @ evidence_text l @ '' vs '' @ evidence_text r
            @ '', sentence punctuation boundaries '' @ show_nat (punctuation_boundaries l) @ '' vs ''
            @ show_nat (punctuation_boundaries r) @ '', dictionary matches '' @ show_nat (dictionary_matches l)
            @ '' vs '' @ show_nat (dictionary_matches r)\<rparr>)"

definition favours_left :: "formatting_comparison \<Rightarrow> bool" where
  "favours_left c \<longleftrightarrow> 0 < left_signals c \<and> right_signals c = 0"

definition near_identical_selection :: "unicode \<Rightarrow> utext \<Rightarrow> utext \<Rightarrow> utext list \<Rightarrow> gate_winner \<times> string" where
  "near_identical_selection u left right terms =
     (let comparison = compare_formatting u left right terms
      in if favours_left comparison
         then (LeftSide, ''selected Deepgram on one-sided formatting evidence ('' @ measurements comparison @ '')'')
         else (RightSide, ''defaulted to Groq because formatting evidence was not one-sided (''
                 @ measurements comparison @ '')''))"

end
