(* ===== verification/Token_Masks.thy ===== *)
theory Token_Masks
  imports Unicode_Text "HOL-Library.Code_Target_Nat"
begin

text \<open>
  The tokens and masks of \<open>crates/voisu-core/src/local_baseline.rs\<close> that the rewriting passes share:
  white-space tokens with their place in the text, spoken \<open>quote ... unquote\<close> pairs, and the words
  that are being talked about (\<open>say the words ... out loud\<close>). No pass rewrites a masked token.
\<close>

section \<open>Tokens\<close>

type_synonym token = "nat \<times> nat \<times> utext"

function word_tokens_from :: "nat \<Rightarrow> utext \<Rightarrow> token list" where
  "word_tokens_from i [] = []"
| "word_tokens_from i (c # t) =
     (if is_whitespace c then word_tokens_from (i + 1) t
      else let w = c # takeWhile (\<lambda>d. \<not> is_whitespace d) t
           in (i, i + length w, w) # word_tokens_from (i + length w) (dropWhile (\<lambda>d. \<not> is_whitespace d) t))"
  by pat_completeness auto
termination by (relation "measure (\<lambda>(_, t). length t)") (auto simp: length_dropWhile_le le_imp_less_Suc)

definition word_tokens :: "utext \<Rightarrow> token list" where
  "word_tokens t = word_tokens_from 0 t"

definition token_text :: "token \<Rightarrow> utext" where
  "token_text tok = snd (snd tok)"

section \<open>Masks\<close>

text \<open>One trailing comma or period is not part of a spoken cue.\<close>

definition spoken_cue_token :: "utext \<Rightarrow> utext" where
  "spoken_cue_token tok =
     (let lower = ascii_lower_text tok
      in if lower \<noteq> [] \<and> (last lower = 44 \<or> last lower = 46) then butlast lower else lower)"

text \<open>The loop over \<open>i\<close>: a \<open>quote\<close> with a later \<open>unquote\<close> makes a pair and the search goes on behind it.\<close>

function quote_pairs_from :: "nat \<Rightarrow> utext list \<Rightarrow> (nat \<times> nat) list" where
  "quote_pairs_from i toks =
     (if length toks \<le> i then []
      else if spoken_cue_token (toks ! i) = lit ''quote''
      then (case find (\<lambda>j. spoken_cue_token (toks ! j) = lit ''unquote'') [i + 1..<length toks] of
              Some j \<Rightarrow> (i, j) # quote_pairs_from (j + 1) toks
            | None \<Rightarrow> quote_pairs_from (i + 1) toks)
      else quote_pairs_from (i + 1) toks)"
  by pat_completeness auto
termination by (relation "measure (\<lambda>(i, toks). length toks - i)") (auto dest!: find_SomeD)

declare quote_pairs_from.simps [simp del]

definition quote_pairs :: "token list \<Rightarrow> (nat \<times> nat) list" where
  "quote_pairs toks = quote_pairs_from 0 (map token_text toks)"

definition quote_skip :: "token list \<Rightarrow> bool list" where
  "quote_skip toks =
     map (\<lambda>k. list_ex (\<lambda>(i, j). i \<le> k \<and> k \<le> j) (quote_pairs toks)) [0..<length toks]"

text \<open>From a token \<open>words\<close> on, everything up to \<open>out\<close>, \<open>loud\<close> or \<open>aloud\<close> is mentioned, not meant.\<close>

definition ends_mention :: "token \<Rightarrow> bool" where
  "ends_mention tok \<longleftrightarrow> ascii_lower_text (token_text tok) \<in> set (map lit [''out'', ''loud'', ''aloud''])"

definition mention_from :: "token list \<Rightarrow> nat \<Rightarrow> nat list" where
  "mention_from toks i =
     (if ascii_lower_text (token_text (toks ! i)) \<noteq> lit ''words'' then []
      else takeWhile (\<lambda>j. \<not> ends_mention (toks ! j)) [i + 1..<length toks])"

definition metalinguistic_mask :: "token list \<Rightarrow> bool list" where
  "metalinguistic_mask toks =
     fold (\<lambda>i mask. fold (\<lambda>j m. m[j := True]) (mention_from toks i) mask) [0..<length toks]
       (replicate (length toks) False)"

definition masked_tokens :: "token list \<Rightarrow> bool list" where
  "masked_tokens toks = map2 (\<or>) (quote_skip toks) (metalinguistic_mask toks)"

section \<open>Tokens are the white-space pieces\<close>

lemma split_on_pieces:
  "split_on P t = takeWhile (\<lambda>c. \<not> P c) t # (case dropWhile (\<lambda>c. \<not> P c) t of [] \<Rightarrow> [] | _ # r \<Rightarrow> split_on P r)"
  by (induction t) (auto split: list.splits)

lemma split_whitespace_simps:
  "split_whitespace [] = []"
  "is_whitespace c \<Longrightarrow> split_whitespace (c # t) = split_whitespace t"
  "\<not> is_whitespace c \<Longrightarrow> split_whitespace (c # t) =
     (c # takeWhile (\<lambda>d. \<not> is_whitespace d) t) # split_whitespace (dropWhile (\<lambda>d. \<not> is_whitespace d) t)"
proof -
  show "split_whitespace [] = []" by (simp add: split_whitespace_def)
  show "split_whitespace (c # t) = split_whitespace t" if "is_whitespace c"
    using that by (simp add: split_whitespace_def)
  assume c: "\<not> is_whitespace c"
  let ?P = "\<lambda>d. \<not> is_whitespace d"
  have "split_whitespace (dropWhile ?P t) = filter (\<lambda>w. w \<noteq> []) (case dropWhile ?P t of [] \<Rightarrow> [] | _ # r \<Rightarrow> split_on is_whitespace r)"
  proof (cases "dropWhile ?P t")
    case (Cons d r)
    then have "is_whitespace d" by (metis hd_dropWhile list.distinct(1) list.sel(1))
    then show ?thesis using Cons by (simp add: split_whitespace_def)
  next
    case Nil
    then show ?thesis by (simp only: split_whitespace_def split_on.simps list.case) simp
  qed
  then show "split_whitespace (c # t) = (c # takeWhile ?P t) # split_whitespace (dropWhile ?P t)"
    unfolding split_whitespace_def [of "c # t"] split_on_pieces [of is_whitespace "c # t"] using c by simp
qed

lemma word_tokens_from_texts: "map token_text (word_tokens_from i t) = split_whitespace t"
  by (induction i t rule: word_tokens_from.induct) (auto simp: split_whitespace_simps token_text_def Let_def)

lemma word_tokens_texts: "map token_text (word_tokens t) = split_whitespace t"
  by (simp add: word_tokens_def word_tokens_from_texts)

lemma length_metalinguistic_mask [simp]: "length (metalinguistic_mask toks) = length toks"
proof -
  have inner: "length (fold (\<lambda>j m. m[j := True]) js m) = length m" for js and m :: "bool list"
    by (induction js arbitrary: m) auto
  have "length (fold (\<lambda>i mask. fold (\<lambda>j m. m[j := True]) (mention_from toks i) mask) is m) = length m" for "is" m
    by (induction "is" arbitrary: m) (auto simp: inner)
  then show ?thesis by (simp add: metalinguistic_mask_def)
qed

lemma length_masked_tokens [simp]: "length (masked_tokens toks) = length toks"
  by (simp add: masked_tokens_def quote_skip_def)

end
