(* ===== verification/Arbitration.thy ===== *)
theory Arbitration
  imports Quality_Guards Token_Masks
begin

text \<open>
  Confidence-aware arbitration, \<open>crates/voisu-core/src/confidence_arbitration.rs\<close>: the selected
  source is aligned word by word with the other provider's, and a divergent region is given the other
  provider's words only when every guard holds. The alignment is the dynamic program with back
  pointers of \<open>align\<close>, its flat table read row by row; a cell holds the number the source stores
  (1 deletion, 2 insertion, 3 diagonal). The traceback returns \<open>None\<close> where the source would index
  before the table; it is shown not to happen.
\<close>

definition FLIP_INCUMBENT_MAX_CONFIDENCE :: f64 where "FLIP_INCUMBENT_MAX_CONFIDENCE = 1 / 2"
definition FLIP_OTHER_MIN_CONFIDENCE :: f64 where "FLIP_OTHER_MIN_CONFIDENCE = 3 / 4"
definition MAX_REGION_LENGTH_DELTA :: nat where "MAX_REGION_LENGTH_DELTA = 1"
definition MAX_ALIGNMENT_CELLS :: nat where "MAX_ALIGNMENT_CELLS = 1000000"
definition MAX_CONFIDENCE_ARBITRATION_REJECTIONS :: nat where "MAX_CONFIDENCE_ARBITRATION_REJECTIONS = 32"

section \<open>Prepared sides\<close>

datatype arbitration_rejection =
    RegionShapeUnsafe | MaskedSpan | MeaningInvertingTokens | MissingConfidence | ConfidenceGapNotDecisive
  | CandidateRejected

record prepared_side =
  ps_text :: utext
  ps_tokens :: "token list"
  ps_normalized :: "utext list"
  ps_token_of_norm :: "nat list"
  ps_starts_token :: "bool list"
  ps_ends_token :: "bool list"
  ps_confidences :: "xf64 option list"
  ps_masked :: "bool list"

type_synonym word_evidence = "(utext \<times> xf64) list"

definition clamp_confidence :: "xf64 \<Rightarrow> xf64" where
  "clamp_confidence c = (case c of Fin x \<Rightarrow> Fin (if x < 0 then 0 else if 1 < x then 1 else x) | _ \<Rightarrow> Fin 0)"

definition token_parts :: "unicode \<Rightarrow> utext \<Rightarrow> utext list" where
  "token_parts u tok = filter (\<lambda>w. w \<noteq> []) (normalize_token u tok)"

text \<open>The normalized words with their token and whether each opens or closes it.\<close>

definition norm_entries :: "unicode \<Rightarrow> token list \<Rightarrow> (utext \<times> nat \<times> bool \<times> bool) list" where
  "norm_entries u toks =
     concat (map (\<lambda>(ti, tok). let parts = token_parts u (token_text tok)
                              in map (\<lambda>(pi, part). (part, ti, pi = 0, pi + 1 = length parts)) (enumerate 0 parts))
       (enumerate 0 toks))"

text \<open>
  The evidence words, in order, must be the text's own words; what lies past them is ignored. The
  result is the confidence of each word, or nothing when a word does not fit.
\<close>

fun confidence_slots :: "utext list \<Rightarrow> (utext \<times> xf64) list \<Rightarrow> xf64 option list option" where
  "confidence_slots ws [] = Some (map (\<lambda>_. None) ws)"
| "confidence_slots [] (e # es) = confidence_slots [] es"
| "confidence_slots (w # ws) ((part, c) # es) =
     (if w \<noteq> part then None else map_option (Cons (Some (clamp_confidence c))) (confidence_slots ws es))"

definition evidence_parts :: "unicode \<Rightarrow> word_evidence \<Rightarrow> (utext \<times> xf64) list" where
  "evidence_parts u ev = concat (map (\<lambda>(w, c). map (\<lambda>p. (p, c)) (token_parts u w)) ev)"

definition try_prepare_side :: "unicode \<Rightarrow> utext \<Rightarrow> word_evidence \<Rightarrow> prepared_side option" where
  "try_prepare_side u t ev =
     (let toks = word_tokens t; entries = norm_entries u toks; ws = map fst entries
      in case confidence_slots ws (evidence_parts u ev) of
           None \<Rightarrow> None
         | Some confidences \<Rightarrow>
             Some \<lparr>ps_text = t, ps_tokens = toks, ps_normalized = ws,
               ps_token_of_norm = map (\<lambda>e. fst (snd e)) entries,
               ps_starts_token = map (\<lambda>e. fst (snd (snd e))) entries,
               ps_ends_token = map (\<lambda>e. snd (snd (snd e))) entries,
               ps_confidences = confidences, ps_masked = masked_tokens toks\<rparr>)"

section \<open>Alignment\<close>

datatype align_op = Match | Sub | Del | Ins

text \<open>One cell: its cost and its back pointer. Diagonal steps win ties.\<close>

definition align_cell :: "'a \<Rightarrow> 'a \<Rightarrow> nat \<Rightarrow> nat \<Rightarrow> nat \<Rightarrow> nat \<times> nat" where
  "align_cell x y prev_diagonal prev_above cur_left =
     (let diagonal = prev_diagonal + (if x = y then 0 else 1); deletion = prev_above + 1; insertion = cur_left + 1
      in if diagonal \<le> deletion \<and> diagonal \<le> insertion then (diagonal, 3)
         else if deletion \<le> insertion then (deletion, 1)
         else (insertion, 2))"

text \<open>The inner loop over \<open>b\<close>, given the row up from column \<open>j\<close> on and the cost to the left.\<close>

fun align_cells :: "'a \<Rightarrow> 'a list \<Rightarrow> nat list \<Rightarrow> nat \<Rightarrow> (nat \<times> nat) list" where
  "align_cells x (y # ys) (d # a # up) left =
     (let cell = align_cell x y d a left in cell # align_cells x ys (a # up) (fst cell))"
| "align_cells x _ _ left = []"

definition align_row :: "'a \<Rightarrow> nat \<Rightarrow> 'a list \<Rightarrow> nat list \<Rightarrow> (nat \<times> nat) list" where
  "align_row x i b up = (i, 1) # align_cells x b up i"

text \<open>The outer loop: the rows of back pointers, from row \<open>i\<close> on.\<close>

fun align_rows :: "nat \<Rightarrow> 'a list \<Rightarrow> 'a list \<Rightarrow> nat list \<Rightarrow> nat list list" where
  "align_rows i [] b up = []"
| "align_rows i (x # xs) b up =
     (let row = align_row x i b up in map snd row # align_rows (i + 1) xs b (map fst row))"

definition back_table :: "'a list \<Rightarrow> 'a list \<Rightarrow> nat list list" where
  "back_table a b = (0 # replicate (length b) 2) # align_rows 1 a b [0..<length b + 1]"

text \<open>The traceback from \<open>(i, j)\<close>; the operations come out last first.\<close>

function trace_back :: "nat list list \<Rightarrow> 'a list \<Rightarrow> 'a list \<Rightarrow> nat \<Rightarrow> nat \<Rightarrow> align_op list option" where
  "trace_back back a b i j =
     (if i = 0 \<and> j = 0 then Some []
      else if back ! i ! j = 1 then (if i = 0 then None else map_option (Cons Del) (trace_back back a b (i - 1) j))
      else if back ! i ! j = 2 then (if j = 0 then None else map_option (Cons Ins) (trace_back back a b i (j - 1)))
      else if back ! i ! j = 3
      then (if i = 0 \<or> j = 0 then None
            else map_option (Cons (if a ! (i - 1) = b ! (j - 1) then Match else Sub)) (trace_back back a b (i - 1) (j - 1)))
      else Some [])"
  by pat_completeness auto
termination by (relation "measure (\<lambda>(back, a, b, i, j). i + j)") auto

declare trace_back.simps [simp del]

definition align :: "'a list \<Rightarrow> 'a list \<Rightarrow> align_op list option" where
  "align a b =
     (if MAX_ALIGNMENT_CELLS < (length a + 1) * (length b + 1) then None
      else map_option rev (trace_back (back_table a b) a b (length a) (length b)))"

section \<open>Divergent regions\<close>

record region =
  rg_a :: "nat \<times> nat"
  rg_b :: "nat \<times> nat"

definition open_region :: "region option \<Rightarrow> nat \<Rightarrow> nat \<Rightarrow> region" where
  "open_region current i j = (case current of Some r \<Rightarrow> r | None \<Rightarrow> \<lparr>rg_a = (i, i), rg_b = (j, j)\<rparr>)"

fun regions_from :: "region option \<Rightarrow> nat \<Rightarrow> nat \<Rightarrow> align_op list \<Rightarrow> region list" where
  "regions_from current i j [] = (case current of Some r \<Rightarrow> [r] | None \<Rightarrow> [])"
| "regions_from current i j (Match # ops) =
     (case current of Some r \<Rightarrow> [r] | None \<Rightarrow> []) @ regions_from None (i + 1) (j + 1) ops"
| "regions_from current i j (Sub # ops) =
     (let r = open_region current i j
      in regions_from (Some \<lparr>rg_a = (fst (rg_a r), i + 1), rg_b = (fst (rg_b r), j + 1)\<rparr>) (i + 1) (j + 1) ops)"
| "regions_from current i j (Del # ops) =
     (let r = open_region current i j in regions_from (Some (r\<lparr>rg_a := (fst (rg_a r), i + 1)\<rparr>)) (i + 1) j ops)"
| "regions_from current i j (Ins # ops) =
     (let r = open_region current i j in regions_from (Some (r\<lparr>rg_b := (fst (rg_b r), j + 1)\<rparr>)) i (j + 1) ops)"

definition divergent_regions :: "align_op list \<Rightarrow> region list" where
  "divergent_regions ops = regions_from None 0 0 ops"

section \<open>Region guards\<close>

definition slice :: "nat \<Rightarrow> nat \<Rightarrow> 'a list \<Rightarrow> 'a list" where
  "slice i j xs = take (j - i) (drop i xs)"

definition NEGATION_TOKENS :: "utext list" where
  "NEGATION_TOKENS = map lit
     [''not'', ''no'', ''never'', ''cannot'', ''nor'', ''none'', ''nothing'', ''nobody'', ''neither'',
     ''without'', ''hardly'', ''scarcely'']"

lemmas NEGATION_TOKENS_code [code] = NEGATION_TOKENS_def [simplified lit_def list.map of_char_Char, simplified]

definition NUMBER_TOKENS :: "utext list" where
  "NUMBER_TOKENS = map lit
     [''zero'', ''one'', ''two'', ''three'', ''four'', ''five'', ''six'', ''seven'', ''eight'', ''nine'',
     ''ten'', ''eleven'', ''twelve'', ''thirteen'', ''fourteen'', ''fifteen'', ''sixteen'', ''seventeen'', ''eighteen'',
     ''nineteen'', ''twenty'', ''thirty'', ''forty'', ''fifty'', ''sixty'', ''seventy'', ''eighty'', ''ninety'',
     ''hundred'', ''thousand'', ''million'', ''billion'', ''trillion'', ''dozen'', ''couple'', ''half'', ''quarter'',
     ''first'', ''second'', ''third'', ''once'', ''twice'']"

lemmas NUMBER_TOKENS_code [code] = NUMBER_TOKENS_def [simplified lit_def list.map of_char_Char, simplified]

definition POLARITY_TOKENS :: "utext list" where
  "POLARITY_TOKENS = map lit
     [''yes'', ''yeah'', ''yep'', ''yup'', ''nope'', ''nah'', ''ok'', ''okay'', ''true'', ''false'',
     ''correct'', ''incorrect'', ''right'', ''wrong'', ''maybe'']"

lemmas POLARITY_TOKENS_code [code] = POLARITY_TOKENS_def [simplified lit_def list.map of_char_Char, simplified]

definition QUESTION_TOKENS :: "utext list" where
  "QUESTION_TOKENS = map lit
     [''who'', ''whom'', ''whose'', ''what'', ''when'', ''where'', ''why'', ''how'', ''which'', ''whether'']"

lemmas QUESTION_TOKENS_code [code] = QUESTION_TOKENS_def [simplified lit_def list.map of_char_Char, simplified]

definition token_forbids_flip :: "utext \<Rightarrow> bool" where
  "token_forbids_flip w \<longleftrightarrow> list_ex ascii_digit w
     \<or> w \<in> set NEGATION_TOKENS \<or> w \<in> set NUMBER_TOKENS
     \<or> w \<in> set POLARITY_TOKENS \<or> w \<in> set QUESTION_TOKENS"

definition region_on_token_boundaries :: "prepared_side \<Rightarrow> nat \<Rightarrow> nat \<Rightarrow> bool" where
  "region_on_token_boundaries s i j \<longleftrightarrow> ps_starts_token s ! i \<and> ps_ends_token s ! (j - 1)"

definition region_masked :: "prepared_side \<Rightarrow> nat \<Rightarrow> nat \<Rightarrow> bool" where
  "region_masked s i j =
     list_ex (\<lambda>k. ps_masked s ! k) [ps_token_of_norm s ! i..<ps_token_of_norm s ! (j - 1) + 1]"

definition has_forbidden_token :: "prepared_side \<Rightarrow> nat \<Rightarrow> nat \<Rightarrow> bool" where
  "has_forbidden_token s i j = list_ex token_forbids_flip (slice i j (ps_normalized s))"

fun try_fold :: "(xf64 \<Rightarrow> xf64 \<Rightarrow> xf64) \<Rightarrow> xf64 \<Rightarrow> xf64 option list \<Rightarrow> xf64 option" where
  "try_fold f acc [] = Some acc"
| "try_fold f acc (None # cs) = None"
| "try_fold f acc (Some c # cs) = try_fold f (f acc c) cs"

definition region_max_confidence :: "prepared_side \<Rightarrow> nat \<Rightarrow> nat \<Rightarrow> xf64 option" where
  "region_max_confidence s i j = try_fold xf_max NegInf (slice i j (ps_confidences s))"

definition region_min_confidence :: "prepared_side \<Rightarrow> nat \<Rightarrow> nat \<Rightarrow> xf64 option" where
  "region_min_confidence s i j = try_fold xf_min PosInf (slice i j (ps_confidences s))"

definition abs_diff :: "nat \<Rightarrow> nat \<Rightarrow> nat" where
  "abs_diff a b = (a - b) + (b - a)"

definition evaluate_region :: "region \<Rightarrow> prepared_side \<Rightarrow> prepared_side \<Rightarrow> arbitration_rejection + unit" where
  "evaluate_region r incumbent other =
     (case (rg_a r, rg_b r) of ((i0, i1), (j0, j1)) \<Rightarrow>
        if i0 = i1 \<or> j0 = j1 then Inl RegionShapeUnsafe
        else if MAX_REGION_LENGTH_DELTA < abs_diff (i1 - i0) (j1 - j0) then Inl RegionShapeUnsafe
        else if \<not> region_on_token_boundaries incumbent i0 i1 \<or> \<not> region_on_token_boundaries other j0 j1
        then Inl RegionShapeUnsafe
        else if region_masked incumbent i0 i1 \<or> region_masked other j0 j1 then Inl MaskedSpan
        else if has_forbidden_token incumbent i0 i1 \<or> has_forbidden_token other j0 j1 then Inl MeaningInvertingTokens
        else case region_max_confidence incumbent i0 i1 of
               None \<Rightarrow> Inl MissingConfidence
             | Some incumbent_max \<Rightarrow>
                 (case region_min_confidence other j0 j1 of
                    None \<Rightarrow> Inl MissingConfidence
                  | Some other_min \<Rightarrow>
                      if xf_less incumbent_max (Fin FLIP_INCUMBENT_MAX_CONFIDENCE)
                         \<and> xf_le (Fin FLIP_OTHER_MIN_CONFIDENCE) other_min
                      then Inr () else Inl ConfidenceGapNotDecisive))"

section \<open>Splicing\<close>

definition split_token_punctuation :: "unicode \<Rightarrow> utext \<Rightarrow> utext \<times> utext \<times> utext" where
  "split_token_punctuation u tok =
     (let core_start = (case find (\<lambda>i. is_alphanumeric u (tok ! i)) [0..<length tok] of Some i \<Rightarrow> i | None \<Rightarrow> length tok);
          core_end = (case find (\<lambda>i. is_alphanumeric u (tok ! i)) (rev [0..<length tok]) of Some i \<Rightarrow> i + 1 | None \<Rightarrow> core_start)
      in if core_end \<le> core_start then (tok, [], [])
         else (take core_start tok, slice core_start core_end tok, drop core_end tok))"

definition replacement_for :: "unicode \<Rightarrow> prepared_side \<Rightarrow> prepared_side \<Rightarrow> region \<Rightarrow> nat \<times> nat \<times> utext" where
  "replacement_for u incumbent other flip =
     (let incumbent_start = ps_token_of_norm incumbent ! fst (rg_a flip);
          incumbent_end = ps_token_of_norm incumbent ! (snd (rg_a flip) - 1) + 1;
          other_start = ps_token_of_norm other ! fst (rg_b flip);
          other_end = ps_token_of_norm other ! (snd (rg_b flip) - 1) + 1;
          replacement = join_with [32] (map token_text (slice other_start other_end (ps_tokens other)));
          before = fst (split_token_punctuation u (token_text (ps_tokens incumbent ! incumbent_start)));
          after = snd (snd (split_token_punctuation u (token_text (ps_tokens incumbent ! (incumbent_end - 1)))));
          replacement = (if before \<noteq> [] \<and> replacement \<noteq> [] \<and> is_alphanumeric u (hd replacement)
                         then before @ replacement else replacement);
          replacement = (if after \<noteq> [] \<and> replacement \<noteq> [] \<and> is_alphanumeric u (last replacement)
                         then replacement @ after else replacement)
      in (incumbent_start, incumbent_end, replacement))"

fun apply_flips_from :: "unicode \<Rightarrow> prepared_side \<Rightarrow> prepared_side \<Rightarrow> nat \<Rightarrow> region list \<Rightarrow> utext" where
  "apply_flips_from u incumbent other cursor [] = drop cursor (ps_text incumbent)"
| "apply_flips_from u incumbent other cursor (flip # flips) =
     (case replacement_for u incumbent other flip of (start, stop, replacement) \<Rightarrow>
        slice cursor (fst (ps_tokens incumbent ! start)) (ps_text incumbent) @ replacement
        @ apply_flips_from u incumbent other (fst (snd (ps_tokens incumbent ! (stop - 1)))) flips)"

definition apply_flips :: "unicode \<Rightarrow> prepared_side \<Rightarrow> prepared_side \<Rightarrow> region list \<Rightarrow> utext" where
  "apply_flips u incumbent other flips = apply_flips_from u incumbent other 0 flips"

section \<open>One pass\<close>

record arbitration_input =
  ai_incumbent_text :: utext
  ai_incumbent_confidences :: word_evidence
  ai_other_text :: utext
  ai_other_confidences :: word_evidence
  ai_sources :: "source_transcript list"

record arbitration_outcome =
  ao_text :: utext
  ao_considered :: nat
  ao_flipped :: nat
  ao_rejections :: "arbitration_rejection list"

definition u32_of :: "nat \<Rightarrow> nat" where
  "u32_of n = min n (2 ^ 32 - 1)"

definition accepted_regions :: "region list \<Rightarrow> prepared_side \<Rightarrow> prepared_side \<Rightarrow> region list" where
  "accepted_regions rs incumbent other = filter (\<lambda>r. evaluate_region r incumbent other = Inr ()) rs"

definition region_rejections :: "region list \<Rightarrow> prepared_side \<Rightarrow> prepared_side \<Rightarrow> arbitration_rejection list" where
  "region_rejections rs incumbent other =
     List.map_filter (\<lambda>r. case evaluate_region r incumbent other of Inl e \<Rightarrow> Some e | Inr _ \<Rightarrow> None) rs"

definition arbitrate :: "unicode \<Rightarrow> arbitration_input \<Rightarrow> arbitration_outcome option" where
  "arbitrate u inp =
     (case try_prepare_side u (ai_incumbent_text inp) (ai_incumbent_confidences inp) of
        None \<Rightarrow> None
      | Some incumbent \<Rightarrow>
     (case try_prepare_side u (ai_other_text inp) (ai_other_confidences inp) of
        None \<Rightarrow> None
      | Some other \<Rightarrow>
     (case align (ps_normalized incumbent) (ps_normalized other) of
        None \<Rightarrow> None
      | Some ops \<Rightarrow>
          (let regions = divergent_regions ops;
               flips = accepted_regions regions incumbent other;
               rejections = region_rejections regions incumbent other;
               candidate = apply_flips u incumbent other flips;
               accept = flips \<noteq> [] \<and> is_source_derived u candidate (ai_sources inp)
                 \<and> quality_failure_reason u candidate (ai_sources inp) = None
           in Some \<lparr>ao_text = (if accept then candidate else ps_text incumbent),
                ao_considered = u32_of (length regions),
                ao_flipped = (if accept then u32_of (length flips) else 0),
                ao_rejections = take MAX_CONFIDENCE_ARBITRATION_REJECTIONS
                  (rejections @ (if flips \<noteq> [] \<and> \<not> accept then replicate (length flips) CandidateRejected else []))\<rparr>))))"

section \<open>The alignment is an optimal edit script\<close>

text \<open>A list of operations that spells out how the two sequences correspond.\<close>

fun aligns :: "align_op list \<Rightarrow> 'a list \<Rightarrow> 'a list \<Rightarrow> bool" where
  "aligns [] [] [] \<longleftrightarrow> True"
| "aligns (Match # ops) (x # xs) (y # ys) \<longleftrightarrow> x = y \<and> aligns ops xs ys"
| "aligns (Sub # ops) (x # xs) (y # ys) \<longleftrightarrow> x \<noteq> y \<and> aligns ops xs ys"
| "aligns (Del # ops) (x # xs) ys \<longleftrightarrow> aligns ops xs ys"
| "aligns (Ins # ops) xs (y # ys) \<longleftrightarrow> aligns ops xs ys"
| "aligns _ _ _ \<longleftrightarrow> False"

definition op_cost :: "align_op list \<Rightarrow> nat" where
  "op_cost ops = length (filter (\<lambda>op. op \<noteq> Match) ops)"

lemma aligns_append: "aligns ops xs ys \<Longrightarrow> aligns ops' xs' ys' \<Longrightarrow> aligns (ops @ ops') (xs @ xs') (ys @ ys')"
  by (induction ops xs ys rule: aligns.induct) auto

lemma aligns_rev: "aligns ops xs ys \<Longrightarrow> aligns (rev ops) (rev xs) (rev ys)"
proof (induction ops xs ys rule: aligns.induct)
  case (2 ops x xs y ys)
  then show ?case using aligns_append [of "rev ops" "rev xs" "rev ys" "[Match]" "[x]" "[y]"] by simp
next
  case (3 ops x xs y ys)
  then show ?case using aligns_append [of "rev ops" "rev xs" "rev ys" "[Sub]" "[x]" "[y]"] by simp
next
  case (4 ops x xs ys)
  then show ?case using aligns_append [of "rev ops" "rev xs" "rev ys" "[Del]" "[x]" "[]"] by simp
next
  case (5 ops xs y ys)
  then show ?case using aligns_append [of "rev ops" "rev xs" "rev ys" "[Ins]" "[]" "[y]"] by simp
qed auto

lemma lev_drop: "lev xs ys \<le> Suc (lev (x # xs) ys)" "lev xs ys \<le> Suc (lev xs (y # ys))"
proof -
  obtain m where "m \<le> Suc (lev (x # xs) ys)" "edits m xs ys"
    using edits_drop_left [OF lev_edits [of "x # xs" ys]] by auto
  then show "lev xs ys \<le> Suc (lev (x # xs) ys)" using lev_least [of m xs ys] by linarith
  obtain n where "n \<le> Suc (lev xs (y # ys))" "edits n xs ys"
    using edits_drop_right [OF lev_edits [of xs "y # ys"]] by auto
  then show "lev xs ys \<le> Suc (lev xs (y # ys))" using lev_least [of n xs ys] by linarith
qed

lemma prefix_lev_drop:
  assumes "i < length a" "j < length b"
  shows "prefix_lev a b i j \<le> Suc (prefix_lev a b (Suc i) j)" "prefix_lev a b i j \<le> Suc (prefix_lev a b i (Suc j))"
proof -
  have P: "prefix_lev a b k l = lev (rev (take k a)) (rev (take l b))" for k l by (simp add: prefix_lev_def lev_rev)
  show "prefix_lev a b i j \<le> Suc (prefix_lev a b (Suc i) j)" "prefix_lev a b i j \<le> Suc (prefix_lev a b i (Suc j))"
    unfolding P using assms lev_drop by (simp_all add: take_Suc_conv_app_nth)
qed

text \<open>The cell of the table at \<open>(i + 1, j + 1)\<close>.\<close>

abbreviation cell_at :: "'a list \<Rightarrow> 'a list \<Rightarrow> nat \<Rightarrow> nat \<Rightarrow> nat \<times> nat" where
  "cell_at a b i j \<equiv> align_cell (a ! i) (b ! j) (prefix_lev a b i j) (prefix_lev a b i (Suc j)) (prefix_lev a b (Suc i) j)"

lemma cell_cost:
  assumes "i < length a" "j < length b"
  shows "fst (cell_at a b i j) = prefix_lev a b (Suc i) (Suc j)"
  using prefix_lev_drop [OF assms] prefix_lev_step [OF assms]
  by (auto simp: align_cell_def Let_def)

lemma align_cells_row:
  assumes "i < length a" "j + length ys = length b" "ys = drop j b"
  shows "align_cells (a ! i) ys (map (prefix_lev a b i) [j..<length b + 1]) (prefix_lev a b (Suc i) j)
    = map (cell_at a b i) [j..<length b]"
  using assms(2,3)
proof (induction ys arbitrary: j)
  case (Cons y ys)
  have j: "j < length b" using Cons.prems(1) by simp
  then have y: "y = b ! j" "ys = drop (Suc j) b" using Cons.prems(2) Cons_nth_drop_Suc [OF j] by (metis list.inject)+
  have up: "[j..<length b + 1] = j # Suc j # [Suc (Suc j)..<length b + 1]" "[j..<length b] = j # [Suc j..<length b]"
    using j by (simp_all add: upt_conv_Cons)
  have IH: "align_cells (a ! i) ys (map (prefix_lev a b i) [Suc j..<length b + 1]) (prefix_lev a b (Suc i) (Suc j))
    = map (cell_at a b i) [Suc j..<length b]"
    using Cons.prems y by (intro Cons.IH) simp_all
  have "[Suc j..<length b + 1] = Suc j # [Suc (Suc j)..<length b + 1]" using j by (simp add: upt_conv_Cons)
  with IH show ?case unfolding up using cell_cost [OF assms(1) j] by (simp add: Let_def y(1) del: upt_Suc)
qed simp

lemma align_row_correct:
  assumes "i < length a"
  shows "align_row (a ! i) (Suc i) b (map (prefix_lev a b i) [0..<length b + 1])
    = (Suc i, 1) # map (cell_at a b i) [0..<length b]"
  using align_cells_row [OF assms, of 0 b b] assms by (simp add: align_row_def del: upt_Suc)

lemma align_row_costs:
  assumes "i < length a"
  shows "map fst ((Suc i, 1) # map (cell_at a b i) [0..<length b]) = map (prefix_lev a b (Suc i)) [0..<length b + 1]"
proof -
  have "map (fst \<circ> cell_at a b i) [0..<length b] = map (prefix_lev a b (Suc i) \<circ> Suc) [0..<length b]"
    using cell_cost [OF assms] by simp
  also have "\<dots> = map (prefix_lev a b (Suc i)) [1..<length b + 1]"
    by (simp add: map_Suc_upt flip: map_map)
  finally show ?thesis using assms by (simp add: upt_conv_Cons del: upt_Suc)
qed

lemma align_rows_correct:
  assumes "xs = drop i a" "i \<le> length a"
  shows "align_rows (Suc i) xs b (map (prefix_lev a b i) [0..<length b + 1])
    = map (\<lambda>k. 1 # map (\<lambda>j. snd (cell_at a b k j)) [0..<length b]) [i..<length a]"
  using assms
proof (induction xs arbitrary: i)
  case (Cons x xs)
  have i: "i < length a" using Cons.prems by (metis drop_all leI list.distinct(1))
  then have x: "x = a ! i" "xs = drop (Suc i) a" using Cons.prems(1) Cons_nth_drop_Suc [OF i] by (metis list.inject)+
  have IH: "align_rows (Suc (Suc i)) xs b (map (prefix_lev a b (Suc i)) [0..<length b + 1])
    = map (\<lambda>k. 1 # map (\<lambda>j. snd (cell_at a b k j)) [0..<length b]) [Suc i..<length a]"
    using Cons.IH x(2) i by simp
  show ?case
    unfolding align_rows.simps Let_def x(1) align_row_correct [OF i] align_row_costs [OF i]
    using IH i by (simp add: upt_conv_Cons comp_def del: upt_Suc)
qed simp

lemma back_table_cells:
  assumes "i \<le> length a" "j \<le> length b"
  shows "back_table a b ! i ! j =
    (case i of 0 \<Rightarrow> if j = 0 then 0 else 2 | Suc k \<Rightarrow> (case j of 0 \<Rightarrow> 1 | Suc l \<Rightarrow> snd (cell_at a b k l)))"
proof -
  have row0: "map (prefix_lev a b 0) [0..<length b + 1] = [0..<length b + 1]" by (intro map_idI) auto
  have "back_table a b = (0 # replicate (length b) 2) # map (\<lambda>k. 1 # map (\<lambda>j. snd (cell_at a b k j)) [0..<length b]) [0..<length a]"
    using align_rows_correct [of a 0 a b] unfolding back_table_def row0 by simp
  then show ?thesis using assms by (auto simp: nth_Cons' split: nat.splits)
qed

lemma trace_back_optimal:
  "i \<le> length a \<Longrightarrow> j \<le> length b \<Longrightarrow>
     \<exists>ops. trace_back (back_table a b) a b i j = Some ops
       \<and> aligns ops (rev (take i a)) (rev (take j b)) \<and> op_cost ops = prefix_lev a b i j"
proof (induction "i + j" arbitrary: i j rule: less_induct)
  case less
  note table = back_table_cells [OF less.prems]
  consider (origin) "i = 0" "j = 0" | (first_row) l where "i = 0" "j = Suc l" | (first_column) k where "i = Suc k" "j = 0"
    | (cell) k l where "i = Suc k" "j = Suc l" by (cases i; cases j) auto
  then show ?case
  proof cases
    case origin
    then show ?thesis by (simp add: trace_back.simps op_cost_def)
  next
    case (first_row l)
    then obtain ops where "trace_back (back_table a b) a b 0 l = Some ops" "aligns ops [] (rev (take l b))"
      "op_cost ops = prefix_lev a b 0 l" using less.hyps [of 0 l] less.prems by auto
    then show ?thesis using first_row table less.prems
      by (simp add: trace_back.simps [of _ _ _ 0 "Suc l"] take_Suc_conv_app_nth op_cost_def)
  next
    case (first_column k)
    then obtain ops where "trace_back (back_table a b) a b k 0 = Some ops" "aligns ops (rev (take k a)) []"
      "op_cost ops = prefix_lev a b k 0" using less.hyps [of k 0] less.prems by auto
    then show ?thesis using first_column table less.prems
      by (simp add: trace_back.simps [of _ _ _ "Suc k" 0] take_Suc_conv_app_nth op_cost_def)
  next
    case (cell k l)
    then have kl: "k < length a" "l < length b" using less.prems by simp_all
    let ?T = "trace_back (back_table a b) a b" and ?c = "cell_at a b k l"
    have IH: "\<exists>ops. ?T i' j' = Some ops \<and> aligns ops (rev (take i' a)) (rev (take j' b))
        \<and> op_cost ops = prefix_lev a b i' j'" if "(i', j') \<in> {(k, l), (k, Suc l), (Suc k, l)}" for i' j'
      using that cell kl by (intro less.hyps) auto
    have code: "back_table a b ! Suc k ! Suc l = snd ?c" using table cell by simp
    have cost: "fst ?c = prefix_lev a b (Suc k) (Suc l)" by (rule cell_cost [OF kl])
    have "?c \<in> {(prefix_lev a b k l + (if a ! k = b ! l then 0 else 1), 3), (prefix_lev a b k (Suc l) + 1, 1),
        (prefix_lev a b (Suc k) l + 1, 2)}" by (simp add: align_cell_def Let_def)
    then consider (diagonal) "?c = (prefix_lev a b k l + (if a ! k = b ! l then 0 else 1), 3)"
      | (deletion) "?c = (prefix_lev a b k (Suc l) + 1, 1)" | (insertion) "?c = (prefix_lev a b (Suc k) l + 1, 2)"
      by blast
    then show ?thesis
    proof cases
      case diagonal
      obtain ops where "?T k l = Some ops" "aligns ops (rev (take k a)) (rev (take l b))" "op_cost ops = prefix_lev a b k l"
        using IH [of k l] by auto
      then show ?thesis using cell code cost kl diagonal
        by (auto simp: trace_back.simps [of _ _ _ "Suc k" "Suc l"] take_Suc_conv_app_nth op_cost_def split: if_splits)
    next
      case deletion
      obtain ops where "?T k (Suc l) = Some ops" "aligns ops (rev (take k a)) (rev (take (Suc l) b))"
        "op_cost ops = prefix_lev a b k (Suc l)" using IH [of k "Suc l"] by auto
      then show ?thesis using cell code cost kl deletion
        by (simp add: trace_back.simps [of _ _ _ "Suc k" "Suc l"] take_Suc_conv_app_nth [of k] op_cost_def)
    next
      case insertion
      obtain ops where "?T (Suc k) l = Some ops" "aligns ops (rev (take (Suc k) a)) (rev (take l b))"
        "op_cost ops = prefix_lev a b (Suc k) l" using IH [of "Suc k" l] by auto
      then show ?thesis using cell code cost kl insertion
        by (simp add: trace_back.simps [of _ _ _ "Suc k" "Suc l"] take_Suc_conv_app_nth [of l] op_cost_def)
    qed
  qed
qed

text \<open>
  Claim C24. Within the cell cap the word alignment always succeeds: its operations consume both
  sequences exactly, call a pair a match precisely when the words are equal, and their number of
  non-matches is the least possible. It gives up only past the cap.
\<close>
theorem align_optimal:
  "case align a b of
     None \<Rightarrow> MAX_ALIGNMENT_CELLS < (length a + 1) * (length b + 1)
   | Some ops \<Rightarrow> aligns ops a b \<and> op_cost ops = (LEAST n. edits n a b)"
proof (cases "MAX_ALIGNMENT_CELLS < (length a + 1) * (length b + 1)")
  case False
  obtain ops where ops: "trace_back (back_table a b) a b (length a) (length b) = Some ops"
    "aligns ops (rev a) (rev b)" "op_cost ops = lev a b"
    using trace_back_optimal [of "length a" a "length b" b] by (auto simp: prefix_lev_def)
  have "(LEAST n. edits n a b) = lev a b" by (intro Least_equality lev_edits lev_least)
  then show ?thesis using False ops aligns_rev [OF ops(2)] by (simp add: align_def op_cost_def rev_filter [symmetric])
qed (simp add: align_def)

end
