(* ===== verification/Correction.thy ===== *)
theory Correction
  imports Token_Masks Float64 "HOL-Library.Product_Lexorder"
begin

text \<open>
  The user-vocabulary correction, \<open>crates/voisu-core/src/vocabulary.rs\<close>: exact whole-token matches of
  the user's own terms are written back in the term's spelling, in the casing of the matched span,
  outside quotes and mentioned words and unless every word of the span was heard with confidence.
  Spans are character offsets.
\<close>

definition CONFIDENT_WORD_SKIP_THRESHOLD :: f64 where "CONFIDENT_WORD_SKIP_THRESHOLD = fl (9 / 10)"
definition USER_VOCABULARY_TERM_LIMIT :: nat where "USER_VOCABULARY_TERM_LIMIT = 200"

section \<open>Alphanumeric runs\<close>

record text_run =
  run_start :: nat
  run_end :: nat
  lowered :: utext

definition make_run :: "unicode \<Rightarrow> utext \<Rightarrow> nat \<Rightarrow> nat \<Rightarrow> text_run" where
  "make_run u t start stop =
     \<lparr>run_start = start, run_end = stop, lowered = to_lowercase u (take (stop - start) (drop start t))\<rparr>"

text \<open>The scan: the position, and where the current run began.\<close>

fun scan_runs :: "unicode \<Rightarrow> utext \<Rightarrow> nat \<Rightarrow> nat option \<Rightarrow> utext \<Rightarrow> text_run list" where
  "scan_runs u t i start [] = (case start of Some b \<Rightarrow> [make_run u t b i] | None \<Rightarrow> [])"
| "scan_runs u t i start (c # cs) =
     (if is_alphanumeric u c
      then scan_runs u t (i + 1) (case start of None \<Rightarrow> Some i | Some b \<Rightarrow> Some b) cs
      else (case start of Some b \<Rightarrow> [make_run u t b i] | None \<Rightarrow> []) @ scan_runs u t (i + 1) None cs)"

definition alphanumeric_runs :: "unicode \<Rightarrow> utext \<Rightarrow> text_run list" where
  "alphanumeric_runs u t = scan_runs u t 0 None t"

section \<open>Terms\<close>

record vocabulary_term =
  vt_original :: utext
  vt_runs :: "utext list"
  vt_separators :: utext

definition parse_term :: "unicode \<Rightarrow> utext \<Rightarrow> vocabulary_term option" where
  "parse_term u w =
     (let text = utrim w
      in if text = [] then None
         else if \<not> is_alphanumeric u (hd text) \<or> \<not> is_alphanumeric u (last text) then None
         else let runs = map lowered (alphanumeric_runs u text)
              in if runs = [] then None
                 else Some \<lparr>vt_original = text, vt_runs = runs, vt_separators = filter (\<lambda>c. \<not> is_alphanumeric u c) text\<rparr>)"

text \<open>Between two matched runs only white space and the term's own separators, never a sentence end.\<close>

definition separators_allowed :: "utext \<Rightarrow> text_run list \<Rightarrow> utext \<Rightarrow> bool" where
  "separators_allowed t runs separators =
     list_all (\<lambda>(a, b). list_all (\<lambda>c. c \<notin> {46, 33, 63} \<and> (is_whitespace c \<or> c \<in> set separators))
         (take (run_start b - run_end a) (drop (run_end a) t)))
       (zip runs (tl runs))"

definition masked_ranges :: "utext \<Rightarrow> (nat \<times> nat) list" where
  "masked_ranges t =
     (let toks = word_tokens t
      in map (\<lambda>(tok, _). (fst tok, fst (snd tok))) (filter snd (zip toks (masked_tokens toks))))"

section \<open>Confidence evidence\<close>

definition confidence_runs :: "unicode \<Rightarrow> (utext \<times> xf64) list \<Rightarrow> (utext \<times> xf64) list" where
  "confidence_runs u ev = concat (map (\<lambda>(w, c). map (\<lambda>r. (lowered r, c)) (alphanumeric_runs u w)) ev)"

definition evidence_occurrence_minima :: "utext list \<Rightarrow> (utext \<times> xf64) list \<Rightarrow> xf64 list" where
  "evidence_occurrence_minima runs ev =
     (if runs = [] \<or> length ev < length runs then []
      else map (\<lambda>start. fold (\<lambda>e m. xf_min m (snd e)) (take (length runs) (drop start ev)) PosInf)
        (filter (\<lambda>start. map fst (take (length runs) (drop start ev)) = runs) [0..<length ev - length runs + 1]))"

section \<open>Casing\<close>

datatype casing_shape = Lower | Title | Upper | Mixed

text \<open>The flags of \<open>casing_shape\<close>: any cased, all upper, all lower, all title; per run, how it started.\<close>

type_synonym casing_flags = "bool \<times> bool \<times> bool \<times> bool"

definition casing_char :: "unicode \<Rightarrow> nat \<Rightarrow> casing_flags \<times> bool option \<Rightarrow> casing_flags \<times> bool option" where
  "casing_char u c st =
     (case st of ((any_cased, all_upper, all_lower, all_title), started) \<Rightarrow>
        if u_uppercase u c
        then (case started of
                None \<Rightarrow> ((True, all_upper, False, all_title), Some True)
              | Some s \<Rightarrow> ((True, all_upper, False, False), Some s))
        else if u_lowercase u c
        then (case started of
                None \<Rightarrow> ((True, False, all_lower, False), Some False)
              | Some s \<Rightarrow> ((True, False, all_lower, all_title), Some s))
        else st)"

definition casing_run :: "unicode \<Rightarrow> utext \<Rightarrow> casing_flags \<Rightarrow> casing_flags" where
  "casing_run u cs flags =
     (case fold (casing_char u) cs (flags, None) of ((any_cased, all_upper, all_lower, all_title), started) \<Rightarrow>
        (any_cased, all_upper, all_lower, all_title \<and> started \<noteq> Some False))"

definition casing_shape_of :: "unicode \<Rightarrow> utext \<Rightarrow> casing_shape" where
  "casing_shape_of u sp =
     (case fold (\<lambda>r. casing_run u (take (run_end r - run_start r) (drop (run_start r) sp))) (alphanumeric_runs u sp)
             (False, True, True, True) of
        (any_cased, all_upper, all_lower, all_title) \<Rightarrow>
          if \<not> any_cased then Mixed else if all_upper then Upper else if all_lower then Lower
          else if all_title then Title else Mixed)"

fun titlecase_from :: "unicode \<Rightarrow> bool \<Rightarrow> utext \<Rightarrow> utext" where
  "titlecase_from u in_run [] = []"
| "titlecase_from u in_run (c # t) =
     (if is_alphanumeric u c
      then (if in_run then u_to_lower u c else u_to_upper u c) @ titlecase_from u True t
      else c # titlecase_from u False t)"

definition titlecase :: "unicode \<Rightarrow> utext \<Rightarrow> utext" where
  "titlecase u t = titlecase_from u False t"

definition shaped_term :: "unicode \<Rightarrow> utext \<Rightarrow> casing_shape \<Rightarrow> utext" where
  "shaped_term u w shape =
     (case shape of Lower \<Rightarrow> to_lowercase u w | Upper \<Rightarrow> to_uppercase u w | Title \<Rightarrow> titlecase u w | Mixed \<Rightarrow> w)"

section \<open>Matching and rewriting\<close>

record vocabulary_match =
  vm_start :: nat
  vm_end :: nat
  vm_replacement :: utext
  vm_order :: nat

text \<open>The starts where the text's runs spell the term, in order: their position is the occurrence.\<close>

definition term_occurrences :: "text_run list \<Rightarrow> vocabulary_term \<Rightarrow> nat list" where
  "term_occurrences runs w =
     filter (\<lambda>start. map lowered (take (length (vt_runs w)) (drop start runs)) = vt_runs w)
       [0..<length runs - (length (vt_runs w) - 1)]"

definition confidently_heard :: "xf64 list \<Rightarrow> nat \<Rightarrow> bool" where
  "confidently_heard minima occurrence \<longleftrightarrow>
     occurrence < length minima \<and> xf_le (Fin CONFIDENT_WORD_SKIP_THRESHOLD) (minima ! occurrence)"

definition term_match ::
  "unicode \<Rightarrow> utext \<Rightarrow> (nat \<times> nat) list \<Rightarrow> (utext \<times> xf64) list \<Rightarrow> text_run list \<Rightarrow> nat \<Rightarrow> vocabulary_term \<Rightarrow> nat \<times> nat
    \<Rightarrow> vocabulary_match option" where
  "term_match u t masked evidence runs order w os =
     (case os of (occurrence, start) \<Rightarrow>
        let matched = take (length (vt_runs w)) (drop start runs);
            span_start = run_start (hd matched); span_end = run_end (last matched)
        in if \<not> separators_allowed t matched (vt_separators w) then None
           else if list_ex (\<lambda>(a, b). span_start < b \<and> a < span_end) masked then None
           else if confidently_heard (evidence_occurrence_minima (vt_runs w) evidence) occurrence then None
           else Some \<lparr>vm_start = span_start, vm_end = span_end,
                  vm_replacement = shaped_term u (vt_original w)
                    (casing_shape_of u (take (span_end - span_start) (drop span_start t))),
                  vm_order = order\<rparr>)"

definition vocabulary_matches ::
  "unicode \<Rightarrow> utext \<Rightarrow> vocabulary_term list \<Rightarrow> (utext \<times> xf64) list \<Rightarrow> vocabulary_match list" where
  "vocabulary_matches u t terms ev =
     (let runs = alphanumeric_runs u t; masked = masked_ranges t; evidence = confidence_runs u ev
      in concat (map (\<lambda>(order, w). List.map_filter (term_match u t masked evidence runs order w)
                        (enumerate 0 (term_occurrences runs w)))
           (enumerate 0 terms)))"

text \<open>Leftmost first, longest first, dictionary order last; an overlapping match is dropped.\<close>

fun rewrite_matches :: "utext \<Rightarrow> nat \<Rightarrow> vocabulary_match list \<Rightarrow> utext" where
  "rewrite_matches t cursor [] = drop cursor t"
| "rewrite_matches t cursor (m # ms) =
     (if vm_start m < cursor then rewrite_matches t cursor ms
      else take (vm_start m - cursor) (drop cursor t) @ vm_replacement m @ rewrite_matches t (vm_end m) ms)"

definition apply_user_vocabulary :: "unicode \<Rightarrow> utext \<Rightarrow> utext list \<Rightarrow> (utext \<times> xf64) list \<Rightarrow> utext" where
  "apply_user_vocabulary u t vocabulary ev =
     (if t = [] then t
      else let terms = List.map_filter (parse_term u) (take USER_VOCABULARY_TERM_LIMIT vocabulary)
           in if terms = [] then t
              else rewrite_matches t 0
                     (sort_key (\<lambda>m. (int (vm_start m), - int (vm_end m), int (vm_order m))) (vocabulary_matches u t terms ev)))"

section \<open>What is heard with confidence is left alone\<close>

lemma xf_le_min: "xf_le a b \<Longrightarrow> xf_le a c \<Longrightarrow> xf_le a (xf_min b c)"
  by (simp add: xf_min_def)

lemma minima_confident:
  assumes "\<forall>e\<in>set es. xf_le (Fin c) (snd e)" "xf_le (Fin c) m"
  shows "xf_le (Fin c) (fold (\<lambda>e m. xf_min m (snd e)) es m)"
  using assms by (induction es arbitrary: m) (auto intro: xf_le_min)

lemma term_occurrences_evidence:
  assumes "map fst evidence = map lowered runs" "vt_runs w \<noteq> []"
  shows "length (evidence_occurrence_minima (vt_runs w) evidence) = length (term_occurrences runs w)"
proof -
  have len: "length evidence = length runs" using assms(1) by (metis length_map)
  have win: "map fst (take n (drop k evidence)) = map lowered (take n (drop k runs))" for n k
    by (metis assms(1) drop_map take_map)
  show ?thesis
  proof (cases "length runs < length (vt_runs w)")
    case True
    then have "length runs - (length (vt_runs w) - 1) = 0" by simp
    then show ?thesis using True by (simp add: evidence_occurrence_minima_def term_occurrences_def len)
  next
    case False
    then have "length runs - (length (vt_runs w) - 1) = length runs - length (vt_runs w) + 1"
      using assms(2) by (cases "vt_runs w") auto
    then show ?thesis
      using False assms(2) by (simp add: evidence_occurrence_minima_def term_occurrences_def len win)
  qed
qed

lemma parse_term_runs: "parse_term u w = Some v \<Longrightarrow> vt_runs v \<noteq> []"
  by (auto simp: parse_term_def Let_def split: if_splits)

lemma map_filter_empty: "(\<And>x. x \<in> set xs \<Longrightarrow> f x = None) \<Longrightarrow> List.map_filter f xs = []"
  by (induction xs) (auto simp: List.map_filter_simps)

text \<open>
  The vocabulary correction never overrides a confident hearing: when the evidence spells
  the words of the text and every confidence reaches the threshold, the text is returned unchanged
  whatever terms the user has, however often they occur.
\<close>
theorem confident_text_unchanged:
  assumes "map fst (confidence_runs u ev) = map lowered (alphanumeric_runs u t)"
    and "\<forall>(w, c)\<in>set ev. xf_le (Fin CONFIDENT_WORD_SKIP_THRESHOLD) c"
  shows "apply_user_vocabulary u t vocabulary ev = t"
proof -
  let ?E = "confidence_runs u ev" and ?runs = "alphanumeric_runs u t"
  have conf: "\<forall>e\<in>set ?E. xf_le (Fin CONFIDENT_WORD_SKIP_THRESHOLD) (snd e)"
    using assms(2) by (auto simp: confidence_runs_def)
  have heard: "confidently_heard (evidence_occurrence_minima (vt_runs v) ?E) k"
    if "vt_runs v \<noteq> []" "k < length (term_occurrences ?runs v)" for v k
  proof -
    let ?M = "evidence_occurrence_minima (vt_runs v) ?E"
    have k: "k < length ?M" using term_occurrences_evidence [OF assms(1)] that by simp
    then have "?M ! k \<in> set ?M" by simp
    moreover have "\<forall>m\<in>set ?M. xf_le (Fin CONFIDENT_WORD_SKIP_THRESHOLD) m"
      using conf by (auto simp: evidence_occurrence_minima_def intro!: minima_confident dest: in_set_takeD in_set_dropD)
    ultimately show ?thesis using k by (simp add: confidently_heard_def)
  qed
  have "vocabulary_matches u t terms ev = []" if "\<forall>v\<in>set terms. vt_runs v \<noteq> []" for terms
  proof -
    have "List.map_filter (term_match u t (masked_ranges t) ?E ?runs order v) (enumerate 0 (term_occurrences ?runs v)) = []"
      if "v \<in> set terms" for order v
      using heard [of v] that \<open>\<forall>v\<in>set terms. vt_runs v \<noteq> []\<close>
      by (intro map_filter_empty) (auto simp: term_match_def Let_def in_set_enumerate_eq)
    then show ?thesis by (auto simp: vocabulary_matches_def Let_def in_set_enumerate_eq)
  qed
  moreover have "\<forall>v\<in>set (List.map_filter (parse_term u) vs). vt_runs v \<noteq> []" for vs
    by (auto simp: List.map_filter_def dest: parse_term_runs)
  ultimately show ?thesis by (simp add: apply_user_vocabulary_def Let_def)
qed

theorem confident_text_unchanged_witness:
  "apply_user_vocabulary ascii (lit ''ask Rust'') [lit ''rust''] [(lit ''ask'', Fin 1), (lit ''Rust'', Fin 1)] = lit ''ask Rust''"
  by (rule confident_text_unchanged) code_simp+

text \<open>
  The correction is not idempotent: joining a term over the cue \<open>words\<close> removes the cue, so
  words that were protected as mentioned are corrected by a second application.
\<close>
theorem correction_not_idempotent:
  "let correct = (\<lambda>t. apply_user_vocabulary ascii t [lit ''x-words'', lit ''y-z''] [])
   in correct (lit ''x words y z'') = lit ''x-words y z''
      \<and> correct (correct (lit ''x words y z'')) = lit ''x-words y-z''"
  by code_simp

end
