(* ===== verification/Decision.thy ===== *)
theory Decision
  imports Arbitration Correction Providers
begin

text \<open>
  The transcript decision pipeline, \<open>TranscriptDecisionPipeline\<close> of \<open>crates/voisu-core/src/lib.rs\<close>:
  from the Source Transcripts of a Recording to the Transcript that is delivered, or the error that
  refuses it.

  The reconciliation model is a parameter with its own state: a request yields the new state and a
  call, which says when the future resolves and with what, and how long it needs to finish once it is
  cancelled. The pipeline threads a \<open>run\<close>: the model state, the time spent waiting for the model and
  the requests made, in order.
\<close>

section \<open>Decisions\<close>

datatype transcript_selection =
    Complementary | NearIdenticalGroq | Reconciled | Repaired | IntentReconstructed | SourceDeepgram | SourceGroq

datatype intent_reconstruction_outcome = Accepted | Rejected | IntentFailed | IntentDeadline | Skipped

record intent_evidence =
  ie_eligibility :: intent_reconstruction_eligibility
  ie_outcome :: intent_reconstruction_outcome
  ie_candidate :: "utext option"

definition intent_skipped :: "intent_reconstruction_eligibility \<Rightarrow> intent_evidence" where
  "intent_skipped e = \<lparr>ie_eligibility = e, ie_outcome = Skipped, ie_candidate = None\<rparr>"

record arbitration_diagnostic =
  ad_considered :: nat
  ad_flipped :: nat
  ad_rejections :: "arbitration_rejection list"

record transcript_decision =
  td_transcript :: utext
  td_selection :: transcript_selection
  td_validation_reason :: string
  td_fallback_reason :: "string option"
  td_reconciliation_requested :: bool
  td_recovery_attempted :: bool
  td_diagnostic :: source_selection_diagnostic
  td_intent :: "intent_evidence option"
  td_arbitration :: "arbitration_diagnostic option"

section \<open>The model and the run\<close>

datatype reconciliation_kind = Reconcile | Repair

datatype model_request =
    ModelRequest reconciliation_kind "source_transcript list" "utext option"
  | IntentRequest "source_transcript list" "utext list"

record model_call =
  mc_result :: "(boundary_error + utext) future"
  mc_cleanup :: "unit future"

type_synonym 'm model = "'m \<Rightarrow> model_request \<Rightarrow> 'm \<times> model_call"

text \<open>The trait's default: an intent request is an ordinary reconciliation of its sources.\<close>

definition default_reconstruct_intent :: "'m model \<Rightarrow> 'm model" where
  "default_reconstruct_intent request s r =
     (case r of IntentRequest ss _ \<Rightarrow> request s (ModelRequest Reconcile ss None) | _ \<Rightarrow> request s r)"

record 'm run =
  run_model :: 'm
  run_elapsed :: duration
  run_requests :: "model_request list"

definition fresh_run :: "'m \<Rightarrow> 'm run" where
  "fresh_run s = \<lparr>run_model = s, run_elapsed = 0, run_requests = []\<rparr>"

definition RECONCILIATION_CLEANUP_GRACE :: duration where
  "RECONCILIATION_CLEANUP_GRACE = from_secs 3"

datatype model_call_failure = CallFailed boundary_error | DeadlineElapsed

text \<open>The deadline, then cancellation and the bounded wait for the cancelled request.\<close>

definition bounded_model_call :: "duration \<Rightarrow> model_call \<Rightarrow> duration \<times> (model_call_failure + utext)" where
  "bounded_model_call d c =
     (case bounded d (mc_result c) of
        (t, Some (Inr r)) \<Rightarrow> (t, Inr r)
      | (t, Some (Inl e)) \<Rightarrow> (t, Inl (CallFailed e))
      | (t, None) \<Rightarrow> (t + fst (bounded RECONCILIATION_CLEANUP_GRACE (mc_cleanup c)), Inl DeadlineElapsed))"

definition ask_model :: "'m model \<Rightarrow> duration \<Rightarrow> model_request \<Rightarrow> 'm run \<Rightarrow> (model_call_failure + utext) \<times> 'm run" where
  "ask_model request d r rn =
     (case request (run_model rn) r of (s, c) \<Rightarrow>
        (case bounded_model_call d c of (t, res) \<Rightarrow>
           (res, \<lparr>run_model = s, run_elapsed = run_elapsed rn + t, run_requests = run_requests rn @ [r]\<rparr>)))"

record pipeline =
  pl_deadline :: duration
  pl_dictionary_terms :: "utext list"
  pl_user_vocabulary :: "utext list"
  pl_word_confidences :: "xf64 provider_word_confidences list"
  pl_intent_reconstruction :: bool

definition pipeline_new :: "duration \<Rightarrow> pipeline" where
  "pipeline_new d = \<lparr>pl_deadline = d, pl_dictionary_terms = [], pl_user_vocabulary = [],
     pl_word_confidences = [], pl_intent_reconstruction = False\<rparr>"

definition with_dictionary_terms :: "duration \<Rightarrow> utext list \<Rightarrow> pipeline" where
  "with_dictionary_terms d terms = (pipeline_new d)\<lparr>pl_dictionary_terms := terms\<rparr>"

definition with_intent_reconstruction :: "duration \<Rightarrow> utext list \<Rightarrow> pipeline" where
  "with_intent_reconstruction d terms = (pipeline_new d)\<lparr>pl_dictionary_terms := terms, pl_intent_reconstruction := True\<rparr>"

definition set_dictionary_terms :: "utext list \<Rightarrow> pipeline \<Rightarrow> pipeline" where
  "set_dictionary_terms terms p = p\<lparr>pl_dictionary_terms := terms\<rparr>"

definition set_user_vocabulary :: "utext list \<Rightarrow> pipeline \<Rightarrow> pipeline" where
  "set_user_vocabulary terms p = p\<lparr>pl_user_vocabulary := terms\<rparr>"

definition set_word_confidences :: "xf64 provider_word_confidences list \<Rightarrow> pipeline \<Rightarrow> pipeline" where
  "set_word_confidences ev p = p\<lparr>pl_word_confidences := ev\<rparr>"

section \<open>Coverage and fallbacks\<close>

fun source_selection :: "provider \<Rightarrow> transcript_selection" where
  "source_selection Deepgram = SourceDeepgram"
| "source_selection Groq = SourceGroq"

definition coverage_of :: "unicode \<Rightarrow> source_transcript list \<Rightarrow> nat \<Rightarrow> source_coverage_record" where
  "coverage_of u ss index =
     (let src = ss ! index; ws = normalized_words u (st_text src);
          other_words = (case find (\<lambda>k. k \<noteq> index) [0..<length ss] of
                           Some k \<Rightarrow> normalized_words u (st_text (ss ! k)) | None \<Rightarrow> []);
          discount = repetition_discount_of ws other_words
      in \<lparr>scr_provider = st_provider src, raw_words = length ws, adjusted_coverage = length ws - discount,
          repetition_discount = discount,
          safety_passed = (ws \<noteq> [] \<and> non_contraction_quality_failure_reason u (st_text src) [src] = None)\<rparr>)"

definition source_coverage :: "unicode \<Rightarrow> source_transcript list \<Rightarrow> source_coverage_record list" where
  "source_coverage u ss = map (coverage_of u ss) [0..<length ss]"

definition selection_diagnostic ::
  "unicode \<Rightarrow> source_transcript list \<Rightarrow> provider option \<Rightarrow> source_selection_confidence option \<Rightarrow> source_selection_diagnostic" where
  "selection_diagnostic u ss p c = \<lparr>ssd_sources = source_coverage u ss, selected_provider = p, ssd_confidence = c\<rparr>"

definition quality_safe_sources :: "unicode \<Rightarrow> source_transcript list \<Rightarrow> source_transcript list" where
  "quality_safe_sources u ss =
     filter (\<lambda>s. normalized_words u (st_text s) \<noteq> [] \<and> non_contraction_quality_failure_reason u (st_text s) [s] = None) ss"

definition source_fallback_refusal :: "unicode \<Rightarrow> source_transcript list \<Rightarrow> string \<Rightarrow> bool \<Rightarrow> bool \<Rightarrow> boundary_error" where
  "source_fallback_refusal u ss reason requested attempted =
     (let vr = reason @ ''; neither Source Transcript is safe''
      in with_transcript_failure (boundary_error_new Validation vr)
           \<lparr>validation_reason = vr, fallback_reason = Some reason, reconciliation_requested = requested,
            recovery_attempted = attempted, tfe_selection = selection_diagnostic u ss None None\<rparr>)"

definition source_fallback_decision ::
  "source_transcript \<Rightarrow> string \<Rightarrow> bool \<Rightarrow> bool \<Rightarrow> string \<Rightarrow> source_selection_diagnostic \<Rightarrow> transcript_decision" where
  "source_fallback_decision src reason requested attempted vr diag =
     \<lparr>td_transcript = utrim (st_text src), td_selection = source_selection (st_provider src), td_validation_reason = vr,
      td_fallback_reason = Some reason, td_reconciliation_requested = requested, td_recovery_attempted = attempted,
      td_diagnostic = diag, td_intent = None, td_arbitration = None\<rparr>"

definition MATERIAL_COMPLETENESS_RATIO :: f64 where "MATERIAL_COMPLETENESS_RATIO = fl (80 / 100)"

record complete_source_preference =
  csp_source :: source_transcript
  csp_material :: bool
  csp_diagnostic :: string
  csp_selection_diagnostic :: source_selection_diagnostic

definition side_of :: "provider \<Rightarrow> source_transcript \<Rightarrow> nat \<Rightarrow> nat \<Rightarrow> nat" where
  "side_of p left l r = (if st_provider left = p then l else r)"

definition complete_source_preference_of :: "unicode \<Rightarrow> source_transcript \<Rightarrow> source_transcript \<Rightarrow> complete_source_preference" where
  "complete_source_preference_of u left right =
     (let coverage = source_coverage u [left, right]; l = coverage ! 0; r = coverage ! 1;
          (source, fuller, shorter) =
            (if adjusted_coverage r < adjusted_coverage l then (left, adjusted_coverage l, adjusted_coverage r)
             else (right, adjusted_coverage r, adjusted_coverage l))
      in \<lparr>csp_source = source,
          csp_material = (0 < fuller \<and> ratio shorter fuller < MATERIAL_COMPLETENESS_RATIO),
          csp_diagnostic =
            ''materially fuller safe Source Transcript selected; raw words Deepgram=''
            @ show_nat (side_of Deepgram left (raw_words l) (raw_words r)) @ '' Groq=''
            @ show_nat (side_of Groq left (raw_words l) (raw_words r)) @ ''; adjusted coverage Deepgram=''
            @ show_nat (side_of Deepgram left (adjusted_coverage l) (adjusted_coverage r)) @ '' Groq=''
            @ show_nat (side_of Groq left (adjusted_coverage l) (adjusted_coverage r)) @ ''; repetition discount Deepgram=''
            @ show_nat (side_of Deepgram left (repetition_discount l) (repetition_discount r)) @ '' Groq=''
            @ show_nat (side_of Groq left (repetition_discount l) (repetition_discount r)) @ ''; selected provider=''
            @ provider_cli_label (st_provider source) @ ''; confidence high; safety passed'',
          csp_selection_diagnostic =
            \<lparr>ssd_sources = coverage, selected_provider = Some (st_provider source), ssd_confidence = Some High\<rparr>\<rparr>)"

definition TIERS_REASON :: string where
  "TIERS_REASON = ''safe Source Transcript selected by existing evidence tiers''"

definition contraction_source_fallback ::
  "unicode \<Rightarrow> source_transcript list \<Rightarrow> string \<Rightarrow> bool \<Rightarrow> bool \<Rightarrow> boundary_error + transcript_decision" where
  "contraction_source_fallback u ss reason requested attempted =
     (let selected = (case quality_safe_sources u ss of
            [] \<Rightarrow> None
          | [only] \<Rightarrow> Some (only, selection_diagnostic u ss (Some (st_provider only)) (Some High))
          | left # right # _ \<Rightarrow>
              (let pref = complete_source_preference_of u left right
               in Some (csp_source pref, csp_selection_diagnostic pref)))
      in case selected of
           None \<Rightarrow> Inl (source_fallback_refusal u ss reason requested attempted)
         | Some (src, diag) \<Rightarrow>
             Inr (source_fallback_decision src reason requested attempted
               ''fuller safe Source Transcript delivered after a rejected contraction'' diag))"

definition safe_source_fallback ::
  "unicode \<Rightarrow> source_transcript list \<Rightarrow> string \<Rightarrow> bool \<Rightarrow> bool \<Rightarrow> boundary_error + transcript_decision" where
  "safe_source_fallback u ss reason requested attempted =
     (case quality_safe_sources u ss of
        [] \<Rightarrow> Inl (source_fallback_refusal u ss reason requested attempted)
      | [only] \<Rightarrow>
          Inr (source_fallback_decision only reason requested attempted TIERS_REASON
            (selection_diagnostic u ss (Some (st_provider only)) (Some High)))
      | left # right # _ \<Rightarrow>
          (let pref = complete_source_preference_of u left right
           in if csp_material pref
              then Inr (source_fallback_decision (csp_source pref) reason requested attempted (csp_diagnostic pref)
                     (csp_selection_diagnostic pref))
              else case select_better_source (normalized_words u (st_text left)) (normalized_words u (st_text right)) of
                     (winner, evidence) \<Rightarrow>
                       (let selected = (case winner of LeftSide \<Rightarrow> left | RightSide \<Rightarrow> right)
                        in Inr (source_fallback_decision selected reason requested attempted TIERS_REASON
                             (selection_diagnostic u ss (Some (st_provider selected)) (Some (evidence_confidence evidence)))))))"

section \<open>The decision\<close>

definition model_decision ::
  "unicode \<Rightarrow> source_transcript list \<Rightarrow> utext \<Rightarrow> transcript_selection \<Rightarrow> string \<Rightarrow> string option \<Rightarrow> bool \<Rightarrow> bool \<Rightarrow> transcript_decision" where
  "model_decision u ss t sel vr fr requested attempted =
     \<lparr>td_transcript = utrim t, td_selection = sel, td_validation_reason = vr, td_fallback_reason = fr,
      td_reconciliation_requested = requested, td_recovery_attempted = attempted,
      td_diagnostic = selection_diagnostic u ss None None, td_intent = None, td_arbitration = None\<rparr>"

definition repair_candidate ::
  "unicode \<Rightarrow> 'm model \<Rightarrow> duration \<Rightarrow> source_transcript list \<Rightarrow> utext \<Rightarrow> string \<Rightarrow> bool \<Rightarrow> 'm run
    \<Rightarrow> (boundary_error + transcript_decision) \<times> 'm run" where
  "repair_candidate u request d ss candidate reason requested rn =
     (case ask_model request d (ModelRequest Repair ss (Some candidate)) rn of
        (Inl (CallFailed e), rn') \<Rightarrow>
          (safe_source_fallback u ss (''recovery failed: '' @ diagnostic e) requested True, rn')
      | (Inl DeadlineElapsed, rn') \<Rightarrow> (safe_source_fallback u ss ''recovery deadline elapsed'' requested True, rn')
      | (Inr repaired, rn') \<Rightarrow>
          (let failure = quality_failure_reason u repaired ss
           in (case failure of
                 Some f \<Rightarrow>
                   (if \<not> is_contraction f
                    then safe_source_fallback u ss (''recovery produced '' @ failure_reason f) requested True
                    else if \<not> is_source_derived u repaired ss
                    then safe_source_fallback u ss ''recovery produced words no Source Transcript contains'' requested True
                    else case contraction_source_fallback u ss (''recovery produced '' @ failure_reason f) requested True of
                           Inr decision \<Rightarrow> Inr decision
                         | Inl _ \<Rightarrow>
                             Inr (model_decision u ss repaired Repaired
                               (''repaired '' @ reason @ ''; delivered a contracted repair because neither Source Transcript is safe'')
                               (Some (failure_reason f)) requested True))
               | None \<Rightarrow>
                   (if \<not> is_source_derived u repaired ss
                    then safe_source_fallback u ss ''recovery produced words no Source Transcript contains'' requested True
                    else Inr (model_decision u ss repaired Repaired (''repaired '' @ reason) None requested True)), rn')))"

definition provider_source :: "provider \<Rightarrow> source_transcript list \<Rightarrow> source_transcript option" where
  "provider_source p ss = find (\<lambda>s. st_provider s = p) ss"

definition LEXICAL_REASON :: string where
  "LEXICAL_REASON = ''lexically different Source Transcripts; kept the Groq default because a difference in words may be a change of meaning''"

definition near_identical_decision ::
  "unicode \<Rightarrow> 'm model \<Rightarrow> pipeline \<Rightarrow> source_transcript list \<Rightarrow> source_transcript \<Rightarrow> source_transcript \<Rightarrow> pair_classification \<Rightarrow> 'm run
    \<Rightarrow> (boundary_error + transcript_decision) \<times> 'm run" where
  "near_identical_decision u request p ss dg gq c rn =
     (case (if is_lexically_identical c then near_identical_selection u (st_text dg) (st_text gq) (pl_dictionary_terms p)
            else (RightSide, LEXICAL_REASON)) of
        (winner, evidence) \<Rightarrow>
          let selected = (case winner of LeftSide \<Rightarrow> dg | RightSide \<Rightarrow> gq)
          in case non_contraction_quality_failure_reason u (st_text selected) ss of
               Some reason \<Rightarrow> repair_candidate u request (pl_deadline p) ss (utrim (st_text selected)) reason False rn
             | None \<Rightarrow>
                 (Inr \<lparr>td_transcript = utrim (st_text selected),
                    td_selection = (case st_provider selected of Deepgram \<Rightarrow> SourceDeepgram | Groq \<Rightarrow> NearIdenticalGroq),
                    td_validation_reason = ''near-identical Source Transcripts passed validation; '' @ evidence,
                    td_fallback_reason = None, td_reconciliation_requested = False, td_recovery_attempted = False,
                    td_diagnostic = selection_diagnostic u ss (Some (st_provider selected)) (pair_confidence c),
                    td_intent = None, td_arbitration = None\<rparr>, rn))"

definition GATE_REASON :: string where
  "GATE_REASON = ''catastrophically divergent Source Transcripts; selected the better source without merging''"

text \<open>The gate's winner, when there is one and it passes the guards itself.\<close>

definition gate_decision ::
  "unicode \<Rightarrow> source_transcript list \<Rightarrow> source_transcript \<Rightarrow> source_transcript \<Rightarrow> transcript_decision option" where
  "gate_decision u ss dg gq =
     (case source_quality_gate u (st_text dg) (st_text gq) of
        None \<Rightarrow> None
      | Some gate \<Rightarrow>
          (let winner = (case qg_winner gate of LeftSide \<Rightarrow> dg | RightSide \<Rightarrow> gq)
           in if non_contraction_quality_failure_reason u (st_text winner) ss = None
              then Some \<lparr>td_transcript = utrim (st_text winner), td_selection = source_selection (st_provider winner),
                     td_validation_reason = GATE_REASON, td_fallback_reason = Some (qg_reason gate),
                     td_reconciliation_requested = False, td_recovery_attempted = False,
                     td_diagnostic = selection_diagnostic u ss (Some (st_provider winner)) (Some (qg_confidence gate)),
                     td_intent = None, td_arbitration = None\<rparr>
              else None))"

definition reconcile_sources ::
  "unicode \<Rightarrow> 'm model \<Rightarrow> duration \<Rightarrow> source_transcript list \<Rightarrow> 'm run \<Rightarrow> (boundary_error + transcript_decision) \<times> 'm run" where
  "reconcile_sources u request d ss rn =
     (case ask_model request d (ModelRequest Reconcile ss None) rn of
        (Inl (CallFailed e), rn') \<Rightarrow>
          (safe_source_fallback u ss (''cloud reconciliation failed: '' @ diagnostic e) True False, rn')
      | (Inl DeadlineElapsed, rn') \<Rightarrow> (safe_source_fallback u ss ''cloud reconciliation deadline elapsed'' True False, rn')
      | (Inr merged, rn') \<Rightarrow>
          (case quality_failure_reason u merged ss of
             Some failure \<Rightarrow>
               (if is_contraction failure
                then (contraction_source_fallback u ss (failure_reason failure) True False, rn')
                else repair_candidate u request d ss merged (failure_reason failure) True rn')
           | None \<Rightarrow>
               (if \<not> is_source_derived u merged ss
                then (safe_source_fallback u ss ''reconciliation produced words absent from every Source Transcript'' True False, rn')
                else (Inr (model_decision u ss merged Reconciled ''Merge Result passed validation'' None True False), rn'))))"

definition single_source_decision ::
  "unicode \<Rightarrow> 'm model \<Rightarrow> duration \<Rightarrow> source_transcript list \<Rightarrow> 'm run \<Rightarrow> (boundary_error + transcript_decision) \<times> 'm run" where
  "single_source_decision u request d ss rn =
     (case ss of
        [] \<Rightarrow> (Inl (boundary_error_new Validation ''no Source Transcript''), rn)
      | src # _ \<Rightarrow>
          (case non_contraction_quality_failure_reason u (st_text src) ss of
             Some reason \<Rightarrow> repair_candidate u request d ss (utrim (st_text src)) reason False rn
           | None \<Rightarrow>
               (Inr \<lparr>td_transcript = utrim (st_text src), td_selection = source_selection (st_provider src),
                  td_validation_reason = ''Source Transcript passed validation'', td_fallback_reason = None,
                  td_reconciliation_requested = False, td_recovery_attempted = False,
                  td_diagnostic = selection_diagnostic u ss (Some (st_provider src)) (Some High),
                  td_intent = None, td_arbitration = None\<rparr>, rn)))"

definition SILENT_REASON :: string where
  "SILENT_REASON = ''didn't hear any words (removed filler like '' @ [CHR 0x22] @ ''thanks for watching'' @ [CHR 0x22] @ '')''"

definition silent_error :: "unicode \<Rightarrow> source_transcript list \<Rightarrow> boundary_error" where
  "silent_error u sanitized =
     with_transcript_failure (boundary_error_new SilentRecording SILENT_REASON)
       \<lparr>validation_reason = SILENT_REASON, fallback_reason = Some ''no words heard'', reconciliation_requested = False,
        recovery_attempted = False, tfe_selection = selection_diagnostic u sanitized None None\<rparr>"

definition usable_sources :: "unicode \<Rightarrow> source_transcript list \<Rightarrow> source_transcript list" where
  "usable_sources u ss = filter (\<lambda>s. st_text s \<noteq> []) (sanitize_source_transcripts u ss)"

definition decide_uncorrected ::
  "unicode \<Rightarrow> 'm model \<Rightarrow> pipeline \<Rightarrow> source_transcript list \<Rightarrow> 'm run \<Rightarrow> (boundary_error + transcript_decision) \<times> 'm run" where
  "decide_uncorrected u request p ss0 rn =
     (if usable_sources u ss0 = [] then (Inl (silent_error u (sanitize_source_transcripts u ss0)), rn)
      else let ss = sort_key st_provider (usable_sources u ss0)
           in case (provider_source Deepgram ss, provider_source Groq ss) of
                (Some dg, Some gq) \<Rightarrow>
                  (let c = source_pair_classification u (st_text dg) (st_text gq)
                   in if is_near_identical c then near_identical_decision u request p ss dg gq c rn
                      else case gate_decision u ss dg gq of
                             Some decision \<Rightarrow> (Inr decision, rn)
                           | None \<Rightarrow> reconcile_sources u request (pl_deadline p) ss rn)
              | _ \<Rightarrow> single_source_decision u request (pl_deadline p) ss rn)"

section \<open>Arbitration and correction of the decision\<close>

definition evidence_for :: "pipeline \<Rightarrow> provider \<Rightarrow> (utext \<times> xf64) list option" where
  "evidence_for p pr = map_option pwc_words (find (\<lambda>e. pwc_provider e = pr) (pl_word_confidences p))"

definition arbitrated :: "transcript_decision \<Rightarrow> arbitration_outcome \<Rightarrow> transcript_decision" where
  "arbitrated decision out =
     (let marked = decision\<lparr>td_arbitration := Some \<lparr>ad_considered = ao_considered out, ad_flipped = ao_flipped out,
            ad_rejections = ao_rejections out\<rparr>\<rparr>
      in if 0 < ao_flipped out
         then marked\<lparr>td_transcript := ao_text out,
                td_validation_reason := td_validation_reason decision @ ''; confidence arbitration flipped ''
                  @ show_nat (ao_flipped out) @ '' divergent region(s)''\<rparr>
         else marked)"

definition apply_confidence_arbitration ::
  "unicode \<Rightarrow> pipeline \<Rightarrow> transcript_decision \<Rightarrow> source_transcript list \<Rightarrow> transcript_decision" where
  "apply_confidence_arbitration u p decision ss =
     (if td_selection decision \<notin> {SourceDeepgram, SourceGroq, NearIdenticalGroq} then decision
      else let sanitized = usable_sources u ss
           in case (provider_source Deepgram sanitized, provider_source Groq sanitized) of
                (Some dg, Some gq) \<Rightarrow>
                  (case (if td_selection decision = SourceDeepgram then (dg, gq) else (gq, dg)) of
                     (incumbent, other) \<Rightarrow>
                       if utrim (st_text incumbent) \<noteq> td_transcript decision then decision
                       else case (evidence_for p (st_provider incumbent), evidence_for p (st_provider other)) of
                              (Some own, Some theirs) \<Rightarrow>
                                (if own = [] \<or> theirs = [] then decision
                                 else case arbitrate u \<lparr>ai_incumbent_text = utrim (st_text incumbent),
                                        ai_incumbent_confidences = own, ai_other_text = utrim (st_text other),
                                        ai_other_confidences = theirs, ai_sources = sanitized\<rparr> of
                                        None \<Rightarrow> decision
                                      | Some out \<Rightarrow> arbitrated decision out)
                            | _ \<Rightarrow> decision)
              | _ \<Rightarrow> decision)"

definition apply_user_vocabulary_correction :: "unicode \<Rightarrow> pipeline \<Rightarrow> transcript_decision \<Rightarrow> transcript_decision" where
  "apply_user_vocabulary_correction u p decision =
     (if pl_user_vocabulary p = [] then decision
      else let confidences = (if td_selection decision = SourceDeepgram
                 then (case evidence_for p Deepgram of Some ev \<Rightarrow> ev | None \<Rightarrow> []) else []);
               corrected = apply_user_vocabulary u (td_transcript decision) (pl_user_vocabulary p) confidences
           in if corrected \<noteq> td_transcript decision
              then decision\<lparr>td_transcript := corrected,
                     td_validation_reason := td_validation_reason decision @ ''; user vocabulary corrections applied''\<rparr>
              else decision)"

definition pipeline_decide ::
  "unicode \<Rightarrow> 'm model \<Rightarrow> pipeline \<Rightarrow> source_transcript list \<Rightarrow> 'm run \<Rightarrow> (boundary_error + transcript_decision) \<times> 'm run" where
  "pipeline_decide u request p ss rn =
     (case decide_uncorrected u request p ss rn of
        (Inl e, rn') \<Rightarrow> (Inl e, rn')
      | (Inr decision, rn') \<Rightarrow>
          (Inr (apply_user_vocabulary_correction u p (apply_confidence_arbitration u p decision ss)), rn'))"

section \<open>Intent Reconstruction\<close>

record intent_attempt =
  at_sources :: "source_transcript list"
  at_dictionary_terms :: "utext list"
  at_eligibility :: intent_reconstruction_eligibility
  at_classification :: pair_classification
  at_fallback :: "boundary_error + transcript_decision"

datatype prepared_decision = ReadyDecision transcript_decision | ReconstructAttempt intent_attempt

definition skipped_eligibility :: "transcript_decision \<Rightarrow> intent_reconstruction_eligibility" where
  "skipped_eligibility decision =
     (if td_selection decision = Repaired then RepairPath
      else if length (ssd_sources (td_diagnostic decision)) = 1 then SingleSource
      else NearIdenticalHighConfidence)"

definition prepare_attempt ::
  "unicode \<Rightarrow> pipeline \<Rightarrow> source_transcript list \<Rightarrow> intent_attempt option" where
  "prepare_attempt u p ss =
     (case (provider_source Deepgram ss, provider_source Groq ss) of
        (Some dg, Some gq) \<Rightarrow>
          (let c = source_pair_classification u (st_text dg) (st_text gq)
           in case intent_eligibility c of
                None \<Rightarrow> None
              | Some e \<Rightarrow>
                  (let fallback = safe_source_fallback u ss ''Intent Reconstruction fallback prepared'' True False;
                       fallback = (case (diagnostic_confidence c, fallback) of
                          (Some conf, Inr decision) \<Rightarrow>
                            Inr (decision\<lparr>td_diagnostic := (td_diagnostic decision)\<lparr>ssd_confidence := Some conf\<rparr>\<rparr>)
                        | _ \<Rightarrow> fallback)
                   in Some \<lparr>at_sources = ss, at_dictionary_terms = pl_dictionary_terms p, at_eligibility = e,
                        at_classification = c, at_fallback = fallback\<rparr>))
      | _ \<Rightarrow> None)"

definition pipeline_prepare ::
  "unicode \<Rightarrow> 'm model \<Rightarrow> pipeline \<Rightarrow> source_transcript list \<Rightarrow> 'm run \<Rightarrow> (boundary_error + prepared_decision) \<times> 'm run" where
  "pipeline_prepare u request p ss0 rn =
     (if \<not> pl_intent_reconstruction p
      then (case pipeline_decide u request p ss0 rn of
              (Inl e, rn') \<Rightarrow> (Inl e, rn')
            | (Inr decision, rn') \<Rightarrow> (Inr (ReadyDecision decision), rn'))
      else let ss = sort_key st_provider (usable_sources u ss0)
           in case prepare_attempt u p ss of
                Some attempt \<Rightarrow> (Inr (ReconstructAttempt attempt), rn)
              | None \<Rightarrow>
                  (case pipeline_decide u request p ss rn of
                     (Inl e, rn') \<Rightarrow> (Inl e, rn')
                   | (Inr decision, rn') \<Rightarrow>
                       (Inr (ReadyDecision (decision\<lparr>td_intent := Some (intent_skipped (skipped_eligibility decision))\<rparr>)), rn')))"

definition intent_fallback ::
  "boundary_error + transcript_decision \<Rightarrow> intent_reconstruction_eligibility \<Rightarrow> intent_reconstruction_outcome \<Rightarrow> string
    \<Rightarrow> utext option \<Rightarrow> boundary_error + transcript_decision" where
  "intent_fallback fallback e out reason candidate =
     (case fallback of
        Inl err \<Rightarrow> Inl err
      | Inr decision \<Rightarrow>
          Inr (decision\<lparr>td_validation_reason := reason, td_fallback_reason := Some reason, td_reconciliation_requested := True,
                 td_intent := Some \<lparr>ie_eligibility = e, ie_outcome = out, ie_candidate = candidate\<rparr>\<rparr>))"

definition MAX_STORED_TEXT :: nat where "MAX_STORED_TEXT = 8 * 1024"
definition MAX_INTENT_RECONSTRUCTION_UTF8_BYTES :: nat where "MAX_INTENT_RECONSTRUCTION_UTF8_BYTES = 100000"

fun clamp_utf8_bytes :: "utext \<Rightarrow> nat \<Rightarrow> utext" where
  "clamp_utf8_bytes [] n = []"
| "clamp_utf8_bytes (c # t) n = (if len_utf8 c \<le> n then c # clamp_utf8_bytes t (n - len_utf8 c) else [])"

definition reconstruct_uncorrected ::
  "unicode \<Rightarrow> 'm model \<Rightarrow> pipeline \<Rightarrow> intent_attempt \<Rightarrow> 'm run \<Rightarrow> (boundary_error + transcript_decision) \<times> 'm run" where
  "reconstruct_uncorrected u request p a rn =
     (case ask_model request (pl_deadline p) (IntentRequest (at_sources a) (at_dictionary_terms a)) rn of
        (Inl (CallFailed e), rn') \<Rightarrow>
          (intent_fallback (at_fallback a) (at_eligibility a) IntentFailed (''Intent Reconstruction failed: '' @ diagnostic e) None, rn')
      | (Inl DeadlineElapsed, rn') \<Rightarrow>
          (intent_fallback (at_fallback a) (at_eligibility a) IntentDeadline ''Intent Reconstruction deadline elapsed'' None, rn')
      | (Inr candidate, rn') \<Rightarrow>
          (let wording = utrim candidate; bounded_candidate = Some (clamp_utf8_bytes wording MAX_STORED_TEXT)
           in (if wording = [] \<or> MAX_INTENT_RECONSTRUCTION_UTF8_BYTES < byte_len wording
                  \<or> sanitize_source_transcript_text u wording \<noteq> wording
               then intent_fallback (at_fallback a) (at_eligibility a) Rejected
                      ''Intent Reconstruction returned empty, oversized, or outro text'' bounded_candidate
               else Inr \<lparr>td_transcript = wording, td_selection = IntentReconstructed,
                      td_validation_reason = ''Intent Reconstruction passed validation'', td_fallback_reason = None,
                      td_reconciliation_requested = True, td_recovery_attempted = False,
                      td_diagnostic = selection_diagnostic u (at_sources a) None (diagnostic_confidence (at_classification a)),
                      td_intent = Some \<lparr>ie_eligibility = at_eligibility a, ie_outcome = Accepted, ie_candidate = bounded_candidate\<rparr>,
                      td_arbitration = None\<rparr>, rn')))"

definition pipeline_reconstruct ::
  "unicode \<Rightarrow> 'm model \<Rightarrow> pipeline \<Rightarrow> intent_attempt \<Rightarrow> 'm run \<Rightarrow> (boundary_error + transcript_decision) \<times> 'm run" where
  "pipeline_reconstruct u request p a rn =
     (case reconstruct_uncorrected u request p a rn of
        (Inl e, rn') \<Rightarrow> (Inl e, rn')
      | (Inr decision, rn') \<Rightarrow> (Inr (apply_user_vocabulary_correction u p decision), rn'))"

text \<open>Preparation and, where it asks for one, the reconstruction: the decision on a Recording.\<close>

definition decide_recording ::
  "unicode \<Rightarrow> 'm model \<Rightarrow> pipeline \<Rightarrow> source_transcript list \<Rightarrow> 'm run \<Rightarrow> (boundary_error + transcript_decision) \<times> 'm run" where
  "decide_recording u request p ss rn =
     (case pipeline_prepare u request p ss rn of
        (Inl e, rn') \<Rightarrow> (Inl e, rn')
      | (Inr (ReadyDecision decision), rn') \<Rightarrow> (Inr decision, rn')
      | (Inr (ReconstructAttempt attempt), rn') \<Rightarrow> pipeline_reconstruct u request p attempt rn')"

section \<open>What may be delivered\<close>

lemma guards_utrim [simp]:
  "quality_failure_reason u (utrim t) ss = quality_failure_reason u t ss"
  "non_contraction_quality_failure_reason u (utrim t) ss = non_contraction_quality_failure_reason u t ss"
  "is_source_derived u (utrim t) ss = is_source_derived u t ss"
  by (simp_all add: quality_failure_reason_def non_contraction_quality_failure_reason_def is_source_derived_def Let_def)

text \<open>
  A decision is admissible for a list of sources when it is a trimmed source that passes the guards
  (beside its sibling or alone), or a model text that passes them and is derived from the sources.
\<close>

definition from_source :: "unicode \<Rightarrow> source_transcript list \<Rightarrow> transcript_decision \<Rightarrow> bool" where
  "from_source u ss d \<longleftrightarrow>
     (\<exists>s\<in>set ss. td_transcript d = utrim (st_text s)
        \<and> (case td_selection d of SourceDeepgram \<Rightarrow> st_provider s = Deepgram | SourceGroq \<Rightarrow> st_provider s = Groq
           | NearIdenticalGroq \<Rightarrow> st_provider s = Groq | _ \<Rightarrow> False)
        \<and> (non_contraction_quality_failure_reason u (st_text s) ss = None
           \<or> non_contraction_quality_failure_reason u (st_text s) [s] = None))"

definition from_model :: "unicode \<Rightarrow> source_transcript list \<Rightarrow> transcript_decision \<Rightarrow> bool" where
  "from_model u ss d \<longleftrightarrow>
     td_selection d \<in> {Reconciled, Repaired} \<and> is_source_derived u (td_transcript d) ss
     \<and> non_contraction_quality_failure_reason u (td_transcript d) ss = None
     \<and> (td_selection d = Reconciled \<longrightarrow> quality_failure_reason u (td_transcript d) ss = None \<and> 2 \<le> length ss)"

definition admissible :: "unicode \<Rightarrow> source_transcript list \<Rightarrow> transcript_decision \<Rightarrow> bool" where
  "admissible u ss d \<longleftrightarrow> from_source u ss d \<or> from_model u ss d"

text \<open>The contract every branch of the decision keeps: an admissible decision, or a refusal without a safe source.\<close>

definition sound_result :: "unicode \<Rightarrow> source_transcript list \<Rightarrow> boundary_error + transcript_decision \<Rightarrow> bool" where
  "sound_result u ss r =
     (case r of Inr d \<Rightarrow> admissible u ss d
      | Inl e \<Rightarrow> kind e = Validation \<and> quality_safe_sources u ss = [])"

lemma source_selection_provider [simp]:
  "(case source_selection p of SourceDeepgram \<Rightarrow> q = Deepgram | SourceGroq \<Rightarrow> q = Groq
      | NearIdenticalGroq \<Rightarrow> q = Groq | _ \<Rightarrow> False) \<longleftrightarrow> q = p"
  by (cases p) auto

lemma safe_source_from_source:
  assumes "s \<in> set (quality_safe_sources u ss)"
  shows "from_source u ss (source_fallback_decision s reason req att vr diag)"
  using assms by (auto simp: from_source_def quality_safe_sources_def source_fallback_decision_def)

lemma csp_source_cases: "csp_source (complete_source_preference_of u l r) \<in> {l, r}"
  by (simp add: complete_source_preference_of_def Let_def split: prod.splits)

lemma refusal_kind [simp]: "kind (source_fallback_refusal u ss reason req att) = Validation"
  by (simp add: source_fallback_refusal_def Let_def with_transcript_failure_def boundary_error_new_def)

lemma contraction_fallback_sound: "sound_result u ss (contraction_source_fallback u ss reason req att)"
proof (cases "quality_safe_sources u ss")
  case Nil
  then show ?thesis by (simp add: sound_result_def contraction_source_fallback_def)
next
  case (Cons s rest)
  show ?thesis
  proof (cases rest)
    case Nil
    then show ?thesis using Cons safe_source_from_source [of s u ss]
      by (simp add: sound_result_def admissible_def contraction_source_fallback_def)
  next
    case (Cons s' rest')
    have "csp_source (complete_source_preference_of u s s') \<in> set (quality_safe_sources u ss)"
      using csp_source_cases [of u s s'] Cons \<open>quality_safe_sources u ss = s # rest\<close> by auto
    then show ?thesis using Cons \<open>quality_safe_sources u ss = s # rest\<close> safe_source_from_source
      by (simp add: sound_result_def admissible_def contraction_source_fallback_def Let_def)
  qed
qed

lemma safe_fallback_sound: "sound_result u ss (safe_source_fallback u ss reason req att)"
proof (cases "quality_safe_sources u ss")
  case Nil
  then show ?thesis by (simp add: sound_result_def safe_source_fallback_def)
next
  case (Cons s rest)
  show ?thesis
  proof (cases rest)
    case Nil
    then show ?thesis using Cons safe_source_from_source [of s u ss]
      by (simp add: sound_result_def admissible_def safe_source_fallback_def)
  next
    case (Cons s' rest')
    have "csp_source (complete_source_preference_of u s s') \<in> set (quality_safe_sources u ss)"
      "s \<in> set (quality_safe_sources u ss)" "s' \<in> set (quality_safe_sources u ss)"
      using csp_source_cases [of u s s'] Cons \<open>quality_safe_sources u ss = s # rest\<close> by auto
    then show ?thesis using Cons \<open>quality_safe_sources u ss = s # rest\<close> safe_source_from_source
      by (auto simp: sound_result_def admissible_def safe_source_fallback_def Let_def split: prod.splits gate_winner.splits)
  qed
qed

lemma model_decision_sound:
  assumes "is_source_derived u t ss" "non_contraction_quality_failure_reason u t ss = None"
    "sel = Repaired \<or> (sel = Reconciled \<and> quality_failure_reason u t ss = None \<and> 2 \<le> length ss)"
  shows "admissible u ss (model_decision u ss t sel vr fr req att)"
  using assms by (auto simp: admissible_def from_model_def model_decision_def)

lemma sound_result_Inr [simp]: "sound_result u ss (Inr d) \<longleftrightarrow> admissible u ss d"
  by (simp add: sound_result_def)

lemma contraction_fallback_admissible:
  "contraction_source_fallback u ss reason req att = Inr d \<Longrightarrow> admissible u ss d"
  using contraction_fallback_sound [of u ss reason req att] by simp

declare safe_fallback_sound [simp] contraction_fallback_sound [simp]

lemma repair_sound: "sound_result u ss (fst (repair_candidate u request d ss cand reason req rn))"
proof -
  obtain res rn' where ask: "ask_model request d (ModelRequest Repair ss (Some cand)) rn = (res, rn')" by force
  show ?thesis
  proof (cases res)
    case (Inl f)
    then show ?thesis using ask by (cases f) (simp_all add: repair_candidate_def)
  next
    case (Inr repaired)
    then show ?thesis using ask
      by (auto simp: repair_candidate_def Let_def non_contraction_quality_failure_reason_def
          split: option.splits sum.splits intro!: model_decision_sound dest: contraction_fallback_admissible)
  qed
qed

lemma reconcile_sound:
  assumes "2 \<le> length ss"
  shows "sound_result u ss (fst (reconcile_sources u request d ss rn))"
proof -
  obtain res rn' where ask: "ask_model request d (ModelRequest Reconcile ss None) rn = (res, rn')" by force
  show ?thesis
  proof (cases res)
    case (Inl f)
    then show ?thesis using ask by (cases f) (simp_all add: reconcile_sources_def)
  next
    case (Inr merged)
    then show ?thesis using ask assms
      by (auto simp: reconcile_sources_def repair_sound non_contraction_quality_failure_reason_def
          split: option.splits intro!: model_decision_sound)
  qed
qed

lemma provider_source_SomeD: "provider_source p ss = Some s \<Longrightarrow> s \<in> set ss \<and> st_provider s = p"
  by (auto simp: provider_source_def dest: find_SomeD)

lemma two_sources:
  assumes "provider_source Deepgram ss = Some dg" "provider_source Groq ss = Some gq"
  shows "2 \<le> length ss"
proof -
  have "{dg, gq} \<subseteq> set ss" "dg \<noteq> gq" using assms [THEN provider_source_SomeD] by auto
  then have "card {dg, gq} \<le> card (set ss)" by (intro card_mono) auto
  then show ?thesis using \<open>dg \<noteq> gq\<close> card_length [of ss] by simp
qed

lemma near_identical_sound:
  assumes "provider_source Deepgram ss = Some dg" "provider_source Groq ss = Some gq"
  shows "sound_result u ss (fst (near_identical_decision u request p ss dg gq c rn))"
  using provider_source_SomeD [OF assms(1)] provider_source_SomeD [OF assms(2)]
  by (auto simp: near_identical_decision_def Let_def repair_sound admissible_def from_source_def
      split: prod.splits option.splits gate_winner.splits)

lemma gate_sound:
  assumes "provider_source Deepgram ss = Some dg" "provider_source Groq ss = Some gq" "gate_decision u ss dg gq = Some d"
  shows "admissible u ss d"
  using provider_source_SomeD [OF assms(1)] provider_source_SomeD [OF assms(2)] assms(3)
  by (auto simp: gate_decision_def Let_def admissible_def from_source_def split: option.splits gate_winner.splits if_splits)

lemma single_source_sound: "ss \<noteq> [] \<Longrightarrow> sound_result u ss (fst (single_source_decision u request d ss rn))"
  by (cases ss) (auto simp: single_source_decision_def repair_sound admissible_def from_source_def split: option.splits)

abbreviation sorted_sources :: "unicode \<Rightarrow> source_transcript list \<Rightarrow> source_transcript list" where
  "sorted_sources u ss \<equiv> sort_key st_provider (usable_sources u ss)"

lemma decide_uncorrected_sound:
  assumes "usable_sources u ss \<noteq> []"
  shows "sound_result u (sorted_sources u ss) (fst (decide_uncorrected u request p ss rn))"
proof -
  let ?ss = "sorted_sources u ss"
  have ne: "?ss \<noteq> []" using assms by (metis length_0_conv length_sort)
  consider dg gq where "provider_source Deepgram ?ss = Some dg" "provider_source Groq ?ss = Some gq"
    | "provider_source Deepgram ?ss = None" | "provider_source Groq ?ss = None" by fastforce
  then show ?thesis
  proof cases
    case 1
    then show ?thesis using assms near_identical_sound [OF 1] gate_sound [OF 1] reconcile_sound [OF two_sources [OF 1]]
      by (auto simp: decide_uncorrected_def Let_def split: option.splits)
  next
    case 2
    then show ?thesis using assms single_source_sound [OF ne] by (simp add: decide_uncorrected_def Let_def)
  next
    case 3
    then show ?thesis using assms single_source_sound [OF ne]
      by (cases "provider_source Deepgram ?ss") (simp_all add: decide_uncorrected_def Let_def)
  qed
qed

section \<open>Every delivered word was heard\<close>

definition heard :: "unicode \<Rightarrow> source_transcript list \<Rightarrow> utext set" where
  "heard u ss = (\<Union>s\<in>set ss. set (normalized_words u (st_text s)))"

lemma source_derived_heard:
  assumes "is_source_derived u t ss" "w \<in> set (content_words (normalized_words u t))"
  shows "w \<in> heard u ss"
  using assms by (auto simp: is_source_derived_def Let_def heard_def content_words_def distinct_content_words_def
      list_all_iff split: if_splits)

lemma admissible_heard:
  assumes "admissible u ss d" "w \<in> set (content_words (normalized_words u (td_transcript d)))"
  shows "w \<in> heard u ss"
  using assms source_derived_heard
  by (fastforce simp: admissible_def from_source_def from_model_def heard_def content_words_def)

lemma heard_sorted [simp]: "heard u (sort_key f ss) = heard u ss"
  by (simp add: heard_def)

lemma arbitrate_text:
  assumes "arbitrate u inp = Some out"
  shows "(ao_flipped out = 0 \<and> ao_text out = ai_incumbent_text inp) \<or>
    (is_source_derived u (ao_text out) (ai_sources inp) \<and> quality_failure_reason u (ao_text out) (ai_sources inp) = None)"
  using assms by (auto simp: arbitrate_def try_prepare_side_def Let_def split: option.splits)

lemma arbitration_cases:
  "apply_confidence_arbitration u p d ss = d \<or>
   (\<exists>inp out. arbitrate u inp = Some out \<and> ai_sources inp = usable_sources u ss
      \<and> apply_confidence_arbitration u p d ss = arbitrated d out)"
proof (cases "provider_source Deepgram (usable_sources u ss)")
  case (Some dg)
  show ?thesis
  proof (cases "provider_source Groq (usable_sources u ss)")
    case (Some gq)
    define pair where "pair = (if td_selection d = SourceDeepgram then (dg, gq) else (gq, dg))"
    obtain inc oth where pair: "pair = (inc, oth)" by force
    show ?thesis
      unfolding apply_confidence_arbitration_def Let_def Some \<open>provider_source Deepgram (usable_sources u ss) = Some dg\<close>
        pair_def [symmetric] pair prod.case option.case
      by (split option.split if_split)+ fastforce
  qed (simp add: apply_confidence_arbitration_def Some Let_def)
qed (simp add: apply_confidence_arbitration_def Let_def)

lemma arbitration_text:
  "td_transcript (apply_confidence_arbitration u p d ss) = td_transcript d
   \<or> (is_source_derived u (td_transcript (apply_confidence_arbitration u p d ss)) (usable_sources u ss)
      \<and> quality_failure_reason u (td_transcript (apply_confidence_arbitration u p d ss)) (usable_sources u ss) = None)"
proof (cases "apply_confidence_arbitration u p d ss = d")
  case False
  then obtain inp out where out: "arbitrate u inp = Some out" "ai_sources inp = usable_sources u ss"
    "apply_confidence_arbitration u p d ss = arbitrated d out" using arbitration_cases [of u p d ss] by blast
  show ?thesis unfolding out(3) using arbitrate_text [OF out(1)] out(2)
    by (cases "ao_flipped out = 0") (auto simp: arbitrated_def Let_def)
qed simp

lemma arbitration_selection: "td_selection (apply_confidence_arbitration u p d ss) = td_selection d"
  using arbitration_cases [of u p d ss] by (auto simp: arbitrated_def Let_def)

lemma correction_text:
  "td_selection (apply_user_vocabulary_correction u p d) = td_selection d
   \<and> (td_transcript (apply_user_vocabulary_correction u p d) = td_transcript d
      \<or> pl_user_vocabulary p \<noteq> [] \<and> (\<exists>confidences.
          td_transcript (apply_user_vocabulary_correction u p d) = apply_user_vocabulary u (td_transcript d) (pl_user_vocabulary p) confidences))"
  by (auto simp: apply_user_vocabulary_correction_def Let_def)


lemma decide_heard:
  assumes "pl_user_vocabulary p = []" "fst (pipeline_decide u request p ss rn) = Inr d"
  shows "set (content_words (normalized_words u (td_transcript d))) \<subseteq> heard u (usable_sources u ss)"
proof -
  obtain d0 rn' where d0: "decide_uncorrected u request p ss rn = (Inr d0, rn')"
    and d: "d = apply_confidence_arbitration u p d0 ss"
    using assms by (auto simp: pipeline_decide_def apply_user_vocabulary_correction_def split: prod.splits sum.splits)
  have "usable_sources u ss \<noteq> []" using d0 by (auto simp: decide_uncorrected_def)
  then have "admissible u (sorted_sources u ss) d0"
    using decide_uncorrected_sound [of u ss request p rn] d0 by simp
  then show ?thesis
    using arbitration_text [of u p d0 ss] admissible_heard source_derived_heard d by fastforce
qed

text \<open>The sources that were sanitized once are sanitized.\<close>

lemma usable_again: "set (usable_sources u (sorted_sources u ss)) = set (usable_sources u ss)"
proof -
  have "sanitize_source_transcripts u (usable_sources u ss) = usable_sources u ss"
    by (auto simp: usable_sources_def sanitize_source_transcripts_def intro!: map_idI)
  moreover have "set (sanitize_source_transcripts u (sorted_sources u ss)) = set (sanitize_source_transcripts u (usable_sources u ss))"
    by (simp add: sanitize_source_transcripts_def)
  ultimately have "set (sanitize_source_transcripts u (sorted_sources u ss)) = set (usable_sources u ss)" by simp
  then show ?thesis unfolding usable_sources_def [of u "sorted_sources u ss"] by (auto simp: usable_sources_def)
qed

lemma heard_again: "heard u (usable_sources u (sorted_sources u ss)) = heard u (usable_sources u ss)"
  by (simp add: heard_def usable_again)

text \<open>
  What a Recording's decision is when no reconstruction was accepted: the decision on its sources, or the
  fallback that was prepared for the reconstruction.
\<close>

lemma decide_recording_cases:
  assumes "pl_user_vocabulary p = []" "fst (decide_recording u request p ss rn) = Inr d" "td_selection d \<noteq> IntentReconstructed"
  obtains (decided) ss' d' where "ss' = ss \<or> ss' = sorted_sources u ss" "fst (pipeline_decide u request p ss' rn) = Inr d'"
      "td_transcript d = td_transcript d'"
  | (fallback) reason d' where "safe_source_fallback u (sorted_sources u ss) reason True False = Inr d'" "td_transcript d = td_transcript d'"
proof (cases "pipeline_prepare u request p ss rn")
  case (Pair r rn1)
  consider (ready) d1 where "r = Inr (ReadyDecision d1)" | (attempt) a where "r = Inr (ReconstructAttempt a)"
    using assms(2) Pair by (cases r) (auto simp: decide_recording_def split: prepared_decision.splits)
  then show thesis
  proof cases
    case ready
    then have "d = d1" using assms(2) Pair by (simp add: decide_recording_def)
    then show thesis
      using Pair ready decided [of ss d] decided [of "sorted_sources u ss"]
      by (auto simp: pipeline_prepare_def Let_def split: if_splits option.splits prod.splits sum.splits)
  next
    case attempt
    have a: "prepare_attempt u p (sorted_sources u ss) = Some a" and rn1: "rn1 = rn"
      using Pair attempt by (auto simp: pipeline_prepare_def Let_def split: if_splits option.splits prod.splits sum.splits)
    have fb: "\<exists>x. safe_source_fallback u (sorted_sources u ss) ''Intent Reconstruction fallback prepared'' True False = Inr x
        \<and> td_transcript f = td_transcript x" if "at_fallback a = Inr f" for f
      using a that by (auto simp: prepare_attempt_def Let_def split: option.splits sum.splits)
    have "pipeline_reconstruct u request p a rn = reconstruct_uncorrected u request p a rn"
      using assms(1) by (auto simp: pipeline_reconstruct_def apply_user_vocabulary_correction_def split: prod.splits sum.splits)
    then have "fst (reconstruct_uncorrected u request p a rn) = Inr d" using assms(2) Pair attempt rn1 by (simp add: decide_recording_def)
    then obtain f where "at_fallback a = Inr f" "td_transcript d = td_transcript f"
      using assms(3) by (auto simp: reconstruct_uncorrected_def intent_fallback_def Let_def split: prod.splits sum.splits model_call_failure.splits if_splits)
    then show thesis using fb [of f] fallback by auto
  qed
qed

text \<open>
  Claim C6. Without a user vocabulary, and unless an Intent Reconstruction of the model was accepted, every content word of
  the Transcript decided for a Recording (preparation and, where asked for, the reconstruction with its fallback) is
  a word some provider's sanitized Source Transcript contains, whatever the model answers and
  whatever the confidence evidence makes arbitration flip.
\<close>
theorem delivered_words_were_heard:
  assumes "pl_user_vocabulary p = []" "fst (decide_recording u request p ss rn) = Inr d" "td_selection d \<noteq> IntentReconstructed"
  shows "set (content_words (normalized_words u (td_transcript d))) \<subseteq> heard u (usable_sources u ss)"
  using assms
proof (cases rule: decide_recording_cases)
  case (decided ss' d')
  then show ?thesis using decide_heard [OF assms(1) decided(2)] heard_again [of u ss] by auto
next
  case (fallback reason d')
  then have "admissible u (sorted_sources u ss) d'" using safe_fallback_sound [of u "sorted_sources u ss" reason True False] by simp
  then show ?thesis using admissible_heard [of u "sorted_sources u ss" d'] fallback(2) by auto
qed

section \<open>Merges do not shrink the dictation\<close>

lemma longest_source_ge: "s \<in> set ss \<Longrightarrow> length (normalized_words u (st_text s)) \<le> longest_source u ss"
  by (induction ss) (auto simp: longest_source_def source_word_counts_def)

lemma length_failure_none:
  assumes "length_failure n l c = None" "2 \<le> n" "l < 2 ^ 40"
  shows "9 * l \<le> 10 * c"
proof (cases "l = 0 \<or> l \<le> c")
  case False
  then have "\<not> ratio c l < fl (rat_of_nat 90 / rat_of_nat 100)"
    using assms by (auto simp: length_failure_def Let_def MERGE_CONTRACTION_RATIO_FLOOR_def split: if_splits)
  then have "\<not> c * 100 < 90 * l" using False assms(3) ratio_less_iff [of c l 90 100] by simp
  then show ?thesis by simp
qed auto

text \<open>
  Claim C34. A reconciled Transcript keeps at least nine tenths of the words of the longest Source
  Transcript, in spite of the floating-point comparison, for Recordings of fewer than \<open>2 ^ 40\<close> words.
\<close>
theorem reconciled_keeps_nine_tenths:
  assumes "fst (decide_uncorrected u request p ss rn) = Inr d" "td_selection d = Reconciled"
    and "s \<in> set (usable_sources u ss)" "longest_source u (sorted_sources u ss) < 2 ^ 40"
  shows "9 * length (normalized_words u (st_text s)) \<le> 10 * length (normalized_words u (td_transcript d))"
proof -
  have "usable_sources u ss \<noteq> []" using assms(3) by auto
  then have adm: "admissible u (sorted_sources u ss) d"
    using decide_uncorrected_sound [of u ss request p rn] assms(1) by simp
  then have "quality_failure_reason u (td_transcript d) (sorted_sources u ss) = None" "2 \<le> length (sorted_sources u ss)"
    using assms(2) by (auto simp: admissible_def from_source_def from_model_def)
  then have "9 * longest_source u (sorted_sources u ss) \<le> 10 * length (normalized_words u (td_transcript d))"
    using assms(4) length_failure_none [of "length (sorted_sources u ss)"]
    by (auto simp: quality_failure_reason_def Let_def split: if_splits)
  then show ?thesis using longest_source_ge [of s "sorted_sources u ss" u] assms(3) by simp
qed

section \<open>The model is asked at most twice, in bounded time\<close>

text \<open>\<open>asked d rn rn' rs\<close>: between the two runs the model was asked \<open>rs\<close>, each within the deadline and the grace.\<close>

definition asked :: "duration \<Rightarrow> 'm run \<Rightarrow> 'm run \<Rightarrow> model_request list \<Rightarrow> bool" where
  "asked d rn rn' rs \<longleftrightarrow> run_requests rn' = run_requests rn @ rs
     \<and> run_elapsed rn' \<le> run_elapsed rn + length rs * (d + RECONCILIATION_CLEANUP_GRACE)"

lemma asked_refl [simp]: "asked d rn rn []"
  by (simp add: asked_def)

lemma asked_trans: "asked d rn rn' rs \<Longrightarrow> asked d rn' rn'' rs' \<Longrightarrow> asked d rn rn'' (rs @ rs')"
  by (auto simp: asked_def algebra_simps)

lemma bounded_le: "fst (bounded d f) \<le> d"
  by (auto simp: bounded_def split: option.splits)

lemma ask_model_asked: "asked d rn (snd (ask_model request d r rn)) [r]"
proof -
  obtain s c where c: "request (run_model rn) r = (s, c)" by force
  have "fst (bounded_model_call d c) \<le> d + RECONCILIATION_CLEANUP_GRACE"
    using bounded_le [of d "mc_result c"] bounded_le [of RECONCILIATION_CLEANUP_GRACE "mc_cleanup c"]
    by (auto simp: bounded_model_call_def split: prod.splits option.splits sum.splits)
  then show ?thesis by (auto simp: asked_def ask_model_def c split: prod.splits)
qed

lemma repair_asked:
  "asked d rn (snd (repair_candidate u request d ss cand reason req rn)) [ModelRequest Repair ss (Some cand)]"
  using ask_model_asked [of d rn request "ModelRequest Repair ss (Some cand)"]
  by (auto simp: repair_candidate_def Let_def split: prod.splits sum.splits model_call_failure.splits)

lemma reconcile_asked:
  "asked d rn (snd (reconcile_sources u request d ss rn)) [ModelRequest Reconcile ss None]
   \<or> (\<exists>c. asked d rn (snd (reconcile_sources u request d ss rn)) [ModelRequest Reconcile ss None, ModelRequest Repair ss (Some c)])"
proof -
  obtain res rn' where ask: "ask_model request d (ModelRequest Reconcile ss None) rn = (res, rn')" by force
  then have a: "asked d rn rn' [ModelRequest Reconcile ss None]"
    using ask_model_asked [of d rn request "ModelRequest Reconcile ss None"] by simp
  have "snd (reconcile_sources u request d ss rn) = rn'
    \<or> (\<exists>c reason. snd (reconcile_sources u request d ss rn) = snd (repair_candidate u request d ss c reason True rn'))"
    unfolding reconcile_sources_def ask prod.case
    by (cases res) (auto split: model_call_failure.splits option.splits)
  then show ?thesis using a asked_trans [OF a repair_asked] by fastforce
qed

text \<open>
  A decision asks the model at most twice, to reconcile and then to repair, always with the
  sanitized non-empty sources in provider order, and waits for it at most the deadline and the
  cleanup grace per request, even for a model that never answers.
\<close>
theorem decision_model_budget:
  "\<exists>rs. asked (pl_deadline p) rn (snd (pipeline_decide u request p ss rn)) rs
     \<and> (let S = sorted_sources u ss
        in rs = [] \<or> rs = [ModelRequest Reconcile S None] \<or> (\<exists>c. rs = [ModelRequest Repair S (Some c)])
           \<or> (\<exists>c. rs = [ModelRequest Reconcile S None, ModelRequest Repair S (Some c)]))"
proof -
  let ?S = "sorted_sources u ss" and ?d = "pl_deadline p"
  have run: "snd (pipeline_decide u request p ss rn) = snd (decide_uncorrected u request p ss rn)"
    by (auto simp: pipeline_decide_def split: prod.splits sum.splits)
  have near: "snd (near_identical_decision u request p ?S dg gq c rn) = rn \<or>
      (\<exists>c' reason. snd (near_identical_decision u request p ?S dg gq c rn) = snd (repair_candidate u request ?d ?S c' reason False rn))"
    for dg gq c
    by (auto simp: near_identical_decision_def Let_def split: prod.splits option.splits)
  have single: "snd (single_source_decision u request ?d ?S rn) = rn \<or>
      (\<exists>c reason. snd (single_source_decision u request ?d ?S rn) = snd (repair_candidate u request ?d ?S c reason False rn))"
    by (auto simp: single_source_decision_def split: list.splits option.splits)
  have "snd (decide_uncorrected u request p ss rn) = rn
    \<or> (\<exists>c reason. snd (decide_uncorrected u request p ss rn) = snd (repair_candidate u request ?d ?S c reason False rn))
    \<or> snd (decide_uncorrected u request p ss rn) = snd (reconcile_sources u request ?d ?S rn)"
    unfolding decide_uncorrected_def Let_def using single near by (simp split: option.splits) blast
  then consider "snd (decide_uncorrected u request p ss rn) = rn"
    | c reason where "snd (decide_uncorrected u request p ss rn) = snd (repair_candidate u request ?d ?S c reason False rn)"
    | "snd (decide_uncorrected u request p ss rn) = snd (reconcile_sources u request ?d ?S rn)"
    by blast
  then show ?thesis
  proof cases
    case 1
    then show ?thesis unfolding run by (intro exI [of _ "[]"]) simp
  next
    case (2 c reason)
    then show ?thesis unfolding run using repair_asked [of ?d rn u request ?S c reason False] by (auto simp: Let_def)
  next
    case 3
    then show ?thesis unfolding run using reconcile_asked [of ?d rn u request ?S] by (auto simp: Let_def)
  qed
qed

section \<open>Intent Reconstruction\<close>

text \<open>
  An Intent Reconstruction attempt asks the model once and never loses the dictation to it:
  the attempt fails only as its prepared fallback would, a rejected, failed or late answer delivers
  exactly the fallback's text, and an accepted one is trimmed, not empty, within the byte limit and
  free of strippable outros.
\<close>
theorem reconstruction_falls_back:
  "case reconstruct_uncorrected u request p a rn of (r, rn') \<Rightarrow>
     asked (pl_deadline p) rn rn' [IntentRequest (at_sources a) (at_dictionary_terms a)]
     \<and> (case r of
          Inl e \<Rightarrow> at_fallback a = Inl e
        | Inr d \<Rightarrow>
            if td_selection d = IntentReconstructed \<and> map_option ie_outcome (td_intent d) = Some Accepted
            then utrimmed (td_transcript d) \<and> td_transcript d \<noteq> []
                 \<and> byte_len (td_transcript d) \<le> MAX_INTENT_RECONSTRUCTION_UTF8_BYTES
                 \<and> sanitize_source_transcript_text u (td_transcript d) = td_transcript d
            else \<exists>f. at_fallback a = Inr f \<and> td_transcript d = td_transcript f \<and> td_selection d = td_selection f
                 \<and> map_option ie_eligibility (td_intent d) = Some (at_eligibility a))"
proof -
  let ?r = "IntentRequest (at_sources a) (at_dictionary_terms a)"
  obtain res rn' where ask: "ask_model request (pl_deadline p) ?r rn = (res, rn')" by force
  have a: "asked (pl_deadline p) rn rn' [?r]" using ask_model_asked [of "pl_deadline p" rn request ?r] ask by simp
  show ?thesis
  proof (cases res)
    case (Inl f)
    then show ?thesis using a ask
      by (cases f) (auto simp: reconstruct_uncorrected_def intent_fallback_def split: sum.splits)
  next
    case (Inr t)
    then show ?thesis using a ask utrim_trimmed [of t]
      by (auto simp: reconstruct_uncorrected_def intent_fallback_def Let_def split: sum.splits)
  qed
qed

section \<open>Heard words are never replaced by a wordless text\<close>

definition worded :: "unicode \<Rightarrow> boundary_error + transcript_decision \<Rightarrow> bool" where
  "worded u r = (case r of Inr d \<Rightarrow> normalized_words u (td_transcript d) \<noteq> [] | Inl _ \<Rightarrow> True)"

lemma fallbacks_worded [simp]:
  "worded u (safe_source_fallback u ss reason req att)" "worded u (contraction_source_fallback u ss reason req att)"
proof -
  have safe: "normalized_words u (st_text s) \<noteq> []" if "s \<in> set (quality_safe_sources u ss)" for s
    using that by (simp add: quality_safe_sources_def)
  have pick: "normalized_words u (st_text (csp_source (complete_source_preference_of u s s'))) \<noteq> []"
    if "quality_safe_sources u ss = s # s' # rest" for s s' rest
    using csp_source_cases [of u s s'] safe that by auto
  show "worded u (safe_source_fallback u ss reason req att)"
    using safe pick by (auto simp: safe_source_fallback_def worded_def source_fallback_decision_def Let_def
        split: list.splits prod.splits gate_winner.splits)
  show "worded u (contraction_source_fallback u ss reason req att)"
    using safe pick by (auto simp: contraction_source_fallback_def worded_def source_fallback_decision_def Let_def
        split: list.splits)
qed

lemma source_derived_words: "is_source_derived u t ss \<Longrightarrow> normalized_words u t \<noteq> []"
  by (auto simp: is_source_derived_def Let_def content_words_def split: if_splits)

lemma worded_Inr [simp]: "worded u (Inr d) \<longleftrightarrow> normalized_words u (td_transcript d) \<noteq> []"
  by (simp add: worded_def)

lemma model_decision_text [simp]: "td_transcript (model_decision u ss t sel vr fr req att) = utrim t"
  by (simp add: model_decision_def)

lemma repair_worded: "worded u (fst (repair_candidate u request d ss cand reason req rn))"
proof -
  obtain res rn' where ask: "ask_model request d (ModelRequest Repair ss (Some cand)) rn = (res, rn')" by force
  have contr: "normalized_words u (td_transcript x) \<noteq> []" if "contraction_source_fallback u ss r q True = Inr x" for x r q
    using fallbacks_worded(2) [of u ss r q True] that by simp
  show ?thesis
  proof (cases res)
    case (Inl f)
    then show ?thesis using ask by (cases f) (simp_all add: repair_candidate_def)
  next
    case (Inr repaired)
    then show ?thesis using ask
      by (auto simp: repair_candidate_def Let_def split: option.splits sum.splits dest: source_derived_words contr)
  qed
qed

lemma reconcile_worded: "worded u (fst (reconcile_sources u request d ss rn))"
proof -
  obtain res rn' where ask: "ask_model request d (ModelRequest Reconcile ss None) rn = (res, rn')" by force
  show ?thesis
  proof (cases res)
    case (Inl f)
    then show ?thesis using ask by (cases f) (simp_all add: reconcile_sources_def)
  next
    case (Inr merged)
    then show ?thesis using ask
      by (auto simp: reconcile_sources_def repair_worded split: option.splits dest: source_derived_words)
  qed
qed

lemma similarity_wordless:
  assumes "(normalized_words u l = []) \<noteq> (normalized_words u r = [])"
  shows "\<not> is_near_identical (source_pair_classification u l r)"
proof -
  let ?l = "normalized_words u l" and ?r = "normalized_words u r"
  have d: "word_edit_distance ?l ?r = max (length ?l) (length ?r)" "max (length ?l) (length ?r) \<noteq> 0"
    using assms by (auto simp: word_edit_distance_def edit_distance_lev)
  have "ratio n n = fl 1" if "n \<noteq> 0" for n
  proof -
    have "0 < f64_of n" using that by (simp add: f64_of_def fl_pos)
    then show ?thesis by (simp add: ratio_def f64_div_def)
  qed
  from this [OF d(2)] have "source_similarity u l r = 0"
    using d fl_of_nat [of 1] by (simp only: source_similarity_def Let_def f64_sub_def d(1) if_False) simp
  then show ?thesis using fl_pos [of "85 / 100"] by (simp add: source_pair_classification_def is_near_identical_def)
qed

lemma word_gate_worded:
  assumes "word_gate l r = Some g" "l \<noteq> [] \<or> r \<noteq> []"
  shows "(case qg_winner g of LeftSide \<Rightarrow> l | RightSide \<Rightarrow> r) \<noteq> []"
proof (cases "l = [] \<or> r = []")
  case True
  then show ?thesis using assms by (auto simp: word_gate_def Let_def)
qed (auto split: gate_winner.splits)

lemma uncorrected_words:
  assumes "distinct (map st_provider ss)" "fst (decide_uncorrected u request p ss rn) = Inr d"
    and "heard u (usable_sources u ss) \<noteq> {}"
  shows "normalized_words u (td_transcript d) \<noteq> []"
proof -
  let ?S = "sorted_sources u ss"
  have "distinct (map st_provider (usable_sources u ss))"
    using assms(1) by (simp add: usable_sources_def sanitize_source_transcripts_def comp_def distinct_map_filter)
  then have dist: "distinct (map st_provider ?S)" by (simp add: distinct_map)
  obtain s where s: "s \<in> set ?S" "normalized_words u (st_text s) \<noteq> []" using assms(3) by (auto simp: heard_def)
  have only: "s = t" if "t \<in> set ?S" "st_provider t = st_provider s" for t
    using that s(1) dist by (auto simp: distinct_map inj_on_def)
  have "worded u (fst (decide_uncorrected u request p ss rn))"
  proof (cases "provider_source Deepgram ?S = None \<or> provider_source Groq ?S = None")
    case True
    then have "st_provider t = st_provider s" if "t \<in> set ?S" for t
      using that s(1) by (cases "st_provider t"; cases "st_provider s") (auto simp: provider_source_def find_None_iff)
    then have same: "st_provider t = st_provider s" if "t \<in> set ?S" for t using that by blast
    have ne: "?S \<noteq> []" using s(1) by (metis empty_iff list.set(1))
    have "hd ?S = s" using only [OF hd_in_set [OF ne] same [OF hd_in_set [OF ne]]] by simp
    then have "worded u (fst (single_source_decision u request (pl_deadline p) ?S rn))"
      using s(2) ne unfolding single_source_decision_def
      by (cases ?S) (simp_all add: repair_worded split: option.splits)
    then show ?thesis using True s(1)
      by (cases "provider_source Deepgram ?S") (auto simp: decide_uncorrected_def Let_def)
  next
    case False
    then obtain dg gq where P: "provider_source Deepgram ?S = Some dg" "provider_source Groq ?S = Some gq" by auto
    then have "s = dg \<or> s = gq" using provider_source_SomeD only by (cases "st_provider s") fastforce+
    then have some: "normalized_words u (st_text dg) \<noteq> [] \<or> normalized_words u (st_text gq) \<noteq> []" using s(2) by auto
    have near: "worded u (fst (near_identical_decision u request p ?S dg gq c rn))"
      if "is_near_identical c" "c = source_pair_classification u (st_text dg) (st_text gq)" for c
      using similarity_wordless [of u "st_text dg" "st_text gq"] some that
      by (auto simp: near_identical_decision_def Let_def repair_worded split: prod.splits option.splits gate_winner.splits)
    have gate: "normalized_words u (td_transcript x) \<noteq> []" if "gate_decision u ?S dg gq = Some x" for x
      using that word_gate_worded [OF _ some]
      by (auto simp: gate_decision_def source_quality_gate_def Let_def split: option.splits gate_winner.splits if_splits)
    show ?thesis using near gate reconcile_worded s(1) by (auto simp: decide_uncorrected_def Let_def P split: option.splits)
  qed
  then show ?thesis using assms(2) by simp
qed

lemma decide_words:
  assumes "distinct (map st_provider ss)" "pl_user_vocabulary p = []" "fst (pipeline_decide u request p ss rn) = Inr d"
    and "heard u (usable_sources u ss) \<noteq> {}"
  shows "normalized_words u (td_transcript d) \<noteq> []"
proof -
  obtain d0 rn' where d0: "decide_uncorrected u request p ss rn = (Inr d0, rn')" and d: "d = apply_confidence_arbitration u p d0 ss"
    using assms(2,3) by (auto simp: pipeline_decide_def apply_user_vocabulary_correction_def split: prod.splits sum.splits)
  have "normalized_words u (td_transcript d0) \<noteq> []" using uncorrected_words [OF assms(1) _ assms(4), of request p rn d0] d0 by simp
  then show ?thesis using arbitration_text [of u p d0 ss] source_derived_words d by auto
qed

text \<open>
  Claim C7. When at least one of distinct providers heard a word, the Transcript decided for the Recording
  contains a word: stray punctuation that a provider made of silence never wins over heard speech,
  whether the sources agree, one is chosen, the model merges or repairs them, arbitration flips a region, or a
  reconstruction falls back. Only an accepted Intent Reconstruction and a user vocabulary are outside the claim.
\<close>
theorem heard_words_not_lost:
  assumes "distinct (map st_provider ss)" "pl_user_vocabulary p = []" "fst (decide_recording u request p ss rn) = Inr d"
    and "td_selection d \<noteq> IntentReconstructed" "heard u (usable_sources u ss) \<noteq> {}"
  shows "normalized_words u (td_transcript d) \<noteq> []"
  using assms(2,3,4)
proof (cases rule: decide_recording_cases)
  case (decided ss' d')
  have "distinct (map st_provider (usable_sources u ss))"
    using assms(1) by (simp add: usable_sources_def sanitize_source_transcripts_def comp_def distinct_map_filter)
  then have "distinct (map st_provider ss')" using decided(1) assms(1) by (auto simp: distinct_map)
  then show ?thesis using decide_words [OF _ assms(2) decided(2)] decided assms(5) heard_again [of u ss] by auto
next
  case (fallback reason d')
  then show ?thesis using fallbacks_worded(1) [of u "sorted_sources u ss" reason True False] by simp
qed

section \<open>A Recording both providers heard differently\<close>

definition merging_model :: "unit model" where
  "merging_model s r = ((), \<lparr>mc_result = Some (5, Inr (lit ''fix a red cup'')), mc_cleanup = None\<rparr>)"

definition two_hearings :: "source_transcript list" where
  "two_hearings = [\<lparr>st_provider = Groq, st_text = lit ''fix a red cap''\<rparr>,
     \<lparr>st_provider = Deepgram, st_text = lit ''fix the red cup''\<rparr>]"

lemma two_hearings_usable:
  "map st_text (usable_sources ascii two_hearings) = map lit [''fix a red cap'', ''fix the red cup'']"
  by code_simp

lemma two_hearings_decided:
  "\<exists>d. fst (decide_uncorrected ascii merging_model (pipeline_new 10) two_hearings (fresh_run ())) = Inr d
     \<and> td_selection d = Reconciled \<and> td_transcript d = lit ''fix a red cup''"
proof -
  have "case fst (decide_uncorrected ascii merging_model (pipeline_new 10) two_hearings (fresh_run ())) of
      Inr d \<Rightarrow> td_selection d = Reconciled \<and> td_transcript d = lit ''fix a red cup'' | Inl _ \<Rightarrow> False"
    by code_simp
  then show ?thesis by (auto split: sum.splits)
qed

lemma two_hearings_heard: "heard ascii (usable_sources ascii two_hearings) \<noteq> {}"
proof -
  have ne: "normalized_words ascii (lit ''fix a red cap'') \<noteq> []" by code_simp
  have "lit ''fix a red cap'' \<in> set (map st_text (usable_sources ascii two_hearings))"
    by (simp add: two_hearings_usable)
  then obtain s where "s \<in> set (usable_sources ascii two_hearings)" "st_text s = lit ''fix a red cap''" by auto
  then show ?thesis using ne by (force simp: heard_def neq_Nil_conv)
qed

lemma two_hearings_recording:
  "\<exists>d. fst (decide_recording ascii merging_model (pipeline_new 10) two_hearings (fresh_run ())) = Inr d
     \<and> td_selection d \<noteq> IntentReconstructed"
proof -
  obtain d0 where d0: "fst (decide_uncorrected ascii merging_model (pipeline_new 10) two_hearings (fresh_run ())) = Inr d0"
    "td_selection d0 = Reconciled" using two_hearings_decided by blast
  then have "fst (pipeline_decide ascii merging_model (pipeline_new 10) two_hearings (fresh_run ())) =
      Inr (apply_user_vocabulary_correction ascii (pipeline_new 10) (apply_confidence_arbitration ascii (pipeline_new 10) d0 two_hearings))"
    by (auto simp: pipeline_decide_def fst_def split: prod.splits)
  moreover have "\<not> pl_intent_reconstruction (pipeline_new 10)" by (simp add: pipeline_new_def)
  ultimately show ?thesis
    using d0(2) by (auto simp: decide_recording_def pipeline_prepare_def fst_def arbitration_selection correction_text split: prod.splits sum.splits)
qed

theorem heard_words_not_lost_witness:
  "\<exists>d. fst (decide_recording ascii merging_model (pipeline_new 10) two_hearings (fresh_run ())) = Inr d
     \<and> normalized_words ascii (td_transcript d) \<noteq> []"
proof -
  obtain d where d: "fst (decide_recording ascii merging_model (pipeline_new 10) two_hearings (fresh_run ())) = Inr d"
    "td_selection d \<noteq> IntentReconstructed" using two_hearings_recording by blast
  have "distinct (map st_provider two_hearings)" by code_simp
  moreover have "pl_user_vocabulary (pipeline_new 10) = []" by (simp add: pipeline_new_def)
  ultimately show ?thesis using heard_words_not_lost [OF _ _ d two_hearings_heard] d(1) by blast
qed

theorem reconciled_keeps_nine_tenths_witness:
  "\<exists>d s. fst (decide_uncorrected ascii merging_model (pipeline_new 10) two_hearings (fresh_run ())) = Inr d
     \<and> s \<in> set (usable_sources ascii two_hearings)
     \<and> 9 * length (normalized_words ascii (st_text s)) \<le> 10 * length (normalized_words ascii (td_transcript d))"
proof -
  obtain d where d: "fst (decide_uncorrected ascii merging_model (pipeline_new 10) two_hearings (fresh_run ())) = Inr d"
    "td_selection d = Reconciled" using two_hearings_decided by blast
  have "usable_sources ascii two_hearings \<noteq> []" using two_hearings_heard by (auto simp: heard_def)
  then have s: "hd (usable_sources ascii two_hearings) \<in> set (usable_sources ascii two_hearings)" by simp
  have "longest_source ascii (sorted_sources ascii two_hearings) < 2 ^ 40" by code_simp
  from reconciled_keeps_nine_tenths [OF d s this] d(1) s show ?thesis by blast
qed

theorem delivered_words_were_heard_witness:
  "\<exists>d. fst (decide_recording ascii merging_model (pipeline_new 10) two_hearings (fresh_run ())) = Inr d
     \<and> set (content_words (normalized_words ascii (td_transcript d))) \<subseteq> heard ascii (usable_sources ascii two_hearings)"
proof -
  have v: "pl_user_vocabulary (pipeline_new 10) = []" by (simp add: pipeline_new_def)
  obtain d where d: "fst (decide_recording ascii merging_model (pipeline_new 10) two_hearings (fresh_run ())) = Inr d"
    "td_selection d \<noteq> IntentReconstructed" using two_hearings_recording by blast
  with delivered_words_were_heard [OF v d] show ?thesis by blast
qed

end
