(* ===== verification/Prompt_Rendering.thy ===== *)
theory Prompt_Rendering
  imports Voisu_Prelude
begin

text \<open>
  The vocabulary of Developer Prompt Rendering, \<open>crates/voisu-core/src/prompt_rendering.rs\<close>: policies,
  routes, cloud request states, timing certainty and the Delivery constants, with their wire names.
  \<open>wire_name\<close> is the contract every such enumeration keeps: printing and parsing are inverse.
\<close>

section \<open>Wire names\<close>

locale wire_name =
  fixes as_str :: "'a \<Rightarrow> string" and parse :: "string \<Rightarrow> 'a option"
  assumes parse_iff: "parse s = Some x \<longleftrightarrow> s = as_str x"
begin

lemma parse_as_str: "parse (as_str x) = Some x"
  by (simp add: parse_iff)

lemma as_str_inj: "as_str x = as_str y \<longleftrightarrow> x = y"
  by (metis option.inject parse_as_str)

lemma parse_None: "parse s = None \<longleftrightarrow> s \<notin> range as_str"
  by (metis image_iff iso_tuple_UNIV_I not_None_eq parse_iff)

end

section \<open>Constants\<close>

definition DELIVERY_DEADLINE_MS :: nat where "DELIVERY_DEADLINE_MS = 1500"

definition DELIVERY_DEADLINE :: duration where "DELIVERY_DEADLINE = from_millis DELIVERY_DEADLINE_MS"

definition DELIVERY_STATE_UNSENT :: string where "DELIVERY_STATE_UNSENT = ''unsent''"

definition DELIVERY_AUTO_SEND :: bool where "DELIVERY_AUTO_SEND = False"

definition DELIVERY_LIVE_TYPE :: bool where "DELIVERY_LIVE_TYPE = False"

definition DELIVERY_REPLACE_DELIVERED :: bool where "DELIVERY_REPLACE_DELIVERED = False"

definition CLOSED_STRUCTURED_LABELS :: "string list" where
  "CLOSED_STRUCTURED_LABELS =
     [''Goal'', ''Context'', ''Requirements'', ''Constraints'', ''Steps'', ''Acceptance Criteria'', ''Files'', ''Notes'']"

section \<open>Policies, routes and requests\<close>

datatype rendering_policy = Natural | Adaptive | Structured

definition DEFAULT_RENDERING_POLICY :: rendering_policy where
  "DEFAULT_RENDERING_POLICY = Adaptive"

fun policy_as_str :: "rendering_policy \<Rightarrow> string" where
  "policy_as_str Natural = ''natural''"
| "policy_as_str Adaptive = ''adaptive''"
| "policy_as_str Structured = ''structured''"

definition policy_parse :: "string \<Rightarrow> rendering_policy option" where
  "policy_parse value =
     (if value = ''natural'' then Some Natural
      else if value = ''adaptive'' then Some Adaptive
      else if value = ''structured'' then Some Structured
      else None)"

interpretation policy_wire: wire_name policy_as_str policy_parse
proof
  fix s x show "policy_parse s = Some x \<longleftrightarrow> s = policy_as_str x"
    by (cases x) (auto simp: policy_parse_def)
qed

datatype rendering_route = LiteralIdentity | DeterministicLocal | LocalWithOptionalCloud

fun route_as_str :: "rendering_route \<Rightarrow> string" where
  "route_as_str LiteralIdentity = ''literal_identity''"
| "route_as_str DeterministicLocal = ''deterministic_local''"
| "route_as_str LocalWithOptionalCloud = ''local_with_optional_cloud''"

definition route_parse :: "string \<Rightarrow> rendering_route option" where
  "route_parse value =
     (if value = ''literal_identity'' then Some LiteralIdentity
      else if value = ''deterministic_local'' then Some DeterministicLocal
      else if value = ''local_with_optional_cloud'' then Some LocalWithOptionalCloud
      else None)"

interpretation route_wire: wire_name route_as_str route_parse
proof
  fix s x show "route_parse s = Some x \<longleftrightarrow> s = route_as_str x"
    by (cases x) (auto simp: route_parse_def)
qed

datatype cloud_request = NotAllowed | Allowed | Required

fun cloud_request_as_str :: "cloud_request \<Rightarrow> string" where
  "cloud_request_as_str NotAllowed = ''not_allowed''"
| "cloud_request_as_str Allowed = ''allowed''"
| "cloud_request_as_str Required = ''required''"

definition cloud_request_parse :: "string \<Rightarrow> cloud_request option" where
  "cloud_request_parse value =
     (if value = ''not_allowed'' then Some NotAllowed
      else if value = ''allowed'' then Some Allowed
      else if value = ''required'' then Some Required
      else None)"

interpretation cloud_request_wire: wire_name cloud_request_as_str cloud_request_parse
proof
  fix s x show "cloud_request_parse s = Some x \<longleftrightarrow> s = cloud_request_as_str x"
    by (cases x) (auto simp: cloud_request_parse_def)
qed

datatype timing_certainty = Clear | Uncertain

fun certainty_as_str :: "timing_certainty \<Rightarrow> string" where
  "certainty_as_str Clear = ''clear''"
| "certainty_as_str Uncertain = ''uncertain''"

definition certainty_parse :: "string \<Rightarrow> timing_certainty option" where
  "certainty_parse value =
     (if value = ''clear'' then Some Clear else if value = ''uncertain'' then Some Uncertain else None)"

interpretation certainty_wire: wire_name certainty_as_str certainty_parse
proof
  fix s x show "certainty_parse s = Some x \<longleftrightarrow> s = certainty_as_str x"
    by (cases x) (auto simp: certainty_parse_def)
qed

end
