(* ===== verification/Intent_Routing.thy ===== *)
theory Intent_Routing
  imports Prompt_Rendering Token_Masks "HOL-Library.Char_ord"
begin

text \<open>
  The local intent router, \<open>crates/voisu-core/src/intent_routing.rs\<close>: whether a Transcript looks like a
  command, how complex it is, and from that which rendering route it takes and whether the cloud may
  or must be asked.

  The \<open>regex\<close> crate is third-party code. What its compiled patterns answer is an argument, the record
  \<open>regexes\<close>, one field per static of the source; \<open>plain_regexes\<close> is a concrete instance that reads the
  same patterns on ASCII text. Scores are \<open>i32\<close> in the source; \<open>routing_score_accounts\<close> shows that they
  stay far inside that range, so integers model them.
\<close>

section \<open>Weights\<close>

definition COMPLEXITY_CLOUD_THRESHOLD :: int where "COMPLEXITY_CLOUD_THRESHOLD = 24"

definition MESSAGING_SHORT_WORDS :: nat where "MESSAGING_SHORT_WORDS = 30"

definition BROWSER_SHORT_WORDS :: nat where "BROWSER_SHORT_WORDS = 25"

definition SECTION_CUES_FOR_LENGTH_ASSIST :: nat where "SECTION_CUES_FOR_LENGTH_ASSIST = 2"

definition weight_for_signal :: "string \<Rightarrow> int" where
  "weight_for_signal s =
     (case map_of
        [(''section_goal'', 12), (''section_context'', 12), (''section_requirements'', 12),
         (''section_constraints'', 12), (''section_steps'', 12), (''section_acceptance_criteria'', 14),
         (''section_files'', 10), (''section_notes'', 10), (''words_ge_40'', 4), (''words_ge_80'', 6),
         (''surface_coding_agent_sections'', 4), (''surface_gui_agent_sections'', 3),
         (''surface_messaging_short'', - 6), (''surface_browser_short'', - 4), (''process_coding_boost'', 2),
         (''timing_clear_pause'', 0), (''timing_uncertain_pause'', 0)] s of
        Some w \<Rightarrow> w | None \<Rightarrow> 0)"

section \<open>Observations and decisions\<close>

datatype provider_state =
    ExactAgreement
  | PunctuationOnlyAgreement
  | SafeComplementary
  | ProtectedTokenDisagreement
  | SemanticDisagreement
  | SingleProvider

fun provider_state_as_str :: "provider_state \<Rightarrow> string" where
  "provider_state_as_str ExactAgreement = ''exact_agreement''"
| "provider_state_as_str PunctuationOnlyAgreement = ''punctuation_only_agreement''"
| "provider_state_as_str SafeComplementary = ''safe_complementary''"
| "provider_state_as_str ProtectedTokenDisagreement = ''protected_token_disagreement''"
| "provider_state_as_str SemanticDisagreement = ''semantic_disagreement''"
| "provider_state_as_str SingleProvider = ''single_provider''"

definition provider_state_parse :: "string \<Rightarrow> provider_state option" where
  "provider_state_parse value =
     (if value = ''exact_agreement'' then Some ExactAgreement
      else if value = ''punctuation_only_agreement'' then Some PunctuationOnlyAgreement
      else if value = ''safe_complementary'' then Some SafeComplementary
      else if value = ''protected_token_disagreement'' then Some ProtectedTokenDisagreement
      else if value = ''semantic_disagreement'' then Some SemanticDisagreement
      else if value = ''single_provider'' then Some SingleProvider
      else None)"

interpretation provider_state_wire: wire_name provider_state_as_str provider_state_parse
proof
  fix s x show "provider_state_parse s = Some x \<longleftrightarrow> s = provider_state_as_str x"
    by (cases x) (auto simp: provider_state_parse_def)
qed

fun is_dispute :: "provider_state \<Rightarrow> bool" where
  "is_dispute ProtectedTokenDisagreement = True"
| "is_dispute SemanticDisagreement = True"
| "is_dispute _ = False"

datatype surface_hint = Shell | Terminal | CodingAgent | GuiAgent | Messaging | Browser | UnknownSurface

fun surface_as_str :: "surface_hint \<Rightarrow> string" where
  "surface_as_str Shell = ''shell''"
| "surface_as_str Terminal = ''terminal''"
| "surface_as_str CodingAgent = ''coding_agent''"
| "surface_as_str GuiAgent = ''gui_agent''"
| "surface_as_str Messaging = ''messaging''"
| "surface_as_str Browser = ''browser''"
| "surface_as_str UnknownSurface = ''unknown''"

definition surface_parse :: "string \<Rightarrow> surface_hint option" where
  "surface_parse value =
     (if value = ''shell'' then Some Shell
      else if value = ''terminal'' then Some Terminal
      else if value = ''coding_agent'' then Some CodingAgent
      else if value = ''gui_agent'' then Some GuiAgent
      else if value = ''messaging'' then Some Messaging
      else if value = ''browser'' then Some Browser
      else if value = ''unknown'' then Some UnknownSurface
      else None)"

interpretation surface_wire: wire_name surface_as_str surface_parse
proof
  fix s x show "surface_parse s = Some x \<longleftrightarrow> s = surface_as_str x"
    by (cases x) (auto simp: surface_parse_def)
qed

text \<open>\<open>ProcessClass\<close> has the constructors and wire names of \<open>SurfaceHint\<close>.\<close>

type_synonym process_class = surface_hint

record process_hint =
  ph_class :: process_class
  ph_name :: "string option"

record timing_hint =
  th_certainty :: timing_certainty
  th_max_pause_ms :: "nat option"

datatype rule_id =
    DisputeCloud
  | DisputePolicyForbid
  | LiteralPreformatted
  | LiteralCommand
  | NaturalLocal
  | ComplexCloud
  | DefaultLocal

fun rule_id_as_str :: "rule_id \<Rightarrow> string" where
  "rule_id_as_str DisputeCloud = ''R_DISPUTE_CLOUD''"
| "rule_id_as_str DisputePolicyForbid = ''R_DISPUTE_POLICY_FORBID''"
| "rule_id_as_str LiteralPreformatted = ''R_LITERAL_PREFORMATTED''"
| "rule_id_as_str LiteralCommand = ''R_LITERAL_COMMAND''"
| "rule_id_as_str NaturalLocal = ''R_NATURAL_LOCAL''"
| "rule_id_as_str ComplexCloud = ''R_COMPLEX_CLOUD''"
| "rule_id_as_str DefaultLocal = ''R_DEFAULT_LOCAL''"

definition rule_id_parse :: "string \<Rightarrow> rule_id option" where
  "rule_id_parse value =
     (if value = ''R_DISPUTE_CLOUD'' then Some DisputeCloud
      else if value = ''R_DISPUTE_POLICY_FORBID'' then Some DisputePolicyForbid
      else if value = ''R_LITERAL_PREFORMATTED'' then Some LiteralPreformatted
      else if value = ''R_LITERAL_COMMAND'' then Some LiteralCommand
      else if value = ''R_NATURAL_LOCAL'' then Some NaturalLocal
      else if value = ''R_COMPLEX_CLOUD'' then Some ComplexCloud
      else if value = ''R_DEFAULT_LOCAL'' then Some DefaultLocal
      else None)"

interpretation rule_id_wire: wire_name rule_id_as_str rule_id_parse
proof
  fix s x show "rule_id_parse s = Some x \<longleftrightarrow> s = rule_id_as_str x"
    by (cases x) (auto simp: rule_id_parse_def)
qed

record score_contribution =
  sc_signal :: string
  sc_weight :: int
  sc_detail :: string

record intent_observation =
  io_policy :: rendering_policy
  io_primary_text :: utext
  io_provider_state :: provider_state
  io_surface_hint :: "surface_hint option"
  io_process_hint :: "process_hint option"
  io_timing :: "timing_hint option"

record routing_decision =
  rd_route :: rendering_route
  rd_cloud_request :: cloud_request
  rd_rule_id :: rule_id
  rd_complexity_score :: int
  rd_contributions :: "score_contribution list"
  rd_surface_degraded :: bool
  rd_section_cue_count :: nat

section \<open>Patterns and word lists\<close>

record regexes =
  WORD_RE :: "utext \<Rightarrow> utext list"
  FLAG_RE :: "utext \<Rightarrow> bool"
  DOUBLE_DASH_RE :: "utext \<Rightarrow> bool"
  NUMBERED_LINE_RE :: "utext \<Rightarrow> bool"
  BULLET_LINE_RE :: "utext \<Rightarrow> bool"
  FILE_EXT_RE :: "utext \<Rightarrow> bool"
  BAZEL_TARGET_RE :: "utext \<Rightarrow> bool"
  section_header_re :: "string \<Rightarrow> utext \<Rightarrow> bool"

datatype strength = Strong | Weak

record section_cue =
  cue_signal_id :: string
  cue_phrase :: string
  cue_strength :: strength
  cue_tokens :: "string list"

definition SECTION_CUES :: "section_cue list" where
  "SECTION_CUES =
     [\<lparr>cue_signal_id = ''section_acceptance_criteria'', cue_phrase = ''acceptance criteria'', cue_strength = Strong,
        cue_tokens = [''acceptance'', ''criteria'']\<rparr>,
      \<lparr>cue_signal_id = ''section_goal'', cue_phrase = ''goal'', cue_strength = Strong, cue_tokens = [''goal'']\<rparr>,
      \<lparr>cue_signal_id = ''section_context'', cue_phrase = ''context'', cue_strength = Strong, cue_tokens = [''context'']\<rparr>,
      \<lparr>cue_signal_id = ''section_requirements'', cue_phrase = ''requirements'', cue_strength = Strong,
        cue_tokens = [''requirements'']\<rparr>,
      \<lparr>cue_signal_id = ''section_constraints'', cue_phrase = ''constraints'', cue_strength = Strong,
        cue_tokens = [''constraints'']\<rparr>,
      \<lparr>cue_signal_id = ''section_steps'', cue_phrase = ''steps'', cue_strength = Weak, cue_tokens = [''steps'']\<rparr>,
      \<lparr>cue_signal_id = ''section_files'', cue_phrase = ''files'', cue_strength = Weak, cue_tokens = [''files'']\<rparr>,
      \<lparr>cue_signal_id = ''section_notes'', cue_phrase = ''notes'', cue_strength = Weak, cue_tokens = [''notes'']\<rparr>]"

definition STRONG_SECTION_LEAD_TOKENS :: "utext list" where
  "STRONG_SECTION_LEAD_TOKENS = map lit [''goal'', ''context'', ''requirements'', ''constraints'', ''acceptance'']"

definition DETERMINER_TOKENS :: "utext list" where
  "DETERMINER_TOKENS =
     map lit [''the'', ''a'', ''an'', ''my'', ''your'', ''our'', ''some'', ''any'', ''these'', ''those'', ''this'', ''that'']"

definition COMPOUND_LEFT_TOKENS :: "utext list" where
  "COMPOUND_LEFT_TOKENS =
     map lit [''release'', ''next'', ''open'', ''send'', ''share'', ''project'', ''business'', ''user'', ''team'', ''main'',
       ''overall'', ''primary'', ''broader'', ''historical'', ''social'', ''local'', ''global'', ''market'', ''product'']"

definition RUNNER_TOKENS :: "utext list" where
  "RUNNER_TOKENS =
     map lit [''run'', ''cargo'', ''npm'', ''pnpm'', ''yarn'', ''git'', ''docker'', ''kubectl'', ''make'', ''python'',
       ''python3'', ''pip'', ''curl'', ''ssh'', ''scp'', ''go'', ''bazel'', ''ninja'']"

definition PROSE_RUNNER_SECONDS :: "utext list" where
  "PROSE_RUNNER_SECONDS =
     map lit [''sure'', ''certain'', ''sense'', ''clear'', ''it'', ''this'', ''that'', ''me'', ''us'', ''him'', ''her'',
       ''them'', ''my'', ''your'', ''our'', ''a'', ''an'', ''the'', ''ahead'', ''for'', ''back'', ''on'', ''through'',
       ''away'', ''home'', ''there'', ''here'', ''to'', ''and'', ''with'', ''get'', ''by'', ''into'', ''out'', ''over'',
       ''some'', ''any'', ''when'', ''if'', ''while'', ''before'', ''after'']"

definition KNOWN_CLI_SUBCOMMANDS :: "utext list" where
  "KNOWN_CLI_SUBCOMMANDS =
     map lit [''test'', ''build'', ''run'', ''check'', ''clippy'', ''fmt'', ''bench'', ''doc'', ''install'', ''clean'',
       ''status'', ''commit'', ''push'', ''pull'', ''clone'', ''diff'', ''log'', ''add'', ''checkout'', ''branch'',
       ''merge'', ''rebase'', ''fetch'', ''exec'', ''ps'', ''images'', ''compose'', ''apply'', ''get'', ''describe'',
       ''logs'', ''delete'', ''create'', ''scale'', ''rollout'', ''config'', ''init'', ''start'', ''stop'', ''restart'',
       ''up'', ''down'', ''serve'', ''dev'', ''publish'', ''pack'', ''login'', ''logout'', ''whoami'', ''version'',
       ''help'', ''mod'', ''env'', ''list'', ''info'', ''search'', ''uninstall'', ''update'', ''upgrade'', ''remove'',
       ''sync'', ''lock'', ''audit'', ''outdated'', ''workspace'', ''package'', ''target'', ''release'', ''debug'',
       ''all'', ''dist'', ''deploy'', ''vet'', ''generate'', ''tool'', ''work'', ''tidy'', ''vendor'', ''query'',
       ''coverage'', ''nextest'']"

text \<open>Header-shaped goal cues, which the formatting passes ask for.\<close>

definition leftover_has_goal_or_mixed_section_headers :: "regexes \<Rightarrow> utext \<Rightarrow> bool" where
  "leftover_has_goal_or_mixed_section_headers rx organized =
     (case find (\<lambda>cue. cue_phrase cue = ''goal'') SECTION_CUES of
        None \<Rightarrow> False
      | Some cue \<Rightarrow> section_header_re rx (cue_phrase cue) organized)"

section \<open>Shapes\<close>

definition tokenize :: "regexes \<Rightarrow> utext \<Rightarrow> utext list" where
  "tokenize rx t = WORD_RE rx t"

definition word_count :: "regexes \<Rightarrow> utext \<Rightarrow> nat" where
  "word_count rx t = length (tokenize rx t)"

definition is_preformatted :: "regexes \<Rightarrow> utext \<Rightarrow> bool" where
  "is_preformatted rx t \<longleftrightarrow>
     10 \<in> set t
     \<and> (2 \<le> length (filter (NUMBERED_LINE_RE rx) (text_lines t)) \<or> 2 \<le> length (filter (BULLET_LINE_RE rx) (text_lines t)))"

text \<open>The last arm looks for the first slash, which must be neither the first nor the last character.\<close>

definition is_path_like :: "regexes \<Rightarrow> utext \<Rightarrow> bool" where
  "is_path_like rx token \<longleftrightarrow>
     FILE_EXT_RE rx token
     \<or> token = lit ''~'' \<or> starts_with (lit ''~/'') token
     \<or> BAZEL_TARGET_RE rx token
     \<or> starts_with (lit ''/'') token \<and> \<not> starts_with (lit ''//'') token
     \<or> starts_with (lit ''./'') token \<or> starts_with (lit ''../'') token
     \<or> (let before = takeWhile (\<lambda>c. c \<noteq> 47) token in 0 < length before \<and> length before + 1 < length token)"

definition has_cli_flag :: "regexes \<Rightarrow> utext list \<Rightarrow> bool" where
  "has_cli_flag rx tokens \<longleftrightarrow> list_ex (\<lambda>t. FLAG_RE rx t \<or> DOUBLE_DASH_RE rx t) tokens"

definition runner_follow_is_cli :: "regexes \<Rightarrow> utext \<Rightarrow> utext \<Rightarrow> bool" where
  "runner_follow_is_cli rx follow follow_raw =
     (if follow \<in> set PROSE_RUNNER_SECONDS then False
      else if FLAG_RE rx follow_raw \<or> DOUBLE_DASH_RE rx follow_raw then True
      else if is_path_like rx follow_raw then True
      else if follow \<in> set KNOWN_CLI_SUBCOMMANDS then True
      else follow \<in> set RUNNER_TOKENS)"

definition is_command_shaped :: "regexes \<Rightarrow> utext \<Rightarrow> bool" where
  "is_command_shaped rx t =
     (let tokens = tokenize rx t; lower = map ascii_lower_text tokens; has_path = list_ex (is_path_like rx) tokens
      in if tokens = [] then False
         else if has_cli_flag rx tokens then True
         else if lower ! 0 \<in> set RUNNER_TOKENS then
           (if length lower = 1 then True
            else if lower ! 1 \<in> set PROSE_RUNNER_SECONDS \<and> \<not> has_path then False
            else if runner_follow_is_cli rx (lower ! 1) (tokens ! 1) then True
            else has_path)
         else list_ex (\<lambda>i. lower ! i \<in> set RUNNER_TOKENS
                \<and> (has_path \<or> i + 1 < length lower \<and> runner_follow_is_cli rx (lower ! (i + 1)) (tokens ! (i + 1))))
              [0..<min 3 (length lower)])"

definition has_strong_cli_evidence :: "regexes \<Rightarrow> utext \<Rightarrow> bool" where
  "has_strong_cli_evidence rx t = list_ex (DOUBLE_DASH_RE rx) (tokenize rx t)"

definition command_anchor_ok :: "regexes \<Rightarrow> surface_hint option \<Rightarrow> process_hint option \<Rightarrow> utext \<Rightarrow> bool" where
  "command_anchor_ok rx surface process t =
     (if surface \<in> {Some Shell, Some Terminal} then True
      else if (case process of Some p \<Rightarrow> ph_class p \<in> {Shell, Terminal} | None \<Rightarrow> False) then True
      else has_strong_cli_evidence rx t)"

section \<open>Section cues\<close>

text \<open>The \<open>BTreeMap\<close> is an association list in key order; \<open>insert\<close> replaces, \<open>entry\<close> keeps what is there.\<close>

type_synonym cue_hit = "string \<times> strength \<times> string"

fun btree_insert :: "string \<Rightarrow> 'a \<Rightarrow> (string \<times> 'a) list \<Rightarrow> (string \<times> 'a) list" where
  "btree_insert k v [] = [(k, v)]"
| "btree_insert k v ((k', v') # m) =
     (if k < k' then (k, v) # (k', v') # m
      else if k = k' then (k, v) # m
      else (k', v') # btree_insert k v m)"

definition btree_or_insert :: "string \<Rightarrow> 'a \<Rightarrow> (string \<times> 'a) list \<Rightarrow> (string \<times> 'a) list" where
  "btree_or_insert k v m = (if k \<in> fst ` set m then m else btree_insert k v m)"

definition header_hits :: "regexes \<Rightarrow> utext \<Rightarrow> (string \<times> cue_hit) list" where
  "header_hits rx t =
     fold (\<lambda>cue found.
         if section_header_re rx (cue_phrase cue) t
         then btree_insert (cue_signal_id cue) (cue_phrase cue, cue_strength cue, ''header'') found else found)
       SECTION_CUES []"

definition cue_at :: "utext list \<Rightarrow> nat \<Rightarrow> section_cue option" where
  "cue_at lower i =
     find (\<lambda>cue. i + length (cue_tokens cue) \<le> length lower
              \<and> take (length (cue_tokens cue)) (drop i lower) = map lit (cue_tokens cue)) SECTION_CUES"

text \<open>
  One position of the stream: a cue in the middle that nothing follows, or that a determiner or the
  left half of a compound precedes, is consumed without counting.
\<close>

definition stream_hit :: "utext list \<Rightarrow> nat \<Rightarrow> section_cue \<Rightarrow> (string \<times> cue_hit) list \<Rightarrow> (string \<times> cue_hit) list" where
  "stream_hit lower i cue found =
     (let n = length (cue_tokens cue); prev = if 0 < i then lower ! (i - 1) else []
      in if 0 < i \<and> length lower \<le> i + n then found
         else if prev \<in> set DETERMINER_TOKENS \<or> prev \<in> set COMPOUND_LEFT_TOKENS then found
         else btree_or_insert (cue_signal_id cue) (join_with '' '' (cue_tokens cue), cue_strength cue, ''stream'') found)"

lemma cue_tokens_ne: "cue \<in> set SECTION_CUES \<Longrightarrow> 0 < length (cue_tokens cue)"
  by (auto simp: SECTION_CUES_def)

lemma cue_at_cue: "cue_at lower i = Some cue \<Longrightarrow> cue \<in> set SECTION_CUES"
  by (auto simp: cue_at_def find_Some_iff)

function stream_hits :: "utext list \<Rightarrow> nat \<Rightarrow> (string \<times> cue_hit) list \<Rightarrow> (string \<times> cue_hit) list" where
  "stream_hits lower i found =
     (if length lower \<le> i then found
      else case cue_at lower i of
             Some cue \<Rightarrow> stream_hits lower (i + length (cue_tokens cue)) (stream_hit lower i cue found)
           | None \<Rightarrow> stream_hits lower (i + 1) found)"
  by pat_completeness auto
termination
  by (relation "measure (\<lambda>(lower, i, _). length lower - i)")
    (auto dest!: cue_at_cue cue_tokens_ne intro!: diff_less_mono2)

declare stream_hits.simps [simp del]

definition collect_section_cue_hits :: "regexes \<Rightarrow> utext \<Rightarrow> (string \<times> cue_hit) list" where
  "collect_section_cue_hits rx t =
     (let lower = map ascii_lower_text (tokenize rx t)
      in if lower \<noteq> [] \<and> lower ! 0 \<in> set STRONG_SECTION_LEAD_TOKENS
         then stream_hits lower 0 (header_hits rx t) else header_hits rx t)"

section \<open>Complexity\<close>

definition contribution :: "string \<Rightarrow> string \<Rightarrow> score_contribution" where
  "contribution signal detail = \<lparr>sc_signal = signal, sc_weight = weight_for_signal signal, sc_detail = detail\<rparr>"

definition strong_contribution :: "string \<times> cue_hit \<Rightarrow> score_contribution" where
  "strong_contribution hit =
     (case hit of (signal, phrase, _, kind) \<Rightarrow>
        contribution signal (''matched strong section cue '' @ [CHR 0x27] @ phrase @ [CHR 0x27] @ '' ('' @ kind @ '')''))"

definition weak_contribution :: "string \<times> cue_hit \<Rightarrow> score_contribution" where
  "weak_contribution hit =
     (case hit of (signal, phrase, _, kind) \<Rightarrow>
        contribution signal
          (''matched weak section cue '' @ [CHR 0x27] @ phrase @ [CHR 0x27]
           @ '' with strong multi-section evidence ('' @ kind @ '')''))"

definition section_contributions :: "regexes \<Rightarrow> utext \<Rightarrow> score_contribution list" where
  "section_contributions rx t =
     (let hits = collect_section_cue_hits rx t;
          strong = filter (\<lambda>(_, _, s, _). s = Strong) hits;
          weak = filter (\<lambda>(_, _, s, _). s = Weak) hits
      in map strong_contribution strong @ (if strong \<noteq> [] then map weak_contribution weak else []))"

definition length_contributions :: "nat \<Rightarrow> nat \<Rightarrow> score_contribution list" where
  "length_contributions section_hits wc =
     (if SECTION_CUES_FOR_LENGTH_ASSIST \<le> section_hits
      then (if 80 \<le> wc then [contribution ''words_ge_80'' (''word_count='' @ show_nat wc)] else [])
         @ (if 40 \<le> wc then [contribution ''words_ge_40'' (''word_count='' @ show_nat wc)] else [])
      else [])"

definition surface_contributions :: "surface_hint option \<Rightarrow> nat \<Rightarrow> nat \<Rightarrow> score_contribution list" where
  "surface_contributions surface section_hits wc =
     (if surface = Some CodingAgent \<and> 1 \<le> section_hits
      then [contribution ''surface_coding_agent_sections'' ''coding_agent with section cues''] else [])
   @ (if surface = Some GuiAgent \<and> 1 \<le> section_hits
      then [contribution ''surface_gui_agent_sections'' ''gui_agent with section cues''] else [])
   @ (if surface = Some Messaging \<and> wc < MESSAGING_SHORT_WORDS \<and> section_hits = 0
      then [contribution ''surface_messaging_short'' (''messaging short word_count='' @ show_nat wc)] else [])
   @ (if surface = Some Browser \<and> wc < BROWSER_SHORT_WORDS \<and> section_hits = 0
      then [contribution ''surface_browser_short'' (''browser short word_count='' @ show_nat wc)] else [])"

definition process_contributions :: "process_hint option \<Rightarrow> nat \<Rightarrow> score_contribution list" where
  "process_contributions process section_hits =
     (case process of
        None \<Rightarrow> []
      | Some p \<Rightarrow>
          (if ph_class p \<in> {CodingAgent, GuiAgent} \<and> 1 \<le> section_hits
           then [contribution ''process_coding_boost'' (''process.class='' @ surface_as_str (ph_class p))] else []))"

definition timing_contributions :: "timing_hint option \<Rightarrow> score_contribution list" where
  "timing_contributions timing =
     (case timing of
        None \<Rightarrow> []
      | Some t \<Rightarrow>
          [contribution (case th_certainty t of Clear \<Rightarrow> ''timing_clear_pause'' | Uncertain \<Rightarrow> ''timing_uncertain_pause'')
             (''max_pause_ms='' @ (case th_max_pause_ms t of Some ms \<Rightarrow> show_nat ms | None \<Rightarrow> ''None''))])"

definition score_of :: "score_contribution list \<Rightarrow> int" where
  "score_of cs = sum_list (map sc_weight cs)"

definition score_complexity ::
  "regexes \<Rightarrow> utext \<Rightarrow> surface_hint option \<Rightarrow> process_hint option \<Rightarrow> timing_hint option
    \<Rightarrow> int \<times> score_contribution list \<times> nat" where
  "score_complexity rx t surface process timing =
     (let sections = section_contributions rx t; section_hits = length sections; wc = word_count rx t;
          cs = sections @ length_contributions section_hits wc @ surface_contributions surface section_hits wc
                 @ process_contributions process section_hits @ timing_contributions timing;
          score = score_of cs
      in if score < 0
         then (0, cs @ [\<lparr>sc_signal = ''score_floor'', sc_weight = - score, sc_detail = ''clamped complexity score to 0''\<rparr>],
               section_hits)
         else (score, cs, section_hits))"

section \<open>Routing\<close>

definition route_rule :: "regexes \<Rightarrow> intent_observation \<Rightarrow> int \<Rightarrow> rendering_route \<times> cloud_request \<times> rule_id" where
  "route_rule rx ob score =
     (if is_dispute (io_provider_state ob) then
        (if io_policy ob = Natural then (DeterministicLocal, NotAllowed, DisputePolicyForbid)
         else (LocalWithOptionalCloud, Allowed, DisputeCloud))
      else if is_preformatted rx (io_primary_text ob) then (LiteralIdentity, NotAllowed, LiteralPreformatted)
      else if is_command_shaped rx (io_primary_text ob)
              \<and> command_anchor_ok rx (io_surface_hint ob) (io_process_hint ob) (io_primary_text ob)
      then (LiteralIdentity, NotAllowed, LiteralCommand)
      else if io_policy ob = Natural then (DeterministicLocal, NotAllowed, NaturalLocal)
      else if COMPLEXITY_CLOUD_THRESHOLD \<le> score
      then (LocalWithOptionalCloud, if io_policy ob = Structured then Required else Allowed, ComplexCloud)
      else (DeterministicLocal, NotAllowed, DefaultLocal))"

definition route_intent :: "regexes \<Rightarrow> intent_observation \<Rightarrow> routing_decision" where
  "route_intent rx ob =
     (case score_complexity rx (io_primary_text ob) (io_surface_hint ob) (io_process_hint ob) (io_timing ob) of
        (score, contributions, section_hits) \<Rightarrow>
          (case route_rule rx ob score of
             (route, cloud, rule) \<Rightarrow>
               \<lparr>rd_route = route, rd_cloud_request = cloud, rd_rule_id = rule, rd_complexity_score = score,
                rd_contributions = contributions,
                rd_surface_degraded = (io_surface_hint ob = None \<and> io_process_hint ob = None),
                rd_section_cue_count = section_hits\<rparr>))"


section \<open>A concrete reading of the patterns\<close>

definition word_re_char :: "nat \<Rightarrow> bool" where
  "word_re_char c \<longleftrightarrow> ascii_upper c \<or> ascii_lower c \<or> ascii_digit c \<or> c \<in> set (lit ''_./:-'')"

definition flag_re_char :: "nat \<Rightarrow> bool" where
  "flag_re_char c \<longleftrightarrow> ascii_upper c \<or> ascii_lower c \<or> ascii_digit c \<or> c \<in> set (lit ''_-'')"

definition plain_flag :: "utext \<Rightarrow> bool" where
  "plain_flag t \<longleftrightarrow>
     (case (if starts_with (lit ''--'') t then drop 2 t else if starts_with (lit ''-'') t then drop 1 t else []) of
        [] \<Rightarrow> False
      | c # r \<Rightarrow> (ascii_upper c \<or> ascii_lower c \<or> ascii_digit c) \<and> list_all flag_re_char r)"

definition plain_double_dash :: "utext \<Rightarrow> bool" where
  "plain_double_dash t \<longleftrightarrow>
     starts_with (lit ''--'') t
     \<and> (let body = takeWhile flag_re_char (drop 2 t); rest = dropWhile flag_re_char (drop 2 t)
        in body \<noteq> [] \<and> (rest = [] \<or> hd rest = 61))"

definition plain_list_line :: "(utext \<Rightarrow> utext option) \<Rightarrow> utext \<Rightarrow> bool" where
  "plain_list_line marker t =
     (case marker (utrim_start t) of
        None \<Rightarrow> False
      | Some rest \<Rightarrow> rest \<noteq> [] \<and> is_whitespace (hd rest) \<and> utrim rest \<noteq> [])"

definition plain_header :: "string \<Rightarrow> utext \<Rightarrow> bool" where
  "plain_header phrase t =
     list_ex (\<lambda>s. let l = ascii_lower_text (utrim_start s); rest = drop (length phrase) l
                  in starts_with (lit phrase) l \<and> (rest = [] \<or> \<not> flag_re_char (hd rest)))
       (split_on (\<lambda>c. c \<in> set (lit ''.!?'') \<or> c = 10) t)"

definition plain_regexes :: regexes where
  "plain_regexes = \<lparr>
     WORD_RE = (\<lambda>t. filter (\<lambda>w. w \<noteq> []) (split_on (\<lambda>c. \<not> word_re_char c) t)),
     FLAG_RE = plain_flag,
     DOUBLE_DASH_RE = plain_double_dash,
     NUMBERED_LINE_RE = plain_list_line (\<lambda>t. case dropWhile ascii_digit t of
        c # r \<Rightarrow> if t \<noteq> c # r \<and> c \<in> set (lit ''.)'') then Some r else None | [] \<Rightarrow> None),
     BULLET_LINE_RE = plain_list_line (\<lambda>t. case t of c # r \<Rightarrow> if c \<in> set (lit ''-*'') then Some r else None | [] \<Rightarrow> None),
     FILE_EXT_RE = (\<lambda>t. list_ex (\<lambda>e. ends_with (lit e) (ascii_lower_text t) \<and> length e < length t
        \<and> list_all (\<lambda>c. flag_re_char c \<or> c = 46) t) [''.rs'', ''.py'', ''.ts'', ''.sh'', ''.toml'', ''.json'', ''.md'']),
     BAZEL_TARGET_RE = (\<lambda>t. starts_with (lit ''//'') t \<and> 2 < length t \<and> list_all word_re_char t),
     section_header_re = plain_header\<rparr>"

section \<open>Section cues are counted once\<close>

definition cue_signals :: "string list" where
  "cue_signals = map cue_signal_id SECTION_CUES"

text \<open>Keys ascend strictly, so no cue is counted twice, and every hit carries its cue's strength.\<close>

definition hits_ok :: "(string \<times> cue_hit) list \<Rightarrow> bool" where
  "hits_ok m \<longleftrightarrow> sorted_wrt (<) (map fst m)
     \<and> (\<forall>(k, _, s, _)\<in>set m. \<exists>cue\<in>set SECTION_CUES. k = cue_signal_id cue \<and> s = cue_strength cue)"

lemma btree_insert_keys: "fst ` set (btree_insert k v m) = insert k (fst ` set m)"
  by (induction k v m rule: btree_insert.induct) auto

lemma btree_insert_sorted: "sorted_wrt (<) (map fst m) \<Longrightarrow> sorted_wrt (<) (map fst (btree_insert k v m))"
proof (induction k v m rule: btree_insert.induct)
  case (2 k v k' v' m)
  have "\<forall>x\<in>fst ` set (btree_insert k v m). k' < x" if "\<not> k < k'" "k \<noteq> k'"
    using 2(2) that by (auto simp: btree_insert_keys)
  then show ?case using 2 by auto
qed simp

lemma btree_insert_set: "set (btree_insert k v m) \<subseteq> insert (k, v) (set m)"
  by (induction k v m rule: btree_insert.induct) auto

lemma hits_ok_insert:
  assumes "hits_ok m" "cue \<in> set SECTION_CUES"
  shows "hits_ok (btree_insert (cue_signal_id cue) (p, cue_strength cue, d) m)"
  using assms btree_insert_sorted btree_insert_set [of "cue_signal_id cue" "(p, cue_strength cue, d)" m]
  unfolding hits_ok_def by (fast dest: subsetD)

lemma hits_ok_header: "hits_ok (header_hits rx t)"
proof -
  have "hits_ok (fold (\<lambda>cue found. if section_header_re rx (cue_phrase cue) t
      then btree_insert (cue_signal_id cue) (cue_phrase cue, cue_strength cue, ''header'') found else found) cues m)"
    if "set cues \<subseteq> set SECTION_CUES" "hits_ok m" for cues m
    using that by (induction cues arbitrary: m) (auto simp: hits_ok_insert)
  moreover have "hits_ok []" by (simp add: hits_ok_def)
  ultimately show ?thesis unfolding header_hits_def by blast
qed

lemma hits_ok_stream: "hits_ok found \<Longrightarrow> hits_ok (stream_hits lower i found)"
proof (induction lower i found rule: stream_hits.induct)
  case (1 lower i found)
  show ?case
  proof (cases "cue_at lower i")
    case (Some cue)
    have "hits_ok (stream_hit lower i cue found)"
      using hits_ok_insert [OF 1(3) cue_at_cue [OF Some]] 1(3)
      by (auto simp: stream_hit_def btree_or_insert_def Let_def)
    then show ?thesis using 1(2) [OF _ Some] 1(3) Some by (subst stream_hits.simps) auto
  qed (use 1(1,3) in \<open>subst stream_hits.simps; auto\<close>)
qed

lemma hits_ok_collect: "hits_ok (collect_section_cue_hits rx t)"
  by (simp add: collect_section_cue_hits_def Let_def hits_ok_header hits_ok_stream)


section \<open>What a score is made of\<close>

lemma signal_weights: "k \<in> set cue_signals \<Longrightarrow> 10 \<le> weight_for_signal k \<and> weight_for_signal k \<le> 14"
proof -
  have "list_all (\<lambda>k. 10 \<le> weight_for_signal k \<and> weight_for_signal k \<le> 14) cue_signals" by code_simp
  then show "k \<in> set cue_signals \<Longrightarrow> ?thesis" by (simp add: list_all_iff)
qed

lemma sum_cue_weights: "(\<Sum>k\<in>set cue_signals. weight_for_signal k) = 94"
proof -
  have d: "distinct cue_signals" by code_simp
  have "sum_list (map weight_for_signal cue_signals) = 94" by code_simp
  then show ?thesis unfolding sum_list_distinct_conv_sum_set [OF d] .
qed

lemma assist_weights [simp]:
  "weight_for_signal ''words_ge_80'' = 6" "weight_for_signal ''words_ge_40'' = 4"
  "weight_for_signal ''surface_coding_agent_sections'' = 4" "weight_for_signal ''surface_gui_agent_sections'' = 3"
  "weight_for_signal ''surface_messaging_short'' = - 6" "weight_for_signal ''surface_browser_short'' = - 4"
  "weight_for_signal ''process_coding_boost'' = 2" "weight_for_signal ''timing_clear_pause'' = 0"
  "weight_for_signal ''timing_uncertain_pause'' = 0"
  by code_simp+

lemma contribution_simps [simp]:
  "sc_signal (contribution s d) = s" "sc_weight (contribution s d) = weight_for_signal s"
  by (simp_all add: contribution_def)

lemma hit_contributions [simp]:
  "sc_signal (strong_contribution h) = fst h" "sc_signal (weak_contribution h) = fst h"
  "sc_weight (strong_contribution h) = weight_for_signal (fst h)"
  "sc_weight (weak_contribution h) = weight_for_signal (fst h)"
  by (simp_all add: strong_contribution_def weak_contribution_def split: prod.splits)

lemma score_of_simps [simp]:
  "score_of [] = 0" "score_of (c # cs) = sc_weight c + score_of cs" "score_of (cs @ ds) = score_of cs + score_of ds"
  by (simp_all add: score_of_def)

text \<open>The signals of the section contributions are different cues.\<close>

lemma section_signals:
  "distinct (map sc_signal (section_contributions rx t))
    \<and> set (map sc_signal (section_contributions rx t)) \<subseteq> set cue_signals"
proof -
  let ?hits = "collect_section_cue_hits rx t"
  have ok: "hits_ok ?hits" by (rule hits_ok_collect)
  then have d: "distinct (map fst ?hits)" by (simp add: hits_ok_def strict_sorted_iff)
  then have inj: "inj_on fst (set ?hits)" and dh: "distinct ?hits" by (auto simp: distinct_map)
  have sub: "fst ` set ?hits \<subseteq> set cue_signals" using ok by (fastforce simp: hits_ok_def cue_signals_def)
  have sel: "distinct (map fst (filter P ?hits))" for P using d by (rule distinct_map_filter)
  have "fst ` {h \<in> set ?hits. P h} \<inter> fst ` {h \<in> set ?hits. Q h} = {}" if "\<And>h. \<not> (P h \<and> Q h)" for P Q
    using inj that by (fastforce simp: inj_on_def)
  from this [of "\<lambda>(_, _, s, _). s = Strong" "\<lambda>(_, _, s, _). s = Weak"]
  have "distinct (map fst (filter (\<lambda>(_, _, s, _). s = Strong) ?hits @ filter (\<lambda>(_, _, s, _). s = Weak) ?hits))"
    using sel unfolding map_append distinct_append set_map set_filter by fast
  moreover have "map sc_signal (section_contributions rx t) =
      map fst (filter (\<lambda>(_, _, s, _). s = Strong) ?hits
        @ (if filter (\<lambda>(_, _, s, _). s = Strong) ?hits \<noteq> [] then filter (\<lambda>(_, _, s, _). s = Weak) ?hits else []))"
    by (simp add: section_contributions_def Let_def comp_def)
  ultimately show ?thesis using sel sub by (auto split: if_splits)
qed

lemma section_score:
  fixes rx t
  defines "cs \<equiv> section_contributions rx t"
  shows "0 \<le> score_of cs" "score_of cs \<le> 94" "score_of cs \<le> 14 * int (length cs)"
proof -
  have d: "distinct (map sc_signal cs)" and sub: "set (map sc_signal cs) \<subseteq> set cue_signals"
    using section_signals unfolding cs_def by blast+
  have w: "sc_weight c = weight_for_signal (sc_signal c)" if "c \<in> set cs" for c
    using that by (auto simp: cs_def section_contributions_def Let_def split: if_splits)
  then have score: "score_of cs = sum_list (map weight_for_signal (map sc_signal cs))"
    unfolding score_of_def by (simp cong: map_cong)
  also have "\<dots> = sum weight_for_signal (set (map sc_signal cs))" using d by (rule sum_list_distinct_conv_sum_set)
  finally have sum: "score_of cs = sum weight_for_signal (set (map sc_signal cs))" .
  have pos: "0 \<le> weight_for_signal k" if "k \<in> set cue_signals" for k using signal_weights [OF that] by simp
  show "0 \<le> score_of cs" unfolding sum using sub pos by (intro sum_nonneg) blast
  show "score_of cs \<le> 94" unfolding sum sum_cue_weights [symmetric] using sub pos by (intro sum_mono2) auto
  have "sum_list (map weight_for_signal ks) \<le> 14 * int (length ks)" if "set ks \<subseteq> set cue_signals" for ks
    using that signal_weights by (induction ks) fastforce+
  from this [OF sub] show "score_of cs \<le> 14 * int (length cs)" unfolding score by simp
qed


text \<open>What the other signals add: the length assists need two sections, the boosts one.\<close>

definition assist_contributions ::
  "surface_hint option \<Rightarrow> process_hint option \<Rightarrow> timing_hint option \<Rightarrow> nat \<Rightarrow> nat \<Rightarrow> score_contribution list" where
  "assist_contributions surface process timing hits wc =
     length_contributions hits wc @ surface_contributions surface hits wc @ process_contributions process hits
       @ timing_contributions timing"

lemma assist_score:
  "score_of (assist_contributions surface process timing hits wc) \<le> (if 2 \<le> hits then 16 else if 1 \<le> hits then 6 else 0)
    \<and> - 6 \<le> score_of (assist_contributions surface process timing hits wc)"
proof -
  have "score_of (length_contributions hits wc) \<le> (if 2 \<le> hits then 10 else 0) \<and> 0 \<le> score_of (length_contributions hits wc)"
    by (simp add: length_contributions_def SECTION_CUES_FOR_LENGTH_ASSIST_def)
  moreover have "score_of (surface_contributions surface hits wc) \<le> (if 1 \<le> hits then 4 else 0)
      \<and> - 6 \<le> score_of (surface_contributions surface hits wc)"
    by (simp add: surface_contributions_def)
  moreover have "score_of (process_contributions process hits) \<le> (if 1 \<le> hits then 2 else 0) \<and> 0 \<le> score_of (process_contributions process hits)"
    by (simp add: process_contributions_def split: option.split)
  moreover have "score_of (timing_contributions timing) = 0"
    by (simp add: timing_contributions_def split: option.split timing_certainty.split)
  ultimately show ?thesis by (auto simp: assist_contributions_def split: if_splits)
qed

definition assist_names :: "string list" where
  "assist_names = [''words_ge_80'', ''words_ge_40''] @ [''surface_coding_agent_sections'', ''surface_gui_agent_sections'',
     ''surface_messaging_short'', ''surface_browser_short''] @ [''process_coding_boost''] @ [''timing_clear_pause'', ''timing_uncertain_pause'']"

lemma assist_signals:
  "distinct (map sc_signal (assist_contributions surface process timing hits wc))
    \<and> set (map sc_signal (assist_contributions surface process timing hits wc)) \<inter> insert ''score_floor'' (set cue_signals) = {}"
proof -
  let ?ks = "map sc_signal (assist_contributions surface process timing hits wc)"
  have "subseq ?ks assist_names"
    unfolding assist_contributions_def assist_names_def map_append
    by (intro list_emb_append_mono)
      (simp_all add: length_contributions_def surface_contributions_def process_contributions_def timing_contributions_def
        split: option.split timing_certainty.split)
  then obtain N where N: "?ks = nths assist_names N" by (auto simp: subseq_conv_nths)
  have "distinct assist_names" by code_simp
  then have "distinct ?ks" unfolding N by (rule distinct_nthsI)
  moreover have "list_all (\<lambda>k. k \<notin> insert ''score_floor'' (set cue_signals)) assist_names" by code_simp
  then have "set ?ks \<inter> insert ''score_floor'' (set cue_signals) = {}"
    unfolding N list_all_iff using set_nths_subset [of assist_names N] by blast
  ultimately show ?thesis by blast
qed

text \<open>
  The complexity score is exactly the sum of the contributions the decision reports, no
  signal is counted twice, it lies between 0 and 110 (far inside \<open>i32\<close>), and it reaches the cloud
  threshold only on at least two different section cues: length, surface, process and timing can
  never open the cloud by themselves or with a single cue.
\<close>
theorem routing_score_accounts:
  "case score_complexity rx t surface process timing of (score, cs, hits) \<Rightarrow>
     score = sum_list (map sc_weight cs) \<and> distinct (map sc_signal cs)
     \<and> 0 \<le> score \<and> score \<le> 110
     \<and> hits = length (filter (\<lambda>c. sc_signal c \<in> set cue_signals) cs)
     \<and> (score < COMPLEXITY_CLOUD_THRESHOLD \<or> 2 \<le> hits)"
proof -
  let ?sec = "section_contributions rx t" and ?wc = "word_count rx t"
  let ?more = "assist_contributions surface process timing (length ?sec) ?wc"
  let ?floor = "if score_of (?sec @ ?more) < 0
    then [\<lparr>sc_signal = ''score_floor'', sc_weight = - score_of (?sec @ ?more), sc_detail = ''clamped complexity score to 0''\<rparr>]
    else []"
  have eq: "score_complexity rx t surface process timing =
      (score_of (?sec @ ?more @ ?floor), ?sec @ ?more @ ?floor, length ?sec)"
    by (simp add: score_complexity_def assist_contributions_def Let_def)
  note sec = section_score [of rx t] and sig = section_signals [of rx t]
    and more = assist_score [of surface process timing "length ?sec" ?wc]
    and msig = assist_signals [of surface process timing "length ?sec" ?wc]
  have floor_sig: "''score_floor'' \<notin> set cue_signals" by code_simp
  have "filter (\<lambda>c. sc_signal c \<in> set cue_signals) ?more = []" using msig by (auto simp: filter_empty_conv)
  moreover have "filter (\<lambda>c. sc_signal c \<in> set cue_signals) ?sec = ?sec" using sig by (auto intro!: filter_True)
  moreover have "filter (\<lambda>c. sc_signal c \<in> set cue_signals) ?floor = []" using floor_sig by simp
  ultimately have hits: "length ?sec = length (filter (\<lambda>c. sc_signal c \<in> set cue_signals) (?sec @ ?more @ ?floor))" by simp
  have dist: "distinct (map sc_signal (?sec @ ?more @ ?floor))" using sig msig floor_sig by (auto simp: disjoint_iff)
  have bounds: "0 \<le> score_of (?sec @ ?more @ ?floor)" "score_of (?sec @ ?more @ ?floor) \<le> 110"
    "score_of (?sec @ ?more @ ?floor) < COMPLEXITY_CLOUD_THRESHOLD \<or> 2 \<le> length ?sec"
    using sec more by (auto simp: COMPLEXITY_CLOUD_THRESHOLD_def split: if_splits)
  show ?thesis unfolding eq using hits dist bounds by (simp add: score_of_def)
qed

text \<open>
  The routing table. The cloud is open exactly for a policy other than Natural on disputed
  speech, or on undisputed speech that is neither a preformatted list nor an anchored command and
  reaches the threshold; it is mandatory exactly in the second case under the Structured policy. The
  optional-cloud route is taken exactly when the cloud is open, the text is kept literally exactly for
  undisputed lists and commands, and the rule reported names the branch.
\<close>
theorem routing_table:
  "let d = route_intent rx ob; dispute = is_dispute (io_provider_state ob);
       literal = (is_preformatted rx (io_primary_text ob)
         \<or> is_command_shaped rx (io_primary_text ob)
           \<and> command_anchor_ok rx (io_surface_hint ob) (io_process_hint ob) (io_primary_text ob));
       complex = COMPLEXITY_CLOUD_THRESHOLD \<le> rd_complexity_score d
   in (rd_cloud_request d \<noteq> NotAllowed) = (io_policy ob \<noteq> Natural \<and> (dispute \<or> \<not> literal \<and> complex))
      \<and> (rd_cloud_request d = Required) = (io_policy ob = Structured \<and> \<not> dispute \<and> \<not> literal \<and> complex)
      \<and> (rd_route d = LocalWithOptionalCloud) = (rd_cloud_request d \<noteq> NotAllowed)
      \<and> (rd_route d = LiteralIdentity) = (\<not> dispute \<and> literal)
      \<and> (rd_rule_id d \<in> {DisputeCloud, ComplexCloud}) = (rd_cloud_request d \<noteq> NotAllowed)
      \<and> (rd_rule_id d \<in> {DisputeCloud, DisputePolicyForbid}) = dispute"
proof -
  obtain score cs hits where sc: "score_complexity rx (io_primary_text ob) (io_surface_hint ob) (io_process_hint ob) (io_timing ob)
      = (score, cs, hits)" by (metis prod_cases3)
  obtain route cloud rule where rr: "route_rule rx ob score = (route, cloud, rule)" by (metis prod_cases3)
  have d: "route_intent rx ob = \<lparr>rd_route = route, rd_cloud_request = cloud, rd_rule_id = rule, rd_complexity_score = score,
      rd_contributions = cs, rd_surface_degraded = (io_surface_hint ob = None \<and> io_process_hint ob = None),
      rd_section_cue_count = hits\<rparr>"
    by (simp add: route_intent_def sc rr)
  show ?thesis using rr unfolding d by (auto simp: route_rule_def Let_def split: if_splits)
qed

text \<open>The patterns as \<open>plain_regexes\<close> reads them, on the examples of the source's comments.\<close>

lemma command_shapes:
  "is_command_shaped plain_regexes (lit ''cargo test'') \<and> is_command_shaped plain_regexes (lit ''make -j4'')
    \<and> \<not> is_command_shaped plain_regexes (lit ''make sure the tests pass'') \<and> \<not> is_command_shaped plain_regexes (lit ''go ahead'')"
  by code_simp

end
