(* ===== verification/Tone.thy ===== *)
theory Tone
  imports Intent_Routing
begin

text \<open>
  Tone, \<open>crates/voisu-core/src/tone.rs\<close>: the pass over the text about to be delivered. \<open>Formal\<close> keeps it;
  \<open>Informal\<close> swaps a closed table of spoken phrases for chat abbreviations, where the position of the
  phrase marks it as the speaker's own, and drops the final full stop. Offsets count characters. The
  lemmas say what the pass may change: spans of unprotected words that are a phrase of the table, and
  one full stop.
\<close>

section \<open>The setting\<close>

datatype tone = Formal | Informal

definition tone_as_str :: "tone \<Rightarrow> string" where
  "tone_as_str t = (case t of Formal \<Rightarrow> ''formal'' | Informal \<Rightarrow> ''informal'')"

definition tone_parse :: "string \<Rightarrow> tone option" where
  "tone_parse s = (if s = ''formal'' then Some Formal else if s = ''informal'' then Some Informal else None)"

interpretation tone_wire: wire_name tone_as_str tone_parse
  by unfold_locales (auto simp: tone_as_str_def tone_parse_def split: tone.splits)

section \<open>The table\<close>

datatype position =
    Anywhere
  | Request
  | ClauseStart
  | ClauseStartBefore "utext list"
  | WholeClause
  | Subject "utext list list"
  | SubjectOrAlone "utext list list"
  | Leaving bool

type_synonym phrase = "utext list \<times> utext \<times> position"

definition I_WILL :: "utext list list" where
  "I_WILL = map (map lit) [[''i'' @ [CHR 0x27] @ ''ll''], [''i'', ''will''], [''will'']]"

definition I_AM :: "utext list list" where
  "I_AM = map (map lit) [[''i'' @ [CHR 0x27] @ ''m''], [''i'', ''am'']]"

definition I_AM_OR_WAS :: "utext list list" where
  "I_AM_OR_WAS = map (map lit) [[''i'' @ [CHR 0x27] @ ''m''], [''i'', ''am''], [''i'', ''was'']]"

definition I_LEAVING :: "utext list list" where
  "I_LEAVING = map (map lit) [[''i''], [''i'' @ [CHR 0x27] @ ''ve'']]"

definition REQUEST_VERBS :: "utext list" where
  "REQUEST_VERBS = map lit [''can'', ''could'', ''would'', ''will'']"

definition AFTER_IDK :: "utext list" where
  "AFTER_IDK = map lit [''what'', ''where'', ''when'', ''who'', ''why'', ''how'', ''if'', ''whether'', ''which'',
     ''about'', ''but'', ''though'']"

definition PHRASES :: "phrase list" where
  "PHRASES = map (\<lambda>(ws, abbreviation, position). (map lit ws, lit abbreviation, position))
    [([''by'', ''the'', ''way''], ''btw'', ClauseStart),
     ([''oh'', ''my'', ''god''], ''omg'', Anywhere),
     ([''oh'', ''my'', ''gosh''], ''omg'', Anywhere),
     ([''for'', ''your'', ''information''], ''fyi'', ClauseStart),
     ([''as'', ''soon'', ''as'', ''possible''], ''asap'', Anywhere),
     ([''to'', ''be'', ''honest''], ''tbh'', ClauseStart),
     ([''to'', ''be'', ''fair''], ''tbf'', ClauseStart),
     ([''not'', ''gonna'', ''lie''], ''ngl'', ClauseStartBefore []),
     ([''in'', ''my'', ''opinion''], ''imo'', ClauseStart),
     ([''in'', ''my'', ''humble'', ''opinion''], ''imho'', ClauseStart),
     ([''as'', ''far'', ''as'', ''i'', ''know''], ''afaik'', Anywhere),
     ([''i'', ''don'' @ [CHR 0x27] @ ''t'', ''know''], ''idk'', ClauseStartBefore AFTER_IDK),
     ([''never'', ''mind''], ''nvm'', WholeClause),
     ([''no'', ''problem''], ''np'', WholeClause),
     ([''let'', ''me'', ''know''], ''lmk'', Request),
     ([''what'', ''the'', ''fuck''], ''wtf'', Anywhere),
     ([''in'', ''real'', ''life''], ''irl'', Anywhere),
     ([''away'', ''from'', ''keyboard''], ''afk'', Anywhere),
     ([''on'', ''my'', ''way''], ''omw'', SubjectOrAlone I_AM),
     ([''be'', ''right'', ''back''], ''brb'', Subject I_WILL),
     ([''talk'', ''to'', ''you'', ''later''], ''ttyl'', Subject I_WILL),
     ([''shaking'', ''my'', ''head''], ''smh'', SubjectOrAlone I_AM),
     ([''laughing'', ''out'', ''loud''], ''lol'', SubjectOrAlone I_AM_OR_WAS),
     ([''laughing'', ''my'', ''ass'', ''off''], ''lmao'', SubjectOrAlone I_AM_OR_WAS),
     ([''rolling'', ''on'', ''the'', ''floor'', ''laughing''], ''rofl'', SubjectOrAlone I_AM_OR_WAS),
     ([''got'', ''to'', ''go''], ''g2g'', Leaving True),
     ([''gotta'', ''go''], ''g2g'', Leaving True),
     ([''have'', ''to'', ''go''], ''g2g'', Leaving False)]"

definition DISCOURSE_LEADS :: "utext list" where
  "DISCOURSE_LEADS = map lit [''and'', ''but'', ''so'', ''well'', ''oh'', ''hey'', ''ok'', ''okay'']"

definition SENTENCE_OPENERS :: "utext list" where
  "SENTENCE_OPENERS = map lit [''sorry'', ''anyway'', ''alright'']"

definition TRAILING_PUNCT :: "utext" where
  "TRAILING_PUNCT = lit '',.!?;:''"

definition CLOSERS :: "utext" where
  "CLOSERS = [34, 0x201D, 41]"

definition ABBREVIATION_STEMS :: "utext list" where
  "ABBREVIATION_STEMS = map lit [''etc'', ''mr'', ''mrs'', ''ms'', ''dr'', ''vs'', ''inc'', ''jr'', ''sr'', ''st'', ''ltd'',
     ''co'', ''prof'']"

section \<open>Words and sentences\<close>

text \<open>\<open>str::trim_end_matches\<close> and \<open>ends_with\<close> on a set of characters, and a slice by offsets.\<close>

definition trim_chars :: "utext \<Rightarrow> utext \<Rightarrow> utext" where
  "trim_chars cs t = trim_end_matches (\<lambda>c. c \<in> set cs) t"

definition ends_in :: "utext \<Rightarrow> utext \<Rightarrow> bool" where
  "ends_in cs t \<longleftrightarrow> t \<noteq> [] \<and> last t \<in> set cs"

definition slice :: "utext \<Rightarrow> nat \<Rightarrow> nat \<Rightarrow> utext" where
  "slice t i j = take (j - i) (drop i t)"

definition is_list_marker :: "utext \<Rightarrow> bool" where
  "is_list_marker tok =
     (if tok \<in> {[45], [42], [0x2022]} then True
      else let stem = (if ends_in [46, 41] tok then butlast tok else [])
           in stem \<noteq> [] \<and> list_all ascii_digit stem)"

definition ends_sentence :: "utext \<Rightarrow> nat \<Rightarrow> bool" where
  "ends_sentence tok index =
     (let end = trim_chars CLOSERS tok
      in if ends_in (lit ''!?'') end then True
         else if \<not> ends_in [46] end then False
         else let stem = trim_chars [46] end;
                  is_list_number = (index = 0 \<and> stem \<noteq> [] \<and> list_all ascii_digit stem)
              in 46 \<notin> set stem \<and> \<not> is_list_number \<and> ascii_lower_text stem \<notin> set ABBREVIATION_STEMS)"

record tone_words =
  tw_tokens :: "token list"
  tw_lower :: "utext list"
  tw_skip :: "bool list"

definition word_at :: "tone_words \<Rightarrow> nat \<Rightarrow> utext" where
  "word_at w i = token_text (tw_tokens w ! i)"

definition after_sentence_mark :: "tone_words \<Rightarrow> nat \<Rightarrow> bool" where
  "after_sentence_mark w i =
     (if i = 0 then True
      else ends_sentence (word_at w (i - 1)) (i - 1) \<or> ends_in (lit '';:'') (trim_chars CLOSERS (word_at w (i - 1))))"

function opens_sentence :: "tone_words \<Rightarrow> nat \<Rightarrow> bool" where
  "opens_sentence w i =
     (if after_sentence_mark w i then True
      else let lead = trim_chars TRAILING_PUNCT (tw_lower w ! (i - 1))
           in (lead \<in> set DISCOURSE_LEADS \<or> lead \<in> set SENTENCE_OPENERS) \<and> opens_sentence w (i - 1))"
  by pat_completeness auto
termination by (relation "measure snd") (auto simp: after_sentence_mark_def split: if_splits)

declare opens_sentence.simps [simp del]

definition after_one_word :: "tone_words \<Rightarrow> nat \<Rightarrow> bool" where
  "after_one_word w i \<longleftrightarrow> 0 < i \<and> ends_in [44] (word_at w (i - 1)) \<and> after_sentence_mark w (i - 1)"

definition after_punctuation :: "tone_words \<Rightarrow> nat \<Rightarrow> bool" where
  "after_punctuation w i \<longleftrightarrow> ends_in TRAILING_PUNCT (trim_chars CLOSERS (word_at w (i - 1)))"

definition ends_clause :: "tone_words \<Rightarrow> nat \<Rightarrow> bool" where
  "ends_clause w k \<longleftrightarrow> k + 1 = length (tw_tokens w) \<or> ends_in TRAILING_PUNCT (word_at w k)"

definition ends_thought :: "tone_words \<Rightarrow> nat \<Rightarrow> bool" where
  "ends_thought w k \<longleftrightarrow>
     \<not> ends_in [63] (word_at w k) \<and> (k + 1 = length (tw_tokens w) \<or> ends_in (lit ''.!;'') (word_at w k))"

definition next_word_in :: "tone_words \<Rightarrow> nat \<Rightarrow> utext list \<Rightarrow> bool" where
  "next_word_in w k ws \<longleftrightarrow>
     k + 1 < length (tw_lower w) \<and> trim_chars TRAILING_PUNCT (tw_lower w ! (k + 1)) \<in> set ws"

definition starts_clause :: "tone_words \<Rightarrow> nat \<Rightarrow> bool" where
  "starts_clause w i \<longleftrightarrow> i = 0 \<or> after_punctuation w i \<or> tw_lower w ! (i - 1) \<in> set DISCOURSE_LEADS"

definition is_request :: "tone_words \<Rightarrow> nat \<Rightarrow> bool" where
  "is_request w i =
     (if i = 0 \<or> after_punctuation w i \<or> opens_sentence w i then True
      else if tw_lower w ! (i - 1) = lit ''please'' then True
      else if tw_lower w ! (i - 1) = lit ''just'' then opens_sentence w (i - 1)
      else if tw_lower w ! (i - 1) = lit ''you'' then 2 \<le> i \<and> tw_lower w ! (i - 2) \<in> set REQUEST_VERBS
      else False)"

section \<open>Where a phrase may fire\<close>

definition subject_fits :: "tone_words \<Rightarrow> nat \<Rightarrow> nat \<Rightarrow> bool \<Rightarrow> utext list \<Rightarrow> bool" where
  "subject_fits w i floor strict subject =
     (let n = length subject
      in if i < n \<or> i - n < floor then False
         else let start = i - n;
                  matches = (list_all (\<lambda>s. \<not> s) (take n (drop start (tw_skip w))) \<and> subject = take n (drop start (tw_lower w)));
                  names_speaker = starts_with [105] (hd subject);
                  leads = (opens_sentence w start \<or> \<not> strict \<and> names_speaker \<and> starts_clause w start)
              in matches \<and> leads)"

definition subject_before :: "tone_words \<Rightarrow> nat \<Rightarrow> nat \<Rightarrow> utext list list \<Rightarrow> bool \<Rightarrow> nat option" where
  "subject_before w i floor subjects strict = map_option length (find (subject_fits w i floor strict) subjects)"

definition then_some :: "bool \<Rightarrow> 'a \<Rightarrow> 'a option" where
  "then_some b x = (if b then Some x else None)"

definition or_else :: "'a option \<Rightarrow> 'a option \<Rightarrow> 'a option" where
  "or_else x y = (case x of Some v \<Rightarrow> Some v | None \<Rightarrow> y)"

fun position_allows :: "tone_words \<Rightarrow> position \<Rightarrow> nat \<Rightarrow> nat \<Rightarrow> nat \<Rightarrow> nat option" where
  "position_allows w Anywhere i k floor = Some 0"
| "position_allows w Request i k floor = then_some (is_request w i) 0"
| "position_allows w ClauseStart i k floor = then_some (starts_clause w i) 0"
| "position_allows w (ClauseStartBefore ws) i k floor =
     then_some ((starts_clause w i \<or> opens_sentence w i) \<and> (ends_clause w k \<or> next_word_in w k ws)) 0"
| "position_allows w WholeClause i k floor = then_some (ends_clause w k \<and> (i = 0 \<or> after_punctuation w i)) 0"
| "position_allows w (Subject subjects) i k floor =
     or_else (subject_before w i floor subjects False) (then_some (opens_sentence w i \<or> after_one_word w i) 0)"
| "position_allows w (SubjectOrAlone subjects) i k floor =
     or_else (subject_before w i floor subjects False) (then_some (opens_sentence w i \<and> ends_thought w k) 0)"
| "position_allows w (Leaving bare) i k floor =
     (if \<not> ends_thought w k then None
      else or_else (subject_before w i floor I_LEAVING True) (then_some (bare \<and> opens_sentence w i) 0))"

record hit =
  hit_len :: nat
  hit_subject :: nat
  hit_abbreviation :: utext
  hit_suffix :: utext

text \<open>One turn of the loop over the table, without the test against the best hit so far.\<close>

definition phrase_hit :: "tone_words \<Rightarrow> nat \<Rightarrow> nat \<Rightarrow> phrase \<Rightarrow> hit option" where
  "phrase_hit w i floor p =
     (case p of (ws, abbreviation, position) \<Rightarrow>
        let n = length ws; k = i + n - 1
        in if length (tw_tokens w) < i + n then None
           else if list_ex (\<lambda>s. s) (take n (drop i (tw_skip w))) then None
           else if butlast ws \<noteq> take (n - 1) (drop i (tw_lower w)) then None
           else if trim_chars TRAILING_PUNCT (tw_lower w ! k) \<noteq> last ws then None
           else let raw_last = word_at w k; suf = drop (length (trim_chars TRAILING_PUNCT raw_last)) raw_last
                in map_option (\<lambda>subject. \<lparr>hit_len = n, hit_subject = subject, hit_abbreviation = abbreviation, hit_suffix = suf\<rparr>)
                     (position_allows w position i k floor))"

definition better_hit :: "tone_words \<Rightarrow> nat \<Rightarrow> nat \<Rightarrow> phrase \<Rightarrow> hit option \<Rightarrow> hit option" where
  "better_hit w i floor p best =
     (if (case best of Some h \<Rightarrow> length (fst p) \<le> hit_len h | None \<Rightarrow> False) then best
      else case phrase_hit w i floor p of Some h \<Rightarrow> Some h | None \<Rightarrow> best)"

definition match_at :: "tone_words \<Rightarrow> nat \<Rightarrow> nat \<Rightarrow> hit option" where
  "match_at w i floor = fold (better_hit w i floor) PHRASES None"

lemma phrase_hit_len: "phrase_hit w i floor p = Some h \<Longrightarrow> hit_len h = length (fst p)"
  by (auto simp: phrase_hit_def Let_def split: prod.splits if_splits)

text \<open>The best of a table: nothing fits, or a phrase that fits and is at least as long as any other that does.\<close>

lemma best_hit:
  assumes "match = fold (better_hit w i floor) ps None"
  shows "(case match of
      None \<Rightarrow> \<forall>p\<in>set ps. phrase_hit w i floor p = None
    | Some h \<Rightarrow> (\<exists>p\<in>set ps. phrase_hit w i floor p = Some h)
        \<and> (\<forall>p\<in>set ps. phrase_hit w i floor p \<noteq> None \<longrightarrow> length (fst p) \<le> hit_len h))"
  using assms
proof (induction ps arbitrary: match rule: rev_induct)
  case (snoc p ps)
  define m where "m = fold (better_hit w i floor) ps None"
  have match: "match = better_hit w i floor p m" using snoc.prems by (simp add: m_def)
  show ?case using snoc.IH [OF m_def] unfolding match
    by (fastforce simp: better_hit_def phrase_hit_len split: option.splits if_splits)
qed simp

lemma phrases_nonempty: "p \<in> set PHRASES \<Longrightarrow> fst p \<noteq> []"
proof -
  have "list_all (\<lambda>p. fst p \<noteq> []) PHRASES" by code_simp
  then show "p \<in> set PHRASES \<Longrightarrow> fst p \<noteq> []" by (simp add: list_all_iff)
qed

lemma match_at_pos: "match_at w i floor = Some h \<Longrightarrow> 0 < hit_len h"
  using best_hit [OF match_at_def, of w i floor] phrases_nonempty phrase_hit_len by fastforce

section \<open>Rewriting a line\<close>

function abbreviate_from :: "tone_words \<Rightarrow> utext \<Rightarrow> nat \<Rightarrow> nat \<Rightarrow> nat \<Rightarrow> utext" where
  "abbreviate_from w line cursor floor i =
     (if length (tw_tokens w) \<le> i then drop cursor line
      else case match_at w i floor of
             None \<Rightarrow> abbreviate_from w line cursor floor (i + 1)
           | Some hit \<Rightarrow>
               let k = i + hit_len hit - 1
               in slice line cursor (fst (tw_tokens w ! (i - hit_subject hit))) @ hit_abbreviation hit @ hit_suffix hit
                  @ abbreviate_from w line (fst (snd (tw_tokens w ! k))) (k + 1) (k + 1))"
  by pat_completeness auto
termination
  by (relation "measure (\<lambda>(w, _, _, _, i). length (tw_tokens w) - i)") (auto dest: match_at_pos)

declare abbreviate_from.simps [simp del]

text \<open>Inside or carrying a quotation mark or a backtick.\<close>

type_synonym marks = "bool \<times> bool \<times> bool"

definition mark_char :: "nat \<Rightarrow> marks \<times> bool \<Rightarrow> marks \<times> bool" where
  "mark_char c st =
     (case st of ((straight, curly, code), marked) \<Rightarrow>
        if c = 34 then ((\<not> straight, curly, code), True)
        else if c = 0x201C then ((straight, True, code), True)
        else if c = 0x201D then ((straight, False, code), True)
        else if c = 96 then ((straight, curly, \<not> code), True)
        else st)"

fun marked_from :: "marks \<Rightarrow> utext list \<Rightarrow> bool list" where
  "marked_from m [] = []"
| "marked_from (straight, curly, code) (t # ts) =
     (case fold mark_char t ((straight, curly, code), straight \<or> curly \<or> code) of
        (m, marked) \<Rightarrow> marked # marked_from m ts)"

definition protected_mask :: "token list \<Rightarrow> bool list" where
  "protected_mask toks =
     map2 (\<or>) (masked_tokens toks) (marked_from (False, False, False) (map token_text toks))"

definition tone_words_of :: "utext \<Rightarrow> tone_words" where
  "tone_words_of line =
     (let toks = word_tokens line
      in \<lparr>tw_tokens = toks,
          tw_lower = map (\<lambda>tok. map (\<lambda>c. if c = 0x2019 then 39 else c) (ascii_lower_text (token_text tok))) toks,
          tw_skip = protected_mask toks\<rparr>)"

definition abbreviate_line :: "utext \<Rightarrow> utext" where
  "abbreviate_line line = abbreviate_from (tone_words_of line) line 0 0 0"

section \<open>Casing\<close>

definition is_abbreviation :: "utext \<Rightarrow> bool" where
  "is_abbreviation tok =
     list_ex (\<lambda>(_, abbreviation, _). ascii_lower_text (trim_chars TRAILING_PUNCT tok) = ascii_lower_text abbreviation) PHRASES"

definition cased_token :: "unicode \<Rightarrow> token list \<Rightarrow> bool list \<Rightarrow> nat \<Rightarrow> utext \<Rightarrow> utext" where
  "cased_token u toks skip i tok =
     (let starts = (i = 0 \<or> ends_sentence (token_text (toks ! (i - 1))) (i - 1)
                     \<or> i = 1 \<and> is_list_marker (token_text (toks ! 0)))
      in if skip ! i \<or> \<not> is_abbreviation tok then tok
         else if starts then (case ascii_lower_text tok of [] \<Rightarrow> [] | c # cs \<Rightarrow> u_to_upper u c @ cs)
         else ascii_lower_text tok)"

fun case_from :: "unicode \<Rightarrow> token list \<Rightarrow> bool list \<Rightarrow> utext \<Rightarrow> nat \<Rightarrow> (nat \<times> token) list \<Rightarrow> utext" where
  "case_from u toks skip line cursor [] = drop cursor line"
| "case_from u toks skip line cursor ((i, start, stop, tok) # rest) =
     slice line cursor start @ cased_token u toks skip i tok @ case_from u toks skip line stop rest"

definition case_abbreviations :: "unicode \<Rightarrow> utext \<Rightarrow> utext" where
  "case_abbreviations u line =
     (let toks = word_tokens line in case_from u toks (protected_mask toks) line 0 (enumerate 0 toks))"

section \<open>The pass\<close>

definition informal_line :: "unicode \<Rightarrow> regexes \<Rightarrow> bool \<Rightarrow> utext \<Rightarrow> bool \<times> utext" where
  "informal_line u rx in_fence line =
     (if starts_with (lit ''```'') (utrim_start line) then (\<not> in_fence, line)
      else if in_fence \<or> is_command_shaped rx line then (in_fence, line)
      else (in_fence, case_abbreviations u (abbreviate_line line)))"

fun informal_lines :: "unicode \<Rightarrow> regexes \<Rightarrow> bool \<Rightarrow> utext list \<Rightarrow> utext list" where
  "informal_lines u rx in_fence [] = []"
| "informal_lines u rx in_fence (line # rest) =
     (case informal_line u rx in_fence line of (fence, out) \<Rightarrow> out # informal_lines u rx fence rest)"

fun join_lines :: "utext list \<Rightarrow> utext" where
  "join_lines [] = []"
| "join_lines [l] = l"
| "join_lines (l # l' # ls) = l @ 10 # join_lines (l' # ls)"

definition casual :: "unicode \<Rightarrow> regexes \<Rightarrow> utext \<Rightarrow> utext" where
  "casual u rx t = join_lines (informal_lines u rx False (split_on (\<lambda>c. c = 10) t))"

definition drop_final_full_stop :: "regexes \<Rightarrow> utext \<Rightarrow> utext" where
  "drop_final_full_stop rx t =
     (let trimmed = utrim_end t; trail = drop (length trimmed) t
      in if \<not> ends_in [46] trimmed then t
         else let body = butlast trimmed
              in if split_whitespace body = [] then t
                 else let last_word = last (split_whitespace body); last_line = last (split_on (\<lambda>c. c = 10) trimmed)
                      in if 46 \<in> set last_word \<or> ascii_lower_text last_word \<in> set ABBREVIATION_STEMS
                            \<or> \<not> ends_with last_word body \<or> is_command_shaped rx last_line
                         then t else body @ trail)"

definition apply_tone :: "unicode \<Rightarrow> regexes \<Rightarrow> utext \<Rightarrow> tone \<Rightarrow> utext" where
  "apply_tone u rx t tone =
     (case tone of Formal \<Rightarrow> t | Informal \<Rightarrow> drop_final_full_stop rx (casual u rx t))"

text \<open>Examples of the source's own tests.\<close>

lemma tone_examples:
  "apply_tone ascii plain_regexes (lit ''By the way, it shipped.'') Informal = lit ''Btw, it shipped''"
  "apply_tone ascii plain_regexes (lit ''Sorry, I got to go.'') Informal = lit ''Sorry, g2g''"
  "apply_tone ascii plain_regexes (lit ''1. By the way, it shipped.'') Informal = lit ''1. Btw, it shipped''"
  by code_simp+

section \<open>Where the tokens are\<close>

fun tokens_in :: "utext \<Rightarrow> nat \<Rightarrow> token list \<Rightarrow> bool" where
  "tokens_in line c [] \<longleftrightarrow> c \<le> length line"
| "tokens_in line c ((s, e, w) # r) \<longleftrightarrow> c \<le> s \<and> s < e \<and> e \<le> length line \<and> w = slice line s e \<and> tokens_in line e r"

lemma tokens_in_from: "i = length p \<Longrightarrow> tokens_in (p @ t) i (word_tokens_from i t)"
proof (induction i t arbitrary: p rule: word_tokens_from.induct)
  case (2 i c t)
  show ?case
  proof (cases "is_whitespace c")
    case True
    have "tokens_in ((p @ [c]) @ t) (i + 1) (word_tokens_from (i + 1) t)" using 2(1) [OF True, of "p @ [c]"] 2(3) by simp
    then have "tokens_in (p @ c # t) (i + 1) (word_tokens_from (i + 1) t)" by simp
    then have "tokens_in (p @ c # t) i (word_tokens_from (i + 1) t)"
      by (cases "word_tokens_from (i + 1) t" rule: list.exhaust) (auto split: prod.splits)
    then show ?thesis using True by simp
  next
    case False
    let ?w = "c # takeWhile (\<lambda>d. \<not> is_whitespace d) t"
    let ?r = "dropWhile (\<lambda>d. \<not> is_whitespace d) t"
    have "tokens_in ((p @ ?w) @ ?r) (i + length ?w) (word_tokens_from (i + length ?w) ?r)"
      using 2(2) [OF False refl, of "p @ ?w"] 2(3) by simp
    moreover have "(p @ ?w) @ ?r = p @ c # t" by simp
    moreover have "slice (p @ c # t) i (i + length ?w) = ?w" "i + length ?w \<le> length (p @ c # t)"
      using 2(3) length_takeWhile_le [of "\<lambda>d. \<not> is_whitespace d" t] by (simp_all add: slice_def takeWhile_eq_take [symmetric])
    ultimately show ?thesis using False 2(3) by (simp add: Let_def)
  qed
qed simp

lemma tokens_in_line: "tokens_in line 0 (word_tokens line)"
  using tokens_in_from [of 0 "[]" line] by (simp add: word_tokens_def)

lemma tokens_in_first: "tokens_in line c toks \<Longrightarrow> j < length toks \<Longrightarrow> c \<le> fst (toks ! j)"
proof (induction line c toks arbitrary: j rule: tokens_in.induct)
  case (2 line c s e w r)
  then show ?case by (cases j) (auto, fastforce)
qed simp

lemma tokens_in_span:
  "tokens_in line c toks \<Longrightarrow> j \<le> k \<Longrightarrow> k < length toks \<Longrightarrow>
    fst (toks ! j) < fst (snd (toks ! k)) \<and> fst (snd (toks ! k)) \<le> length line"
proof (induction line c toks arbitrary: j k rule: tokens_in.induct)
  case (2 line c s e w r)
  show ?case
  proof (cases k)
    case 0
    then show ?thesis using 2 by simp
  next
    case (Suc k')
    then show ?thesis
    proof (cases j)
      case 0
      have "e \<le> fst (r ! k')" "fst (r ! k') < fst (snd (r ! k')) \<and> fst (snd (r ! k')) \<le> length line"
        using tokens_in_first [of line e r k'] 2(1) [of k' k'] 2(2-) Suc by auto
      then show ?thesis using Suc 0 2(2) by simp
    next
      case (Suc j')
      then show ?thesis using 2(1) [of j' k'] 2(2-) \<open>k = Suc k'\<close> by simp
    qed
  qed
qed simp

lemma tokens_in_gap: "tokens_in line c toks \<Longrightarrow> j < k \<Longrightarrow> k < length toks \<Longrightarrow> fst (snd (toks ! j)) \<le> fst (toks ! k)"
proof (induction line c toks arbitrary: j k rule: tokens_in.induct)
  case (2 line c s e w r)
  then obtain k' where k: "k = Suc k'" by (cases k) auto
  show ?case
  proof (cases j)
    case 0
    then show ?thesis using 2(2-) k tokens_in_first [of line e r k'] by auto
  next
    case (Suc j')
    then show ?thesis using 2(1) [of j' k'] 2(2-) k by simp
  qed
qed simp

section \<open>What a hit covers\<close>

fun position_subjects :: "position \<Rightarrow> utext list list" where
  "position_subjects (Subject subjects) = subjects"
| "position_subjects (SubjectOrAlone subjects) = subjects"
| "position_subjects (Leaving _) = I_LEAVING"
| "position_subjects _ = []"

lemma subject_before_spec:
  assumes "subject_before w i floor subjects strict = Some s"
  shows "s \<le> i \<and> floor \<le> i - s \<and> list_all Not (take s (drop (i - s) (tw_skip w)))
    \<and> take s (drop (i - s) (tw_lower w)) \<in> set subjects"
proof -
  obtain subj where "find (subject_fits w i floor strict) subjects = Some subj" "s = length subj"
    using assms by (auto simp: subject_before_def)
  then have "subject_fits w i floor strict subj" "subj \<in> set subjects" "s = length subj"
    by (auto simp: find_Some_iff)
  then show ?thesis by (auto simp: subject_fits_def Let_def list_all_iff split: if_splits)
qed

lemma position_allows_spec:
  assumes "position_allows w position i k floor = Some s" "floor \<le> i"
  shows "s \<le> i \<and> floor \<le> i - s \<and> list_all Not (take s (drop (i - s) (tw_skip w)))
    \<and> take s (drop (i - s) (tw_lower w)) \<in> insert [] (set (position_subjects position))"
  using assms
  by (cases position)
    (auto simp: then_some_def or_else_def split: if_splits option.splits dest!: subject_before_spec)

text \<open>The edits of a line: disjoint spans from left to right, each with what replaces it.\<close>

type_synonym line_edit = "nat \<times> nat \<times> utext"

fun splice_edits :: "utext \<Rightarrow> nat \<Rightarrow> line_edit list \<Rightarrow> utext" where
  "splice_edits line cursor [] = drop cursor line"
| "splice_edits line cursor ((a, b, new) # es) = slice line cursor a @ new @ splice_edits line b es"

fun ordered_edits :: "utext \<Rightarrow> nat \<Rightarrow> line_edit list \<Rightarrow> bool" where
  "ordered_edits line cursor [] \<longleftrightarrow> True"
| "ordered_edits line cursor ((a, b, new) # es) \<longleftrightarrow> cursor \<le> a \<and> a < b \<and> b \<le> length line \<and> ordered_edits line b es"

text \<open>
  The edit replaces the tokens \<open>j\<close> to \<open>k\<close>, none of them protected, which are a phrase of the table behind
  one of its subjects (or none), by its abbr; the punctuation after the last word stays.
\<close>

definition phrase_edit :: "tone_words \<Rightarrow> line_edit \<Rightarrow> bool" where
  "phrase_edit w e \<longleftrightarrow>
     (\<exists>j k ws abbr position subject.
        (ws, abbr, position) \<in> set PHRASES \<and> subject \<in> insert [] (set (position_subjects position))
        \<and> j \<le> k \<and> k < length (tw_tokens w) \<and> list_all Not (take (k + 1 - j) (drop j (tw_skip w)))
        \<and> take (k - j) (drop j (tw_lower w)) @ [trim_chars TRAILING_PUNCT (tw_lower w ! k)] = subject @ ws
        \<and> e = (fst (tw_tokens w ! j), fst (snd (tw_tokens w ! k)),
               abbr @ drop (length (trim_chars TRAILING_PUNCT (word_at w k))) (word_at w k)))"

lemma phrase_hit_cases:
  assumes "phrase_hit w i floor p = Some h"
  obtains ws abbr position subj
  where "p = (ws, abbr, position)" "i + length ws \<le> length (tw_tokens w)"
    "list_all Not (take (length ws) (drop i (tw_skip w)))"
    "butlast ws = take (length ws - 1) (drop i (tw_lower w))"
    "trim_chars TRAILING_PUNCT (tw_lower w ! (i + length ws - 1)) = last ws"
    "position_allows w position i (i + length ws - 1) floor = Some subj"
    "h = \<lparr>hit_len = length ws, hit_subject = subj, hit_abbreviation = abbr,
      hit_suffix = drop (length (trim_chars TRAILING_PUNCT (word_at w (i + length ws - 1)))) (word_at w (i + length ws - 1))\<rparr>"
  using assms by (cases p) (auto simp: phrase_hit_def Let_def list_all_iff list_ex_iff split: if_splits)

lemma take_drop_split: "s \<le> i \<Longrightarrow> take (s + n) (drop (i - s) xs) = take s (drop (i - s) xs) @ take n (drop i xs)"
  by (simp add: take_add)

lemma match_at_edit:
  assumes "match_at w i floor = Some h" "floor \<le> i"
  shows "hit_subject h \<le> i \<and> floor \<le> i - hit_subject h \<and> i + hit_len h \<le> length (tw_tokens w)
    \<and> phrase_edit w (fst (tw_tokens w ! (i - hit_subject h)), fst (snd (tw_tokens w ! (i + hit_len h - 1))),
         hit_abbreviation h @ hit_suffix h)"
proof -
  obtain p where p: "p \<in> set PHRASES" "phrase_hit w i floor p = Some h"
    using best_hit [OF match_at_def, of w i floor] assms(1) by auto
  from p(2) show ?thesis
  proof (cases rule: phrase_hit_cases)
    case (1 ws abbr position s)
    have ne: "ws \<noteq> []" using phrases_nonempty [OF p(1)] 1(1) by simp
    note sub = position_allows_spec [OF 1(6) assms(2)]
    let ?k = "i + length ws - 1"
    have len: "?k + 1 - (i - s) = s + length ws" "?k - (i - s) = s + (length ws - 1)" using sub ne by (cases ws; simp)+
    have free: "list_all Not (take (?k + 1 - (i - s)) (drop (i - s) (tw_skip w)))"
      unfolding len take_drop_split [OF conjunct1 [OF sub]] using sub 1(3) by simp
    have said: "take (?k - (i - s)) (drop (i - s) (tw_lower w)) @ [trim_chars TRAILING_PUNCT (tw_lower w ! ?k)]
        = take s (drop (i - s) (tw_lower w)) @ ws"
      unfolding len take_drop_split [OF conjunct1 [OF sub]] 1(4) [symmetric] 1(5) using ne by simp
    have k: "i - s \<le> ?k" "?k < length (tw_tokens w)" using 1(2) ne by (cases ws; simp)+
    have "phrase_edit w (fst (tw_tokens w ! (i - s)), fst (snd (tw_tokens w ! ?k)), hit_abbreviation h @ hit_suffix h)"
      unfolding phrase_edit_def
      by (intro exI [of _ "i - s"] exI [of _ ?k] exI [of _ ws] exI [of _ abbr] exI [of _ position]
          exI [of _ "take s (drop (i - s) (tw_lower w))"])
        (use p(1) 1(1,7) sub free said k in simp)
    then show ?thesis using sub 1(2,7) by simp
  qed
qed

lemma abbreviate_from_edits:
  assumes "tokens_in line 0 (tw_tokens w)" "floor \<le> i" "cursor = (if floor = 0 then 0 else fst (snd (tw_tokens w ! (floor - 1))))"
  shows "\<exists>es. abbreviate_from w line cursor floor i = splice_edits line cursor es \<and> ordered_edits line cursor es
    \<and> list_all (phrase_edit w) es"
  using assms
proof (induction w line cursor floor i rule: abbreviate_from.induct)
  case (1 w line cursor floor i)
  show ?case
  proof (cases "length (tw_tokens w) \<le> i")
    case True
    then show ?thesis by (intro exI [of _ "[]"]) (simp add: abbreviate_from.simps)
  next
    case False
    show ?thesis
    proof (cases "match_at w i floor")
      case None
      have "abbreviate_from w line cursor floor i = abbreviate_from w line cursor floor (i + 1)"
        using None False by (simp add: abbreviate_from.simps [of w line cursor floor i])
      then show ?thesis using 1(1) [OF False None 1(3) _ 1(5)] 1(4) by simp
    next
      case (Some h)
      let ?k = "i + hit_len h - 1" and ?j = "i - hit_subject h"
      let ?e = "(fst (tw_tokens w ! ?j), fst (snd (tw_tokens w ! ?k)), hit_abbreviation h @ hit_suffix h)"
      note hit = match_at_edit [OF Some 1(4)]
      have pos: "0 < hit_len h" by (rule match_at_pos [OF Some])
      obtain es where es: "abbreviate_from w line (fst (snd (tw_tokens w ! ?k))) (?k + 1) (?k + 1) = splice_edits line (fst (snd (tw_tokens w ! ?k))) es"
        "ordered_edits line (fst (snd (tw_tokens w ! ?k))) es" "list_all (phrase_edit w) es"
        using 1(2) [OF False Some refl 1(3)] by auto
      have "cursor \<le> fst (tw_tokens w ! ?j)"
        using 1(3,5) hit pos tokens_in_gap [OF 1(3), of "floor - 1" ?j] False by (cases "floor = 0") auto
      moreover have "fst (tw_tokens w ! ?j) < fst (snd (tw_tokens w ! ?k)) \<and> fst (snd (tw_tokens w ! ?k)) \<le> length line"
        by (rule tokens_in_span [OF 1(3)]) (use hit pos in auto)
      ultimately have "ordered_edits line cursor (?e # es)" "list_all (phrase_edit w) (?e # es)"
        using es hit by simp_all
      moreover have "abbreviate_from w line cursor floor i = splice_edits line cursor (?e # es)"
        using False Some es(1) by (simp add: abbreviate_from.simps [of w line cursor floor i] Let_def)
      ultimately show ?thesis by blast
    qed
  qed
qed

lemma abbreviate_line_edits:
  "\<exists>es. abbreviate_line line = splice_edits line 0 es \<and> ordered_edits line 0 es \<and> list_all (phrase_edit (tone_words_of line)) es"
  using abbreviate_from_edits [of line "tone_words_of line" 0 0 0] tokens_in_line [of line]
  by (simp add: abbreviate_line_def tone_words_of_def Let_def)

section \<open>Casing changes nothing but case\<close>

lemma ascii_lower_text_append [simp]: "ascii_lower_text (s @ t) = ascii_lower_text s @ ascii_lower_text t"
  by (simp add: ascii_lower_text_def)

lemma ascii_lower_text_idem [simp]: "ascii_lower_text (ascii_lower_text t) = ascii_lower_text t"
  by (auto simp: ascii_lower_text_def ascii_upper_def)

lemma ascii_lower_text_Nil [simp]: "ascii_lower_text [] = []"
  by (simp add: ascii_lower_text_def)

lemma ascii_lower_text_Cons: "ascii_lower_text (c # t) = (if ascii_upper c then c + 32 else c) # ascii_lower_text t"
  by (simp add: ascii_lower_text_def)

lemma abbreviations_ascii: "(ws, abbr, position) \<in> set PHRASES \<Longrightarrow> abbr \<noteq> [] \<and> list_all (\<lambda>c. ascii_lower c \<or> ascii_digit c) abbr"
proof -
  have "list_all (\<lambda>(_, abbr, _). abbr \<noteq> [] \<and> list_all (\<lambda>c. ascii_lower c \<or> ascii_digit c) abbr) PHRASES"
    by code_simp
  then show "(ws, abbr, position) \<in> set PHRASES \<Longrightarrow> ?thesis" by (auto simp: list_all_iff)
qed

lemma is_abbreviation_head:
  assumes "is_abbreviation tok"
  obtains c cs where "tok = c # cs" "c < 128"
proof -
  obtain ws abbr position where p: "(ws, abbr, position) \<in> set PHRASES"
    "ascii_lower_text (trim_chars TRAILING_PUNCT tok) = ascii_lower_text abbr"
    using assms by (auto simp: is_abbreviation_def list_ex_iff)
  obtain a as where a: "abbr = a # as" "ascii_lower a \<or> ascii_digit a"
    using abbreviations_ascii [OF p(1)] by (cases abbr) auto
  then obtain c cs where c: "trim_chars TRAILING_PUNCT tok = c # cs" "(if ascii_upper c then c + 32 else c) = a"
    using p(2) by (cases "trim_chars TRAILING_PUNCT tok") (auto simp: ascii_lower_text_def ascii_upper_def ascii_lower_def ascii_digit_def split: if_splits)
  obtain r where "tok = c # cs @ r"
    using trim_end_matches_prefix [of "\<lambda>c. c \<in> set TRAILING_PUNCT" tok] c(1) by (auto simp: trim_chars_def prefix_def)
  moreover have "c < 128" using c(2) a(2) by (auto simp: ascii_upper_def ascii_lower_def ascii_digit_def split: if_splits)
  ultimately show thesis using that by blast
qed

lemma cased_token_lower:
  assumes "unicode_ok u"
  shows "ascii_lower_text (cased_token u toks skip i tok) = ascii_lower_text tok"
proof (cases "is_abbreviation tok")
  case True
  then obtain c cs where c: "tok = c # cs" "c < 128" by (rule is_abbreviation_head)
  have low: "(if ascii_upper c then c + 32 else c) < 128" using c(2) by (auto simp: ascii_upper_def)
  have "u_to_upper u (if ascii_upper c then c + 32 else c) =
      [if ascii_lower (if ascii_upper c then c + 32 else c) then (if ascii_upper c then c + 32 else c) - 32 else (if ascii_upper c then c + 32 else c)]"
    using assms low unfolding unicode_ok_def by blast
  then show ?thesis
    by (auto simp: cased_token_def c(1) ascii_lower_text_Cons Let_def ascii_upper_def ascii_lower_def)
qed (simp add: cased_token_def Let_def)

lemma slice_drop: "i \<le> j \<Longrightarrow> j \<le> length t \<Longrightarrow> slice t i j @ drop j t = drop i t"
  by (simp add: slice_def) (metis append_take_drop_id drop_drop le_add_diff_inverse2)

lemma case_from_lower:
  assumes "unicode_ok u" "tokens_in line cursor ts"
  shows "ascii_lower_text (case_from u toks skip line cursor (enumerate n ts)) = ascii_lower_text (drop cursor line)"
  using assms(2)
proof (induction line cursor ts arbitrary: n rule: tokens_in.induct)
  case (2 line c s e w r)
  have "slice line c s @ w @ drop e line = drop c line"
    using 2(2) slice_drop [of c s line] slice_drop [of s e line] by simp
  then have "ascii_lower_text (drop c line) = ascii_lower_text (slice line c s) @ ascii_lower_text w @ ascii_lower_text (drop e line)"
    by (metis ascii_lower_text_append)
  then show ?case using 2 by (simp add: cased_token_lower [OF assms(1)])
qed simp

lemma case_abbreviations_lower:
  "unicode_ok u \<Longrightarrow> ascii_lower_text (case_abbreviations u line) = ascii_lower_text line"
  using case_from_lower [OF _ tokens_in_line, where n = 0] by (simp add: case_abbreviations_def Let_def)

section \<open>Lines\<close>

lemma split_on_free: "l \<in> set (split_on P t) \<Longrightarrow> c \<in> set l \<Longrightarrow> \<not> P c"
  by (induction t arbitrary: l) (fastforce split: if_splits list.splits)+

lemma split_on_ne [simp]: "split_on P t \<noteq> []"
  by (cases t) (auto split: list.splits)

lemma split_on_skip: "\<forall>c\<in>set l. \<not> P c \<Longrightarrow> split_on P (l @ t) = (case split_on P t of w # ws \<Rightarrow> (l @ w) # ws | [] \<Rightarrow> [l])"
  by (induction l) (auto split: list.splits)

lemma split_join_lines:
  "ls \<noteq> [] \<Longrightarrow> \<forall>l\<in>set ls. 10 \<notin> set l \<Longrightarrow> split_on (\<lambda>c. c = 10) (join_lines ls) = ls"
proof (induction ls rule: join_lines.induct)
  case (2 l)
  then show ?case using split_on_skip [of l "\<lambda>c. c = 10" "[]"] by auto
next
  case (3 l l' ls)
  have "\<forall>c\<in>set l. \<not> c = 10" using 3(3) by auto
  then show ?case using 3 by (simp add: split_on_skip)
qed simp

lemma newline_lower [simp]: "10 \<in> set (ascii_lower_text t) \<longleftrightarrow> 10 \<in> set t"
  by (auto simp: ascii_lower_text_def ascii_upper_def)

lemma slice_set: "set (slice t i j) \<subseteq> set t"
  by (auto simp: slice_def dest: in_set_takeD in_set_dropD)

lemma tokens_in_set: "tokens_in line c toks \<Longrightarrow> tok \<in> set toks \<Longrightarrow> set (token_text tok) \<subseteq> set line"
proof (induction line c toks rule: tokens_in.induct)
  case (2 line c s e w r)
  then show ?case using slice_set [of line s e] by (auto simp: token_text_def)
qed simp

lemma phrase_edit_newline:
  assumes "phrase_edit (tone_words_of line) (a, b, new)" "10 \<notin> set line"
  shows "10 \<notin> set new"
proof -
  obtain k ws abbr position where p: "(ws, abbr, position) \<in> set PHRASES" and k: "k < length (word_tokens line)"
    and new: "set new \<subseteq> set abbr \<union> set (token_text (word_tokens line ! k))"
    using assms(1) by (fastforce simp: phrase_edit_def tone_words_of_def Let_def word_at_def dest: in_set_dropD)
  have "10 \<notin> set abbr" using abbreviations_ascii [OF p] by (auto simp: list_all_iff ascii_lower_def ascii_digit_def)
  then show ?thesis using new assms(2) tokens_in_set [OF tokens_in_line nth_mem [OF k]] by auto
qed

lemma splice_edits_newline:
  "list_all (phrase_edit (tone_words_of line)) es \<Longrightarrow> 10 \<notin> set line \<Longrightarrow> 10 \<notin> set (splice_edits line c es)"
  by (induction line c es rule: splice_edits.induct)
    (auto dest!: in_set_dropD phrase_edit_newline set_mp [OF slice_set])

text \<open>A line that is code: a fence, inside a fence, or shaped like a command.\<close>

definition is_fence :: "utext \<Rightarrow> bool" where
  "is_fence line \<longleftrightarrow> starts_with (lit ''```'') (utrim_start line)"

definition code_line :: "regexes \<Rightarrow> utext list \<Rightarrow> nat \<Rightarrow> bool" where
  "code_line rx ls i \<longleftrightarrow>
     is_fence (ls ! i) \<or> odd (length (filter is_fence (take i ls))) \<or> is_command_shaped rx (ls ! i)"

text \<open>A line of speech: phrases of the table are rewritten, and beyond that only ASCII case may change.\<close>

definition informal_of :: "utext \<Rightarrow> utext \<Rightarrow> bool" where
  "informal_of line out \<longleftrightarrow>
     (\<exists>es. ordered_edits line 0 es \<and> list_all (phrase_edit (tone_words_of line)) es
        \<and> ascii_lower_text out = ascii_lower_text (splice_edits line 0 es))"

lemma informal_of_line: "unicode_ok u \<Longrightarrow> informal_of line (case_abbreviations u (abbreviate_line line))"
  using abbreviate_line_edits [of line] by (auto simp: informal_of_def case_abbreviations_lower)

lemma informal_of_newline: "informal_of line out \<Longrightarrow> 10 \<notin> set line \<Longrightarrow> 10 \<notin> set out"
  unfolding informal_of_def using splice_edits_newline newline_lower by metis

lemma length_informal_lines [simp]: "length (informal_lines u rx f ls) = length ls"
  by (induction u rx f ls rule: informal_lines.induct) (auto split: prod.splits)

lemma informal_lines_nth:
  "i < length ls \<Longrightarrow> informal_lines u rx f ls ! i = snd (informal_line u rx (f \<noteq> odd (length (filter is_fence (take i ls)))) (ls ! i))"
proof (induction ls arbitrary: f i)
  case (Cons l ls)
  obtain out where step: "informal_line u rx f l = (f \<noteq> is_fence l, out)"
    by (cases "informal_line u rx f l") (auto simp: informal_line_def is_fence_def split: if_splits)
  show ?case using Cons step by (cases i; cases f; cases "is_fence l") auto
qed simp

lemma informal_lines_free:
  assumes "unicode_ok u" "\<forall>l\<in>set ls. 10 \<notin> set l"
  shows "\<forall>l\<in>set (informal_lines u rx f ls). 10 \<notin> set l"
  using assms(2) by (induction ls arbitrary: f)
    (auto simp: informal_line_def split: if_splits dest: informal_of_newline [OF informal_of_line [OF assms(1)]])

lemma casual_lines:
  assumes "unicode_ok u"
  shows "split_on (\<lambda>c. c = 10) (casual u rx t) = informal_lines u rx False (split_on (\<lambda>c. c = 10) t)"
  unfolding casual_def
proof (rule split_join_lines)
  show "informal_lines u rx False (split_on (\<lambda>c. c = 10) t) \<noteq> []"
    using length_informal_lines [of u rx False "split_on (\<lambda>c. c = 10) t"] by (metis length_0_conv split_on_ne)
  show "\<forall>l\<in>set (informal_lines u rx False (split_on (\<lambda>c. c = 10) t)). 10 \<notin> set l"
    by (rule informal_lines_free [OF assms]) (auto dest: split_on_free)
qed

section \<open>The final full stop\<close>

text \<open>
  The full stop that ends a message: white space only follows it, and the word before it has no full
  stop of its own, is no abbreviation that ends in one, and does not close a command line.
\<close>

definition final_word :: "utext \<Rightarrow> utext" where
  "final_word body = rev (takeWhile (\<lambda>c. \<not> is_whitespace c) (rev body))"

definition final_stop :: "regexes \<Rightarrow> utext \<Rightarrow> utext \<Rightarrow> utext \<Rightarrow> bool" where
  "final_stop rx t body trail \<longleftrightarrow>
     t = body @ 46 # trail \<and> list_all is_whitespace trail \<and> final_word body \<noteq> [] \<and> 46 \<notin> set (final_word body)
     \<and> ascii_lower_text (final_word body) \<notin> set ABBREVIATION_STEMS
     \<and> \<not> is_command_shaped rx (rev (takeWhile (\<lambda>c. c \<noteq> 10) (rev (body @ [46]))))"

lemma split_on_last:
  "split_on P (t @ [c]) =
     (if P c then split_on P t @ [[]] else butlast (split_on P t) @ [last (split_on P t) @ [c]])"
  by (induction t) (auto split: list.splits)

lemma last_split_on: "last (split_on P t) = rev (takeWhile (\<lambda>c. \<not> P c) (rev t))"
  by (induction t rule: rev_induct) (simp_all add: split_on_last)

lemma final_word_ne: "final_word body \<noteq> [] \<longleftrightarrow> body \<noteq> [] \<and> \<not> is_whitespace (last body)"
  by (cases body rule: rev_cases) (auto simp: final_word_def)

lemma last_final_word: "final_word body \<noteq> [] \<Longrightarrow> last body = last (final_word body)"
  by (cases body rule: rev_cases) (auto simp: final_word_def)

lemma last_word_split:
  assumes "final_word body \<noteq> []"
  shows "split_whitespace body \<noteq> [] \<and> last (split_whitespace body) = final_word body \<and> ends_with (final_word body) body"
proof -
  have w: "last (split_on is_whitespace body) = final_word body" by (simp add: last_split_on final_word_def)
  then obtain ws where "split_on is_whitespace body = ws @ [final_word body]" by (metis append_butlast_last_id split_on_ne)
  then have "split_whitespace body = filter (\<lambda>w. w \<noteq> []) ws @ [final_word body]" using assms by (simp add: split_whitespace_def)
  moreover have "ends_with (final_word body) body"
    unfolding ends_with_def final_word_def using takeWhile_dropWhile_id prefixI by (metis rev_rev_ident)
  ultimately show ?thesis by simp
qed

lemma ends_with_word:
  assumes "split_whitespace body \<noteq> []" "ends_with (last (split_whitespace body)) body"
  shows "final_word body \<noteq> []"
proof -
  let ?w = "last (split_whitespace body)"
  have "?w \<in> set (split_whitespace body)" using assms(1) by simp
  then have w: "?w \<noteq> []" "\<not> is_whitespace (last ?w)"
    by (auto simp: split_whitespace_def simp del: last_in_set intro: split_on_free [THEN notE] dest: split_on_free last_in_set)
  obtain r where "body = r @ ?w" using assms(2) by (auto simp: ends_with_def prefix_def) (metis rev_append rev_rev_ident)
  then show ?thesis using w by (metis append_is_Nil_conv final_word_ne last_append)
qed

lemma trim_end_matches_trail: "list_all P trail \<Longrightarrow> trim_end_matches P (t @ trail) = trim_end_matches P t"
  by (induction trail rule: rev_induct) (auto simp: append_assoc [symmetric] trim_end_matches_snoc simp del: append_assoc)

lemma stop_trimmed:
  assumes "list_all is_whitespace trail"
  shows "utrim_end (body @ 46 # trail) = body @ [46]"
  using trim_end_matches_trail [OF assms, of "body @ [46]"] by (simp add: trim_end_matches_snoc is_whitespace_def)

lemma final_stop_dropped: "final_stop rx t body trail \<Longrightarrow> drop_final_full_stop rx t = body @ trail"
  using last_word_split [of body] stop_trimmed [of trail body]
  by (auto simp: final_stop_def drop_final_full_stop_def Let_def ends_in_def last_split_on)

lemma trim_end_split:
  obtains trail where "t = trim_end_matches P t @ trail" "list_all P trail"
proof
  show "t = trim_end_matches P t @ rev (takeWhile P (rev t))"
    unfolding trim_end_matches_def by (metis rev_append rev_rev_ident takeWhile_dropWhile_id)
  show "list_all P (rev (takeWhile P (rev t)))" by (auto simp: list_all_iff dest: set_takeWhileD)
qed

lemma dropped_final_stop:
  assumes "drop_final_full_stop rx t \<noteq> t"
  shows "\<exists>body trail. final_stop rx t body trail"
proof -
  obtain trail where t: "t = utrim_end t @ trail" "list_all is_whitespace trail" by (rule trim_end_split)
  let ?body = "butlast (utrim_end t)"
  have f: "ends_in [46] (utrim_end t)" "split_whitespace ?body \<noteq> []" "46 \<notin> set (last (split_whitespace ?body))"
    "ends_with (last (split_whitespace ?body)) ?body" "ascii_lower_text (last (split_whitespace ?body)) \<notin> set ABBREVIATION_STEMS"
    "\<not> is_command_shaped rx (last (split_on (\<lambda>c. c = 10) (utrim_end t)))"
    using assms by (auto simp: drop_final_full_stop_def Let_def split: if_splits)
  have "utrim_end t = ?body @ [46]" using f(1) by (auto simp: ends_in_def) (metis append_butlast_last_id)
  then show ?thesis
    using t f(3,5,6) ends_with_word [OF f(2,4)] last_word_split [OF ends_with_word [OF f(2,4)]]
    unfolding final_stop_def last_split_on by (metis append.assoc append_Cons append_Nil)
qed

lemma final_stop_once: "final_stop rx t body trail \<Longrightarrow> \<not> final_stop rx (body @ trail) body' trail'"
proof
  assume s: "final_stop rx t body trail" "final_stop rx (body @ trail) body' trail'"
  have "utrim_end (body @ trail) = body"
    using s(1) by (simp add: final_stop_def final_word_ne trim_end_matches_trail trim_end_matches_id)
  moreover have "utrim_end (body @ trail) = body' @ [46]" using s(2) by (simp add: final_stop_def stop_trimmed)
  ultimately have "last body = 46" by (metis last_snoc)
  then show False using s(1) last_final_word [of body] by (auto simp: final_stop_def) (metis last_in_set)
qed

text \<open>
  Claim C33. The Tone of a message. The formal Tone delivers the text unchanged. The informal Tone writes
  the text anew line for line: a line of a fenced block, the fence itself and a line shaped like a command
  stay as they are, and in any other line disjoint spans of unprotected words, each a phrase of the closed
  table (with the subject it may absorb), become the phrase's abbreviation with the punctuation
  kept, while everything else changes at most in ASCII case. Then the full stop that ends the
  message is dropped, and nothing else: it is kept after a word with a full stop of its own, after an
  abbreviation and in a command line, and dropped everywhere else, in a fenced block that was never closed too.
  A second pass finds no full stop to drop.
\<close>
theorem informal_contract:
  assumes "unicode_ok u"
  shows "apply_tone u rx t Formal = t
    \<and> (\<exists>ls. let ins = split_on (\<lambda>c. c = 10) t; written = join_lines ls; out = apply_tone u rx t Informal
        in length ls = length ins \<and> split_on (\<lambda>c. c = 10) written = ls
           \<and> list_all (\<lambda>i. if code_line rx ins i then ls ! i = ins ! i else informal_of (ins ! i) (ls ! i)) [0..<length ins]
           \<and> ((\<exists>body trail. final_stop rx written body trail \<and> out = body @ trail)
              \<or> (\<nexists>body trail. final_stop rx written body trail) \<and> out = written)
           \<and> (\<nexists>body trail. final_stop rx out body trail))"
proof -
  let ?ls = "informal_lines u rx False (split_on (\<lambda>c. c = 10) t)"
  have out: "apply_tone u rx t Informal = drop_final_full_stop rx (join_lines ?ls)" by (simp add: apply_tone_def casual_def)
  have stop: "(\<exists>body trail. final_stop rx (join_lines ?ls) body trail \<and> apply_tone u rx t Informal = body @ trail)
      \<or> (\<nexists>body trail. final_stop rx (join_lines ?ls) body trail) \<and> apply_tone u rx t Informal = join_lines ?ls"
    unfolding out using dropped_final_stop final_stop_dropped by metis
  then have "\<nexists>body trail. final_stop rx (apply_tone u rx t Informal) body trail" using final_stop_once by metis
  moreover have "list_all (\<lambda>i. if code_line rx (split_on (\<lambda>c. c = 10) t) i then ?ls ! i = split_on (\<lambda>c. c = 10) t ! i
      else informal_of (split_on (\<lambda>c. c = 10) t ! i) (?ls ! i)) [0..<length (split_on (\<lambda>c. c = 10) t)]"
    unfolding list_all_iff
    by (auto simp: informal_lines_nth informal_line_def code_line_def is_fence_def [symmetric] informal_of_line [OF assms])
  ultimately show ?thesis
    using stop casual_lines [OF assms, of rx t, unfolded casual_def]
    by (intro conjI exI [of _ ?ls]) (simp_all add: apply_tone_def Let_def)
qed

definition fenced_sample :: utext where
  "fenced_sample = join_lines (map lit [''cargo test'', ''```'', ''by the way'', ''```'', ''By the way, it shipped.''])"

definition fenced_informal :: utext where
  "fenced_informal = join_lines (map lit [''cargo test'', ''```'', ''by the way'', ''```'', ''Btw, it shipped''])"

theorem informal_contract_witness:
  "unicode_ok ascii \<and> apply_tone ascii plain_regexes fenced_sample Formal = fenced_sample
    \<and> apply_tone ascii plain_regexes fenced_sample Informal = fenced_informal
    \<and> (\<nexists>body trail. final_stop plain_regexes fenced_informal body trail)"
proof -
  have run: "apply_tone ascii plain_regexes fenced_sample Informal = fenced_informal" by code_simp
  show ?thesis
    using informal_contract [OF unicode_ok_ascii, of plain_regexes fenced_sample] run unicode_ok_ascii
    by (auto simp: Let_def)
qed

text \<open>A fenced block that is never closed loses the full stop of its last line.\<close>

lemma unclosed_fence_stop:
  "apply_tone ascii plain_regexes (join_lines (map lit [''```'', ''it shipped.''])) Informal = join_lines (map lit [''```'', ''it shipped''])"
  by code_simp

end
