(* ===== verification/Byte_Offsets.thy ===== *)
theory Byte_Offsets
  imports Unicode_Text
begin

text \<open>
  Byte offsets into a Rust string: \<open>is_char_boundary\<close>, slicing by byte range, and \<open>replace_range\<close>, which
  panics (here: no result) off a character boundary. \<open>boundary_index\<close> turns a byte offset into the
  number of characters before it.
\<close>

fun boundary_index :: "utext \<Rightarrow> nat \<Rightarrow> nat option" where
  "boundary_index [] n = (if n = 0 then Some 0 else None)"
| "boundary_index (c # t) n =
     (if n = 0 then Some 0
      else if n < len_utf8 c then None else map_option Suc (boundary_index t (n - len_utf8 c)))"

definition is_char_boundary :: "utext \<Rightarrow> nat \<Rightarrow> bool" where
  "is_char_boundary t n \<longleftrightarrow> boundary_index t n \<noteq> None"

text \<open>\<open>str::get(start..end)\<close>.\<close>

definition byte_slice :: "utext \<Rightarrow> nat \<Rightarrow> nat \<Rightarrow> utext option" where
  "byte_slice t start stop =
     (case (boundary_index t start, boundary_index t stop) of
        (Some i, Some j) \<Rightarrow> (if start \<le> stop then Some (take (j - i) (drop i t)) else None)
      | _ \<Rightarrow> None)"

definition replace_range :: "utext \<Rightarrow> nat \<Rightarrow> nat \<Rightarrow> utext \<Rightarrow> utext option" where
  "replace_range t start stop new =
     (case (boundary_index t start, boundary_index t stop) of
        (Some i, Some j) \<Rightarrow> (if start \<le> stop then Some (take i t @ new @ drop j t) else None)
      | _ \<Rightarrow> None)"

section \<open>Offsets and characters\<close>

lemma len_utf8_pos: "0 < len_utf8 c"
  by (simp add: len_utf8_def)

lemma byte_len_simps [simp]:
  "byte_len [] = 0" "byte_len (c # t) = len_utf8 c + byte_len t" "byte_len (s @ t) = byte_len s + byte_len t"
  by (simp_all add: byte_len_def)

lemma byte_len_eq_0 [simp]: "byte_len t = 0 \<longleftrightarrow> t = []"
  by (cases t) (use len_utf8_pos in \<open>auto simp: len_utf8_def\<close>)

lemma boundary_index_iff: "boundary_index t n = Some i \<longleftrightarrow> i \<le> length t \<and> byte_len (take i t) = n"
proof (induction t arbitrary: n i)
  case (Cons c t)
  show ?case
  proof (cases i)
    case 0
    then show ?thesis using len_utf8_pos [of c] by (cases "n = 0") (auto simp del: boundary_index.simps(1))
  next
    case (Suc k)
    have "boundary_index (c # t) n = Some i \<longleftrightarrow> n \<noteq> 0 \<and> \<not> n < len_utf8 c \<and> boundary_index t (n - len_utf8 c) = Some k"
      using Suc by simp
    then show ?thesis unfolding Cons.IH using Suc len_utf8_pos [of c] by auto
  qed
qed auto

lemma boundary_index_le: "boundary_index t n = Some i \<Longrightarrow> n \<le> byte_len t"
  unfolding boundary_index_iff by (metis append_take_drop_id byte_len_simps(3) le_add1)

lemma byte_len_take_mono: "i \<le> j \<Longrightarrow> byte_len (take i t) \<le> byte_len (take j t)"
  by (metis byte_len_simps(3) le_add1 le_add_diff_inverse take_add)

text \<open>Offsets and character indices are in the same order.\<close>

lemma boundary_index_mono:
  assumes "boundary_index t m = Some i" "boundary_index t n = Some j"
  shows "i \<le> j \<longleftrightarrow> m \<le> n"
proof
  assume "i \<le> j" then show "m \<le> n" using assms byte_len_take_mono [of i j t] by (simp add: boundary_index_iff)
next
  assume le: "m \<le> n"
  show "i \<le> j"
  proof (rule ccontr)
    assume "\<not> i \<le> j"
    then have ij: "j < i" and il: "i \<le> length t" using assms by (auto simp: boundary_index_iff)
    have "take i t = take j t @ take (i - j) (drop j t)" using ij by (metis le_add_diff_inverse less_imp_le take_add)
    then have "byte_len (take i t) = byte_len (take j t) + byte_len (take (i - j) (drop j t))" by simp
    moreover have "take (i - j) (drop j t) \<noteq> []" using ij il by simp
    then have "0 < byte_len (take (i - j) (drop j t))" by (simp only: byte_len_eq_0 neq0_conv [symmetric]) simp
    ultimately show False using assms le by (simp add: boundary_index_iff)
  qed
qed

text \<open>What follows a boundary does not move the boundaries before it.\<close>

lemma boundary_index_take:
  assumes "boundary_index t n = Some i" "i \<le> k"
  shows "boundary_index (take k t @ s) n = Some i"
  using assms by (auto simp: boundary_index_iff min_def)

lemma replace_range_take:
  assumes "boundary_index t start = Some i" "boundary_index t stop = Some j" "start \<le> stop"
  shows "replace_range (take j t @ s) start stop new = Some (take i t @ new @ s)"
proof -
  have ij: "i \<le> j" using boundary_index_mono [OF assms(1,2)] assms(3) by simp
  have jl: "j \<le> length t" using assms(2) by (simp add: boundary_index_iff)
  have "boundary_index (take j t @ s) start = Some i" "boundary_index (take j t @ s) stop = Some j"
    using boundary_index_take [OF assms(1) ij] boundary_index_take [OF assms(2) order_refl] by blast+
  moreover have "take i (take j t @ s) = take i t" "drop j (take j t @ s) = s" using ij jl by simp_all
  ultimately show ?thesis using assms(3) by (simp only: replace_range_def option.case prod.case if_True)
qed

end
