(* ===== verification/Format_Edits.thy ===== *)
theory Format_Edits
  imports Byte_Offsets Json Intent_Routing "HOL-Library.Multiset"
begin

text \<open>
  The formatting-edit contract, \<open>crates/voisu-core/src/format_edits.rs\<close>: the cloud formatter may only
  propose localized edits against a base the host owns; the host parses, validates, composes and
  checks them, and falls back to the base on any failure.

  \<open>serde_json\<close>'s parser, SHA-256, the Unicode tables and the compiled patterns are arguments. A panic of
  \<open>String::replace_range\<close> (an offset off a character boundary) is the result \<open>None\<close> of the composition.
\<close>

section \<open>Constants and types\<close>

definition FORMAT_EDIT_CONTRACT_ID :: string where
  "FORMAT_EDIT_CONTRACT_ID = ''voisu-dpr-format-edits-v1''"

definition FORMAT_EDIT_CONTRACT_VERSION :: string where "FORMAT_EDIT_CONTRACT_VERSION = ''1''"

definition MAX_FORMAT_EDIT_RESPONSE_BYTES :: nat where "MAX_FORMAT_EDIT_RESPONSE_BYTES = 65536"

definition MAX_FORMAT_EDIT_JSON_DEPTH :: nat where "MAX_FORMAT_EDIT_JSON_DEPTH = 8"

definition MAX_FORMAT_EDIT_JSON_NODES :: nat where "MAX_FORMAT_EDIT_JSON_NODES = 4096"

definition MAX_FORMAT_EDITS :: nat where "MAX_FORMAT_EDITS = 64"

definition MAX_FORMAT_EDIT_FIELD_UTF8_BYTES :: nat where "MAX_FORMAT_EDIT_FIELD_UTF8_BYTES = 2048"

definition CLOSED_FORMAT_EDIT_KINDS :: "string list" where
  "CLOSED_FORMAT_EDIT_KINDS =
     [''punctuation'', ''casing'', ''whitespace_layout'', ''filler_removal'', ''clear_backtrack_removal'',
      ''quote_conversion'', ''structure'', ''bounded_wording'']"

datatype format_edit_kind =
    Punctuation
  | Casing
  | WhitespaceLayout
  | FillerRemoval
  | ClearBacktrackRemoval
  | QuoteConversion
  | StructureEdit
  | BoundedWording

fun kind_as_str :: "format_edit_kind \<Rightarrow> string" where
  "kind_as_str Punctuation = ''punctuation''"
| "kind_as_str Casing = ''casing''"
| "kind_as_str WhitespaceLayout = ''whitespace_layout''"
| "kind_as_str FillerRemoval = ''filler_removal''"
| "kind_as_str ClearBacktrackRemoval = ''clear_backtrack_removal''"
| "kind_as_str QuoteConversion = ''quote_conversion''"
| "kind_as_str StructureEdit = ''structure''"
| "kind_as_str BoundedWording = ''bounded_wording''"

definition kind_parse :: "string \<Rightarrow> format_edit_kind option" where
  "kind_parse value =
     (if value = ''punctuation'' then Some Punctuation
      else if value = ''casing'' then Some Casing
      else if value = ''whitespace_layout'' then Some WhitespaceLayout
      else if value = ''filler_removal'' then Some FillerRemoval
      else if value = ''clear_backtrack_removal'' then Some ClearBacktrackRemoval
      else if value = ''quote_conversion'' then Some QuoteConversion
      else if value = ''structure'' then Some StructureEdit
      else if value = ''bounded_wording'' then Some BoundedWording
      else None)"

interpretation kind_wire: wire_name kind_as_str kind_parse
proof
  fix s x show "kind_parse s = Some x \<longleftrightarrow> s = kind_as_str x"
    by (cases x) (auto simp: kind_parse_def)
qed

datatype format_edit_error =
    Malformed
  | Oversize
  | Stale
  | UnknownKind
  | Unsorted
  | SpanOutOfBounds
  | SpanNotCharBoundary
  | AnchorMismatch
  | Overlap
  | Protected
  | HeadingWithoutCue
  | PromptArtifact
  | EmptyOrSummary

fun format_edit_error_as_str :: "format_edit_error \<Rightarrow> string" where
  "format_edit_error_as_str Malformed = ''E_MALFORMED''"
| "format_edit_error_as_str Oversize = ''E_OVERSIZE''"
| "format_edit_error_as_str Stale = ''E_STALE''"
| "format_edit_error_as_str UnknownKind = ''E_UNKNOWN_KIND''"
| "format_edit_error_as_str Unsorted = ''E_UNSORTED''"
| "format_edit_error_as_str SpanOutOfBounds = ''E_SPAN_OUT_OF_BOUNDS''"
| "format_edit_error_as_str SpanNotCharBoundary = ''E_SPAN_NOT_CHAR_BOUNDARY''"
| "format_edit_error_as_str AnchorMismatch = ''E_ANCHOR_MISMATCH''"
| "format_edit_error_as_str Overlap = ''E_OVERLAP''"
| "format_edit_error_as_str Protected = ''E_PROTECTED''"
| "format_edit_error_as_str HeadingWithoutCue = ''E_HEADING_WITHOUT_CUE''"
| "format_edit_error_as_str PromptArtifact = ''E_PROMPT_ARTIFACT''"
| "format_edit_error_as_str EmptyOrSummary = ''E_EMPTY_OR_SUMMARY''"

record format_edit =
  fe_start :: nat
  fe_end :: nat
  fe_before :: utext
  fe_after :: utext
  fe_kind :: format_edit_kind

record format_edit_candidate =
  fc_version :: string
  fc_base_fingerprint :: string
  fc_edits :: "format_edit list"

record format_edit_outcome =
  fo_accepted :: bool
  fo_rendered :: utext
  fo_error :: "format_edit_error option"

record format_edit_safety =
  fs_protected_tokens :: "utext list"
  fs_policy :: rendering_policy

definition default_safety :: format_edit_safety where
  "default_safety = \<lparr>fs_protected_tokens = [], fs_policy = Adaptive\<rparr>"

definition outcome_accepted :: "utext \<Rightarrow> format_edit_outcome" where
  "outcome_accepted rendered = \<lparr>fo_accepted = True, fo_rendered = rendered, fo_error = None\<rparr>"

definition outcome_rejected :: "utext \<Rightarrow> format_edit_error \<Rightarrow> format_edit_outcome" where
  "outcome_rejected base error = \<lparr>fo_accepted = False, fo_rendered = base, fo_error = Some error\<rparr>"

text \<open>The fingerprint of a text, \<open>diagnostics.rs\<close>; the digest is an argument.\<close>

definition hex_lower :: "nat \<Rightarrow> string" where
  "hex_lower b = [''0123456789abcdef'' ! (b div 16), ''0123456789abcdef'' ! (b mod 16)]"

definition text_sha256_fingerprint :: "(utext \<Rightarrow> nat list) \<Rightarrow> utext \<Rightarrow> string" where
  "text_sha256_fingerprint digest t = ''sha256:'' @ concat (map hex_lower (digest t))"

definition TEXT_SHA256_FINGERPRINT_LEN :: nat where "TEXT_SHA256_FINGERPRINT_LEN = 7 + 64"

definition is_text_sha256_fingerprint :: "string \<Rightarrow> bool" where
  "is_text_sha256_fingerprint value \<longleftrightarrow>
     length value = TEXT_SHA256_FINGERPRINT_LEN \<and> prefix ''sha256:'' value
     \<and> list_all (\<lambda>c. c \<in> set ''0123456789abcdef'') (drop 7 value)"

section \<open>Parsing\<close>

definition has_exact_keys :: "(string \<times> json) list \<Rightarrow> string list \<Rightarrow> bool" where
  "has_exact_keys object expected \<longleftrightarrow>
     length object = length expected \<and> list_all (\<lambda>k. map_of object k \<noteq> None) expected"

definition as_usize :: "json \<Rightarrow> nat option" where
  "as_usize v = as_u64 v"

fun json_shape :: "json \<Rightarrow> nat \<times> nat" where
  "json_shape (JArray vs) =
     fold (\<lambda>(cd, cn) (d, n). (max d (sat_add_u64 cd 1), sat_add_u64 n cn)) (map json_shape vs) (1, 1)"
| "json_shape (JObject m) =
     fold (\<lambda>(cd, cn) (d, n). (max d (sat_add_u64 cd 1), sat_add_u64 n cn)) (map (\<lambda>kv. json_shape (snd kv)) m) (1, 1)"
| "json_shape _ = (0, 1)"

definition member_str :: "(string \<times> json) list \<Rightarrow> string \<Rightarrow> format_edit_error + string" where
  "member_str object k = ok_or Malformed (Option.bind (map_of object k) as_str)"

definition parse_edit :: "json \<Rightarrow> format_edit_error + format_edit" where
  "parse_edit v =
     bind_result (ok_or Malformed (as_object v)) (\<lambda>object.
     if \<not> has_exact_keys object [''start_utf8'', ''end_utf8'', ''before'', ''after'', ''kind''] then Inl Malformed
     else
     bind_result (member_str object ''kind'') (\<lambda>kind_text.
     bind_result (ok_or UnknownKind (kind_parse kind_text)) (\<lambda>kind.
     bind_result (member_str object ''before'') (\<lambda>before.
     bind_result (member_str object ''after'') (\<lambda>after.
     if MAX_FORMAT_EDIT_FIELD_UTF8_BYTES < length before \<or> MAX_FORMAT_EDIT_FIELD_UTF8_BYTES < length after then Inl Oversize
     else
     bind_result (ok_or Malformed (Option.bind (map_of object ''start_utf8'') as_usize)) (\<lambda>start.
     bind_result (ok_or Malformed (Option.bind (map_of object ''end_utf8'') as_usize)) (\<lambda>stop.
     Inr \<lparr>fe_start = start, fe_end = stop, fe_before = str_chars before, fe_after = str_chars after, fe_kind = kind\<rparr>)))))))"

fun parse_edits :: "json list \<Rightarrow> format_edit_error + format_edit list" where
  "parse_edits [] = Inr []"
| "parse_edits (v # vs) = bind_result (parse_edit v) (\<lambda>e. bind_result (parse_edits vs) (\<lambda>es. Inr (e # es)))"

fun edits_sorted :: "format_edit list \<Rightarrow> bool" where
  "edits_sorted (e # f # es) \<longleftrightarrow>
     (fe_start e < fe_start f \<or> fe_start e = fe_start f \<and> fe_end e \<le> fe_end f) \<and> edits_sorted (f # es)"
| "edits_sorted _ \<longleftrightarrow> True"

definition as_array :: "json \<Rightarrow> json list option" where
  "as_array v = (case v of JArray vs \<Rightarrow> Some vs | _ \<Rightarrow> None)"

definition parse_candidate :: "json \<Rightarrow> format_edit_error + format_edit_candidate" where
  "parse_candidate v =
     bind_result (ok_or Malformed (as_object v)) (\<lambda>object.
     if \<not> has_exact_keys object [''version'', ''base_fingerprint'', ''edits''] then Inl Malformed
     else
     bind_result (member_str object ''version'') (\<lambda>version.
     if version \<noteq> FORMAT_EDIT_CONTRACT_VERSION then Inl Malformed
     else
     bind_result (member_str object ''base_fingerprint'') (\<lambda>fingerprint.
     if \<not> is_text_sha256_fingerprint fingerprint then Inl Malformed
     else
     bind_result (ok_or Malformed (Option.bind (map_of object ''edits'') as_array)) (\<lambda>raw_edits.
     if MAX_FORMAT_EDITS < length raw_edits then Inl Oversize
     else
     bind_result (parse_edits raw_edits) (\<lambda>edits.
     if \<not> edits_sorted edits then Inl Unsorted
     else Inr \<lparr>fc_version = version, fc_base_fingerprint = fingerprint, fc_edits = edits\<rparr>)))))"

definition parse_format_edit_candidate_json ::
  "('b list \<Rightarrow> json option) \<Rightarrow> 'b list \<Rightarrow> format_edit_error + format_edit_candidate" where
  "parse_format_edit_candidate_json from_slice raw =
     (if MAX_FORMAT_EDIT_RESPONSE_BYTES < length raw then Inl Oversize
      else bind_result (ok_or Malformed (from_slice raw)) (\<lambda>v.
        case json_shape v of (depth, nodes) \<Rightarrow>
          if MAX_FORMAT_EDIT_JSON_DEPTH < depth \<or> MAX_FORMAT_EDIT_JSON_NODES < nodes then Inl Oversize
          else parse_candidate v))"

section \<open>Validation and composition\<close>

definition ranges_overlap :: "nat \<times> nat \<Rightarrow> nat \<times> nat \<Rightarrow> bool" where
  "ranges_overlap l r \<longleftrightarrow> fst l < snd r \<and> fst r < snd l"

fun validate_edits :: "utext \<Rightarrow> format_edit list \<Rightarrow> format_edit_error + unit" where
  "validate_edits base [] = Inr ()"
| "validate_edits base (e # es) =
     (if fe_end e < fe_start e \<or> byte_len base < fe_end e then Inl SpanOutOfBounds
      else if \<not> is_char_boundary base (fe_start e) \<or> \<not> is_char_boundary base (fe_end e) then Inl SpanNotCharBoundary
      else if byte_slice base (fe_start e) (fe_end e) \<noteq> Some (fe_before e) then Inl AnchorMismatch
      else if list_ex (\<lambda>f. ranges_overlap (fe_start e, fe_end e) (fe_start f, fe_end f)) es then Inl Overlap
      else validate_edits base es)"

text \<open>The replacements from the last to the first; the sort is stable.\<close>

definition compose_edits :: "utext \<Rightarrow> format_edit list \<Rightarrow> utext option" where
  "compose_edits base edits =
     fold (\<lambda>e rendered. Option.bind rendered (\<lambda>t. replace_range t (fe_start e) (fe_end e) (fe_after e)))
       (sort_key (\<lambda>e. - int (fe_start e)) edits) (Some base)"

section \<open>Guards on the rendering\<close>

definition lexical_words :: "unicode \<Rightarrow> utext \<Rightarrow> utext list" where
  "lexical_words u t =
     map ascii_lower_text (filter (\<lambda>w. w \<noteq> []) (split_on (\<lambda>c. \<not> is_alphanumeric u c \<and> c \<noteq> 39) t))"

definition lexical_word_count :: "unicode \<Rightarrow> utext \<Rightarrow> nat" where
  "lexical_word_count u t = length (lexical_words u t)"

definition SUMMARY_SOURCE_WORD_FLOOR :: nat where "SUMMARY_SOURCE_WORD_FLOOR = 12"

definition is_empty_or_large_summary :: "unicode \<Rightarrow> utext \<Rightarrow> utext \<Rightarrow> bool" where
  "is_empty_or_large_summary u base rendered =
     (if utrim base \<noteq> [] \<and> utrim rendered = [] then True
      else SUMMARY_SOURCE_WORD_FLOOR \<le> lexical_word_count u base
           \<and> sat_mul_u64 (lexical_word_count u rendered) 2 < lexical_word_count u base)"

definition PROMPT_ARTIFACTS :: "utext list" where
  "PROMPT_ARTIFACTS =
     map lit [''ignore previous instructions'', ''ignore all instructions'', ''system:'', ''assistant:'',
       ''<|system|>'', ''<|assistant|>'', ''### instruction'']"

definition PROMPT_ROLE_MARKERS :: "utext list" where
  "PROMPT_ROLE_MARKERS = map lit [''user:'', ''developer:'']"

definition HALLUCINATED_OUTROS :: "utext list" where
  "HALLUCINATED_OUTROS =
     map lit [''thank you for watching'', ''thanks for watching'', ''like and subscribe'', ''subtitles by'', ''transcribed by'']"

definition line_start_marker_count :: "utext \<Rightarrow> utext \<Rightarrow> nat" where
  "line_start_marker_count t marker = length (filter (\<lambda>line. starts_with marker (utrim_start line)) (text_lines t))"

text \<open>Where a sentence terminator is followed by white space, the next sentence begins.\<close>

definition sentence_breaks :: "utext \<Rightarrow> nat list" where
  "sentence_breaks t =
     filter (\<lambda>i. t ! i \<in> set (lit ''.?!'') \<and> i + 1 < length t \<and> is_whitespace (t ! (i + 1))) [0..<length t]"

definition final_sentence :: "unicode \<Rightarrow> utext \<Rightarrow> utext" where
  "final_sentence u t =
     (let trimmed = trim_end_matches (\<lambda>c. \<not> is_alphanumeric u c) t;
          after_terminator = (case rev (sentence_breaks trimmed) of i # _ \<Rightarrow> i + 1 | [] \<Rightarrow> 0)
      in trim_start_matches (\<lambda>c. \<not> is_alphanumeric u c) (drop after_terminator trimmed))"

definition has_anchored_outro :: "unicode \<Rightarrow> utext \<Rightarrow> bool" where
  "has_anchored_outro u t =
     (let trimmed = utrim t; lower = ascii_lower_text trimmed;
          tail = trim_end_matches (\<lambda>c. \<not> is_alphanumeric u c) lower; outro = final_sentence u lower
      in if trimmed = [] then False
         else list_ex (\<lambda>suffix. starts_with suffix outro \<or> ends_with suffix tail) HALLUCINATED_OUTROS)"

definition introduces_prompt_artifact_or_outro :: "unicode \<Rightarrow> utext \<Rightarrow> utext \<Rightarrow> bool" where
  "introduces_prompt_artifact_or_outro u base rendered =
     (let bl = ascii_lower_text base; rl = ascii_lower_text rendered
      in list_ex (\<lambda>m. length (match_indices m 0 0 bl) < length (match_indices m 0 0 rl)) PROMPT_ARTIFACTS
         \<or> list_ex (\<lambda>m. line_start_marker_count bl m < line_start_marker_count rl m) PROMPT_ROLE_MARKERS
         \<or> has_anchored_outro u rendered \<and> \<not> has_anchored_outro u base)"

section \<open>Headings\<close>

definition HEADING_CUES :: "(utext list \<times> utext) list" where
  "HEADING_CUES =
     map (\<lambda>(ws, l). (map lit ws, lit l))
       [([''acceptance'', ''criteria''], ''Acceptance Criteria''), ([''requirements''], ''Requirements''),
        ([''constraints''], ''Constraints''), ([''context''], ''Context''), ([''steps''], ''Steps''), ([''files''], ''Files''),
        ([''notes''], ''Notes''), ([''goal''], ''Goal'')]"

definition windows :: "nat \<Rightarrow> 'a list \<Rightarrow> 'a list list" where
  "windows n xs = map (\<lambda>i. take n (drop i xs)) [0..<length xs + 1 - n]"

definition licensed_heading_labels :: "unicode \<Rightarrow> utext \<Rightarrow> utext list" where
  "licensed_heading_labels u source =
     map snd (filter (\<lambda>(phrase, _). phrase \<in> set (windows (length phrase) (lexical_words u source))) HEADING_CUES)"

definition markdown_atx_heading :: "utext \<Rightarrow> utext option" where
  "markdown_atx_heading line =
     (let hash_count = length (takeWhile (\<lambda>c. c = 35) line); after_hashes = drop hash_count line;
          label = utrim_end (trim_end_matches (\<lambda>c. c = 35) (utrim after_hashes))
      in if \<not> (1 \<le> hash_count \<and> hash_count \<le> 6) then None
         else if after_hashes = [] \<or> \<not> is_whitespace (hd after_hashes) then None
         else if label = [] then None else Some label)"

text \<open>The loop over the characters: whether a word starts here, and whether a letter was seen.\<close>

fun title_case_from :: "unicode \<Rightarrow> bool \<Rightarrow> bool \<Rightarrow> utext \<Rightarrow> bool" where
  "title_case_from u word_start saw_cased [] = saw_cased"
| "title_case_from u word_start saw_cased (c # t) =
     (if \<not> u_alphabetic u c then title_case_from u True saw_cased t
      else if word_start then (if u_uppercase u c then title_case_from u False True t else False)
      else if u_uppercase u c then False
      else title_case_from u word_start saw_cased t)"

definition is_title_case :: "unicode \<Rightarrow> utext \<Rightarrow> bool" where
  "is_title_case u t = (if t = [] \<or> \<not> list_ex (u_alphabetic u) t then False else title_case_from u True False t)"

definition ascii_alphabetic :: "nat \<Rightarrow> bool" where
  "ascii_alphabetic c \<longleftrightarrow> ascii_upper c \<or> ascii_lower c"

definition eq_ascii_case :: "utext \<Rightarrow> utext \<Rightarrow> bool" where
  "eq_ascii_case a b \<longleftrightarrow> ascii_lower_text a = ascii_lower_text b"

definition closed_labels :: "utext list" where
  "closed_labels = map lit CLOSED_STRUCTURED_LABELS"

definition line_heading :: "unicode \<Rightarrow> utext \<Rightarrow> utext option" where
  "line_heading u line =
     (let trimmed = utrim line
      in case markdown_atx_heading trimmed of
           Some label \<Rightarrow> Some label
         | None \<Rightarrow>
             (if 58 \<in> set trimmed then
                (let label = utrim (takeWhile (\<lambda>c. c \<noteq> 58) trimmed); rest = drop 1 (dropWhile (\<lambda>c. c \<noteq> 58) trimmed)
                 in if label = [] \<or> \<not> ascii_alphabetic (hd label)
                       \<or> \<not> list_all (\<lambda>c. ascii_alphabetic c \<or> ascii_digit c \<or> c = 32) label then None
                    else if list_ex (\<lambda>known. eq_ascii_case known label) closed_labels \<or> utrim rest = [] \<or> is_title_case u label
                    then Some label else None)
              else if is_title_case u trimmed then Some trimmed else None))"

definition structural_headings :: "unicode \<Rightarrow> utext \<Rightarrow> utext list" where
  "structural_headings u t = List.map_filter (line_heading u) (text_lines t)"

definition introduces_heading_without_cue :: "unicode \<Rightarrow> utext \<Rightarrow> utext \<Rightarrow> rendering_policy \<Rightarrow> bool" where
  "introduces_heading_without_cue u base rendered policy =
     list_ex (\<lambda>heading.
         if list_ex (\<lambda>existing. eq_ascii_case existing heading) (structural_headings u base) then False
         else if policy = Natural then True
         else if heading \<notin> set closed_labels then True
         else heading \<notin> set (licensed_heading_labels u base))
       (structural_headings u rendered)"

section \<open>Protected facts\<close>

definition NEGATIONS :: "utext list" where
  "NEGATIONS =
     map lit [''no'', ''not'', ''never'', ''cannot'', ''can'' @ [CHR 0x27] @ ''t'', ''cant'', ''don'' @ [CHR 0x27] @ ''t'', ''dont'',
       ''won'' @ [CHR 0x27] @ ''t'', ''wont'', ''isn'' @ [CHR 0x27] @ ''t'', ''isnt'', ''aren'' @ [CHR 0x27] @ ''t'', ''arent'',
       ''ain'' @ [CHR 0x27] @ ''t'', ''aint'']"

definition WEEKDAYS :: "utext list" where
  "WEEKDAYS = map lit [''monday'', ''tuesday'', ''wednesday'', ''thursday'', ''friday'', ''saturday'', ''sunday'']"

definition MONTHS :: "utext list" where
  "MONTHS =
     map lit [''january'', ''february'', ''march'', ''april'', ''may'', ''june'', ''july'', ''august'', ''september'',
       ''october'', ''november'', ''december'']"

definition is_technical_token :: "utext \<Rightarrow> bool" where
  "is_technical_token t \<longleftrightarrow>
     list_ex ascii_digit t \<or> contains_text (lit ''://'') t \<or> 47 \<in> set t \<or> 92 \<in> set t \<or> starts_with [45] t
     \<or> 95 \<in> set t \<or> contains_text (lit ''::'') t \<or> 64 \<in> set t \<or> list_ex (\<lambda>c. c \<in> set (lit ''()[]{}='')) t"

definition is_time_token :: "utext \<Rightarrow> bool" where
  "is_time_token t =
     (let stripped = trim_end_matches (\<lambda>c. c \<in> set (lit ''.,;'')) (ascii_lower_text t); n = length stripped
      in stripped \<noteq> [] \<and> last stripped \<in> set (lit ''ap'') \<and> 2 < byte_len stripped \<and> 2 \<le> n \<and> stripped ! (n - 2) = 109
         \<and> list_all (\<lambda>c. ascii_digit c \<or> c = 58) (take (n - 2) stripped))"

definition is_proper_name :: "unicode \<Rightarrow> utext \<Rightarrow> bool \<Rightarrow> bool" where
  "is_proper_name u t sentence_initial =
     (if sentence_initial \<or> length t < 2 then False
      else if list_ex (\<lambda>label. eq_ascii_case label t) closed_labels then False
      else u_uppercase u (hd t) \<and> u_alphabetic u (hd t) \<and> list_all (\<lambda>c. u_lowercase u c \<or> c = 45) (tl t))"

definition is_protected_token :: "unicode \<Rightarrow> utext \<Rightarrow> bool \<Rightarrow> bool" where
  "is_protected_token u t sentence_initial \<longleftrightarrow>
     ascii_lower_text t \<in> set NEGATIONS \<or> ascii_lower_text t \<in> set WEEKDAYS \<or> ascii_lower_text t \<in> set MONTHS
     \<or> is_technical_token t \<or> is_time_token t \<or> is_proper_name u t sentence_initial"

definition looks_like_command_atom :: "utext \<Rightarrow> bool" where
  "looks_like_command_atom t \<longleftrightarrow>
     is_technical_token t
     \<or> ascii_lower_text t \<in> set (map lit [''cargo'', ''npm'', ''pnpm'', ''yarn'', ''git'', ''docker'', ''kubectl'', ''make'',
         ''python'', ''python3'', ''pip'', ''curl'', ''ssh'', ''scp'', ''go'', ''bazel'', ''ninja'', ''test'', ''build'',
         ''clippy'', ''fmt''])"

text \<open>\<open>str::find\<close> from an offset on.\<close>

definition find_from :: "utext \<Rightarrow> utext \<Rightarrow> nat \<Rightarrow> nat option" where
  "find_from p t i = find (\<lambda>k. prefix p (drop k t)) [i..<length t + 1 - length p]"

lemma find_from_bounds: "find_from p t i = Some k \<Longrightarrow> i \<le> k \<and> k + length p \<le> length t"
  by (auto simp: find_from_def dest!: find_SomeD)

text \<open>The texts between an opening and a closing mark, found one after the other.\<close>

function delimited :: "utext \<Rightarrow> utext \<Rightarrow> utext \<Rightarrow> utext \<Rightarrow> nat \<Rightarrow> utext list" where
  "delimited opening closing haystack t i =
     (case find_from opening haystack i of
        None \<Rightarrow> []
      | Some k \<Rightarrow>
          (let start = k + length opening
           in case find_from closing haystack start of
                None \<Rightarrow> []
              | Some stop \<Rightarrow>
                  (if start < stop then [take (stop - start) (drop start t)] else [])
                  @ (if opening = [] \<or> closing = [] then [] else delimited opening closing haystack t (stop + length closing))))"
  by pat_completeness auto
termination
  by (relation "measure (\<lambda>(_, _, h, _, i). length h - i)")
    (auto dest!: find_from_bounds simp: neq_Nil_conv)

declare delimited.simps [simp del]

fun paired_from :: "nat \<Rightarrow> utext \<Rightarrow> nat option \<Rightarrow> nat \<Rightarrow> utext \<Rightarrow> utext list" where
  "paired_from d t start i [] = []"
| "paired_from d t start i (c # r) =
     (if c \<noteq> d then paired_from d t start (i + 1) r
      else case start of
             None \<Rightarrow> paired_from d t (Some (i + 1)) (i + 1) r
           | Some a \<Rightarrow> (if a < i then [take (i - a) (drop a t)] else []) @ paired_from d t None (i + 1) r)"

definition push_paired_quote_interiors :: "utext \<Rightarrow> nat \<Rightarrow> utext list" where
  "push_paired_quote_interiors t d = paired_from d t None 0 t"

definition push_asymmetric_quote_interiors :: "utext \<Rightarrow> nat \<Rightarrow> nat \<Rightarrow> utext list" where
  "push_asymmetric_quote_interiors t opening closing = delimited [opening] [closing] t t 0"

definition collect_quoted_interiors :: "utext \<Rightarrow> utext list" where
  "collect_quoted_interiors t =
     delimited (lit ''quote '') (lit '' unquote'') (ascii_lower_text t) t 0
     @ push_paired_quote_interiors t 34 @ push_paired_quote_interiors t 39
     @ push_asymmetric_quote_interiors t 0x201C 0x201D @ push_asymmetric_quote_interiors t 0x2018 0x2019"

definition push_unique_fact :: "utext list \<Rightarrow> utext list \<Rightarrow> utext list" where
  "push_unique_fact incoming facts =
     fold (\<lambda>f fs. if f \<noteq> [] \<and> f \<notin> set fs then fs @ [f] else fs) incoming facts"

definition trim_token_edges :: "utext \<Rightarrow> utext" where
  "trim_token_edges t =
     (let edge = (\<lambda>c. c \<in> set (lit '',;!?'') \<or> c = 34 \<or> c = 39 \<or> c = 96 \<or> c \<in> set (lit ''()[]{}''))
      in trim_end_matches edge (trim_start_matches edge t))"

text \<open>The protected tokens of the words in order; \<open>initial\<close> is whether a sentence starts here.\<close>

fun token_facts :: "unicode \<Rightarrow> bool \<Rightarrow> utext list \<Rightarrow> utext list" where
  "token_facts u initial [] = []"
| "token_facts u initial (raw # raws) =
     (let token = trim_token_edges raw
      in if token = [] then token_facts u initial raws
         else (if is_protected_token u token initial then [token] else [])
              @ token_facts u (raw \<noteq> [] \<and> last raw \<in> set (lit ''.?!'')) raws)"

definition host_protected_facts :: "unicode \<Rightarrow> regexes \<Rightarrow> utext \<Rightarrow> utext list \<Rightarrow> utext list" where
  "host_protected_facts u rx base extra =
     push_unique_fact (filter (\<lambda>token. contains_text token base) extra)
       (push_unique_fact
          (if is_command_shaped rx base
           then filter looks_like_command_atom (map trim_token_edges (split_whitespace base)) else [])
          (push_unique_fact (token_facts u True (split_whitespace base))
             (push_unique_fact (collect_quoted_interiors base) [])))"

definition is_technical_continuation :: "unicode \<Rightarrow> nat \<Rightarrow> bool" where
  "is_technical_continuation u c \<longleftrightarrow> is_alphanumeric u c \<or> c \<in> set (lit ''/:._-?#&=%@+~'') \<or> c = 92"

definition has_fact_boundary :: "unicode \<Rightarrow> nat option \<Rightarrow> bool \<Rightarrow> bool" where
  "has_fact_boundary u adjacent technical =
     (case adjacent of
        None \<Rightarrow> True
      | Some c \<Rightarrow> (if technical then \<not> is_technical_continuation u c else \<not> is_alphanumeric u c \<and> c \<noteq> 95 \<and> c \<noteq> 39))"

definition char_before :: "utext \<Rightarrow> nat \<Rightarrow> nat option" where
  "char_before t i = (if i = 0 then None else Some (t ! (i - 1)))"

definition char_at :: "utext \<Rightarrow> nat \<Rightarrow> nat option" where
  "char_at t i = (if i < length t then Some (t ! i) else None)"

definition count_bounded_occurrences :: "unicode \<Rightarrow> utext \<Rightarrow> utext \<Rightarrow> bool \<Rightarrow> nat" where
  "count_bounded_occurrences u t needle technical =
     length (filter (\<lambda>i. has_fact_boundary u (char_before t i) technical \<and> has_fact_boundary u (char_at t (i + length needle)) technical)
       (match_indices needle 0 0 t))"

definition protected_fact_count :: "unicode \<Rightarrow> utext \<Rightarrow> utext \<Rightarrow> nat" where
  "protected_fact_count u t needle =
     (let lower = ascii_lower_text needle
      in if lower \<in> set NEGATIONS \<or> lower \<in> set WEEKDAYS \<or> lower \<in> set MONTHS
         then count_bounded_occurrences u (ascii_lower_text t) lower False
         else count_bounded_occurrences u t needle (is_technical_token needle))"

definition mutates_protected_fact :: "unicode \<Rightarrow> regexes \<Rightarrow> utext \<Rightarrow> utext \<Rightarrow> utext list \<Rightarrow> bool" where
  "mutates_protected_fact u rx base rendered extra =
     list_ex (\<lambda>f. f \<noteq> [] \<and> protected_fact_count u rendered f < protected_fact_count u base f)
       (host_protected_facts u rx base extra)"

section \<open>Applying a candidate\<close>

definition validate_format_render ::
  "unicode \<Rightarrow> regexes \<Rightarrow> utext \<Rightarrow> utext \<Rightarrow> format_edit_safety \<Rightarrow> format_edit_error + unit" where
  "validate_format_render u rx base rendered safety =
     (if is_empty_or_large_summary u base rendered then Inl EmptyOrSummary
      else if introduces_prompt_artifact_or_outro u base rendered then Inl PromptArtifact
      else if introduces_heading_without_cue u base rendered (fs_policy safety) then Inl HeadingWithoutCue
      else if mutates_protected_fact u rx base rendered (fs_protected_tokens safety) then Inl Protected
      else Inr ())"

definition apply_format_edits_with ::
  "unicode \<Rightarrow> regexes \<Rightarrow> (utext \<Rightarrow> nat list) \<Rightarrow> utext \<Rightarrow> format_edit_candidate \<Rightarrow> format_edit_safety \<Rightarrow> format_edit_outcome option" where
  "apply_format_edits_with u rx digest base candidate safety =
     (if fc_version candidate \<noteq> FORMAT_EDIT_CONTRACT_VERSION then Some (outcome_rejected base Malformed)
      else if \<not> is_text_sha256_fingerprint (fc_base_fingerprint candidate)
              \<or> fc_base_fingerprint candidate \<noteq> text_sha256_fingerprint digest base then Some (outcome_rejected base Stale)
      else case validate_edits base (fc_edits candidate) of
             Inl error \<Rightarrow> Some (outcome_rejected base error)
           | Inr _ \<Rightarrow>
               (case compose_edits base (fc_edits candidate) of
                  None \<Rightarrow> None
                | Some rendered \<Rightarrow>
                    (case validate_format_render u rx base rendered safety of
                       Inl error \<Rightarrow> Some (outcome_rejected base error)
                     | Inr _ \<Rightarrow> Some (outcome_accepted rendered))))"

definition apply_format_edits ::
  "unicode \<Rightarrow> regexes \<Rightarrow> (utext \<Rightarrow> nat list) \<Rightarrow> utext \<Rightarrow> format_edit_candidate \<Rightarrow> format_edit_outcome option" where
  "apply_format_edits u rx digest base candidate = apply_format_edits_with u rx digest base candidate default_safety"

definition apply_format_edit_candidate_json_with ::
  "unicode \<Rightarrow> regexes \<Rightarrow> (utext \<Rightarrow> nat list) \<Rightarrow> ('b list \<Rightarrow> json option) \<Rightarrow> utext \<Rightarrow> 'b list \<Rightarrow> format_edit_safety
    \<Rightarrow> format_edit_outcome option" where
  "apply_format_edit_candidate_json_with u rx digest from_slice base raw safety =
     (case parse_format_edit_candidate_json from_slice raw of
        Inr candidate \<Rightarrow> apply_format_edits_with u rx digest base candidate safety
      | Inl error \<Rightarrow> Some (outcome_rejected base error))"

definition apply_format_edit_candidate_json ::
  "unicode \<Rightarrow> regexes \<Rightarrow> (utext \<Rightarrow> nat list) \<Rightarrow> ('b list \<Rightarrow> json option) \<Rightarrow> utext \<Rightarrow> 'b list \<Rightarrow> format_edit_outcome option" where
  "apply_format_edit_candidate_json u rx digest from_slice base raw =
     apply_format_edit_candidate_json_with u rx digest from_slice base raw default_safety"

section \<open>Composition is splicing\<close>

text \<open>The reference: the kept pieces of the base and the replacements in text order.\<close>

definition edit_span :: "utext \<Rightarrow> format_edit \<Rightarrow> nat \<times> nat" where
  "edit_span base e = (the (boundary_index base (fe_start e)), the (boundary_index base (fe_end e)))"

fun splice :: "utext \<Rightarrow> nat \<Rightarrow> format_edit list \<Rightarrow> utext" where
  "splice base cursor [] = drop cursor base"
| "splice base cursor (e # es) =
     (case edit_span base e of (i, j) \<Rightarrow> take (i - cursor) (drop cursor base) @ fe_after e @ splice base j es)"

definition anchored :: "utext \<Rightarrow> format_edit \<Rightarrow> bool" where
  "anchored base e \<longleftrightarrow> fe_start e \<le> fe_end e \<and> is_char_boundary base (fe_start e) \<and> is_char_boundary base (fe_end e)
     \<and> byte_slice base (fe_start e) (fe_end e) = Some (fe_before e)"

definition disjoint_edits :: "format_edit \<Rightarrow> format_edit \<Rightarrow> bool" where
  "disjoint_edits e f \<longleftrightarrow> \<not> ranges_overlap (fe_start e, fe_end e) (fe_start f, fe_end f)"

lemma validate_edits_ok:
  "validate_edits base es = Inr () \<Longrightarrow> (\<forall>e\<in>set es. anchored base e) \<and> sorted_wrt disjoint_edits es"
  by (induction es) (auto simp: anchored_def disjoint_edits_def list_ex_iff split: if_splits)

lemma disjoint_edits_sym: "disjoint_edits e f \<Longrightarrow> disjoint_edits f e"
  by (auto simp: disjoint_edits_def ranges_overlap_def)

lemma sorted_wrt_pairwise:
  "sorted_wrt R xs \<Longrightarrow> (\<And>x y. R x y \<Longrightarrow> R y x) \<Longrightarrow> x \<in> set xs \<Longrightarrow> y \<in> set xs \<Longrightarrow> x \<noteq> y \<Longrightarrow> R x y"
  by (induction xs) auto

text \<open>Edits in text order, each ending before the next begins.\<close>

definition in_order :: "format_edit \<Rightarrow> format_edit \<Rightarrow> bool" where
  "in_order e f \<longleftrightarrow> fe_start e < fe_start f \<and> fe_end e \<le> fe_start f"

lemma edits_in_order:
  assumes "validate_edits base es = Inr ()" "distinct (map fe_start es)"
  shows "sorted_wrt in_order (sort_key fe_start es)"
proof -
  let ?s = "sort_key fe_start es"
  have ok: "\<forall>e\<in>set es. anchored base e" "sorted_wrt disjoint_edits es" using validate_edits_ok [OF assms(1)] by auto
  have "distinct (map fe_start ?s)" using assms(2) by (simp add: distinct_map inj_on_def)
  then have "sorted_wrt (<) (map fe_start ?s)" by (simp add: strict_sorted_iff)
  then have "sorted_wrt (\<lambda>e f. fe_start e < fe_start f) ?s" by (simp add: sorted_wrt_map)
  moreover have "in_order e f" if "e \<in> set ?s" "f \<in> set ?s" "fe_start e < fe_start f" for e f
  proof -
    have "disjoint_edits e f"
      using sorted_wrt_pairwise [OF ok(2) disjoint_edits_sym] that by (metis less_irrefl set_sort)
    moreover have "fe_start f \<le> fe_end f" using ok(1) that by (auto simp: anchored_def)
    ultimately show ?thesis using that(3) by (auto simp: in_order_def disjoint_edits_def ranges_overlap_def)
  qed
  ultimately show ?thesis by (rule sorted_wrt_mono_rel [rotated])
qed

lemma compose_rev:
  assumes "distinct (map fe_start es)"
  shows "compose_edits base es =
    foldr (\<lambda>e rendered. Option.bind rendered (\<lambda>t. replace_range t (fe_start e) (fe_end e) (fe_after e)))
      (sort_key fe_start es) (Some base)"
proof -
  have "sort_key (\<lambda>e. - int (fe_start e)) es = rev (sort_key fe_start es)"
  proof (rule sort_key_inj_key_eq)
    show "inj_on (\<lambda>e. - int (fe_start e)) (set es)" using assms by (auto simp: distinct_map inj_on_def)
    have "sorted (map fe_start (sort_key fe_start es))" by simp
    then have "sorted_wrt (\<lambda>e f. fe_start e \<le> fe_start f) (sort_key fe_start es)" by (simp add: sorted_wrt_map)
    then show "sorted (map (\<lambda>e. - int (fe_start e)) (rev (sort_key fe_start es)))"
      by (simp add: sorted_wrt_map sorted_wrt_rev)
  qed simp
  then show ?thesis by (simp add: compose_edits_def foldr_conv_fold)
qed

text \<open>Replacing from the right leaves everything left of the cursor as it was.\<close>

lemma foldr_splices:
  assumes "sorted_wrt in_order es" "\<forall>e\<in>set es. anchored base e"
    and "c \<le> length base" "\<forall>e\<in>set es. byte_len (take c base) \<le> fe_start e"
  shows "foldr (\<lambda>e rendered. Option.bind rendered (\<lambda>t. replace_range t (fe_start e) (fe_end e) (fe_after e))) es (Some base)
    = Some (take c base @ splice base c es)"
  using assms
proof (induction es arbitrary: c)
  case (Cons e es)
  obtain i j where i: "boundary_index base (fe_start e) = Some i" and j: "boundary_index base (fe_end e) = Some j"
    and le: "fe_start e \<le> fe_end e" using Cons.prems(2) by (auto simp: anchored_def is_char_boundary_def)
  have ji: "j \<le> length base" "byte_len (take j base) = fe_end e" using j by (simp_all add: boundary_index_iff)
  have c: "boundary_index base (byte_len (take c base)) = Some c" using Cons.prems(3) by (simp add: boundary_index_iff)
  have ci: "c \<le> i" using boundary_index_mono [OF c i] Cons.prems(4) by simp
  have "foldr (\<lambda>e rendered. Option.bind rendered (\<lambda>t. replace_range t (fe_start e) (fe_end e) (fe_after e))) es (Some base)
      = Some (take j base @ splice base j es)"
    using Cons.prems ji by (intro Cons.IH) (auto simp: in_order_def)
  then have "foldr (\<lambda>e rendered. Option.bind rendered (\<lambda>t. replace_range t (fe_start e) (fe_end e) (fe_after e))) (e # es) (Some base)
      = Some (take i base @ fe_after e @ splice base j es)"
    using replace_range_take [OF i j le] by simp
  moreover have "take i base = take c base @ take (i - c) (drop c base)" using ci by (metis le_add_diff_inverse take_add)
  ultimately show ?case by (simp add: edit_span_def i j)
qed simp

lemma compose_edits_splices:
  assumes "validate_edits base es = Inr ()" "distinct (map fe_start es)"
  shows "compose_edits base es = Some (splice base 0 (sort_key fe_start es))"
  unfolding compose_rev [OF assms(2)]
  using foldr_splices [OF edits_in_order [OF assms], where c = 0] validate_edits_ok [OF assms(1)] by simp

section \<open>What the host delivers\<close>

lemma push_unique_fact_set: "set (push_unique_fact incoming facts) = set facts \<union> {f \<in> set incoming. f \<noteq> []}"
proof -
  have "set (fold (\<lambda>f fs. if f \<noteq> [] \<and> f \<notin> set fs then fs @ [f] else fs) incoming facts) = set facts \<union> {f \<in> set incoming. f \<noteq> []}"
    by (induction incoming arbitrary: facts) auto
  then show ?thesis by (simp add: push_unique_fact_def)
qed

lemma host_protected_facts_ne: "f \<in> set (host_protected_facts u rx base extra) \<Longrightarrow> f \<noteq> []"
  by (auto simp: host_protected_facts_def push_unique_fact_set)

lemma token_facts_lexical:
  assumes "raw \<in> set raws" "trim_token_edges raw \<noteq> []"
    and "ascii_lower_text (trim_token_edges raw) \<in> set NEGATIONS \<union> set WEEKDAYS \<union> set MONTHS \<or> is_technical_token (trim_token_edges raw)"
  shows "trim_token_edges raw \<in> set (token_facts u initial raws)"
  using assms by (induction u initial raws rule: token_facts.induct) (auto simp: is_protected_token_def Let_def)

text \<open>
  Claim C27. The host owns what is rendered. A rejected candidate leaves the base untouched and names its
  error. An accepted one was made against exactly this base; each of its edits lies on character
  boundaries of the base and names the very text that stands there, and no two of them overlap; and
  every word of the base that is a negation, a weekday, a month or a technical token (it has a digit, a slash, an
  underscore, a bracket or the like, or starts as a flag) occurs in the rendering at least as often as before,
  as does every protected token the caller passed. When no two edits share their start, the rendering is the
  base with exactly the edits' ranges replaced; only when two do can the composition panic.
\<close>
theorem format_edits_contract:
  "case apply_format_edits_with u rx digest base candidate safety of
     None \<Rightarrow> \<not> distinct (map fe_start (fc_edits candidate))
   | Some out \<Rightarrow>
       (if fo_accepted out
        then fo_error out = None \<and> fc_base_fingerprint candidate = text_sha256_fingerprint digest base
            \<and> (\<forall>e\<in>set (fc_edits candidate). fe_start e \<le> fe_end e \<and> byte_slice base (fe_start e) (fe_end e) = Some (fe_before e))
            \<and> sorted_wrt (\<lambda>e f. \<not> (fe_start e < fe_end f \<and> fe_start f < fe_end e)) (fc_edits candidate)
            \<and> (distinct (map fe_start (fc_edits candidate)) \<longrightarrow> fo_rendered out = splice base 0 (sort_key fe_start (fc_edits candidate)))
            \<and> (\<forall>raw\<in>set (split_whitespace base). let f = trim_token_edges raw in
                 f \<noteq> [] \<and> (ascii_lower_text f \<in> set NEGATIONS \<union> set WEEKDAYS \<union> set MONTHS \<or> is_technical_token f)
                 \<longrightarrow> protected_fact_count u base f \<le> protected_fact_count u (fo_rendered out) f)
            \<and> (\<forall>f\<in>set (fs_protected_tokens safety). f \<noteq> [] \<and> contains_text f base
                 \<longrightarrow> protected_fact_count u base f \<le> protected_fact_count u (fo_rendered out) f)
        else fo_rendered out = base \<and> fo_error out \<noteq> None)"
proof (cases "apply_format_edits_with u rx digest base candidate safety")
  case None
  then have "validate_edits base (fc_edits candidate) = Inr ()" "compose_edits base (fc_edits candidate) = None"
    by (auto simp: apply_format_edits_with_def split: if_splits sum.splits option.splits)
  then show ?thesis using None compose_edits_splices by fastforce
next
  case (Some out)
  show ?thesis
  proof (cases "fo_accepted out")
    case False
    then show ?thesis using Some
      by (auto simp: apply_format_edits_with_def outcome_rejected_def outcome_accepted_def split: if_splits sum.splits option.splits)
  next
    case True
    then have run: "fo_error out = None" "fc_base_fingerprint candidate = text_sha256_fingerprint digest base"
      "validate_edits base (fc_edits candidate) = Inr ()" "compose_edits base (fc_edits candidate) = Some (fo_rendered out)"
      "validate_format_render u rx base (fo_rendered out) safety = Inr ()"
      using Some by (auto simp: apply_format_edits_with_def outcome_rejected_def outcome_accepted_def split: if_splits sum.splits option.splits)
    have kept: "protected_fact_count u base f \<le> protected_fact_count u (fo_rendered out) f"
      if "f \<in> set (host_protected_facts u rx base (fs_protected_tokens safety))" for f
      using run(5) that host_protected_facts_ne [OF that]
      by (auto simp: validate_format_render_def mutates_protected_fact_def list_ex_iff split: if_splits)
    have tokens: "trim_token_edges raw \<in> set (host_protected_facts u rx base (fs_protected_tokens safety))"
      if "raw \<in> set (split_whitespace base)" "trim_token_edges raw \<noteq> []"
        "ascii_lower_text (trim_token_edges raw) \<in> set NEGATIONS \<union> set WEEKDAYS \<union> set MONTHS \<or> is_technical_token (trim_token_edges raw)" for raw
      using token_facts_lexical [OF that] that(2) by (simp add: host_protected_facts_def push_unique_fact_set)
    have extra: "f \<in> set (host_protected_facts u rx base (fs_protected_tokens safety))"
      if "f \<in> set (fs_protected_tokens safety)" "f \<noteq> []" "contains_text f base" for f
      using that by (simp add: host_protected_facts_def push_unique_fact_set)
    have "sorted_wrt (\<lambda>e f. \<not> (fe_start e < fe_end f \<and> fe_start f < fe_end e)) (fc_edits candidate)"
      using validate_edits_ok [OF run(3)]
      by (auto elim!: sorted_wrt_mono_rel [rotated] simp: disjoint_edits_def ranges_overlap_def)
    then show ?thesis
      using Some True run(1,2,4) compose_edits_splices [OF run(3)] validate_edits_ok [OF run(3)] kept tokens extra
      by (auto simp: anchored_def Let_def)
  qed
qed

definition sample_digest :: "utext \<Rightarrow> nat list" where
  "sample_digest t = replicate 32 (length t mod 256)"

definition sample_candidate :: "utext \<Rightarrow> format_edit list \<Rightarrow> format_edit_candidate" where
  "sample_candidate base es =
     \<lparr>fc_version = ''1'', fc_base_fingerprint = text_sha256_fingerprint sample_digest base, fc_edits = es\<rparr>"

definition edit_of :: "nat \<Rightarrow> nat \<Rightarrow> utext \<Rightarrow> utext \<Rightarrow> format_edit" where
  "edit_of start stop before after =
     \<lparr>fe_start = start, fe_end = stop, fe_before = before, fe_after = after, fe_kind = BoundedWording\<rparr>"

theorem format_edits_contract_witness:
  "let base = lit ''do not ship it'';
       candidate = sample_candidate base [edit_of 14 14 [] (lit ''.''), edit_of 0 2 (lit ''do'') (lit ''Do'')]
   in \<exists>out. apply_format_edits_with ascii plain_regexes sample_digest base candidate default_safety = Some out
      \<and> fo_accepted out \<and> fo_rendered out = lit ''Do not ship it.''
      \<and> protected_fact_count ascii base (lit ''not'') \<le> protected_fact_count ascii (fo_rendered out) (lit ''not'')"
proof -
  let ?base = "lit ''do not ship it''"
  let ?candidate = "sample_candidate ?base [edit_of 14 14 [] (lit ''.''), edit_of 0 2 (lit ''do'') (lit ''Do'')]"
  have d: "distinct (map fe_start (fc_edits ?candidate))" by code_simp
  obtain out where out: "apply_format_edits_with ascii plain_regexes sample_digest ?base ?candidate default_safety = Some out"
    and kept: "fo_accepted out \<Longrightarrow> \<forall>raw\<in>set (split_whitespace ?base). let f = trim_token_edges raw in
                 f \<noteq> [] \<and> (ascii_lower_text f \<in> set NEGATIONS \<union> set WEEKDAYS \<union> set MONTHS \<or> is_technical_token f)
                 \<longrightarrow> protected_fact_count ascii ?base f \<le> protected_fact_count ascii (fo_rendered out) f"
    using format_edits_contract [where u = ascii and rx = plain_regexes and digest = sample_digest and base = ?base and candidate = ?candidate and safety = default_safety] d by (auto split: if_splits option.splits)
  have "(case apply_format_edits_with ascii plain_regexes sample_digest ?base ?candidate default_safety of
      Some out \<Rightarrow> fo_accepted out \<and> fo_rendered out = lit ''Do not ship it.'' | None \<Rightarrow> False)" by code_simp
  then have acc: "fo_accepted out" "fo_rendered out = lit ''Do not ship it.''" using out by auto
  have "lit ''not'' \<in> set (split_whitespace ?base)" by code_simp
  moreover have "trim_token_edges (lit ''not'') = lit ''not''" "lit ''not'' \<noteq> []" "ascii_lower_text (lit ''not'') \<in> set NEGATIONS"
    by code_simp+
  ultimately have "protected_fact_count ascii ?base (lit ''not'') \<le> protected_fact_count ascii (fo_rendered out) (lit ''not'')"
    using kept [OF acc(1)] by (fastforce simp: Let_def)
  then show ?thesis using out acc by (auto simp: Let_def)
qed

text \<open>An offset past a prefix, and one inside it.\<close>

lemma boundary_index_append: "boundary_index (s @ t) (byte_len s + n) = map_option ((+) (length s)) (boundary_index t n)"
proof (induction s)
  case (Cons c s)
  have "c # s \<noteq> []" "0 < len_utf8 c" by (simp_all add: len_utf8_pos)
  then show ?case using Cons by (simp add: option.map_comp comp_def)
qed (simp add: option.map_ident)

lemma boundary_index_inside: "n \<le> byte_len s \<Longrightarrow> boundary_index (s @ t) n = boundary_index s n"
proof (induction s arbitrary: n)
  case Nil
  then show ?case by (cases t) auto
next
  case (Cons c s)
  then show ?case using Cons.IH [of "n - len_utf8 c"] by (auto simp: not_less)
qed

text \<open>
  Claim C40. Two edits that share their start corrupt the text. An insertion and, listed after it, a replacement at the same
  offset do not overlap, so they are validated; but the insertion is applied first and the
  replacement then falls on the inserted text. Whenever the inserted text is at least as long as the replaced range,
  the base keeps the words that were to be replaced and the beginning of the insertion is lost in their
  place; and when no character of the inserted text ends at the length of that range, the composition panics.
\<close>
theorem shared_start_corrupts:
  assumes "validate_edits base [e, f] = Inr ()" "fe_end e = fe_start e" "fe_start f = fe_start e"
    and "fe_end f - fe_start f \<le> byte_len (fe_after e)"
  shows "\<exists>i. boundary_index base (fe_start e) = Some i \<and> take (length (fe_before f)) (drop i base) = fe_before f
    \<and> compose_edits base [e, f] =
        map_option (\<lambda>k. take i base @ fe_after f @ drop k (fe_after e) @ drop i base)
          (boundary_index (fe_after e) (fe_end f - fe_start f))"
proof -
  have ok: "anchored base e" "anchored base f" using validate_edits_ok [OF assms(1)] by auto
  obtain i where i: "boundary_index base (fe_start e) = Some i" using ok(1) by (auto simp: anchored_def is_char_boundary_def)
  have len: "byte_len (take i base) = fe_start e" "i \<le> length base" using i by (simp_all add: boundary_index_iff)
  obtain j where j: "boundary_index base (fe_end f) = Some j" "fe_before f = take (j - i) (drop i base)"
    using ok(2) i assms(3) by (auto simp: anchored_def byte_slice_def split: option.splits)
  let ?t = "take i base @ fe_after e @ drop i base"
  have e: "replace_range base (fe_start e) (fe_end e) (fe_after e) = Some ?t" using i assms(2) by (simp add: replace_range_def)
  have start: "boundary_index ?t (fe_start f) = Some i"
  proof -
    have "boundary_index (fe_after e @ drop i base) 0 = Some 0" by (cases "fe_after e @ drop i base") auto
    then show ?thesis
      using boundary_index_append [of "take i base" "fe_after e @ drop i base" 0] len assms(3) by simp
  qed
  have stop: "boundary_index ?t (fe_end f) = map_option ((+) i) (boundary_index (fe_after e) (fe_end f - fe_start f))"
    using boundary_index_append [of "take i base" "fe_after e @ drop i base" "fe_end f - fe_start f"] len ok(2) assms(3,4)
    by (simp add: boundary_index_inside anchored_def)
  have le: "fe_start f \<le> fe_end f" using ok(2) by (simp add: anchored_def)
  have "sort_key (\<lambda>e. - int (fe_start e)) [e, f] = [e, f]" using assms(3) by simp
  then have "compose_edits base [e, f] = replace_range ?t (fe_start f) (fe_end f) (fe_after f)"
    unfolding compose_edits_def by (simp add: e)
  also have "\<dots> = map_option (\<lambda>k. take i base @ fe_after f @ drop k (fe_after e) @ drop i base)
      (boundary_index (fe_after e) (fe_end f - fe_start f))"
  proof (cases "boundary_index (fe_after e) (fe_end f - fe_start f)")
    case (Some k)
    then have "k \<le> length (fe_after e)" by (simp add: boundary_index_iff)
    then show ?thesis using start stop le len(2) Some by (simp add: replace_range_def)
  qed (use start stop in \<open>simp add: replace_range_def\<close>)
  finally show ?thesis using i j(2) by (auto simp: min_def)
qed

theorem shared_start_corrupts_witness:
  "let base = lit ''so ship it''; please = edit_of 3 3 [] (lit ''please ''); ship = edit_of 3 7 (lit ''ship'') (lit ''Ship'');
       accent = edit_of 3 3 [] [233]; cap = edit_of 3 4 (lit ''s'') (lit ''S'')
   in validate_edits base [please, ship] = Inr () \<and> compose_edits base [please, ship] = Some (lit ''so Shipse ship it'')
      \<and> validate_edits base [accent, cap] = Inr () \<and> compose_edits base [accent, cap] = None"
proof -
  let ?base = "lit ''so ship it''" and ?please = "edit_of 3 3 [] (lit ''please '')" and ?ship = "edit_of 3 7 (lit ''ship'') (lit ''Ship'')"
    and ?accent = "edit_of 3 3 [] [233]" and ?cap = "edit_of 3 4 (lit ''s'') (lit ''S'')"
  have v: "validate_edits ?base [?please, ?ship] = Inr ()" "validate_edits ?base [?accent, ?cap] = Inr ()" by code_simp+
  have i: "boundary_index ?base 3 = Some 3" by code_simp
  have k: "boundary_index (lit ''please '') 4 = Some 4" "boundary_index [233] 1 = None" by code_simp+
  have t: "take 3 ?base @ lit ''Ship'' @ drop 4 (lit ''please '') @ drop 3 ?base = lit ''so Shipse ship it''" by code_simp
  have n: "7 - 3 \<le> byte_len (lit ''please '')" "4 - 3 \<le> byte_len [233]" by code_simp+
  show ?thesis
    using shared_start_corrupts [OF v(1)] shared_start_corrupts [OF v(2)] v i k t n by (simp add: edit_of_def Let_def)
qed

text \<open>The time shape is spelled backwards: it accepts \<open>9ma\<close> and no time of day.\<close>

lemma time_token_reversed:
  "is_time_token (lit ''9ma'') \<and> \<not> is_time_token (lit ''9am'') \<and> \<not> is_time_token (lit ''10:30pm'')"
  by code_simp

section \<open>What the parser admits\<close>

lemma parse_edits_all: "parse_edits vs = Inr es \<Longrightarrow> length es = length vs \<and> (\<forall>e\<in>set es. \<exists>v. parse_edit v = Inr e)"
  by (induction vs arbitrary: es) auto

lemma parse_edit_bounds:
  assumes "parse_edit v = Inr e"
  shows "\<exists>b a. fe_before e = str_chars b \<and> fe_after e = str_chars a
     \<and> length b \<le> MAX_FORMAT_EDIT_FIELD_UTF8_BYTES \<and> length a \<le> MAX_FORMAT_EDIT_FIELD_UTF8_BYTES"
  using assms by (auto simp: parse_edit_def not_less split: if_splits intro!: exI)

lemma parse_candidate_bounds:
  assumes "parse_candidate v = Inr c"
  shows "length (fc_edits c) \<le> MAX_FORMAT_EDITS \<and> (\<forall>e\<in>set (fc_edits c). \<exists>v. parse_edit v = Inr e)
    \<and> fc_version c = FORMAT_EDIT_CONTRACT_VERSION \<and> is_text_sha256_fingerprint (fc_base_fingerprint c) \<and> edits_sorted (fc_edits c)"
  using assms by (auto simp: parse_candidate_def dest: parse_edits_all split: if_splits)

end
