(* ===== verification/Compose_Text.thy ===== *)
theory Compose_Text
  imports Format_Edits "HOL-Library.Product_Lexorder"
begin

text \<open>
  The vocabulary and the text helpers of the compose gate, \<open>crates/voisu-core/src/compose_gate.rs\<close>:
  decisions, triggers and error codes with their wire names, the untrusted candidate and its bounds,
  lexical atoms, headers, the closed conversions, and how a span of a source is found and claimed.

  Byte ranges of a source are ranges of characters here: they are only compared, ordered and tested for
  covering a character. \<open>ATOM_RE\<close>, \<open>HEADER_RE\<close>, the paragraph and the white-space pattern are written out as
  scanners; the two patterns that fold Unicode case (\<open>SPOKEN_CUE_RE\<close>, \<open>QUOTE_RE\<close>) are arguments that give
  the captured group, and so is the reader that \<open>serde\<close> derives for the candidate.
\<close>

section \<open>Constants and wire names\<close>

definition COMPOSE_GATE_CONTRACT_ID :: string where "COMPOSE_GATE_CONTRACT_ID = ''voisu-dpr-compose-gate-v1.1.2:#158''"
definition MAX_COMPOSE_CANDIDATE_BYTES :: nat where "MAX_COMPOSE_CANDIDATE_BYTES = 65536"
definition MAX_COMPOSE_JSON_DEPTH :: nat where "MAX_COMPOSE_JSON_DEPTH = 14"
definition MAX_COMPOSE_JSON_NODES :: nat where "MAX_COMPOSE_JSON_NODES = 30000"
definition MAX_COMPOSE_REMOVALS :: nat where "MAX_COMPOSE_REMOVALS = 32"
definition MAX_COMPOSE_CONVERSIONS :: nat where "MAX_COMPOSE_CONVERSIONS = 32"
definition MAX_COMPOSE_LABELS :: nat where "MAX_COMPOSE_LABELS = 8"
definition MAX_COMPOSE_DERIVATION_SPANS :: nat where "MAX_COMPOSE_DERIVATION_SPANS = 128"
definition MAX_COMPOSE_FIELD_UTF8_BYTES :: nat where "MAX_COMPOSE_FIELD_UTF8_BYTES = 2048"

text \<open>The arrow is U+2192, the ellipsis U+2026.\<close>

definition CLOSED_CONVERSIONS :: "utext list" where
  "CLOSED_CONVERSIONS =
     map (\<lambda>(cue, rhs). lit cue @ [0x2192] @ lit rhs)
       [(''exclamation point'', ''!''), (''four'', ''4.''), (''new line'', [CHR 0x5C, CHR ''n'']),
        (''new paragraph'', [CHR 0x5C, CHR ''n'', CHR 0x5C, CHR ''n'']), (''one'', ''1.''), (''period'', ''.'')]
     @ [lit ''quote'' @ [0x2026] @ lit ''unquote'' @ [0x2192, 34, 0x2026, 34]]
     @ map (\<lambda>(cue, rhs). lit cue @ [0x2192] @ lit rhs)
       [(''spoken acceptance criteria cue'', ''Acceptance Criteria label''),
        (''spoken constraints cue'', ''Constraints label''), (''spoken context cue'', ''Context label''),
        (''spoken files cue'', ''Files label''), (''spoken goal cue'', ''Goal label''), (''spoken notes cue'', ''Notes label''),
        (''spoken requirements cue'', ''Requirements label''), (''spoken steps cue'', ''numbered_lines''),
        (''three'', ''3.''), (''two'', ''2.'')]"

definition CLOSED_SOURCE_SELECTION_REASONS :: "string list" where
  "CLOSED_SOURCE_SELECTION_REASONS =
     [''only_available'', ''exact_agreement'', ''configured_primary_rank'', ''punctuation_local_render'', ''safe_complementary_merge'']"

datatype composition_decision = Accept | AcceptPreserveWords | AcceptNaturalLayout | FallbackBaseline

fun decision_as_str :: "composition_decision \<Rightarrow> string" where
  "decision_as_str Accept = ''accept''"
| "decision_as_str AcceptPreserveWords = ''accept_preserve_words''"
| "decision_as_str AcceptNaturalLayout = ''accept_natural_layout''"
| "decision_as_str FallbackBaseline = ''fallback_baseline''"

definition decision_parse :: "string \<Rightarrow> composition_decision option" where
  "decision_parse value =
     (if value = ''accept'' then Some Accept
      else if value = ''accept_preserve_words'' then Some AcceptPreserveWords
      else if value = ''accept_natural_layout'' then Some AcceptNaturalLayout
      else if value = ''fallback_baseline'' then Some FallbackBaseline
      else None)"

interpretation decision_wire: wire_name decision_as_str decision_parse
proof
  fix s x show "decision_parse s = Some x \<longleftrightarrow> s = decision_as_str x"
    by (cases x) (auto simp: decision_parse_def)
qed

datatype fallback_trigger =
    UnsafeSemantics
  | UnverifiableSourceDerivation
  | InvalidFixedLabel
  | UncertainBacktracking
  | UncertainLayout
  | ResponseSchemaFailure
  | ProviderFailureTrigger
  | DeadlineExceededTrigger

fun trigger_as_str :: "fallback_trigger \<Rightarrow> string" where
  "trigger_as_str UnsafeSemantics = ''unsafe_semantics''"
| "trigger_as_str UnverifiableSourceDerivation = ''unverifiable_source_derivation''"
| "trigger_as_str InvalidFixedLabel = ''invalid_fixed_label''"
| "trigger_as_str UncertainBacktracking = ''uncertain_backtracking''"
| "trigger_as_str UncertainLayout = ''uncertain_layout''"
| "trigger_as_str ResponseSchemaFailure = ''response_schema_failure''"
| "trigger_as_str ProviderFailureTrigger = ''provider_failure''"
| "trigger_as_str DeadlineExceededTrigger = ''deadline_exceeded''"

definition trigger_parse :: "string \<Rightarrow> fallback_trigger option" where
  "trigger_parse value =
     (if value = ''unsafe_semantics'' then Some UnsafeSemantics
      else if value = ''unverifiable_source_derivation'' then Some UnverifiableSourceDerivation
      else if value = ''invalid_fixed_label'' then Some InvalidFixedLabel
      else if value = ''uncertain_backtracking'' then Some UncertainBacktracking
      else if value = ''uncertain_layout'' then Some UncertainLayout
      else if value = ''response_schema_failure'' then Some ResponseSchemaFailure
      else if value = ''provider_failure'' then Some ProviderFailureTrigger
      else if value = ''deadline_exceeded'' then Some DeadlineExceededTrigger
      else None)"

interpretation trigger_wire: wire_name trigger_as_str trigger_parse
proof
  fix s x show "trigger_parse s = Some x \<longleftrightarrow> s = trigger_as_str x"
    by (cases x) (auto simp: trigger_parse_def)
qed

datatype compose_error_code =
    E_MALFORMED
  | E_STALE
  | E_UNKNOWN_CONVERSION
  | E_UNKNOWN_LABEL
  | E_UNVERIFIABLE
  | E_PROTECTED
  | E_UNSAFE_SEMANTICS
  | E_INVALID_LABEL
  | E_UNCERTAIN_BACKTRACK
  | E_UNCERTAIN_LAYOUT
  | E_INVENTED_CONTENT
  | E_OVERLAP
  | E_SCHEMA
  | E_PROVIDER
  | E_DEADLINE
  | E_RECONCILE

fun code_as_str :: "compose_error_code \<Rightarrow> string" where
  "code_as_str E_MALFORMED = ''E_MALFORMED''"
| "code_as_str E_STALE = ''E_STALE''"
| "code_as_str E_UNKNOWN_CONVERSION = ''E_UNKNOWN_CONVERSION''"
| "code_as_str E_UNKNOWN_LABEL = ''E_UNKNOWN_LABEL''"
| "code_as_str E_UNVERIFIABLE = ''E_UNVERIFIABLE''"
| "code_as_str E_PROTECTED = ''E_PROTECTED''"
| "code_as_str E_UNSAFE_SEMANTICS = ''E_UNSAFE_SEMANTICS''"
| "code_as_str E_INVALID_LABEL = ''E_INVALID_LABEL''"
| "code_as_str E_UNCERTAIN_BACKTRACK = ''E_UNCERTAIN_BACKTRACK''"
| "code_as_str E_UNCERTAIN_LAYOUT = ''E_UNCERTAIN_LAYOUT''"
| "code_as_str E_INVENTED_CONTENT = ''E_INVENTED_CONTENT''"
| "code_as_str E_OVERLAP = ''E_OVERLAP''"
| "code_as_str E_SCHEMA = ''E_SCHEMA''"
| "code_as_str E_PROVIDER = ''E_PROVIDER''"
| "code_as_str E_DEADLINE = ''E_DEADLINE''"
| "code_as_str E_RECONCILE = ''E_RECONCILE''"

definition code_parse :: "string \<Rightarrow> compose_error_code option" where
  "code_parse value =
     (if value = ''E_MALFORMED'' then Some E_MALFORMED
      else if value = ''E_STALE'' then Some E_STALE
      else if value = ''E_UNKNOWN_CONVERSION'' then Some E_UNKNOWN_CONVERSION
      else if value = ''E_UNKNOWN_LABEL'' then Some E_UNKNOWN_LABEL
      else if value = ''E_UNVERIFIABLE'' then Some E_UNVERIFIABLE
      else if value = ''E_PROTECTED'' then Some E_PROTECTED
      else if value = ''E_UNSAFE_SEMANTICS'' then Some E_UNSAFE_SEMANTICS
      else if value = ''E_INVALID_LABEL'' then Some E_INVALID_LABEL
      else if value = ''E_UNCERTAIN_BACKTRACK'' then Some E_UNCERTAIN_BACKTRACK
      else if value = ''E_UNCERTAIN_LAYOUT'' then Some E_UNCERTAIN_LAYOUT
      else if value = ''E_INVENTED_CONTENT'' then Some E_INVENTED_CONTENT
      else if value = ''E_OVERLAP'' then Some E_OVERLAP
      else if value = ''E_SCHEMA'' then Some E_SCHEMA
      else if value = ''E_PROVIDER'' then Some E_PROVIDER
      else if value = ''E_DEADLINE'' then Some E_DEADLINE
      else if value = ''E_RECONCILE'' then Some E_RECONCILE
      else None)"

interpretation code_wire: wire_name code_as_str code_parse
proof
  fix s x show "code_parse s = Some x \<longleftrightarrow> s = code_as_str x"
    by (cases x) (simp_all add: code_parse_def)
qed

datatype cloud_outcome =
    Succeeded
  | RejectedUnsafe
  | RejectedUnverifiable
  | RejectedInvalidLabel
  | SchemaFailure
  | ProviderFailure
  | DeadlineExceeded
  | Skipped

fun cloud_as_str :: "cloud_outcome \<Rightarrow> string" where
  "cloud_as_str Succeeded = ''succeeded''"
| "cloud_as_str RejectedUnsafe = ''rejected_unsafe''"
| "cloud_as_str RejectedUnverifiable = ''rejected_unverifiable''"
| "cloud_as_str RejectedInvalidLabel = ''rejected_invalid_label''"
| "cloud_as_str SchemaFailure = ''schema_failure''"
| "cloud_as_str ProviderFailure = ''provider_failure''"
| "cloud_as_str DeadlineExceeded = ''deadline_exceeded''"
| "cloud_as_str Skipped = ''skipped''"

definition cloud_parse :: "string \<Rightarrow> cloud_outcome option" where
  "cloud_parse value =
     (if value = ''succeeded'' then Some Succeeded
      else if value = ''rejected_unsafe'' then Some RejectedUnsafe
      else if value = ''rejected_unverifiable'' then Some RejectedUnverifiable
      else if value = ''rejected_invalid_label'' then Some RejectedInvalidLabel
      else if value = ''schema_failure'' then Some SchemaFailure
      else if value = ''provider_failure'' then Some ProviderFailure
      else if value = ''deadline_exceeded'' then Some DeadlineExceeded
      else if value = ''skipped'' then Some Skipped
      else None)"

interpretation cloud_wire: wire_name cloud_as_str cloud_parse
proof
  fix s x show "cloud_parse s = Some x \<longleftrightarrow> s = cloud_as_str x"
    by (cases x) (auto simp: cloud_parse_def)
qed

record delivery_flags =
  df_state :: string
  df_auto_send :: bool
  df_live_type :: bool
  df_replace_delivered :: bool

definition dpr_default :: delivery_flags where
  "dpr_default = \<lparr>df_state = DELIVERY_STATE_UNSENT, df_auto_send = DELIVERY_AUTO_SEND, df_live_type = DELIVERY_LIVE_TYPE,
     df_replace_delivered = DELIVERY_REPLACE_DELIVERED\<rparr>"

record span_summary =
  ss_total :: nat
  ss_applied :: nat
  ss_rejected :: "(nat \<times> compose_error_code) list"

record compose_outcome =
  co_decision :: composition_decision
  co_rendered :: utext
  co_trigger :: "fallback_trigger option"
  co_codes :: "compose_error_code list"
  co_delivery :: delivery_flags
  co_summary :: "span_summary option"

datatype stt_provider = ProviderA | ProviderB

fun stt_as_str :: "stt_provider \<Rightarrow> string" where
  "stt_as_str ProviderA = ''provider_a''"
| "stt_as_str ProviderB = ''provider_b''"

definition stt_parse :: "string \<Rightarrow> stt_provider option" where
  "stt_parse value = (if value = ''provider_a'' then Some ProviderA else if value = ''provider_b'' then Some ProviderB else None)"

interpretation stt_wire: wire_name stt_as_str stt_parse
proof
  fix s x show "stt_parse s = Some x \<longleftrightarrow> s = stt_as_str x"
    by (cases x) (auto simp: stt_parse_def)
qed

record source_selection =
  sel_provider :: stt_provider
  sel_reason :: string

record compose_source =
  cs_provider :: stt_provider
  cs_available :: bool
  cs_text :: utext
  cs_primary :: bool

section \<open>The candidate\<close>

datatype compose_certainty = ClearCertainty | UncertainCertainty
datatype removal_kind = Filler | Backtrack
datatype layout_decision = NaturalLayout | MultiParagraph | Numbered | StructuredSections
datatype span_kind = Keep | Remove | Convert | Label | LayoutBreak

record removal_claim =
  rm_kind :: removal_kind
  rm_certainty :: compose_certainty
  rm_provider :: string
  rm_text :: utext

record conversion_claim =
  cv_id :: utext
  cv_provider :: string
  cv_text :: utext

record label_claim =
  lb_label :: utext
  lb_provider :: string
  lb_text :: utext

record derivation_span =
  ds_kind :: span_kind
  ds_provider :: "string option"
  ds_source :: utext
  ds_output :: utext
  ds_conversion :: "utext option"
  ds_label :: "utext option"

record structured_candidate =
  sc_schema_version :: string
  sc_fingerprint :: string
  sc_recon_provider :: string
  sc_recon_reason :: string
  sc_removals :: "removal_claim list"
  sc_conversions :: "conversion_claim list"
  sc_layout :: layout_decision
  sc_layout_certainty :: compose_certainty
  sc_labels :: "label_claim list"
  sc_derivation :: "derivation_span list"

record compose_input =
  ci_baseline :: utext
  ci_fingerprint :: string
  ci_sources :: "compose_source list"
  ci_selection :: source_selection
  ci_protected :: "utext list"
  ci_policy :: rendering_policy
  ci_cloud :: cloud_outcome
  ci_candidate :: "structured_candidate option"

section \<open>Reading a candidate\<close>

fun candidate_json_shape :: "json \<Rightarrow> nat \<times> nat" where
  "candidate_json_shape (JArray vs) =
     fold (\<lambda>(cd, cn) (d, n). (max d (sat_add_u64 cd 1), sat_add_u64 n cn)) (map candidate_json_shape vs) (1, 1)"
| "candidate_json_shape (JObject m) =
     fold (\<lambda>(cd, cn) (d, n). (max d (sat_add_u64 cd 1), sat_add_u64 n cn)) (map (\<lambda>kv. candidate_json_shape (snd kv)) m) (1, 1)"
| "candidate_json_shape _ = (1, 1)"

definition items_have_keys :: "(string \<times> json) list \<Rightarrow> string \<times> string list \<Rightarrow> bool" where
  "items_have_keys obj ke =
     (case Option.bind (map_of obj (fst ke)) as_array of
        None \<Rightarrow> False
      | Some arr \<Rightarrow> list_all (\<lambda>item. case as_object item of None \<Rightarrow> False | Some m \<Rightarrow> has_exact_keys m (snd ke)) arr)"

definition candidate_json_has_exact_keys :: "json \<Rightarrow> bool" where
  "candidate_json_has_exact_keys v =
     (case as_object v of
        None \<Rightarrow> False
      | Some obj \<Rightarrow>
          has_exact_keys obj [''schema_version'', ''base_fingerprint'', ''reconciliation'', ''removals'', ''conversions'', ''layout'',
              ''labels'', ''derivation'']
          \<and> (case Option.bind (map_of obj ''reconciliation'') as_object of
               None \<Rightarrow> False | Some recon \<Rightarrow> has_exact_keys recon [''selected_provider'', ''reason''])
          \<and> (case Option.bind (map_of obj ''layout'') as_object of
               None \<Rightarrow> False | Some layout \<Rightarrow> has_exact_keys layout [''decision'', ''certainty''])
          \<and> list_all (items_have_keys obj)
              [(''removals'', [''kind'', ''certainty'', ''source_provider'', ''source_span_text'']),
               (''conversions'', [''id'', ''source_provider'', ''source_span_text'']),
               (''labels'', [''label'', ''source_provider'', ''source_span_text'']),
               (''derivation'', [''kind'', ''source_provider'', ''source_text'', ''output_text'', ''conversion_id'', ''label''])])"

definition exceeds_field_bound :: "nat \<Rightarrow> bool" where
  "exceeds_field_bound len \<longleftrightarrow> MAX_COMPOSE_FIELD_UTF8_BYTES < len"

definition candidate_within_bounds :: "structured_candidate \<Rightarrow> bool" where
  "candidate_within_bounds cand =
     (if MAX_COMPOSE_REMOVALS < length (sc_removals cand) \<or> MAX_COMPOSE_CONVERSIONS < length (sc_conversions cand)
         \<or> MAX_COMPOSE_LABELS < length (sc_labels cand) \<or> MAX_COMPOSE_DERIVATION_SPANS < length (sc_derivation cand) then False
      else if exceeds_field_bound (length (sc_schema_version cand)) \<or> exceeds_field_bound (length (sc_fingerprint cand))
         \<or> exceeds_field_bound (length (sc_recon_provider cand)) \<or> exceeds_field_bound (length (sc_recon_reason cand)) then False
      else if list_ex (\<lambda>r. exceeds_field_bound (length (rm_provider r)) \<or> exceeds_field_bound (byte_len (rm_text r))) (sc_removals cand)
      then False
      else if list_ex (\<lambda>c. exceeds_field_bound (byte_len (cv_id c)) \<or> exceeds_field_bound (length (cv_provider c))
                \<or> exceeds_field_bound (byte_len (cv_text c))) (sc_conversions cand) then False
      else if list_ex (\<lambda>l. exceeds_field_bound (byte_len (lb_label l)) \<or> exceeds_field_bound (length (lb_provider l))
                \<or> exceeds_field_bound (byte_len (lb_text l))) (sc_labels cand) then False
      else if list_ex (\<lambda>s. exceeds_field_bound (byte_len (ds_source s)) \<or> exceeds_field_bound (byte_len (ds_output s))
                \<or> (case ds_provider s of Some p \<Rightarrow> exceeds_field_bound (length p) | None \<Rightarrow> False)
                \<or> (case ds_conversion s of Some c \<Rightarrow> exceeds_field_bound (byte_len c) | None \<Rightarrow> False)
                \<or> (case ds_label s of Some l \<Rightarrow> exceeds_field_bound (byte_len l) | None \<Rightarrow> False)) (sc_derivation cand) then False
      else True)"

definition parse_structured_candidate_json ::
  "('b list \<Rightarrow> json option) \<Rightarrow> (json \<Rightarrow> structured_candidate option) \<Rightarrow> 'b list \<Rightarrow> structured_candidate option" where
  "parse_structured_candidate_json from_slice from_value raw =
     (if MAX_COMPOSE_CANDIDATE_BYTES < length raw then None
      else Option.bind (from_slice raw) (\<lambda>v.
        case candidate_json_shape v of (depth, nodes) \<Rightarrow>
          if MAX_COMPOSE_JSON_DEPTH < depth \<or> MAX_COMPOSE_JSON_NODES < nodes then None
          else if \<not> candidate_json_has_exact_keys v then None
          else Option.bind (from_value v) (\<lambda>cand. if \<not> candidate_within_bounds cand then None else Some cand)))"

section \<open>White space and containment\<close>

definition normalize_char :: "nat \<Rightarrow> utext \<times> bool \<Rightarrow> utext \<times> bool" where
  "normalize_char c st =
     (case st of (out, prev_space) \<Rightarrow>
        if is_whitespace c then (if \<not> prev_space \<and> out \<noteq> [] then (out @ [32], True) else st)
        else (out @ [c], False))"

definition normalize_ws :: "utext \<Rightarrow> utext" where
  "normalize_ws t = utrim (fst (fold normalize_char t ([], False)))"

definition source_contains :: "unicode \<Rightarrow> utext \<Rightarrow> utext \<Rightarrow> bool" where
  "source_contains u source_text needle =
     (if needle = [] then False
      else if contains_text needle source_text then True
      else contains_text (to_lowercase u (normalize_ws needle)) (to_lowercase u (normalize_ws source_text)))"

section \<open>Lexical atoms\<close>

text \<open>\<open>[A-Za-z0-9]+(?:[_./=+-][A-Za-z0-9]+)*\<close>: an alphanumeric run, and more runs behind single joiners.\<close>

definition ascii_alnum :: "nat \<Rightarrow> bool" where
  "ascii_alnum c \<longleftrightarrow> ascii_upper c \<or> ascii_lower c \<or> ascii_digit c"

definition atom_joiner :: "nat \<Rightarrow> bool" where
  "atom_joiner c \<longleftrightarrow> c \<in> set (lit ''_./=+-'')"

function atom_tail :: "utext \<Rightarrow> utext" where
  "atom_tail t =
     (case t of
        s # c # r \<Rightarrow>
          (if atom_joiner s \<and> ascii_alnum c
           then s # c # takeWhile ascii_alnum r @ atom_tail (dropWhile ascii_alnum r) else [])
      | _ \<Rightarrow> [])"
  by pat_completeness auto
termination
  by (relation "measure length") (auto simp: length_dropWhile_le le_imp_less_Suc less_SucI)

declare atom_tail.simps [simp del]

definition atom_at :: "nat \<Rightarrow> utext \<Rightarrow> utext" where
  "atom_at c r = c # takeWhile ascii_alnum r @ atom_tail (dropWhile ascii_alnum r)"

fun find_atoms :: "nat \<Rightarrow> nat \<Rightarrow> utext \<Rightarrow> token list" where
  "find_atoms i skip [] = []"
| "find_atoms i skip (c # r) =
     (if 0 < skip then find_atoms (i + 1) (skip - 1) r
      else if ascii_alnum c
      then (i, i + length (atom_at c r), atom_at c r) # find_atoms (i + 1) (length (atom_at c r) - 1) r
      else find_atoms (i + 1) 0 r)"

definition atom_matches :: "utext \<Rightarrow> token list" where
  "atom_matches t = find_atoms 0 0 t"

definition lexical_atom_sequence :: "unicode \<Rightarrow> utext \<Rightarrow> utext list" where
  "lexical_atom_sequence u t = map (\<lambda>m. to_lowercase u (token_text m)) (atom_matches t)"

definition lexical_atoms :: "unicode \<Rightarrow> utext \<Rightarrow> utext set" where
  "lexical_atoms u t = set (lexical_atom_sequence u t)"

section \<open>Headers and paragraphs\<close>

text \<open>\<open>^[ \t]*([A-Za-z][A-Za-z0-9 ]*):(.*)$\<close> on one line: the header and what follows its colon.\<close>

definition header_captures :: "utext \<Rightarrow> (utext \<times> utext) option" where
  "header_captures line =
     (case dropWhile (\<lambda>c. c = 32 \<or> c = 9) line of
        [] \<Rightarrow> None
      | c # r \<Rightarrow>
          (if \<not> (ascii_upper c \<or> ascii_lower c) then None
           else case dropWhile (\<lambda>d. ascii_alnum d \<or> d = 32) r of
                  [] \<Rightarrow> None
                | d # body \<Rightarrow> (if d = 58 then Some (c # takeWhile (\<lambda>d. ascii_alnum d \<or> d = 32) r, body) else None)))"

fun gate_title_from :: "unicode \<Rightarrow> bool \<Rightarrow> bool \<Rightarrow> utext \<Rightarrow> bool" where
  "gate_title_from u word_start saw_cased [] = saw_cased"
| "gate_title_from u word_start saw_cased (c # t) =
     (if \<not> u_alphabetic u c then gate_title_from u True saw_cased t
      else if word_start then (if \<not> u_uppercase u c then False else gate_title_from u False True t)
      else if u_uppercase u c then False
      else gate_title_from u word_start saw_cased t)"

definition gate_is_title_case :: "unicode \<Rightarrow> utext \<Rightarrow> bool" where
  "gate_is_title_case u t = (if t = [] then False else list_ex (u_alphabetic u) t \<and> gate_title_from u True False t)"

definition line_header :: "unicode \<Rightarrow> utext \<Rightarrow> utext option" where
  "line_header u line =
     (case header_captures line of
        None \<Rightarrow> None
      | Some (captured, body) \<Rightarrow>
          (let raw = utrim captured
           in if to_lowercase u raw \<in> set (map (to_lowercase u) closed_labels) \<or> utrim body = [] \<or> gate_is_title_case u raw
              then Some raw else None))"

definition structural_headers :: "unicode \<Rightarrow> utext \<Rightarrow> utext list" where
  "structural_headers u t = List.map_filter (line_header u) (text_lines t)"

fun unify_newlines :: "utext \<Rightarrow> utext" where
  "unify_newlines [] = []"
| "unify_newlines (c # t) =
     (if c = 13 then 10 # (case t of d # t' \<Rightarrow> (if d = 10 then unify_newlines t' else unify_newlines t) | [] \<Rightarrow> [])
      else c # unify_newlines t)"

fun has_blank_line :: "utext \<Rightarrow> bool" where
  "has_blank_line [] = False"
| "has_blank_line (c # t) =
     (c = 10 \<and> (case dropWhile (\<lambda>d. d = 32 \<or> d = 9) t of d # _ \<Rightarrow> d = 10 | [] \<Rightarrow> False) \<or> has_blank_line t)"

definition is_multiparagraph_text :: "utext \<Rightarrow> bool" where
  "is_multiparagraph_text t = (if t = [] then False else has_blank_line (unify_newlines t))"

text \<open>\<open>[ \t]+\<close> replaced by one blank.\<close>

fun collapse_blanks :: "bool \<Rightarrow> utext \<Rightarrow> utext" where
  "collapse_blanks in_run [] = []"
| "collapse_blanks in_run (c # t) =
     (if c = 32 \<or> c = 9 then (if in_run then collapse_blanks True t else 32 # collapse_blanks True t)
      else c # collapse_blanks False t)"

definition natural_layout_render :: "structured_candidate \<Rightarrow> utext" where
  "natural_layout_render cand =
     utrim (collapse_blanks False
       (concat (map (\<lambda>s. if ds_kind s = LayoutBreak then [32] else ds_output s) (sc_derivation cand))))"

section \<open>Conversions\<close>

text \<open>\<open>SPOKEN_CUE_RE\<close> is \<open>(?i)^spoken\s+(.+?)\s+cue$\<close>, \<open>QUOTE_RE\<close> is \<open>(?is)quote\s+(.+?)\s+unquote\<close>.\<close>

record gate_regexes =
  SPOKEN_CUE_RE :: "utext \<Rightarrow> utext option"
  QUOTE_RE :: "utext \<Rightarrow> utext option"

text \<open>\<open>str::split_once\<close> on one character.\<close>

definition split_once :: "nat \<Rightarrow> utext \<Rightarrow> (utext \<times> utext) option" where
  "split_once d t =
     (if d \<in> set t then Some (takeWhile (\<lambda>c. c \<noteq> d) t, drop 1 (dropWhile (\<lambda>c. c \<noteq> d) t)) else None)"

definition conversion_rhs :: "unicode \<Rightarrow> utext \<Rightarrow> utext" where
  "conversion_rhs u conversion_id =
     (case split_once 0x2192 conversion_id of
        None \<Rightarrow> []
      | Some (_, rhs_raw) \<Rightarrow>
          (let trimmed = utrim rhs_raw;
               rhs = (if ends_with (lit '' label'') (to_lowercase u trimmed) then take (length trimmed - 6) trimmed else trimmed)
           in if rhs = [92, 110] then [10]
              else if rhs = [92, 110, 92, 110] then [10, 10]
              else if ascii_lower_text rhs = lit ''numbered_lines'' then []
              else rhs))"

definition conversion_cue :: "utext \<Rightarrow> utext" where
  "conversion_cue conversion_id =
     (case split_once 0x2192 conversion_id of Some (cue, _) \<Rightarrow> utrim cue | None \<Rightarrow> conversion_id)"

definition cue_needles :: "gate_regexes \<Rightarrow> utext \<Rightarrow> utext list" where
  "cue_needles rx cue =
     (if cue = [] then []
      else case SPOKEN_CUE_RE rx cue of
             Some captured \<Rightarrow> [utrim captured]
           | None \<Rightarrow>
               (if 0x2026 \<in> set cue
                then filter (\<lambda>p. p \<noteq> []) (map utrim (split_on (\<lambda>c. c = 0x2026) cue))
                else [cue]))"

definition cue_covered_by :: "unicode \<Rightarrow> gate_regexes \<Rightarrow> utext \<Rightarrow> utext \<Rightarrow> bool" where
  "cue_covered_by u rx cue t =
     (let needles = cue_needles rx cue in needles \<noteq> [] \<and> list_all (source_contains u t) needles)"

definition keep_organize_only :: "unicode \<Rightarrow> utext \<Rightarrow> utext \<Rightarrow> bool" where
  "keep_organize_only u source_text output_text \<longleftrightarrow>
     lexical_atom_sequence u source_text = lexical_atom_sequence u output_text"

definition convert_output_matches :: "unicode \<Rightarrow> gate_regexes \<Rightarrow> utext \<Rightarrow> utext \<Rightarrow> utext \<Rightarrow> bool" where
  "convert_output_matches u rx conversion_id source_text output_text =
     (let rhs = conversion_rhs u conversion_id;
          rhs_template = (case split_once 0x2192 conversion_id of Some (_, r) \<Rightarrow> utrim r | None \<Rightarrow> [])
      in if 0x2026 \<in> set rhs_template then
           (case QUOTE_RE rx source_text of
              None \<Rightarrow> False
            | Some captured \<Rightarrow>
                (let interior = normalize_ws captured;
                     expected = concat (map (\<lambda>c. if c = 0x2026 then interior else [c]) rhs_template)
                 in normalize_ws output_text = normalize_ws expected))
         else if rhs = [10] \<or> rhs = [10, 10] then output_text = rhs
         else if rhs = [] then output_text = []
         else utrim output_text = rhs \<or> utrim_end output_text = rhs \<or> utrim_start output_text = rhs)"

section \<open>Finding and claiming a span\<close>

definition chars_eq_ignore_case :: "unicode \<Rightarrow> nat \<Rightarrow> nat \<Rightarrow> bool" where
  "chars_eq_ignore_case u a b \<longleftrightarrow>
     a = b \<or> ascii_lower_text [a] = ascii_lower_text [b] \<or> u_to_lower u a = u_to_lower u b"

definition window_starts :: "utext \<Rightarrow> utext \<Rightarrow> nat list" where
  "window_starts haystack needle = [0..<length haystack + 1 - length needle]"

definition literal_spans :: "unicode \<Rightarrow> utext \<Rightarrow> utext \<Rightarrow> (nat \<times> nat) list" where
  "literal_spans u haystack needle =
     (let exact = filter (\<lambda>i. take (length needle) (drop i haystack) = needle) (window_starts haystack needle);
          folded = filter (\<lambda>i. list_all2 (chars_eq_ignore_case u) needle (take (length needle) (drop i haystack)))
                     (window_starts haystack needle)
      in remdups_adj (sort (map (\<lambda>i. (i, i + length needle)) (exact @ folded))))"

definition atom_spans :: "unicode \<Rightarrow> utext \<Rightarrow> utext \<Rightarrow> (nat \<times> nat) list" where
  "atom_spans u haystack needle =
     (let norm_n = to_lowercase u (normalize_ws needle); norm_h = to_lowercase u (normalize_ws haystack);
          atoms = lexical_atom_sequence u needle; h_atoms = atom_matches haystack;
          seq = map (\<lambda>m. to_lowercase u (token_text m)) h_atoms
      in if norm_n = [] \<or> \<not> contains_text norm_n norm_h then []
         else if atoms = [] then []
         else if length seq < length atoms then []
         else map (\<lambda>i. (fst (h_atoms ! i), fst (snd (h_atoms ! (i + length atoms - 1)))))
                (filter (\<lambda>i. take (length atoms) (drop i seq) = atoms) [0..<length seq - length atoms + 1]))"

definition find_literal_spans :: "unicode \<Rightarrow> utext \<Rightarrow> utext \<Rightarrow> (nat \<times> nat) list" where
  "find_literal_spans u haystack needle =
     (if needle = [] \<or> haystack = [] then []
      else let out = literal_spans u haystack needle in if out \<noteq> [] then out else atom_spans u haystack needle)"

type_synonym source_map = "(string \<times> utext) list"
type_synonym claims = "string \<Rightarrow> (nat \<times> nat) list"

datatype span_placement = Placed nat nat | Overlapped | OutOfOrder

definition place_span ::
  "unicode \<Rightarrow> source_map \<Rightarrow> claims \<Rightarrow> (string \<Rightarrow> int) \<Rightarrow> string \<Rightarrow> utext \<Rightarrow> span_placement" where
  "place_span u sources claimed prev_start provider source_text =
     (case map_of sources provider of
        None \<Rightarrow> Overlapped
      | Some hay \<Rightarrow>
          (if source_text = [] then Overlapped
           else case find (\<lambda>cand. \<not> list_ex (ranges_overlap cand) (claimed provider))
                       (sort_key fst (find_literal_spans u hay source_text)) of
                  None \<Rightarrow> Overlapped
                | Some (start, stop) \<Rightarrow> (if int start < prev_start provider then OutOfOrder else Placed start stop)))"

definition uncovered :: "utext \<Rightarrow> (nat \<times> nat) list \<Rightarrow> nat \<Rightarrow> bool" where
  "uncovered t ranges i \<longleftrightarrow> \<not> is_whitespace (t ! i) \<and> \<not> list_ex (\<lambda>(start, stop). start \<le> i \<and> i < stop) ranges"

definition coverage_failure :: "source_map \<Rightarrow> claims \<Rightarrow> string \<Rightarrow> compose_error_code list option" where
  "coverage_failure sources claimed selected =
     (if list_ex (\<lambda>(provider, t). (provider = selected \<or> claimed provider \<noteq> [])
                   \<and> list_ex (uncovered t (claimed provider)) [0..<length t]) sources
      then Some [E_UNVERIFIABLE] else None)"

definition span_preserves_protected_tokens :: "derivation_span \<Rightarrow> utext list \<Rightarrow> bool" where
  "span_preserves_protected_tokens s protected_tokens \<longleftrightarrow>
     list_all (\<lambda>token. \<not> contains_text token (ds_source s) \<or> contains_text token (ds_output s))
       (filter (\<lambda>token. token \<noteq> []) protected_tokens)"

definition licensed_atoms :: "unicode \<Rightarrow> source_map \<Rightarrow> utext list \<Rightarrow> utext list \<Rightarrow> utext list" where
  "licensed_atoms u sources conversions labels =
     concat (map (\<lambda>(_, t). lexical_atom_sequence u t) sources)
     @ concat (map (\<lambda>cid. (let rhs = conversion_rhs u cid
                            in if rhs \<noteq> [] \<and> rhs \<noteq> [10] \<and> rhs \<noteq> [10, 10] then lexical_atom_sequence u rhs else [])
                           @ lexical_atom_sequence u (conversion_cue cid)) conversions)
     @ concat (map (lexical_atom_sequence u) labels)"

end
