(* ===== verification/Compose_Gate.thy ===== *)
theory Compose_Gate
  imports Compose_Text
begin

text \<open>
  The compose gate, \<open>compose_impl\<close> of \<open>crates/voisu-core/src/compose_gate.rs\<close>: the only way text of the model
  becomes the Transcript. The candidate's spans are adjudicated one by one, and the composition is
  accepted only behind every gate; in every other case the local baseline is rendered.

  An early return with the baseline is the left value of a step, its trigger and codes. The \<open>expect\<close> on
  the first rejection is the result \<open>None\<close>; the maps of claims have the keys of \<open>source_map\<close>, where every
  provider was looked up before it is used.
\<close>

section \<open>Before the spans\<close>

type_synonym reject = "fallback_trigger \<times> compose_error_code list"

definition compose_result ::
  "composition_decision \<Rightarrow> utext \<Rightarrow> fallback_trigger option \<Rightarrow> compose_error_code list \<Rightarrow> compose_outcome" where
  "compose_result decision rendered trigger codes =
     \<lparr>co_decision = decision, co_rendered = rendered, co_trigger = trigger, co_codes = codes, co_delivery = dpr_default,
      co_summary = None\<rparr>"

definition baseline_result :: "utext \<Rightarrow> fallback_trigger option \<Rightarrow> compose_error_code list \<Rightarrow> compose_outcome" where
  "baseline_result baseline trigger codes = compose_result FallbackBaseline baseline trigger codes"

definition hard_outcome_map :: "cloud_outcome \<Rightarrow> (fallback_trigger \<times> compose_error_code) option" where
  "hard_outcome_map cloud =
     (case cloud of
        SchemaFailure \<Rightarrow> Some (ResponseSchemaFailure, E_SCHEMA)
      | ProviderFailure \<Rightarrow> Some (ProviderFailureTrigger, E_PROVIDER)
      | DeadlineExceeded \<Rightarrow> Some (DeadlineExceededTrigger, E_DEADLINE)
      | _ \<Rightarrow> None)"

definition is_select_reason :: "string \<Rightarrow> bool" where
  "is_select_reason value \<longleftrightarrow> value \<in> set CLOSED_SOURCE_SELECTION_REASONS"

definition unknown_conversion :: "structured_candidate \<Rightarrow> bool" where
  "unknown_conversion cand \<longleftrightarrow> list_ex (\<lambda>c. cv_id c \<notin> set CLOSED_CONVERSIONS) (sc_conversions cand)"

definition unknown_label :: "structured_candidate \<Rightarrow> bool" where
  "unknown_label cand \<longleftrightarrow> list_ex (\<lambda>l. lb_label l \<notin> set closed_labels) (sc_labels cand)"

definition malformed_candidate :: "structured_candidate \<Rightarrow> bool" where
  "malformed_candidate cand \<longleftrightarrow>
     sc_schema_version cand \<noteq> ''1'' \<or> \<not> is_text_sha256_fingerprint (sc_fingerprint cand)
     \<or> stt_parse (sc_recon_provider cand) = None \<or> \<not> is_select_reason (sc_recon_reason cand)
     \<or> list_ex (\<lambda>c. stt_parse (cv_provider c) = None \<or> cv_text c = []) (sc_conversions cand)
     \<or> list_ex (\<lambda>l. stt_parse (lb_provider l) = None \<or> lb_text l = []) (sc_labels cand)
     \<or> list_ex (\<lambda>r. stt_parse (rm_provider r) = None \<or> rm_text r = []) (sc_removals cand)
     \<or> sc_derivation cand = []
     \<or> list_ex (\<lambda>s. (case ds_provider s of Some p \<Rightarrow> stt_parse p = None | None \<Rightarrow> False)
           \<or> (case ds_label s of Some l \<Rightarrow> l \<notin> set closed_labels | None \<Rightarrow> False)) (sc_derivation cand)"

definition validate_candidate_shape :: "structured_candidate \<Rightarrow> compose_error_code list option" where
  "validate_candidate_shape cand =
     (if \<not> unknown_conversion cand \<and> \<not> unknown_label cand \<and> \<not> malformed_candidate cand then None
      else if unknown_label cand then Some [E_UNKNOWN_LABEL, E_MALFORMED]
      else if unknown_conversion cand then Some [E_UNKNOWN_CONVERSION, E_MALFORMED]
      else Some [E_MALFORMED])"

definition provider_text_map :: "compose_source list \<Rightarrow> source_map" where
  "provider_text_map sources =
     fold (\<lambda>s m. if cs_available s
             then (stt_as_str (cs_provider s), cs_text s) # filter (\<lambda>(k, _). k \<noteq> stt_as_str (cs_provider s)) m else m)
       sources []"

definition selected_source_text :: "compose_input \<Rightarrow> utext option" where
  "selected_source_text ci =
     map_option cs_text (find (\<lambda>s. cs_provider s = sel_provider (ci_selection ci) \<and> cs_available s) (ci_sources ci))"

definition source_of :: "source_map \<Rightarrow> string \<Rightarrow> utext" where
  "source_of sources provider = (case map_of sources provider of Some t \<Rightarrow> t | None \<Rightarrow> [])"

text \<open>Freshness, and the reconciliation against the host's own selection.\<close>

definition check_selection :: "(utext \<Rightarrow> nat list) \<Rightarrow> compose_input \<Rightarrow> structured_candidate \<Rightarrow> reject option" where
  "check_selection digest ci cand =
     (let available = map (stt_as_str \<circ> cs_provider) (filter cs_available (ci_sources ci));
          selected = stt_as_str (sel_provider (ci_selection ci));
          refused = Some (UnsafeSemantics, [E_RECONCILE, E_UNSAFE_SEMANTICS])
      in if sc_fingerprint cand \<noteq> ci_fingerprint ci then Some (UnverifiableSourceDerivation, [E_STALE])
         else if (case selected_source_text ci of Some sel \<Rightarrow> text_sha256_fingerprint digest sel \<noteq> ci_fingerprint ci | None \<Rightarrow> False)
         then Some (UnverifiableSourceDerivation, [E_STALE])
         else if sc_recon_provider cand \<noteq> selected then refused
         else if length available = 1 then
           (if sc_recon_provider cand \<noteq> available ! 0 then refused
            else if (sel_reason (ci_selection ci) = ''only_available'' \<or> sc_recon_reason cand = ''only_available'')
                    \<and> (sc_recon_provider cand \<noteq> available ! 0 \<or> sc_recon_reason cand \<noteq> ''only_available'') then refused
            else None)
         else None)"

definition conversion_unverified :: "unicode \<Rightarrow> gate_regexes \<Rightarrow> source_map \<Rightarrow> conversion_claim \<Rightarrow> bool" where
  "conversion_unverified u rx sources c =
     (let t = source_of sources (cv_provider c); cue = conversion_cue (cv_id c)
      in if \<not> source_contains u t (cv_text c) then True
         else if cue \<noteq> [] \<and> \<not> cue_covered_by u rx cue (cv_text c) then True
         else cue \<noteq> [] \<and> \<not> cue_covered_by u rx cue t)"

definition claims_unverified :: "unicode \<Rightarrow> gate_regexes \<Rightarrow> source_map \<Rightarrow> structured_candidate \<Rightarrow> bool" where
  "claims_unverified u rx sources cand \<longleftrightarrow>
     list_ex (\<lambda>r. \<not> source_contains u (source_of sources (rm_provider r)) (rm_text r)) (sc_removals cand)
     \<or> list_ex (conversion_unverified u rx sources) (sc_conversions cand)
     \<or> list_ex (\<lambda>l. \<not> source_contains u (source_of sources (lb_provider l)) (lb_text l)) (sc_labels cand)"

section \<open>Per-span adjudication\<close>

record span_state =
  sp_parts :: "utext list"
  sp_atoms :: "utext list"
  sp_discarded :: "bool list"
  sp_claimed :: claims
  sp_prev :: "string \<Rightarrow> int"
  sp_applied :: nat
  sp_rejected :: "(nat \<times> compose_error_code) list"
  sp_first :: "reject option"

definition span_start :: span_state where
  "span_start = \<lparr>sp_parts = [], sp_atoms = [], sp_discarded = [], sp_claimed = (\<lambda>_. []), sp_prev = (\<lambda>_. - 1), sp_applied = 0,
     sp_rejected = [], sp_first = None\<rparr>"

definition note_rejection :: "nat \<Rightarrow> reject \<Rightarrow> compose_error_code \<Rightarrow> span_state \<Rightarrow> span_state" where
  "note_rejection index rej reason st =
     st\<lparr>sp_rejected := sp_rejected st @ [(index, reason)],
        sp_first := (case sp_first st of Some r \<Rightarrow> Some r | None \<Rightarrow> Some rej)\<rparr>"

text \<open>What a span leaves: what it renders, what it proposes for the atom gate, whether it is discarded.\<close>

definition push_span :: "utext \<Rightarrow> utext list \<Rightarrow> bool \<Rightarrow> span_state \<Rightarrow> span_state" where
  "push_span part atoms dropped st =
     st\<lparr>sp_parts := sp_parts st @ [part], sp_atoms := sp_atoms st @ atoms, sp_discarded := sp_discarded st @ [dropped]\<rparr>"

definition claim_range :: "string \<Rightarrow> nat \<Rightarrow> nat \<Rightarrow> span_state \<Rightarrow> span_state" where
  "claim_range provider start stop st =
     st\<lparr>sp_claimed := (sp_claimed st)(provider := sp_claimed st provider @ [(start, stop)]),
        sp_prev := (sp_prev st)(provider := int start)\<rparr>"

definition clear_natural :: "structured_candidate \<Rightarrow> bool" where
  "clear_natural cand \<longleftrightarrow> sc_layout cand = NaturalLayout \<and> sc_layout_certainty cand = ClearCertainty"

definition layout_break_span :: "structured_candidate \<Rightarrow> nat \<Rightarrow> derivation_span \<Rightarrow> span_state \<Rightarrow> reject + span_state" where
  "layout_break_span cand index s st =
     (let out = ds_output s
      in if out \<notin> {[10], [10, 10], [32], [9], []} \<and> \<not> list_all (\<lambda>c. c \<in> {10, 13, 9, 32}) out
         then Inr (push_span [] [] True (note_rejection index (UnverifiableSourceDerivation, [E_UNVERIFIABLE]) E_UNVERIFIABLE st))
         else if clear_natural cand \<and> is_multiparagraph_text out then Inl (UnsafeSemantics, [E_UNSAFE_SEMANTICS])
         else Inr ((push_span out [out] False st)\<lparr>sp_applied := sp_applied st + 1\<rparr>))"

definition remove_reject :: "unicode \<Rightarrow> structured_candidate \<Rightarrow> string \<Rightarrow> derivation_span \<Rightarrow> reject option" where
  "remove_reject u cand provider s =
     (if ds_output s \<noteq> [] then Some (ResponseSchemaFailure, [E_MALFORMED])
      else if (provider, to_lowercase u (normalize_ws (ds_source s)))
                \<notin> set (map (\<lambda>r. (rm_provider r, to_lowercase u (normalize_ws (rm_text r)))) (sc_removals cand))
      then Some (UnverifiableSourceDerivation, [E_UNVERIFIABLE])
      else None)"

definition convert_reject :: "unicode \<Rightarrow> gate_regexes \<Rightarrow> structured_candidate \<Rightarrow> derivation_span \<Rightarrow> reject option" where
  "convert_reject u rx cand s =
     (case ds_conversion s of
        None \<Rightarrow> Some (ResponseSchemaFailure, [E_UNKNOWN_CONVERSION])
      | Some cid \<Rightarrow>
          (if cid \<notin> set CLOSED_CONVERSIONS then Some (ResponseSchemaFailure, [E_UNKNOWN_CONVERSION])
           else if cid \<notin> set (map cv_id (sc_conversions cand)) then Some (UnverifiableSourceDerivation, [E_UNVERIFIABLE])
           else if conversion_cue cid \<noteq> [] \<and> \<not> cue_covered_by u rx (conversion_cue cid) (ds_source s)
           then Some (UnverifiableSourceDerivation, [E_UNVERIFIABLE])
           else if clear_natural cand \<and> is_multiparagraph_text (conversion_rhs u cid) then Some (UnsafeSemantics, [E_UNSAFE_SEMANTICS])
           else None))"

definition label_reject :: "structured_candidate \<Rightarrow> derivation_span \<Rightarrow> reject option" where
  "label_reject cand s =
     (let lab = (case ds_label s of Some l \<Rightarrow> l | None \<Rightarrow> []); out = ds_output s
      in if lab \<notin> set closed_labels then Some (InvalidFixedLabel, [E_INVALID_LABEL])
         else if lab \<notin> set (map lb_label (sc_labels cand)) then Some (InvalidFixedLabel, [E_INVALID_LABEL])
         else if out \<noteq> lab @ [58, 10] \<and> out \<noteq> lab @ [58] then Some (InvalidFixedLabel, [E_INVALID_LABEL])
         else None)"

definition contract_reject ::
  "unicode \<Rightarrow> gate_regexes \<Rightarrow> structured_candidate \<Rightarrow> string \<Rightarrow> derivation_span \<Rightarrow> reject option" where
  "contract_reject u rx cand provider s =
     (case ds_kind s of
        Remove \<Rightarrow> remove_reject u cand provider s
      | Convert \<Rightarrow> convert_reject u rx cand s
      | Label \<Rightarrow> label_reject cand s
      | _ \<Rightarrow> None)"

definition place_checked :: "unicode \<Rightarrow> source_map \<Rightarrow> span_state \<Rightarrow> string \<Rightarrow> derivation_span \<Rightarrow> span_placement" where
  "place_checked u sources st provider s = place_span u sources (sp_claimed st) (sp_prev st) provider (ds_source s)"

definition consuming_span ::
  "unicode \<Rightarrow> gate_regexes \<Rightarrow> compose_input \<Rightarrow> structured_candidate \<Rightarrow> source_map \<Rightarrow> nat \<Rightarrow> derivation_span
     \<Rightarrow> span_state \<Rightarrow> reject + span_state" where
  "consuming_span u rx ci cand sources index s st =
     (let provider = (case ds_provider s of Some p \<Rightarrow> p | None \<Rightarrow> []); unsafe = (UnsafeSemantics, [E_PROTECTED, E_UNSAFE_SEMANTICS])
      in if map_of sources provider = None \<or> \<not> source_contains u (source_of sources provider) (ds_source s)
         then Inr (push_span [] [] True (note_rejection index (UnverifiableSourceDerivation, [E_UNVERIFIABLE]) E_UNVERIFIABLE st))
         else case contract_reject u rx cand provider s of
                Some rej \<Rightarrow> Inl rej
              | None \<Rightarrow>
                  if \<not> span_preserves_protected_tokens s (ci_protected ci)
                  then (case place_checked u sources st provider s of
                          Placed start stop \<Rightarrow>
                            Inr (push_span (ds_source s) [] True (claim_range provider start stop (note_rejection index unsafe E_PROTECTED st)))
                        | _ \<Rightarrow> Inr (push_span [] [] True (note_rejection index unsafe E_PROTECTED st)))
                  else (case place_checked u sources st provider s of
                          OutOfOrder \<Rightarrow> Inl (UnverifiableSourceDerivation, [E_UNVERIFIABLE])
                        | Overlapped \<Rightarrow>
                            Inr (push_span [] [ds_output s] False
                              (note_rejection index (UnverifiableSourceDerivation, [E_OVERLAP]) E_OVERLAP st))
                        | Placed start stop \<Rightarrow>
                            Inr ((push_span (ds_output s) [ds_output s] False (claim_range provider start stop st))
                              \<lparr>sp_applied := sp_applied st + 1\<rparr>)))"

definition adjudicate_span ::
  "unicode \<Rightarrow> gate_regexes \<Rightarrow> compose_input \<Rightarrow> structured_candidate \<Rightarrow> source_map \<Rightarrow> nat \<Rightarrow> derivation_span
     \<Rightarrow> span_state \<Rightarrow> reject + span_state" where
  "adjudicate_span u rx ci cand sources index s st =
     (if ds_kind s = LayoutBreak then layout_break_span cand index s st else consuming_span u rx ci cand sources index s st)"

fun adjudicate_from ::
  "unicode \<Rightarrow> gate_regexes \<Rightarrow> compose_input \<Rightarrow> structured_candidate \<Rightarrow> source_map \<Rightarrow> nat \<Rightarrow> derivation_span list
     \<Rightarrow> span_state \<Rightarrow> reject + span_state" where
  "adjudicate_from u rx ci cand sources index [] st = Inr st"
| "adjudicate_from u rx ci cand sources index (s # ss) st =
     bind_result (adjudicate_span u rx ci cand sources index s st) (adjudicate_from u rx ci cand sources (index + 1) ss)"

section \<open>After the spans\<close>

definition protected_missing :: "utext list \<Rightarrow> utext \<Rightarrow> bool" where
  "protected_missing tokens rendered \<longleftrightarrow> list_ex (\<lambda>token. token \<noteq> [] \<and> \<not> contains_text token rendered) tokens"

definition uncertain_backtrack :: "structured_candidate \<Rightarrow> bool" where
  "uncertain_backtrack cand \<longleftrightarrow>
     list_ex (\<lambda>r. rm_kind r = Backtrack \<and> rm_certainty r = UncertainCertainty) (sc_removals cand)"

definition uncertain_layout :: "structured_candidate \<Rightarrow> bool" where
  "uncertain_layout cand \<longleftrightarrow> sc_layout_certainty cand = UncertainCertainty"

definition render_reject ::
  "unicode \<Rightarrow> compose_input \<Rightarrow> structured_candidate \<Rightarrow> source_map \<Rightarrow> span_state \<Rightarrow> utext \<Rightarrow> reject option" where
  "render_reject u ci cand sources st composed =
     (let headers = structural_headers u composed;
          allowed = licensed_atoms u sources (map cv_id (sc_conversions cand)) (map lb_label (sc_labels cand))
      in if clear_natural cand \<and> is_multiparagraph_text composed then Some (UnsafeSemantics, [E_UNSAFE_SEMANTICS])
         else if list_ex (\<lambda>h. h \<notin> set closed_labels) headers then Some (InvalidFixedLabel, [E_INVALID_LABEL])
         else if ci_policy ci = Natural \<and> headers \<noteq> [] then Some (InvalidFixedLabel, [E_INVALID_LABEL])
         else if \<not> uncertain_backtrack cand \<and> \<not> uncertain_layout cand \<and> protected_missing (ci_protected ci) composed
         then Some (UnsafeSemantics, [E_PROTECTED, E_UNSAFE_SEMANTICS])
         else if list_ex (\<lambda>a. a \<notin> set allowed) (lexical_atom_sequence u (concat (sp_atoms st)))
         then Some (UnsafeSemantics, [E_INVENTED_CONTENT, E_UNSAFE_SEMANTICS])
         else None)"

definition output_mismatch :: "unicode \<Rightarrow> gate_regexes \<Rightarrow> derivation_span \<times> bool \<Rightarrow> bool" where
  "output_mismatch u rx sd =
     (case sd of (s, dropped) \<Rightarrow>
        if dropped then False
        else if ds_kind s = Keep \<and> \<not> keep_organize_only u (ds_source s) (ds_output s) then True
        else if ds_kind s = Convert
        then (case ds_conversion s of None \<Rightarrow> True | Some cid \<Rightarrow> \<not> convert_output_matches u rx cid (ds_source s) (ds_output s))
        else False)"

text \<open>Soft salvage: under an uncertain claim the host's words are kept.\<close>

definition soft_salvage :: "compose_input \<Rightarrow> utext \<Rightarrow> composition_decision \<Rightarrow> fallback_trigger \<Rightarrow> compose_error_code \<Rightarrow> compose_outcome" where
  "soft_salvage ci rendered decision trigger code =
     (if protected_missing (ci_protected ci) rendered
      then baseline_result (ci_baseline ci) (Some UnsafeSemantics) [E_PROTECTED, E_UNSAFE_SEMANTICS]
      else compose_result decision rendered (Some trigger) [code])"

definition finish_compose ::
  "unicode \<Rightarrow> gate_regexes \<Rightarrow> compose_input \<Rightarrow> structured_candidate \<Rightarrow> source_map \<Rightarrow> span_state \<Rightarrow> compose_outcome" where
  "finish_compose u rx ci cand sources st =
     (let baseline = ci_baseline ci; composed = concat (sp_parts st);
          summary = \<lparr>ss_total = length (sc_derivation cand), ss_applied = sp_applied st, ss_rejected = sp_rejected st\<rparr>
      in case render_reject u ci cand sources st composed of
           Some (trigger, codes) \<Rightarrow> baseline_result baseline (Some trigger) codes
         | None \<Rightarrow>
             if uncertain_backtrack cand then soft_salvage ci baseline AcceptPreserveWords UncertainBacktracking E_UNCERTAIN_BACKTRACK
             else if uncertain_layout cand
             then soft_salvage ci (if baseline \<noteq> [] then baseline else natural_layout_render cand) AcceptNaturalLayout UncertainLayout
                    E_UNCERTAIN_LAYOUT
             else if protected_missing (ci_protected ci) composed
             then baseline_result baseline (Some UnsafeSemantics) [E_PROTECTED, E_UNSAFE_SEMANTICS]
             else case coverage_failure sources (sp_claimed st) (stt_as_str (sel_provider (ci_selection ci))) of
                    Some codes \<Rightarrow> baseline_result baseline (Some UnverifiableSourceDerivation) codes
                  | None \<Rightarrow>
                      if list_ex (output_mismatch u rx) (zip (sc_derivation cand) (sp_discarded st))
                      then baseline_result baseline (Some UnsafeSemantics) [E_INVENTED_CONTENT, E_UNSAFE_SEMANTICS]
                      else (compose_result Accept composed None [])\<lparr>co_summary := Some summary\<rparr>)"

definition compose_candidate ::
  "unicode \<Rightarrow> gate_regexes \<Rightarrow> (utext \<Rightarrow> nat list) \<Rightarrow> compose_input \<Rightarrow> structured_candidate \<Rightarrow> compose_outcome option" where
  "compose_candidate u rx digest ci cand =
     (let baseline = ci_baseline ci; sources = provider_text_map (ci_sources ci)
      in if \<not> candidate_within_bounds cand
         then Some (baseline_result baseline (Some ResponseSchemaFailure) [E_SCHEMA, E_MALFORMED])
         else case validate_candidate_shape cand of
                Some codes \<Rightarrow> Some (baseline_result baseline (Some ResponseSchemaFailure) codes)
              | None \<Rightarrow>
                  case check_selection digest ci cand of
                    Some (trigger, codes) \<Rightarrow> Some (baseline_result baseline (Some trigger) codes)
                  | None \<Rightarrow>
                      if claims_unverified u rx sources cand
                      then Some (baseline_result baseline (Some UnverifiableSourceDerivation) [E_UNVERIFIABLE])
                      else case adjudicate_from u rx ci cand sources 0 (sc_derivation cand) span_start of
                             Inl (trigger, codes) \<Rightarrow> Some (baseline_result baseline (Some trigger) codes)
                           | Inr st \<Rightarrow>
                               if sp_applied st = 0
                               then map_option (\<lambda>(trigger, codes). baseline_result baseline (Some trigger) codes) (sp_first st)
                               else Some (finish_compose u rx ci cand sources st))"

definition compose_structured_candidate ::
  "unicode \<Rightarrow> gate_regexes \<Rightarrow> (utext \<Rightarrow> nat list) \<Rightarrow> compose_input \<Rightarrow> compose_outcome option" where
  "compose_structured_candidate u rx digest ci =
     (let baseline = ci_baseline ci
      in if ci_cloud ci = Skipped then Some (baseline_result baseline None [])
         else case hard_outcome_map (ci_cloud ci) of
                Some (trigger, code) \<Rightarrow> Some (baseline_result baseline (Some trigger) [code])
              | None \<Rightarrow>
                  case ci_candidate ci of
                    None \<Rightarrow> Some (baseline_result baseline (Some ResponseSchemaFailure) [E_SCHEMA, E_MALFORMED])
                  | Some cand \<Rightarrow> compose_candidate u rx digest ci cand)"

section \<open>Spans that are found\<close>

lemma atom_tail_length: "length (atom_tail t) \<le> length t"
proof (induction t rule: atom_tail.induct)
  case (1 t)
  show ?case
  proof (cases "\<exists>s c r. t = s # c # r \<and> atom_joiner s \<and> ascii_alnum c")
    case True
    then obtain s c r where t: "t = s # c # r" "atom_joiner s" "ascii_alnum c" by blast
    have "length (atom_tail (dropWhile ascii_alnum r)) \<le> length (dropWhile ascii_alnum r)" using 1 t by blast
    moreover have "length (takeWhile ascii_alnum r) + length (dropWhile ascii_alnum r) = length r"
      by (metis length_append takeWhile_dropWhile_id)
    ultimately show ?thesis using t by (simp add: atom_tail.simps [of "s # c # r"])
  next
    case False
    then show ?thesis by (auto simp: atom_tail.simps [of t] split: list.splits)
  qed
qed

lemma atom_at_length: "0 < length (atom_at c r) \<and> length (atom_at c r) \<le> Suc (length r)"
proof -
  have "length (takeWhile ascii_alnum r) + length (dropWhile ascii_alnum r) = length r"
    by (metis length_append takeWhile_dropWhile_id)
  then show ?thesis using atom_tail_length [of "dropWhile ascii_alnum r"] by (simp add: atom_at_def)
qed

lemma find_atoms_bounds:
  "m \<in> set (find_atoms i skip t) \<Longrightarrow> i + skip \<le> fst m \<and> fst m < fst (snd m) \<and> fst (snd m) \<le> i + length t"
proof (induction i skip t rule: find_atoms.induct)
  case (2 i skip c r)
  then show ?case using atom_at_length [of c r] by (auto split: if_splits)
qed simp

lemma find_atoms_ordered: "sorted_wrt (\<lambda>m n. fst (snd m) \<le> fst n) (find_atoms i skip t)"
proof (induction i skip t rule: find_atoms.induct)
  case (2 i skip c r)
  have "i + length (atom_at c r) \<le> fst n" if "n \<in> set (find_atoms (i + 1) (length (atom_at c r) - 1) r)" for n
    using find_atoms_bounds [OF that] atom_at_length [of c r] by simp
  then show ?case using 2 by auto
qed simp

lemma atom_spans_bounds:
  assumes "(a, b) \<in> set (atom_spans u hay needle)"
  shows "a < b \<and> b \<le> length hay"
proof -
  let ?h = "atom_matches hay" and ?n = "length (lexical_atom_sequence u needle)"
  obtain i where i: "i < length ?h - ?n + 1" "?n \<le> length ?h" "0 < ?n" "a = fst (?h ! i)" "b = fst (snd (?h ! (i + ?n - 1)))"
    using assms by (auto simp: atom_spans_def Let_def simp del: upt_Suc split: if_splits)
  let ?k = "i + ?n - 1"
  have k: "?k < length ?h" "i \<le> ?k" using i(1-3) by arith+
  have bk: "fst (?h ! ?k) < b \<and> b \<le> length hay"
    using find_atoms_bounds [of "?h ! ?k" 0 0 hay] k(1) i(5) by (simp add: atom_matches_def)
  have "a < b"
  proof (cases "i = ?k")
    case False
    then have "fst (snd (?h ! i)) \<le> fst (?h ! ?k)"
      using find_atoms_ordered [of 0 0 hay] k by (simp add: sorted_wrt_iff_nth_less atom_matches_def)
    moreover have "fst (?h ! i) < fst (snd (?h ! i))"
      using find_atoms_bounds [of "?h ! i" 0 0 hay] k by (simp add: atom_matches_def)
    ultimately show ?thesis using bk i(4) by simp
  qed (use bk i(4) in simp)
  then show ?thesis using bk by simp
qed

lemma literal_spans_bounds:
  assumes "(a, b) \<in> set (literal_spans u hay needle)" "needle \<noteq> []"
  shows "a < b \<and> b \<le> length hay"
  using assms by (auto simp: literal_spans_def Let_def window_starts_def)

lemma find_literal_spans_bounds: "(a, b) \<in> set (find_literal_spans u hay needle) \<Longrightarrow> a < b \<and> b \<le> length hay"
  using atom_spans_bounds literal_spans_bounds by (auto simp: find_literal_spans_def Let_def split: if_splits)

lemma place_span_placed:
  assumes "place_span u sources claimed prev provider t = Placed a b"
  shows "a < b \<and> b \<le> length (source_of sources provider) \<and> prev provider \<le> int a \<and> map_of sources provider \<noteq> None
    \<and> list_all (\<lambda>r. \<not> ranges_overlap (a, b) r) (claimed provider)
    \<and> (a, b) \<in> set (find_literal_spans u (source_of sources provider) t)"
proof -
  obtain hay where hay: "map_of sources provider = Some hay" using assms by (auto simp: place_span_def split: option.splits)
  have f: "find (\<lambda>cand. \<not> list_ex (ranges_overlap cand) (claimed provider)) (sort_key fst (find_literal_spans u hay t)) = Some (a, b)"
    "prev provider \<le> int a"
    using assms hay by (auto simp: place_span_def split: if_splits option.splits)
  have "(a, b) \<in> set (find_literal_spans u hay t)" "\<not> list_ex (ranges_overlap (a, b)) (claimed provider)"
    using find_SomeD [OF f(1)] by simp_all
  then show ?thesis
    using find_literal_spans_bounds f(2) hay by (auto simp: source_of_def list_all_iff list_ex_iff)
qed

section \<open>The invariant of the adjudication\<close>

text \<open>The claims on a source: pieces of it, in order, none overlapping another.\<close>

definition in_order :: "utext \<Rightarrow> (nat \<times> nat) list \<Rightarrow> bool" where
  "in_order t rs \<longleftrightarrow> sorted_wrt (\<lambda>r s. snd r \<le> fst s) rs \<and> list_all (\<lambda>(a, b). a < b \<and> b \<le> length t) rs"

definition span_inv :: "source_map \<Rightarrow> derivation_span list \<Rightarrow> span_state \<Rightarrow> bool" where
  "span_inv sources seen st \<longleftrightarrow>
     (\<forall>p. in_order (source_of sources p) (sp_claimed st p)
        \<and> sp_prev st p = (if sp_claimed st p = [] then - 1 else int (fst (last (sp_claimed st p))))
        \<and> (sp_claimed st p \<noteq> [] \<longrightarrow> map_of sources p \<noteq> None))
     \<and> sp_applied st + length (sp_rejected st) = length seen
     \<and> (sp_rejected st = []) = (sp_first st = None)
     \<and> length (sp_discarded st) = length seen
     \<and> (sp_rejected st = [] \<longrightarrow>
          sp_parts st = map ds_output seen \<and> sp_atoms st = map ds_output seen \<and> sp_discarded st = map (\<lambda>_. False) seen)"

lemma in_order_snoc:
  assumes "in_order t rs" "a < b" "b \<le> length t" "list_all (\<lambda>r. \<not> ranges_overlap (a, b) r) rs"
    "rs = [] \<or> fst (last rs) \<le> a"
  shows "in_order t (rs @ [(a, b)])"
proof -
  have "snd r \<le> a" if r: "r \<in> set rs" for r
  proof -
    obtain i where i: "i < length rs" "r = rs ! i" using r by (auto simp: in_set_conv_nth)
    have ne: "rs \<noteq> []" using r by auto
    have "fst r \<le> fst (last rs)"
    proof (cases "i = length rs - 1")
      case False
      then have "snd r \<le> fst (last rs)"
        using assms(1) i ne by (auto simp: in_order_def sorted_wrt_iff_nth_less last_conv_nth)
      moreover have "fst r < snd r" using assms(1) r by (auto simp: in_order_def list_all_iff)
      ultimately show ?thesis by simp
    qed (use i ne in \<open>simp add: last_conv_nth\<close>)
    then have "fst r < b" using assms(2,5) ne by auto
    then show ?thesis using assms(4) r by (auto simp: list_all_iff ranges_overlap_def)
  qed
  then show ?thesis using assms(1-3) by (auto simp: in_order_def sorted_wrt_append)
qed

lemma span_inv_start: "span_inv sources [] span_start"
  by (simp add: span_inv_def span_start_def in_order_def)

lemma claim_range_inv:
  assumes "span_inv sources seen st" "place_span u sources (sp_claimed st) (sp_prev st) p t = Placed a b"
  shows "\<forall>q. in_order (source_of sources q) (sp_claimed (claim_range p a b st) q)
        \<and> sp_prev (claim_range p a b st) q
            = (if sp_claimed (claim_range p a b st) q = [] then - 1 else int (fst (last (sp_claimed (claim_range p a b st) q))))
        \<and> (sp_claimed (claim_range p a b st) q \<noteq> [] \<longrightarrow> map_of sources q \<noteq> None)"
proof
  fix q
  note pl = place_span_placed [OF assms(2)]
  have "in_order (source_of sources p) (sp_claimed st p @ [(a, b)])"
    using assms(1) pl by (intro in_order_snoc) (auto simp: span_inv_def split: if_splits)
  then show "in_order (source_of sources q) (sp_claimed (claim_range p a b st) q)
        \<and> sp_prev (claim_range p a b st) q
            = (if sp_claimed (claim_range p a b st) q = [] then - 1 else int (fst (last (sp_claimed (claim_range p a b st) q))))
        \<and> (sp_claimed (claim_range p a b st) q \<noteq> [] \<longrightarrow> map_of sources q \<noteq> None)"
    using assms(1) pl by (auto simp: claim_range_def span_inv_def)
qed

text \<open>The provider a span speaks of.\<close>

definition span_provider :: "derivation_span \<Rightarrow> string" where
  "span_provider s = (case ds_provider s of Some p \<Rightarrow> p | None \<Rightarrow> [])"

text \<open>The three ways a span is taken in.\<close>

lemma dropped_inv:
  "span_inv sources seen st \<Longrightarrow> span_inv sources (seen @ [s]) (push_span part atoms d (note_rejection i rej reason st))"
  by (auto simp: span_inv_def push_span_def note_rejection_def split: option.splits)

lemma salvaged_inv:
  assumes "span_inv sources seen st" "place_span u sources (sp_claimed st) (sp_prev st) p t = Placed a b"
  shows "span_inv sources (seen @ [s]) (push_span part atoms d (claim_range p a b (note_rejection i rej reason st)))"
  using claim_range_inv [OF assms] assms(1)
  by (auto simp: span_inv_def push_span_def note_rejection_def claim_range_def split: option.splits)

lemma applied_inv:
  assumes "span_inv sources seen st" "place_span u sources (sp_claimed st) (sp_prev st) p t = Placed a b"
  shows "span_inv sources (seen @ [s]) ((push_span (ds_output s) [ds_output s] False (claim_range p a b st))\<lparr>sp_applied := sp_applied st + 1\<rparr>)"
  using claim_range_inv [OF assms] assms(1) by (auto simp: span_inv_def push_span_def claim_range_def)

lemma break_inv:
  "span_inv sources seen st \<Longrightarrow>
    span_inv sources (seen @ [s]) ((push_span (ds_output s) [ds_output s] False st)\<lparr>sp_applied := sp_applied st + 1\<rparr>)"
  by (auto simp: span_inv_def push_span_def)

lemma consuming_span_cases:
  assumes "consuming_span u rx ci cand sources i s st = Inr st'"
  shows "(\<exists>part atoms d rej reason. st' = push_span part atoms d (note_rejection i rej reason st))
    \<or> (\<exists>a b part atoms d rej reason. place_span u sources (sp_claimed st) (sp_prev st) (span_provider s) (ds_source s) = Placed a b
         \<and> st' = push_span part atoms d (claim_range (span_provider s) a b (note_rejection i rej reason st)))
    \<or> (\<exists>a b. place_span u sources (sp_claimed st) (sp_prev st) (span_provider s) (ds_source s) = Placed a b
         \<and> st' = (push_span (ds_output s) [ds_output s] False (claim_range (span_provider s) a b st))\<lparr>sp_applied := sp_applied st + 1\<rparr>)"
proof -
  let ?p = "span_provider s"
  let ?gone = "map_of sources ?p = None \<or> \<not> source_contains u (source_of sources ?p) (ds_source s)"
  note run = assms [unfolded consuming_span_def Let_def place_checked_def span_provider_def [symmetric]]
  show ?thesis
  proof (cases ?gone)
    case True
    then show ?thesis using run by (simp only: if_True sum.inject) blast
  next
    case False
    then have c: "contract_reject u rx cand ?p s = None"
      using run by (cases "contract_reject u rx cand ?p s") (simp_all only: if_False option.case sum.distinct)
    note run2 = run [unfolded if_not_P [OF False] c option.case]
    show ?thesis
      using run2
      by (cases "span_preserves_protected_tokens s (ci_protected ci)";
          cases "place_span u sources (sp_claimed st) (sp_prev st) ?p (ds_source s)")
        (simp_all only: not_True_eq_False not_False_eq_True if_True if_False span_placement.case sum.inject sum.distinct, blast+)
  qed
qed

lemma adjudicate_span_inv:
  assumes "span_inv sources seen st" "adjudicate_span u rx ci cand sources i s st = Inr st'"
  shows "span_inv sources (seen @ [s]) st'"
proof (cases "ds_kind s = LayoutBreak")
  case True
  then have "st' = push_span [] [] True (note_rejection i (UnverifiableSourceDerivation, [E_UNVERIFIABLE]) E_UNVERIFIABLE st)
      \<or> st' = (push_span (ds_output s) [ds_output s] False st)\<lparr>sp_applied := sp_applied st + 1\<rparr>"
    using assms(2) by (auto simp: adjudicate_span_def layout_break_span_def Let_def split: if_splits)
  then show ?thesis by (elim disjE) (erule ssubst, rule dropped_inv break_inv, rule assms(1))+
next
  case False
  then have "consuming_span u rx ci cand sources i s st = Inr st'" using assms(2) by (simp add: adjudicate_span_def)
  from consuming_span_cases [OF this] show ?thesis
    by (elim disjE exE conjE) (erule ssubst, (rule dropped_inv salvaged_inv applied_inv; (rule assms(1) | assumption)))+
qed

lemma adjudicate_from_inv:
  "span_inv sources seen st \<Longrightarrow> adjudicate_from u rx ci cand sources i ss st = Inr st' \<Longrightarrow> span_inv sources (seen @ ss) st'"
proof (induction ss arbitrary: i seen st)
  case (Cons s ss)
  then obtain st1 where "adjudicate_span u rx ci cand sources i s st = Inr st1"
    "adjudicate_from u rx ci cand sources (i + 1) ss st1 = Inr st'" by auto
  then show ?case using Cons.IH [OF adjudicate_span_inv [OF Cons.prems(1)]] by auto
qed simp

lemmas adjudicated = adjudicate_from_inv [OF span_inv_start, simplified]









section \<open>What each outcome renders\<close>

text \<open>A composition that was not accepted renders the host's own text.\<close>

definition host_words :: "compose_input \<Rightarrow> compose_outcome \<Rightarrow> bool" where
  "host_words ci out \<longleftrightarrow>
     co_delivery out = dpr_default
     \<and> (case co_decision out of
          Accept \<Rightarrow> ci_candidate ci \<noteq> None \<and> ci_cloud ci \<notin> {Skipped, SchemaFailure, ProviderFailure, DeadlineExceeded}
        | AcceptNaturalLayout \<Rightarrow> co_rendered out = ci_baseline ci \<or> ci_baseline ci = []
        | _ \<Rightarrow> co_rendered out = ci_baseline ci)
     \<and> (co_summary out \<noteq> None) = (co_decision out = Accept)"

lemma host_words_baseline [simp]: "host_words ci (baseline_result (ci_baseline ci) trigger codes)"
  by (simp add: host_words_def baseline_result_def compose_result_def)

lemma soft_salvage_host:
  assumes "decision = AcceptPreserveWords \<and> rendered = ci_baseline ci
    \<or> decision = AcceptNaturalLayout \<and> (rendered = ci_baseline ci \<or> ci_baseline ci = [])"
  shows "host_words ci (soft_salvage ci rendered decision trigger code)"
  using assms by (auto simp: soft_salvage_def) (simp_all add: host_words_def compose_result_def)

lemma finish_compose_host:
  assumes "ci_candidate ci \<noteq> None" "ci_cloud ci \<notin> {Skipped, SchemaFailure, ProviderFailure, DeadlineExceeded}"
  shows "host_words ci (finish_compose u rx ci cand sources st)"
proof -
  have accept: "host_words ci ((compose_result Accept r None [])\<lparr>co_summary := Some x\<rparr>)" for r x
    using assms by (simp add: host_words_def compose_result_def)
  define layout where "layout = (if ci_baseline ci \<noteq> [] then ci_baseline ci else natural_layout_render cand)"
  have salvage: "host_words ci (soft_salvage ci (ci_baseline ci) AcceptPreserveWords UncertainBacktracking E_UNCERTAIN_BACKTRACK)"
    "host_words ci (soft_salvage ci layout AcceptNaturalLayout UncertainLayout E_UNCERTAIN_LAYOUT)"
    by (rule soft_salvage_host, simp add: layout_def)+
  show ?thesis unfolding finish_compose_def Let_def layout_def [symmetric]
    by (auto simp only: host_words_baseline accept salvage split: option.split prod.split if_split)
qed

lemma compose_candidate_host:
  assumes "ci_candidate ci \<noteq> None" "ci_cloud ci \<notin> {Skipped, SchemaFailure, ProviderFailure, DeadlineExceeded}"
  shows "\<exists>out. compose_candidate u rx digest ci cand = Some out \<and> host_words ci out"
proof -
  let ?sources = "provider_text_map (ci_sources ci)"
  show ?thesis
  proof (cases "adjudicate_from u rx ci cand ?sources 0 (sc_derivation cand) span_start")
    case (Inl rej)
    then show ?thesis by (auto simp: compose_candidate_def Let_def split: option.splits prod.splits)
  next
    case (Inr st)
    have inv: "span_inv ?sources (sc_derivation cand) st" by (rule adjudicated [OF Inr])
    have "sp_first st \<noteq> None" if "sp_applied st = 0" "sc_derivation cand \<noteq> []"
      using inv that by (auto simp: span_inv_def)
    moreover have "sc_derivation cand \<noteq> []" if "validate_candidate_shape cand = None"
      using that by (auto simp: validate_candidate_shape_def malformed_candidate_def split: if_splits)
    ultimately show ?thesis
      using Inr finish_compose_host [OF assms, of u rx cand ?sources st]
      by (auto simp: compose_candidate_def Let_def split: option.splits prod.splits)
  qed
qed

lemma compose_host: "\<exists>out. compose_structured_candidate u rx digest ci = Some out \<and> host_words ci out"
proof (cases "ci_cloud ci \<in> {Skipped, SchemaFailure, ProviderFailure, DeadlineExceeded} \<or> ci_candidate ci = None")
  case True
  then show ?thesis
    by (cases "ci_cloud ci") (auto simp: compose_structured_candidate_def hard_outcome_map_def Let_def split: option.splits)
next
  case False
  then obtain cand where "ci_candidate ci = Some cand" by auto
  then have "compose_structured_candidate u rx digest ci = compose_candidate u rx digest ci cand"
    using False by (cases "ci_cloud ci") (simp_all add: compose_structured_candidate_def hard_outcome_map_def)
  then show ?thesis using compose_candidate_host [of ci u rx digest cand] False by auto
qed

text \<open>
  Claim C8. The compose gate always answers, and only an accepted composition carries the model's text: it
  never panics; a skipped or failed cloud request, a missing candidate, every rejected candidate and
  an uncertain removal render the local baseline unchanged; an uncertain layout renders the baseline
  unless that is empty. The Transcript is handed on unsent, and only an accepted composition has a
  summary of its spans.
\<close>
theorem compose_keeps_baseline:
  "case compose_structured_candidate u rx digest ci of None \<Rightarrow> False | Some out \<Rightarrow> host_words ci out"
  using compose_host [of u rx digest ci] by auto

section \<open>An accepted composition\<close>


text \<open>The candidate and the adjudication behind an acceptance.\<close>

lemma accepted_cases:
  assumes "compose_structured_candidate u rx digest ci = Some out" "co_decision out = Accept"
  obtains cand st where "ci_candidate ci = Some cand" "candidate_within_bounds cand" "validate_candidate_shape cand = None"
    "check_selection digest ci cand = None"
    "adjudicate_from u rx ci cand (provider_text_map (ci_sources ci)) 0 (sc_derivation cand) span_start = Inr st"
    "out = finish_compose u rx ci cand (provider_text_map (ci_sources ci)) st"
proof -
  obtain cand where c: "ci_candidate ci = Some cand" "compose_candidate u rx digest ci cand = Some out"
    using assms
    by (auto simp: compose_structured_candidate_def baseline_result_def compose_result_def Let_def
        split: if_splits option.splits prod.splits)
  then show thesis
    using assms(2) that
    by (auto simp: compose_candidate_def baseline_result_def compose_result_def Let_def
        split: if_splits option.splits prod.splits sum.splits)
qed

lemma finish_accept:
  assumes "co_decision (finish_compose u rx ci cand sources st) = Accept"
  shows "finish_compose u rx ci cand sources st = (compose_result Accept (concat (sp_parts st)) None [])
      \<lparr>co_summary := Some \<lparr>ss_total = length (sc_derivation cand), ss_applied = sp_applied st, ss_rejected = sp_rejected st\<rparr>\<rparr>
    \<and> render_reject u ci cand sources st (concat (sp_parts st)) = None
    \<and> \<not> protected_missing (ci_protected ci) (concat (sp_parts st))
    \<and> coverage_failure sources (sp_claimed st) (stt_as_str (sel_provider (ci_selection ci))) = None
    \<and> \<not> list_ex (output_mismatch u rx) (zip (sc_derivation cand) (sp_discarded st))"
  using assms
  by (auto simp: finish_compose_def soft_salvage_def baseline_result_def compose_result_def Let_def
      split: if_splits option.splits prod.splits)



section \<open>Examples\<close>

definition plain_gate_regexes :: gate_regexes where
  "plain_gate_regexes = \<lparr>
     SPOKEN_CUE_RE = (\<lambda>t. let l = ascii_lower_text t
        in if starts_with (lit ''spoken '') l \<and> ends_with (lit '' cue'') l \<and> 11 < length t
           then Some (take (length t - 11) (drop 7 t)) else None),
     QUOTE_RE = (\<lambda>_. None)\<rparr>"

definition zero_digest :: "utext \<Rightarrow> nat list" where
  "zero_digest t = replicate 32 0"

definition sample_keep :: "string \<Rightarrow> string \<Rightarrow> derivation_span" where
  "sample_keep source out = \<lparr>ds_kind = Keep, ds_provider = Some ''provider_a'', ds_source = lit source, ds_output = lit out,
     ds_conversion = None, ds_label = None\<rparr>"

definition sample_candidate :: "conversion_claim list \<Rightarrow> derivation_span list \<Rightarrow> structured_candidate" where
  "sample_candidate conversions spans =
     \<lparr>sc_schema_version = ''1'', sc_fingerprint = text_sha256_fingerprint zero_digest [], sc_recon_provider = ''provider_a'',
      sc_recon_reason = ''only_available'', sc_removals = [], sc_conversions = conversions, sc_layout = NaturalLayout,
      sc_layout_certainty = ClearCertainty, sc_labels = [], sc_derivation = spans\<rparr>"

definition sample_compose :: "string \<Rightarrow> structured_candidate \<Rightarrow> compose_input" where
  "sample_compose source cand =
     \<lparr>ci_baseline = lit source, ci_fingerprint = text_sha256_fingerprint zero_digest [],
      ci_sources = [\<lparr>cs_provider = ProviderA, cs_available = True, cs_text = lit source, cs_primary = True\<rparr>],
      ci_selection = \<lparr>sel_provider = ProviderA, sel_reason = ''only_available''\<rparr>, ci_protected = [lit ''it''],
      ci_policy = Natural, ci_cloud = Succeeded, ci_candidate = Some cand\<rparr>"

definition spoken_period :: compose_input where
  "spoken_period = sample_compose ''ship it period''
     (sample_candidate [\<lparr>cv_id = lit ''period'' @ [0x2192, 46], cv_provider = ''provider_a'', cv_text = lit ''period''\<rparr>]
       [sample_keep ''ship it'' ''Ship it'',
        \<lparr>ds_kind = Convert, ds_provider = Some ''provider_a'', ds_source = lit ''period'', ds_output = [46],
         ds_conversion = Some (lit ''period'' @ [0x2192, 46]), ds_label = None\<rparr>])"

lemma spoken_period_accepted:
  "compose_structured_candidate ascii plain_gate_regexes zero_digest spoken_period = Some
     \<lparr>co_decision = Accept, co_rendered = lit ''Ship it.'', co_trigger = None, co_codes = [], co_delivery = dpr_default,
      co_summary = Some \<lparr>ss_total = 2, ss_applied = 2, ss_rejected = []\<rparr>\<rparr>"
  by code_simp


text \<open>
  The atom gate judges what the spans propose, not what is rendered: a span dropped for an overlap still
  stands between its neighbours there, but renders nothing, so two words of the source can be accepted
  as one word that no source has.
\<close>

definition glued_words :: compose_input where
  "glued_words = (sample_compose ''foo bar'' (sample_candidate []
     [sample_keep ''foo '' ''foo'', sample_keep '' '' '' '', sample_keep ''bar'' ''bar'']))\<lparr>ci_protected := []\<rparr>"

text \<open>
  A known gap of the gate: there is an input on which it accepts the output \<open>foobar\<close>, whose one
  word neither the source \<open>foo bar\<close> nor any declared conversion or label has.
\<close>
theorem gate_accepts_unlicensed_word:
  "map_option (\<lambda>out. (co_decision out, co_rendered out)) (compose_structured_candidate ascii plain_gate_regexes zero_digest glued_words)
     = Some (Accept, lit ''foobar'')
   \<and> lexical_atom_sequence ascii (lit ''foobar'') = [lit ''foobar'']
   \<and> licensed_atoms ascii (provider_text_map (ci_sources glued_words)) [] [] = [lit ''foo'', lit ''bar'']"
  by code_simp

section \<open>A composition without a dropped span\<close>

text \<open>What a span of each kind may put in the place of its words.\<close>

definition span_faithful :: "unicode \<Rightarrow> gate_regexes \<Rightarrow> structured_candidate \<Rightarrow> derivation_span \<Rightarrow> bool" where
  "span_faithful u rx cand s =
     (case ds_kind s of
        Keep \<Rightarrow> lexical_atom_sequence u (ds_output s) = lexical_atom_sequence u (ds_source s)
      | Remove \<Rightarrow> ds_output s = []
          \<and> list_ex (\<lambda>r. to_lowercase u (normalize_ws (rm_text r)) = to_lowercase u (normalize_ws (ds_source s))) (sc_removals cand)
      | Convert \<Rightarrow> (case ds_conversion s of
            None \<Rightarrow> False
          | Some cid \<Rightarrow> cid \<in> set CLOSED_CONVERSIONS \<and> convert_output_matches u rx cid (ds_source s) (ds_output s))
      | Label \<Rightarrow> (case ds_label s of
            None \<Rightarrow> False
          | Some l \<Rightarrow> l \<in> set closed_labels \<and> (ds_output s = l @ [58, 10] \<or> ds_output s = l @ [58]))
      | LayoutBreak \<Rightarrow> list_all is_whitespace (ds_output s))"

definition span_clean :: "unicode \<Rightarrow> gate_regexes \<Rightarrow> structured_candidate \<Rightarrow> derivation_span \<Rightarrow> bool" where
  "span_clean u rx cand s \<longleftrightarrow>
     (if ds_kind s = LayoutBreak then list_all is_whitespace (ds_output s) else \<exists>p. contract_reject u rx cand p s = None)"

lemma rejected_grows: "sp_rejected (push_span part atoms d (note_rejection i rej reason st)) \<noteq> []"
  "sp_rejected (push_span part atoms d (claim_range p a b (note_rejection i rej reason st))) \<noteq> []"
  "sp_rejected ((push_span part atoms d (claim_range p a b st))\<lparr>sp_applied := n\<rparr>) = sp_rejected st"
  by (simp_all add: push_span_def note_rejection_def claim_range_def)

lemma consuming_span_contract:
  assumes "consuming_span u rx ci cand sources i s st = Inr st'" "sp_rejected st' = []"
  shows "contract_reject u rx cand (case ds_provider s of Some p \<Rightarrow> p | None \<Rightarrow> []) s = None"
proof -
  let ?p = "case ds_provider s of Some p \<Rightarrow> p | None \<Rightarrow> []"
  note run = assms(1) [unfolded consuming_span_def Let_def]
  have "\<not> (map_of sources ?p = None \<or> \<not> source_contains u (source_of sources ?p) (ds_source s))"
  proof
    assume "map_of sources ?p = None \<or> \<not> source_contains u (source_of sources ?p) (ds_source s)"
    then have "st' = push_span [] [] True (note_rejection i (UnverifiableSourceDerivation, [E_UNVERIFIABLE]) E_UNVERIFIABLE st)"
      using run by (simp only: if_True sum.inject)
    then show False using assms(2) rejected_grows(1) by blast
  qed
  then show ?thesis
    using run by (cases "contract_reject u rx cand ?p s") (simp_all only: if_False option.case sum.distinct)
qed

lemma adjudicate_span_clean:
  assumes "adjudicate_span u rx ci cand sources i s st = Inr st'" "sp_rejected st' = []"
  shows "sp_rejected st = [] \<and> span_clean u rx cand s"
proof (cases "ds_kind s = LayoutBreak")
  case True
  let ?bad = "ds_output s \<notin> {[10], [10, 10], [32], [9], []} \<and> \<not> list_all (\<lambda>c. c \<in> {10, 13, 9, 32}) (ds_output s)"
  have "\<not> ?bad" "sp_rejected st = []"
    using assms True rejected_grows(1) by (auto simp: adjudicate_span_def layout_break_span_def Let_def push_span_def split: if_splits)
  then have "list_all (\<lambda>c. c \<in> {10, 13, 9, 32}) (ds_output s)" by auto
  then have "list_all is_whitespace (ds_output s)" by (rule list.pred_mono_strong) (auto simp: is_whitespace_def)
  then show ?thesis using True \<open>sp_rejected st = []\<close> by (simp add: span_clean_def)
next
  case False
  then have run: "consuming_span u rx ci cand sources i s st = Inr st'" using assms(1) by (simp add: adjudicate_span_def)
  from consuming_span_cases [OF run] have "sp_rejected st = []"
    by (elim disjE exE conjE) (use assms(2) in \<open>simp_all add: rejected_grows\<close>)
  moreover have "\<exists>p. contract_reject u rx cand p s = None"
    by (intro exI, rule consuming_span_contract [OF run assms(2)])
  ultimately show ?thesis using False by (simp add: span_clean_def)
qed

lemma adjudicate_from_clean:
  "adjudicate_from u rx ci cand sources i ss st = Inr st' \<Longrightarrow> sp_rejected st' = [] \<Longrightarrow>
    sp_rejected st = [] \<and> list_all (span_clean u rx cand) ss"
proof (induction ss arbitrary: i st)
  case (Cons s ss)
  then obtain st1 where st1: "adjudicate_span u rx ci cand sources i s st = Inr st1"
    "adjudicate_from u rx ci cand sources (i + 1) ss st1 = Inr st'" by auto
  have "sp_rejected st1 = [] \<and> list_all (span_clean u rx cand) ss" by (rule Cons.IH [OF st1(2) Cons.prems(2)])
  then show ?case using adjudicate_span_clean [OF st1(1)] by simp
qed simp

lemma clean_span_faithful:
  assumes "span_clean u rx cand s" "\<not> output_mismatch u rx (s, False)"
  shows "span_faithful u rx cand s"
proof (cases "ds_kind s")
  case Remove
  then show ?thesis using assms(1)
    by (auto simp: span_faithful_def span_clean_def contract_reject_def remove_reject_def list_ex_iff split: if_splits)
next
  case Convert
  then show ?thesis using assms
    by (auto simp: span_faithful_def span_clean_def contract_reject_def convert_reject_def output_mismatch_def
        split: if_splits option.splits)
next
  case Label
  have "[] \<notin> set closed_labels" by code_simp
  then show ?thesis using assms(1) Label
    by (auto simp: span_faithful_def span_clean_def contract_reject_def label_reject_def Let_def split: if_splits option.splits)
qed (use assms in \<open>auto simp: span_faithful_def span_clean_def output_mismatch_def keep_organize_only_def split: if_splits\<close>)

text \<open>
  Claim C10. A composition accepted without dropping a span says what was said: the text is the spans'
  outputs in their order, where a kept span has exactly the words of its source in order, a removed
  span is empty and declared, a conversion gives the result its closed rule prescribes, a label is a
  closed header and nothing more, and a break is white space; and every word of the text is a word of
  a source, of a declared conversion or of a declared label.
\<close>
theorem clean_composition:
  assumes "compose_structured_candidate u rx digest ci = Some out"
    "co_summary out = Some \<lparr>ss_total = total_spans, ss_applied = applied_spans, ss_rejected = []\<rparr>"
  shows "\<exists>cand. ci_candidate ci = Some cand \<and> co_rendered out = concat (map ds_output (sc_derivation cand))
    \<and> list_all (span_faithful u rx cand) (sc_derivation cand) \<and> applied_spans = length (sc_derivation cand)
    \<and> lexical_atoms u (co_rendered out)
        \<subseteq> set (licensed_atoms u (provider_text_map (ci_sources ci)) (map cv_id (sc_conversions cand)) (map lb_label (sc_labels cand)))"
proof -
  have acc: "co_decision out = Accept"
    using compose_host [of u rx digest ci] assms by (auto simp: host_words_def)
  from assms(1) acc show ?thesis
  proof (cases rule: accepted_cases)
    case (1 cand st)
    note f = finish_accept [OF acc [unfolded 1(6)]]
    have sum: "sp_rejected st = []" "sp_applied st = applied_spans" and r: "co_rendered out = concat (sp_parts st)"
      using f 1(6) assms(2) by (simp_all add: compose_result_def)
    note inv = adjudicated [OF 1(5), unfolded span_inv_def]
    have parts: "sp_parts st = map ds_output (sc_derivation cand)" "sp_atoms st = map ds_output (sc_derivation cand)"
      "sp_discarded st = map (\<lambda>_. False) (sc_derivation cand)" "applied_spans = length (sc_derivation cand)"
      using inv sum by auto
    have "list_all (\<lambda>s. \<not> output_mismatch u rx (s, False)) (sc_derivation cand)"
      using f unfolding parts(3) by (auto simp: list_all_iff list_ex_iff zip_map2 zip_same_conv_map)
    then have "list_all (span_faithful u rx cand) (sc_derivation cand)"
      using adjudicate_from_clean [OF 1(5) sum(1)] clean_span_faithful by (auto simp: list_all_iff)
    moreover have "lexical_atoms u (co_rendered out) \<subseteq> set (licensed_atoms u (provider_text_map (ci_sources ci))
        (map cv_id (sc_conversions cand)) (map lb_label (sc_labels cand)))"
      using f unfolding r parts(1) parts(2) lexical_atoms_def
      by (auto simp: render_reject_def Let_def list_ex_iff parts split: if_splits)
    ultimately show ?thesis using 1(1) parts r by auto
  qed
qed

theorem clean_composition_witness:
  "\<exists>cand. ci_candidate spoken_period = Some cand \<and> list_all (span_faithful ascii plain_gate_regexes cand) (sc_derivation cand)
     \<and> lit ''Ship it.'' = concat (map ds_output (sc_derivation cand))"
  using clean_composition [OF spoken_period_accepted, of 2 2] by auto

end
