(* ===== verification/Dpr_Cloud.thy ===== *)
theory Dpr_Cloud
  imports Compose_Gate
begin

text \<open>
  The cloud client of Developer Prompt Rendering, \<open>crates/voisu-cloud/src/dpr_cloud.rs\<close> with the endpoint policy
  of \<open>crates/voisu-cloud/src/lib.rs\<close>: one bounded request, one bounded response, one parsed payload.

  Third-party code is an argument: \<open>url::Url::parse\<close> (with its result a record of what the accessors
  return), \<open>serde_json\<close>'s writer and readers, and the exchange itself, a function from the request's body to
  the response. How long building the body took and whether \<open>tokio\<close>'s timeout fired first are arguments
  too.
\<close>

section \<open>UTF-8\<close>

text \<open>The bytes of a text, as \<open>serde_json\<close> receives a \<open>&str\<close>; \<open>str_chars\<close> reads them back.\<close>

definition utf8_bytes :: "nat \<Rightarrow> nat list" where
  "utf8_bytes c =
     (if c < 0x80 then [c]
      else if c < 0x800 then [0xC0 + c div 64, 0x80 + c mod 64]
      else if c < 0x10000 then [0xE0 + c div 4096, 0x80 + c div 64 mod 64, 0x80 + c mod 64]
      else [0xF0 + c div 262144, 0x80 + c div 4096 mod 64, 0x80 + c div 64 mod 64, 0x80 + c mod 64])"

definition utf8_string :: "utext \<Rightarrow> string" where
  "utf8_string t = map char_of (concat (map utf8_bytes t))"

definition is_scalar :: "nat \<Rightarrow> bool" where
  "is_scalar c \<longleftrightarrow> c < 0xD800 \<or> 0xE000 \<le> c \<and> c < 0x110000"

lemma digits64:
  fixes c :: nat
  shows "c = c div 4096 * 4096 + c div 64 mod 64 * 64 + c mod 64"
    "c = c div 262144 * 262144 + c div 4096 mod 64 * 4096 + c div 64 mod 64 * 64 + c mod 64"
proof -
  have d: "c div 64 div 64 = c div 4096" "c div 4096 div 64 = c div 262144" by (simp_all add: div_mult2_eq [symmetric])
  have "c = c div 64 * 64 + c mod 64" by simp
  moreover have "c div 64 = c div 4096 * 64 + c div 64 mod 64" using div_mult_mod_eq [of "c div 64" 64] d by simp
  ultimately show e: "c = c div 4096 * 4096 + c div 64 mod 64 * 64 + c mod 64" by linarith
  have "c div 4096 = c div 262144 * 64 + c div 4096 mod 64" using div_mult_mod_eq [of "c div 4096" 64] d by simp
  then show "c = c div 262144 * 262144 + c div 4096 mod 64 * 4096 + c div 64 mod 64 * 64 + c mod 64" using e by linarith
qed

lemma utf8_decode_char:
  assumes "is_scalar c"
  shows "utf8_decode (utf8_bytes c @ bs) = map_option (Cons c) (utf8_decode bs)"
proof -
  consider "c < 0x80" | "0x80 \<le> c" "c < 0x800" | "0x800 \<le> c" "c < 0x10000" | "0x10000 \<le> c" by linarith
  then show ?thesis
  proof cases
    case 2
    obtain q r where q: "c div 64 = q" "c mod 64 = r" by blast
    have c: "c = q * 64 + r" using div_mult_mod_eq [of c 64] unfolding q by simp
    have small: "r < 64" unfolding q [symmetric] by simp
    have "2 \<le> q" "q < 32" using 2 c small by linarith+
    note this c small
    moreover have "utf8_bytes c = [0xC0 + q, 0x80 + r]" using 2 q by (simp add: utf8_bytes_def)
    ultimately show ?thesis by (simp add: utf8_decode.simps(2) cont_def)
  next
    case 3
    obtain p q r where q: "c div 4096 = p" "c div 64 mod 64 = q" "c mod 64 = r" by blast
    have c: "c = p * 4096 + q * 64 + r" using digits64(1) [of c] unfolding q .
    have small: "q < 64" "r < 64" unfolding q [symmetric] by simp_all
    have "p < 16" "p = 0 \<Longrightarrow> 32 \<le> q" "p = 13 \<Longrightarrow> q < 32" using 3 assms c small unfolding is_scalar_def by arith+
    note this c small
    moreover have "utf8_bytes c = [0xE0 + p, 0x80 + q, 0x80 + r]" using 3 q by (simp add: utf8_bytes_def)
    ultimately show ?thesis by (auto simp: utf8_decode.simps(2) cont_def)
  next
    case 4
    obtain n p q r where q: "c div 262144 = n" "c div 4096 mod 64 = p" "c div 64 mod 64 = q" "c mod 64 = r" by blast
    have c: "c = n * 262144 + p * 4096 + q * 64 + r" using digits64(2) [of c] unfolding q .
    have small: "p < 64" "q < 64" "r < 64" unfolding q [symmetric] by simp_all
    have "n < 5" "n = 0 \<Longrightarrow> 16 \<le> p" "n = 4 \<Longrightarrow> p < 16" using 4 assms c small unfolding is_scalar_def by arith+
    note this c small
    moreover have "utf8_bytes c = [0xF0 + n, 0x80 + p, 0x80 + q, 0x80 + r]" using 4 q by (simp add: utf8_bytes_def)
    ultimately show ?thesis by (auto simp: utf8_decode.simps(2) cont_def)
  qed (simp add: utf8_bytes_def utf8_decode.simps(2))
qed

lemma utf8_bytes_small: "is_scalar c \<Longrightarrow> b \<in> set (utf8_bytes c) \<Longrightarrow> b < 256"
  unfolding utf8_bytes_def is_scalar_def by (auto split: if_splits)

lemma utf8_decode_concat: "list_all is_scalar t \<Longrightarrow> utf8_decode (concat (map utf8_bytes t)) = Some t"
  by (induction t) (simp_all add: utf8_decode_char)

lemma str_chars_utf8:
  assumes "list_all is_scalar t"
  shows "str_chars (utf8_string t) = t"
proof -
  have small: "b < 256" if b: "b \<in> set (concat (map utf8_bytes t))" for b
  proof -
    obtain c where "c \<in> set t" "b \<in> set (utf8_bytes c)" using b by auto
    then show ?thesis using assms utf8_bytes_small by (auto simp: list_all_iff)
  qed
  have "map (\<lambda>b. b mod 256) (concat (map utf8_bytes t)) = concat (map utf8_bytes t)"
    by (rule map_idI) (simp add: small mod_less)
  then have "map byte (utf8_string t) = concat (map utf8_bytes t)" by (simp add: utf8_string_def byte_char_of comp_def)
  then show ?thesis using utf8_decode_concat [OF assms] by (simp add: str_chars_def)
qed

lemma utf8_string_length: "length (utf8_string t) = byte_len t"
  by (induction t) (simp_all add: utf8_string_def byte_len_def utf8_bytes_def len_utf8_def)

section \<open>Constants and errors\<close>

definition DPR_GROQ_MODEL :: string where "DPR_GROQ_MODEL = ''openai/gpt-oss-20b''"
definition DPR_GROQ_REASONING_EFFORT :: string where "DPR_GROQ_REASONING_EFFORT = ''low''"
definition DPR_FORMAT_GROQ_MODEL :: string where "DPR_FORMAT_GROQ_MODEL = ''qwen/qwen3.8-27b''"
definition DPR_FORMAT_GROQ_REASONING_EFFORT :: string where "DPR_FORMAT_GROQ_REASONING_EFFORT = ''none''"
definition DPR_FORMAT_GROQ_REASONING_FORMAT :: string where "DPR_FORMAT_GROQ_REASONING_FORMAT = ''hidden''"
definition DPR_GROQ_ENDPOINT :: string where "DPR_GROQ_ENDPOINT = ''https://api.groq.com/openai/v1/chat/completions''"
definition MAX_DPR_PROVIDER_ENVELOPE_BYTES :: nat where "MAX_DPR_PROVIDER_ENVELOPE_BYTES = 73728"
definition MAX_DPR_SOURCE_UTF8_BYTES :: nat where "MAX_DPR_SOURCE_UTF8_BYTES = 100000"
definition MAX_DPR_SOURCES :: nat where "MAX_DPR_SOURCES = 2"
definition MAX_DPR_PROTECTED_TOKENS :: nat where "MAX_DPR_PROTECTED_TOKENS = 128"
definition DPR_MAX_COMPLETION_TOKENS :: nat where "DPR_MAX_COMPLETION_TOKENS = 4096"

text \<open>The instructions; U+2014 is written by its UTF-8 bytes.\<close>

definition EM_DASH :: string where "EM_DASH = [CHR 0xE2, CHR 0x80, CHR 0x94]"

definition SYSTEM_INSTRUCTION :: string where
  "SYSTEM_INSTRUCTION =
     (''You organize English speech into text. Preserve wording and spoken grammar. Do not invent ''
      @ ''requirements, paraphrases, explanations, or technical assumptions. Allowed: punctuation/casing, ''
      @ ''clear filler or clear backtrack removals, closed symbol/format cue conversions, layout (natural / ''
      @ ''multi-paragraph / numbered / structured_sections), and closed labels only when Structured or ''
      @ ''clearly licensed. Never auto-send. Return structured JSON decisions only ''
      @ EM_DASH
      @ '' never a free-form polished string as sole authority. Groq path: same organize-only contract. Do ''
      @ ''not run grammar correction.'')"

definition RESPONSE_INSTRUCTION :: string where
  "RESPONSE_INSTRUCTION =
     (''Return the smallest valid candidate under the supplied JSON schema. Derivation must be source ''
      @ ''ordered and complete: concatenating output_text reconstructs the proposal, and every non-layout ''
      @ ''span proves its source_text against the named provider. Uncertain backtrack preserves words. ''
      @ ''Uncertain layout stays natural. Use only the supplied closed labels and conversions. One call only.'')"

definition FORMAT_EDIT_SYSTEM_INSTRUCTION :: string where
  "FORMAT_EDIT_SYSTEM_INSTRUCTION =
     (''You propose localized formatting edits for English speech. Preserve wording and spoken grammar. Do ''
      @ ''not invent requirements, paraphrases, explanations, or technical assumptions. Allowed kinds only: ''
      @ ''punctuation, casing, whitespace_layout, filler_removal, clear_backtrack_removal, quote_conversion, ''
      @ ''structure, bounded_wording. Never return a polished transcript or free-form Delivery string. ''
      @ ''Reconciliation is a different job ''
      @ EM_DASH
      @ '' do not select sources or emit derivation spans. Return the small-edit JSON contract only.'')"

definition FORMAT_EDIT_RESPONSE_INSTRUCTION :: string where
  "FORMAT_EDIT_RESPONSE_INSTRUCTION =
     (''Return the smallest valid edit list under the supplied JSON contract. Each edit must name a UTF-8 ''
      @ ''range on the supplied base, the exact before text, the replacement after text, and a closed kind. ''
      @ ''Empty edits means leave the base unchanged. One call only. Never emit a rendered or output_text ''
      @ ''field.'')"

datatype dpr_cloud_error_class =
    CredentialUnavailable
  | CloudDeadline
  | RequestInvalid
  | HttpClient
  | Http4xx
  | RateLimitedClass
  | Http5xx
  | TransportClass
  | ResponseTooLarge
  | ProviderEnvelope
  | CandidateSchema

fun cloud_error_as_str :: "dpr_cloud_error_class \<Rightarrow> string" where
  "cloud_error_as_str CredentialUnavailable = ''credential_unavailable''"
| "cloud_error_as_str CloudDeadline = ''deadline_exceeded''"
| "cloud_error_as_str RequestInvalid = ''request_invalid''"
| "cloud_error_as_str HttpClient = ''http_client''"
| "cloud_error_as_str Http4xx = ''http_4xx''"
| "cloud_error_as_str RateLimitedClass = ''rate_limited''"
| "cloud_error_as_str Http5xx = ''http_5xx''"
| "cloud_error_as_str TransportClass = ''transport''"
| "cloud_error_as_str ResponseTooLarge = ''response_too_large''"
| "cloud_error_as_str ProviderEnvelope = ''provider_envelope''"
| "cloud_error_as_str CandidateSchema = ''candidate_schema''"

record dpr_cloud_attempt =
  at_candidate :: "structured_candidate option"
  at_format_edits :: "format_edit_candidate option"
  at_error :: "dpr_cloud_error_class option"

definition attempt_success :: "structured_candidate \<Rightarrow> dpr_cloud_attempt" where
  "attempt_success candidate = \<lparr>at_candidate = Some candidate, at_format_edits = None, at_error = None\<rparr>"

definition attempt_format_edits :: "format_edit_candidate \<Rightarrow> dpr_cloud_attempt" where
  "attempt_format_edits candidate = \<lparr>at_candidate = None, at_format_edits = Some candidate, at_error = None\<rparr>"

definition attempt_failure :: "dpr_cloud_error_class \<Rightarrow> dpr_cloud_attempt" where
  "attempt_failure err = \<lparr>at_candidate = None, at_format_edits = None, at_error = Some err\<rparr>"

record dpr_cloud_request =
  rq_sources :: "compose_source list"
  rq_selection :: source_selection
  rq_selected_source :: utext
  rq_fingerprint :: string
  rq_policy :: rendering_policy
  rq_protected :: "utext list"
  rq_small_edit :: bool

section \<open>Endpoints\<close>

datatype url_host = Domain string | Ipv4 "nat list" | Ipv6 "nat list"

record parsed_url =
  url_scheme :: string
  url_host :: "url_host option"
  url_host_str :: "string option"
  url_username :: string
  url_password :: "string option"

text \<open>\<open>str::split_once\<close> on a literal: what follows its first occurrence.\<close>

fun after_first :: "'a list \<Rightarrow> 'a list \<Rightarrow> 'a list option" where
  "after_first p [] = (if p = [] then Some [] else None)"
| "after_first p (x # xs) = (if prefix p (x # xs) then Some (drop (length p) (x # xs)) else after_first p xs)"

definition endpoint_raw_string_is_allowed :: "string \<Rightarrow> bool" where
  "endpoint_raw_string_is_allowed endpoint =
     (if list_ex (\<lambda>c. byte c \<in> {10, 13, 9, 0, 92}) endpoint then False
      else case after_first ''://'' endpoint of
             None \<Rightarrow> True
           | Some authority \<Rightarrow> CHR ''@'' \<notin> set (takeWhile (\<lambda>c. c \<notin> set ''/?#'') authority))"

definition endpoint_authority_is_allowed :: "parsed_url \<Rightarrow> bool" where
  "endpoint_authority_is_allowed url \<longleftrightarrow>
     (case url_host_str url of Some host \<Rightarrow> host \<noteq> [] | None \<Rightarrow> False) \<and> url_username url = [] \<and> url_password url = None"

definition parsed_host_is_loopback :: "parsed_url \<Rightarrow> bool" where
  "parsed_host_is_loopback url =
     (case url_host url of
        Some (Domain domain) \<Rightarrow> domain = ''localhost''
      | Some (Ipv4 octets) \<Rightarrow> take 1 octets = [127]
      | Some (Ipv6 octets) \<Rightarrow> octets = replicate 15 0 @ [1]
      | None \<Rightarrow> False)"

definition endpoint_is_allowed :: "(string \<Rightarrow> parsed_url option) \<Rightarrow> string \<Rightarrow> bool" where
  "endpoint_is_allowed parse endpoint =
     (if \<not> endpoint_raw_string_is_allowed endpoint then False
      else case parse endpoint of
             None \<Rightarrow> False
           | Some url \<Rightarrow> endpoint_authority_is_allowed url
               \<and> (if url_scheme url = ''https'' then True
                  else if url_scheme url = ''http'' then parsed_host_is_loopback url else False))"

record dpr_cloud_client =
  cl_endpoint :: string
  cl_max_body_bytes :: nat

text \<open>\<open>built\<close> says whether \<open>reqwest\<close> could build its client.\<close>

definition with_config ::
  "(string \<Rightarrow> parsed_url option) \<Rightarrow> bool \<Rightarrow> string \<Rightarrow> nat \<Rightarrow> dpr_cloud_error_class + dpr_cloud_client" where
  "with_config parse built endpoint max_body_bytes =
     (if \<not> endpoint_is_allowed parse endpoint \<or> max_body_bytes = 0 then Inl HttpClient
      else if \<not> built then Inl HttpClient
      else Inr \<lparr>cl_endpoint = endpoint, cl_max_body_bytes = max_body_bytes\<rparr>)"

definition with_endpoint :: "(string \<Rightarrow> parsed_url option) \<Rightarrow> bool \<Rightarrow> string \<Rightarrow> dpr_cloud_error_class + dpr_cloud_client" where
  "with_endpoint parse built endpoint = with_config parse built endpoint MAX_DPR_PROVIDER_ENVELOPE_BYTES"

definition groq_client :: "(string \<Rightarrow> parsed_url option) \<Rightarrow> bool \<Rightarrow> dpr_cloud_error_class + dpr_cloud_client" where
  "groq_client parse built = with_endpoint parse built DPR_GROQ_ENDPOINT"

section \<open>The request\<close>

definition request_is_bounded :: "dpr_cloud_request \<Rightarrow> bool" where
  "request_is_bounded rq =
     (if rq_sources rq = [] \<or> MAX_DPR_SOURCES < length (rq_sources rq)
         \<or> MAX_DPR_SOURCE_UTF8_BYTES < byte_len (rq_selected_source rq)
         \<or> length (rq_fingerprint rq) \<noteq> 7 + 64
         \<or> \<not> prefix ''sha256:'' (rq_fingerprint rq)
         \<or> \<not> list_all (\<lambda>c. is_ascii_digit c \<or> 97 \<le> byte c \<and> byte c \<le> 102) (drop 7 (rq_fingerprint rq))
         \<or> sel_reason (rq_selection rq) \<notin> set CLOSED_SOURCE_SELECTION_REASONS
         \<or> MAX_COMPOSE_FIELD_UTF8_BYTES < length (sel_reason (rq_selection rq))
         \<or> MAX_DPR_PROTECTED_TOKENS < length (rq_protected rq)
      then False
      else if \<not> list_ex (\<lambda>s. cs_available s \<and> cs_provider s = sel_provider (rq_selection rq)) (rq_sources rq) then False
      else list_all (\<lambda>s. byte_len (cs_text s) \<le> MAX_DPR_SOURCE_UTF8_BYTES
                         \<and> length (stt_as_str (cs_provider s)) \<le> MAX_COMPOSE_FIELD_UTF8_BYTES) (rq_sources rq)
           \<and> list_all (\<lambda>t. t \<noteq> [] \<and> byte_len t \<le> MAX_COMPOSE_FIELD_UTF8_BYTES) (rq_protected rq))"

abbreviation text_json :: "utext \<Rightarrow> json" where "text_json t \<equiv> JString (utf8_string t)"
abbreviation nat_json :: "nat \<Rightarrow> json" where "nat_json n \<equiv> JNumber (PosInt n)"
abbreviation strs_json :: "string list \<Rightarrow> json" where "strs_json ss \<equiv> JArray (map JString ss)"
abbreviation texts_json :: "utext list \<Rightarrow> json" where "texts_json ts \<equiv> JArray (map text_json ts)"

text \<open>The pieces the schemas repeat: a string of an enumeration, a bounded string, a closed object.\<close>

definition enum_schema :: "json \<Rightarrow> json" where
  "enum_schema values = JObject [(''type'', JString ''string''), (''enum'', values)]"

definition field_schema :: "nat \<Rightarrow> json" where
  "field_schema bound = JObject [(''type'', JString ''string''), (''maxLength'', nat_json bound)]"

definition nullable_enum :: "json \<Rightarrow> json" where
  "nullable_enum values = JObject [(''anyOf'', JArray [enum_schema values, JObject [(''type'', JString ''null'')]])]"

definition object_schema :: "string list \<Rightarrow> (string \<times> json) list \<Rightarrow> json" where
  "object_schema required properties =
     JObject [(''type'', JString ''object''), (''additionalProperties'', JBool False), (''required'', strs_json required),
       (''properties'', JObject properties)]"

definition array_schema :: "nat \<Rightarrow> json \<Rightarrow> json" where
  "array_schema bound items = JObject [(''type'', JString ''array''), (''maxItems'', nat_json bound), (''items'', items)]"

definition fingerprint_schema :: json where
  "fingerprint_schema = JObject [(''type'', JString ''string''), (''pattern'', JString ''^sha256:[0-9a-f]{64}$'')]"

definition provider_schema :: json where
  "provider_schema = enum_schema (strs_json [''provider_a'', ''provider_b''])"

definition candidate_schema :: json where
  "candidate_schema =
     object_schema [''schema_version'', ''base_fingerprint'', ''reconciliation'', ''removals'', ''conversions'', ''layout'', ''labels'', ''derivation'']
       [(''schema_version'', JObject [(''type'', JString ''string''), (''const'', JString ''1'')]),
        (''base_fingerprint'', fingerprint_schema),
        (''reconciliation'', object_schema [''selected_provider'', ''reason'']
           [(''selected_provider'', provider_schema), (''reason'', enum_schema (strs_json CLOSED_SOURCE_SELECTION_REASONS))]),
        (''removals'', array_schema MAX_COMPOSE_REMOVALS
           (object_schema [''kind'', ''certainty'', ''source_provider'', ''source_span_text'']
              [(''kind'', enum_schema (strs_json [''filler'', ''backtrack''])), (''certainty'', enum_schema (strs_json [''clear'', ''uncertain''])),
               (''source_provider'', provider_schema), (''source_span_text'', field_schema MAX_COMPOSE_FIELD_UTF8_BYTES)])),
        (''conversions'', array_schema MAX_COMPOSE_CONVERSIONS
           (object_schema [''id'', ''source_provider'', ''source_span_text'']
              [(''id'', enum_schema (texts_json CLOSED_CONVERSIONS)), (''source_provider'', provider_schema),
               (''source_span_text'', field_schema MAX_COMPOSE_FIELD_UTF8_BYTES)])),
        (''layout'', object_schema [''decision'', ''certainty'']
           [(''decision'', enum_schema (strs_json [''natural'', ''multi_paragraph'', ''numbered'', ''structured_sections''])),
            (''certainty'', enum_schema (strs_json [''clear'', ''uncertain'']))]),
        (''labels'', array_schema MAX_COMPOSE_LABELS
           (object_schema [''label'', ''source_provider'', ''source_span_text'']
              [(''label'', enum_schema (strs_json CLOSED_STRUCTURED_LABELS)), (''source_provider'', provider_schema),
               (''source_span_text'', field_schema MAX_COMPOSE_FIELD_UTF8_BYTES)])),
        (''derivation'', JObject [(''type'', JString ''array''), (''minItems'', nat_json 1), (''maxItems'', nat_json MAX_COMPOSE_DERIVATION_SPANS),
           (''items'', object_schema [''kind'', ''source_provider'', ''source_text'', ''output_text'', ''conversion_id'', ''label'']
              [(''kind'', enum_schema (strs_json [''keep'', ''remove'', ''convert'', ''label'', ''layout_break''])),
               (''source_provider'', nullable_enum (strs_json [''provider_a'', ''provider_b''])),
               (''source_text'', field_schema MAX_COMPOSE_FIELD_UTF8_BYTES), (''output_text'', field_schema MAX_COMPOSE_FIELD_UTF8_BYTES),
               (''conversion_id'', nullable_enum (texts_json CLOSED_CONVERSIONS)),
               (''label'', nullable_enum (strs_json CLOSED_STRUCTURED_LABELS))])])]"

definition format_edit_schema :: json where
  "format_edit_schema =
     object_schema [''version'', ''base_fingerprint'', ''edits'']
       [(''version'', JObject [(''type'', JString ''string''), (''const'', JString FORMAT_EDIT_CONTRACT_VERSION)]),
        (''base_fingerprint'', fingerprint_schema),
        (''edits'', array_schema MAX_FORMAT_EDITS
           (object_schema [''start_utf8'', ''end_utf8'', ''before'', ''after'', ''kind'']
              [(''start_utf8'', JObject [(''type'', JString ''integer''), (''minimum'', nat_json 0)]),
               (''end_utf8'', JObject [(''type'', JString ''integer''), (''minimum'', nat_json 0)]),
               (''before'', field_schema MAX_FORMAT_EDIT_FIELD_UTF8_BYTES), (''after'', field_schema MAX_FORMAT_EDIT_FIELD_UTF8_BYTES),
               (''kind'', enum_schema (strs_json CLOSED_FORMAT_EDIT_KINDS))]))]"

definition source_json :: "compose_source \<Rightarrow> json" where
  "source_json s =
     JObject [(''provider'', JString (stt_as_str (cs_provider s))), (''available'', JBool (cs_available s)),
       (''text'', text_json (cs_text s)), (''primary'', JBool (cs_primary s))]"

definition derivation_payload :: "dpr_cloud_request \<Rightarrow> json" where
  "derivation_payload rq =
     JObject [(''sources'', JArray (map source_json (rq_sources rq))),
       (''host_selection'', JObject [(''selected_provider'', JString (stt_as_str (sel_provider (rq_selection rq)))),
          (''reason'', JString (sel_reason (rq_selection rq)))]),
       (''base_fingerprint'', JString (rq_fingerprint rq)), (''policy'', JString (policy_as_str (rq_policy rq))),
       (''protected_tokens'', texts_json (rq_protected rq)), (''closed_labels'', strs_json CLOSED_STRUCTURED_LABELS),
       (''closed_conversions'', texts_json CLOSED_CONVERSIONS), (''response_instruction'', JString RESPONSE_INSTRUCTION)]"

definition format_edit_payload :: "dpr_cloud_request \<Rightarrow> json" where
  "format_edit_payload rq =
     JObject [(''version'', JString FORMAT_EDIT_CONTRACT_VERSION), (''base_fingerprint'', JString (rq_fingerprint rq)),
       (''base_text'', text_json (rq_selected_source rq)), (''policy'', JString (policy_as_str (rq_policy rq))),
       (''closed_kinds'', strs_json CLOSED_FORMAT_EDIT_KINDS), (''response_schema'', format_edit_schema),
       (''response_instruction'', JString FORMAT_EDIT_RESPONSE_INSTRUCTION)]"

definition messages_json :: "string \<Rightarrow> string \<Rightarrow> json" where
  "messages_json system user =
     JArray [JObject [(''role'', JString ''system''), (''content'', JString system)],
       JObject [(''role'', JString ''user''), (''content'', JString user)]]"

definition build_format_edit_request :: "(json \<Rightarrow> string) \<Rightarrow> dpr_cloud_request \<Rightarrow> json" where
  "build_format_edit_request to_string rq =
     JObject [(''model'', JString DPR_FORMAT_GROQ_MODEL), (''reasoning_effort'', JString DPR_FORMAT_GROQ_REASONING_EFFORT),
       (''reasoning_format'', JString DPR_FORMAT_GROQ_REASONING_FORMAT), (''temperature'', nat_json 0), (''stream'', JBool False),
       (''max_completion_tokens'', nat_json DPR_MAX_COMPLETION_TOKENS),
       (''response_format'', JObject [(''type'', JString ''json_object'')]),
       (''messages'', messages_json FORMAT_EDIT_SYSTEM_INSTRUCTION (to_string (format_edit_payload rq)))]"

definition build_groq_request :: "(json \<Rightarrow> string) \<Rightarrow> dpr_cloud_request \<Rightarrow> json" where
  "build_groq_request to_string rq =
     (if rq_small_edit rq then build_format_edit_request to_string rq
      else JObject [(''model'', JString DPR_GROQ_MODEL), (''reasoning_effort'', JString DPR_GROQ_REASONING_EFFORT),
             (''temperature'', nat_json 0), (''stream'', JBool False), (''max_completion_tokens'', nat_json DPR_MAX_COMPLETION_TOKENS),
             (''response_format'', JObject [(''type'', JString ''json_schema''),
                (''json_schema'', JObject [(''name'', JString ''voisu_dpr_structured_candidate''), (''strict'', JBool True),
                   (''schema'', candidate_schema)])]),
             (''messages'', messages_json SYSTEM_INSTRUCTION (to_string (derivation_payload rq)))])"

section \<open>The response\<close>

definition classify_status :: "nat \<Rightarrow> dpr_cloud_error_class + unit" where
  "classify_status status =
     (if 200 \<le> status \<and> status \<le> 299 then Inr ()
      else if status = 429 then Inl RateLimitedClass
      else if 400 \<le> status \<and> status \<le> 499 then Inl Http4xx
      else if 500 \<le> status \<and> status \<le> 599 then Inl Http5xx
      else Inl TransportClass)"

datatype body_chunk = Chunk string | ChunkFailed

record http_response =
  hr_status :: nat
  hr_content_length :: "nat option"
  hr_chunks :: "body_chunk list"

fun read_chunks :: "nat \<Rightarrow> string \<Rightarrow> body_chunk list \<Rightarrow> dpr_cloud_error_class + string" where
  "read_chunks max_body body [] = Inr body"
| "read_chunks max_body body (Chunk chunk # cs) =
     (if max_body < sat_add_u64 (length body) (length chunk) then Inl ResponseTooLarge
      else read_chunks max_body (body @ chunk) cs)"
| "read_chunks max_body body (ChunkFailed # cs) = Inl TransportClass"

definition read_bounded :: "http_response \<Rightarrow> nat \<Rightarrow> dpr_cloud_error_class + string" where
  "read_bounded response max_body =
     (if (case hr_content_length response of Some n \<Rightarrow> max_body < n | None \<Rightarrow> False) then Inl ResponseTooLarge
      else read_chunks max_body [] (hr_chunks response))"

datatype parsed_payload = DerivationPayload structured_candidate | FormatEditsPayload format_edit_candidate

definition extract_message_content :: "(string \<Rightarrow> json option) \<Rightarrow> string \<Rightarrow> dpr_cloud_error_class + string" where
  "extract_message_content from_slice envelope =
     bind_result (ok_or ProviderEnvelope (from_slice envelope)) (\<lambda>root.
     bind_result (ok_or ProviderEnvelope (case Option.bind (json_get root ''choices'') as_array of
         Some [choice] \<Rightarrow> Some choice | _ \<Rightarrow> None)) (\<lambda>choice.
     bind_result (ok_or ProviderEnvelope (Option.bind (json_get choice ''message'') as_object)) (\<lambda>message.
     if (case map_of message ''refusal'' of Some v \<Rightarrow> v \<noteq> JNull | None \<Rightarrow> False) then Inl ProviderEnvelope
     else ok_or ProviderEnvelope (case Option.bind (map_of message ''content'') as_str of
            Some content \<Rightarrow> (if utrim (str_chars content) \<noteq> [] then Some content else None) | None \<Rightarrow> None))))"

definition extract_payload ::
  "(string \<Rightarrow> json option) \<Rightarrow> (json \<Rightarrow> structured_candidate option) \<Rightarrow> string \<Rightarrow> bool \<Rightarrow> dpr_cloud_error_class + parsed_payload" where
  "extract_payload from_slice from_value envelope small_edit =
     bind_result (extract_message_content from_slice envelope) (\<lambda>content.
       if small_edit
       then (case parse_format_edit_candidate_json from_slice content of
               Inr candidate \<Rightarrow> Inr (FormatEditsPayload candidate) | Inl _ \<Rightarrow> Inl CandidateSchema)
       else (case parse_structured_candidate_json from_slice from_value content of
               Some candidate \<Rightarrow> Inr (DerivationPayload candidate) | None \<Rightarrow> Inl CandidateSchema))"

section \<open>The attempt\<close>

text \<open>The result carries the bodies that were sent.\<close>

definition exchange ::
  "(string \<Rightarrow> json option) \<Rightarrow> (json \<Rightarrow> structured_candidate option) \<Rightarrow> dpr_cloud_client \<Rightarrow> http_response option \<Rightarrow> bool
    \<Rightarrow> dpr_cloud_error_class + parsed_payload" where
  "exchange from_slice from_value cl response small_edit =
     bind_result (ok_or TransportClass response) (\<lambda>r.
     bind_result (classify_status (hr_status r)) (\<lambda>_.
     bind_result (read_bounded r (cl_max_body_bytes cl)) (\<lambda>envelope.
     extract_payload from_slice from_value envelope small_edit)))"

definition attempt_groq ::
  "(json \<Rightarrow> string) \<Rightarrow> (string \<Rightarrow> json option) \<Rightarrow> (json \<Rightarrow> structured_candidate option) \<Rightarrow> (json \<Rightarrow> http_response option)
    \<Rightarrow> duration \<Rightarrow> bool \<Rightarrow> dpr_cloud_client \<Rightarrow> dpr_cloud_request \<Rightarrow> duration \<Rightarrow> dpr_cloud_attempt \<times> json list" where
  "attempt_groq to_string from_slice from_value send built_in timed_out cl rq remaining =
     (if remaining = 0 then (attempt_failure CloudDeadline, [])
      else if \<not> request_is_bounded rq then (attempt_failure RequestInvalid, [])
      else let body = build_groq_request to_string rq
           in if remaining - built_in = 0 then (attempt_failure CloudDeadline, [])
              else (if timed_out then attempt_failure CloudDeadline
                    else case exchange from_slice from_value cl (send body) (rq_small_edit rq) of
                           Inl err \<Rightarrow> attempt_failure err
                         | Inr (DerivationPayload candidate) \<Rightarrow> attempt_success candidate
                         | Inr (FormatEditsPayload candidate) \<Rightarrow> attempt_format_edits candidate, [body]))"

section \<open>What an attempt can be\<close>

text \<open>One of: a failure, a bounded derivation candidate, a list of edits; the last two only of the kind asked for.\<close>

definition attempt_ok :: "bool \<Rightarrow> dpr_cloud_attempt \<Rightarrow> bool" where
  "attempt_ok small_edit a \<longleftrightarrow>
     (\<exists>e. a = attempt_failure e)
     \<or> (\<exists>c. \<not> small_edit \<and> a = attempt_success c \<and> candidate_within_bounds c)
     \<or> (\<exists>c. small_edit \<and> a = attempt_format_edits c \<and> fc_version c = FORMAT_EDIT_CONTRACT_VERSION
             \<and> is_text_sha256_fingerprint (fc_base_fingerprint c) \<and> length (fc_edits c) \<le> MAX_FORMAT_EDITS
             \<and> edits_sorted (fc_edits c))"

lemma parse_edit_candidate_ok:
  assumes "parse_format_edit_candidate_json from_slice raw = Inr c"
  shows "fc_version c = FORMAT_EDIT_CONTRACT_VERSION \<and> is_text_sha256_fingerprint (fc_base_fingerprint c)
    \<and> length (fc_edits c) \<le> MAX_FORMAT_EDITS \<and> edits_sorted (fc_edits c)"
proof -
  obtain v where v: "(case json_shape v of (depth, nodes) \<Rightarrow>
      if MAX_FORMAT_EDIT_JSON_DEPTH < depth \<or> MAX_FORMAT_EDIT_JSON_NODES < nodes then Inl Oversize else parse_candidate v) = Inr c"
    using assms by (auto simp: parse_format_edit_candidate_json_def split: if_splits)
  have "parse_candidate v = Inr c" using v by (cases "json_shape v") (simp split: if_splits)
  then show ?thesis using parse_candidate_bounds by blast
qed

lemma parse_structured_candidate_ok:
  "parse_structured_candidate_json from_slice from_value raw = Some c \<Longrightarrow> candidate_within_bounds c"
  by (auto simp: parse_structured_candidate_json_def bind_eq_Some_conv split: if_splits prod.splits)

lemma exchange_ok:
  assumes "exchange from_slice from_value cl response small_edit = Inr payload"
  shows "attempt_ok small_edit
    (case payload of DerivationPayload c \<Rightarrow> attempt_success c | FormatEditsPayload c \<Rightarrow> attempt_format_edits c)"
proof -
  obtain envelope where "extract_payload from_slice from_value envelope small_edit = Inr payload"
    using assms by (auto simp: exchange_def)
  then obtain content where e: "(if small_edit
      then (case parse_format_edit_candidate_json from_slice content of
              Inr candidate \<Rightarrow> Inr (FormatEditsPayload candidate) | Inl _ \<Rightarrow> Inl CandidateSchema)
      else (case parse_structured_candidate_json from_slice from_value content of
              Some candidate \<Rightarrow> Inr (DerivationPayload candidate) | None \<Rightarrow> Inl CandidateSchema)) = Inr payload"
    by (auto simp: extract_payload_def)
  show ?thesis
  proof (cases small_edit)
    case True
    then obtain c where "parse_format_edit_candidate_json from_slice content = Inr c" "payload = FormatEditsPayload c"
      using e by (auto split: sum.splits)
    then show ?thesis using True parse_edit_candidate_ok [of from_slice content c] by (auto simp: attempt_ok_def)
  next
    case False
    then obtain c where "parse_structured_candidate_json from_slice from_value content = Some c" "payload = DerivationPayload c"
      using e by (auto split: option.splits)
    then show ?thesis using False parse_structured_candidate_ok [of from_slice from_value content c] by (auto simp: attempt_ok_def)
  qed
qed

text \<open>
  Claim C30. A cloud attempt is one exchange at most and ends in exactly one result: it sends nothing, or
  the one body built from a bounded request with time left; and it is a failure with its error class, or
  a candidate of the kind the caller asked for, within the contract's bounds, whatever the provider
  answered.
\<close>
theorem dpr_attempt_contract:
  "case attempt_groq to_string from_slice from_value send built_in timed_out cl rq remaining of (a, sent) \<Rightarrow>
     attempt_ok (rq_small_edit rq) a
     \<and> (sent = [] \<or> sent = [build_groq_request to_string rq] \<and> request_is_bounded rq \<and> built_in < remaining)"
proof -
  let ?x = "exchange from_slice from_value cl (send (build_groq_request to_string rq)) (rq_small_edit rq)"
  have fail: "attempt_ok b (attempt_failure e)" for b e by (auto simp: attempt_ok_def)
  show ?thesis
  proof (cases ?x)
    case (Inr payload)
    then show ?thesis
      using exchange_ok [OF Inr] fail by (cases payload) (auto simp: attempt_groq_def Let_def)
  qed (auto simp: attempt_groq_def Let_def fail)
qed

text \<open>The body stays within its bound, and a client exists only for a safe endpoint.\<close>

lemma read_chunks_bounded: "read_chunks m body cs = Inr out \<Longrightarrow> length body \<le> m \<Longrightarrow> m < u64_max \<Longrightarrow> length out \<le> m"
  by (induction m body cs rule: read_chunks.induct) (auto simp: sat_add_u64_def split: if_splits)

theorem client_endpoint_safe:
  assumes "with_config parse built endpoint bound = Inr cl"
  shows "\<exists>url. parse endpoint = Some url \<and> cl_endpoint cl = endpoint \<and> url_username url = [] \<and> url_password url = None
    \<and> (url_scheme url = ''https'' \<or> url_scheme url = ''http'' \<and> parsed_host_is_loopback url)"
  using assms by (auto simp: with_config_def endpoint_is_allowed_def endpoint_authority_is_allowed_def split: if_splits option.splits)

text \<open>The formatting request carries the selected source itself, not more than a bounded number of bytes of it.\<close>

theorem format_request_carries_base:
  assumes "list_all is_scalar (rq_selected_source rq)" "request_is_bounded rq"
  shows "\<exists>s. json_get (format_edit_payload rq) ''base_text'' = Some (JString s) \<and> str_chars s = rq_selected_source rq
    \<and> length s \<le> MAX_DPR_SOURCE_UTF8_BYTES"
  using assms by (auto simp: json_get_def format_edit_payload_def str_chars_utf8 utf8_string_length request_is_bounded_def not_less
      split: if_splits)

end
