(* ===== verification/Dpr_Sources.thy ===== *)
theory Dpr_Sources
  imports Dpr_Cloud Decision
begin

text \<open>
  The network-free half of Developer Prompt Rendering, \<open>crates/voisu-cloud/src/dpr_local.rs\<close>: which Source
  Transcript is selected, when two of them merge, and which atoms are protected.

  \<open>organize_local_baseline\<close> is an argument here: the theorems hold whatever the local formatter renders.
  The two loops over the tokens of the sources walk the remaining tokens.
\<close>

section \<open>Tokens\<close>

definition trim_matches :: "('a \<Rightarrow> bool) \<Rightarrow> 'a list \<Rightarrow> 'a list" where
  "trim_matches P t = trim_end_matches P (trim_start_matches P t)"

definition anchor_key :: "unicode \<Rightarrow> utext \<Rightarrow> utext" where
  "anchor_key u token = ascii_lower_text (trim_matches (\<lambda>c. \<not> is_alphanumeric u c) token)"

definition token_anchor_eq :: "unicode \<Rightarrow> utext \<Rightarrow> utext \<Rightarrow> bool" where
  "token_anchor_eq u l r \<longleftrightarrow> anchor_key u l \<noteq> [] \<and> anchor_key u l = anchor_key u r"

definition safe_complement_token :: "utext \<Rightarrow> bool" where
  "safe_complement_token token \<longleftrightarrow>
     list_ex ascii_digit token \<or> contains_text (lit ''//'') token \<or> list_ex (\<lambda>c. c = 47) token \<or> list_ex (\<lambda>c. c = 92) token
     \<or> starts_with (lit ''-'') token \<or> list_ex (\<lambda>c. c = 95) token \<or> contains_text (lit ''::'') token
     \<or> list_ex (\<lambda>c. c \<in> set (lit ''()[]{}=@'')) token"

definition normalized_source_words :: "unicode \<Rightarrow> utext \<Rightarrow> utext list" where
  "normalized_source_words u t =
     map (to_lowercase u) (filter (\<lambda>w. w \<noteq> []) (split_on (\<lambda>c. \<not> is_alphanumeric u c \<and> c \<noteq> 39) t))"

definition closed_negations :: "utext list" where
  "closed_negations =
     map lit [''no'', ''not'', ''never'', ''cannot'', ''can't'', ''cant'', ''don't'', ''dont'', ''won't'', ''wont'', ''isn't'', ''isnt'',
       ''aren't'', ''arent'', ''ain't'', ''aint'']"

definition is_closed_negation :: "utext \<Rightarrow> bool" where
  "is_closed_negation token \<longleftrightarrow> ascii_lower_text token \<in> set closed_negations"

section \<open>Protected atoms\<close>

definition push_protected :: "utext \<Rightarrow> utext \<Rightarrow> utext list \<Rightarrow> utext list" where
  "push_protected source token protected =
     (if MAX_DPR_PROTECTED_TOKENS \<le> length protected \<or> token = [] \<or> MAX_COMPOSE_FIELD_UTF8_BYTES < byte_len token
         \<or> \<not> contains_text token source \<or> token \<in> set protected
      then protected else protected @ [token])"

definition is_dot_technical_token :: "utext \<Rightarrow> bool" where
  "is_dot_technical_token token \<longleftrightarrow>
     (if 2 \<le> length token \<and> token ! 0 = 46 \<and> ascii_alnum (token ! 1) then True
      else list_ex (\<lambda>w. w ! 1 = 46 \<and> ascii_alnum (w ! 0) \<and> ascii_alnum (w ! 2)) (windows 3 token))"

definition technical_token :: "utext \<Rightarrow> bool" where
  "technical_token token \<longleftrightarrow>
     list_ex ascii_digit token \<or> contains_text (lit ''://'') token \<or> list_ex (\<lambda>c. c = 47) token \<or> list_ex (\<lambda>c. c = 92) token
     \<or> starts_with (lit ''-'') token \<or> list_ex (\<lambda>c. c = 95) token \<or> contains_text (lit ''::'') token
     \<or> list_ex (\<lambda>c. c \<in> set (lit ''()[]{}=@'')) token \<or> is_dot_technical_token token"

text \<open>The characters trimmed off a raw token: comma, semicolon, the marks and the quotes.\<close>

definition token_edge :: "nat \<Rightarrow> bool" where
  "token_edge c \<longleftrightarrow> c \<in> {44, 59, 33, 63, 34, 39, 96}"

definition dpr_protected_tokens :: "utext \<Rightarrow> utext list \<Rightarrow> utext list" where
  "dpr_protected_tokens selected_source dictionary_terms =
     (let tokens = filter (\<lambda>t. is_closed_negation t \<or> technical_token t) (map (trim_matches token_edge) (split_whitespace selected_source));
          quoted = delimited (lit ''quote '') (lit '' unquote'') (ascii_lower_text selected_source) selected_source 0;
          marked = delimited [34] [34] selected_source selected_source 0
      in fold (push_protected selected_source) (tokens @ quoted @ marked @ dictionary_terms) [])"

definition protected_atoms_disagree :: "utext \<Rightarrow> utext \<Rightarrow> utext list \<Rightarrow> bool" where
  "protected_atoms_disagree l r dictionary_terms \<longleftrightarrow>
     list_ex (\<lambda>t. \<not> contains_text t r) (filter (\<lambda>t. \<not> is_closed_negation t) (dpr_protected_tokens l dictionary_terms))
     \<or> list_ex (\<lambda>t. \<not> contains_text t l) (filter (\<lambda>t. \<not> is_closed_negation t) (dpr_protected_tokens r dictionary_terms))"

section \<open>The insertion-only merge\<close>

definition MAX_SAFE_COMPLEMENT_TOKENS :: nat where "MAX_SAFE_COMPLEMENT_TOKENS = 128"

text \<open>The anchors in the order of the two loops; the first one of the smallest distance wins.\<close>

definition anchors :: "unicode \<Rightarrow> utext list \<Rightarrow> utext list \<Rightarrow> (nat \<times> nat) list" where
  "anchors u ls rs =
     concat (map (\<lambda>i. map (\<lambda>j. (i, j)) (filter (\<lambda>j. token_anchor_eq u (ls ! i) (rs ! j)) [0..<length rs])) [0..<length ls])"

definition nearer :: "nat \<times> nat \<Rightarrow> (nat \<times> nat) option \<Rightarrow> (nat \<times> nat) option" where
  "nearer a best = (case best of None \<Rightarrow> Some a | Some b \<Rightarrow> if fst a + snd a < fst b + snd b then Some a else best)"

definition next_anchor :: "unicode \<Rightarrow> utext list \<Rightarrow> utext list \<Rightarrow> (nat \<times> nat) option" where
  "next_anchor u ls rs = fold nearer (anchors u ls rs) None"

lemma next_anchor_in: "next_anchor u ls rs = Some a \<Longrightarrow> a \<in> set (anchors u ls rs)"
proof -
  have "fold nearer as best = Some a \<Longrightarrow> a \<in> set as \<or> best = Some a" for as best
    by (induction as arbitrary: best) (fastforce simp: nearer_def split: option.splits if_splits)+
  then show "next_anchor u ls rs = Some a \<Longrightarrow> a \<in> set (anchors u ls rs)" unfolding next_anchor_def by blast
qed

lemma next_anchor_eq:
  assumes "next_anchor u ls rs = Some (i, j)"
  shows "i < length ls \<and> j < length rs \<and> token_anchor_eq u (ls ! i) (rs ! j)"
  using next_anchor_in [OF assms] by (auto simp: anchors_def)

definition gap_ok :: "utext list \<Rightarrow> utext list \<Rightarrow> bool" where
  "gap_ok lg rg \<longleftrightarrow> (lg = [] \<or> rg = []) \<and> list_all safe_complement_token (lg @ rg)"

record merge_state =
  ms_merged :: "utext list"
  ms_shared :: nat
  ms_left :: bool
  ms_right :: bool

definition merge_gap :: "utext list \<Rightarrow> utext list \<Rightarrow> merge_state \<Rightarrow> merge_state" where
  "merge_gap lg rg st =
     st\<lparr>ms_merged := ms_merged st @ lg @ rg, ms_left := ms_left st \<or> lg \<noteq> [], ms_right := ms_right st \<or> rg \<noteq> []\<rparr>"

definition merge_anchor :: "utext \<Rightarrow> merge_state \<Rightarrow> merge_state" where
  "merge_anchor token st = st\<lparr>ms_merged := ms_merged st @ [token], ms_shared := ms_shared st + 1\<rparr>"

function merge_from :: "unicode \<Rightarrow> utext list \<Rightarrow> utext list \<Rightarrow> merge_state \<Rightarrow> merge_state option" where
  "merge_from u ls rs st =
     (if ls = [] \<and> rs = [] then Some st
      else case next_anchor u ls rs of
             None \<Rightarrow> (if gap_ok ls rs then Some (merge_gap ls rs st) else None)
           | Some (i, j) \<Rightarrow>
               (if gap_ok (take i ls) (take j rs)
                then merge_from u (drop (i + 1) ls) (drop (j + 1) rs) (merge_anchor (ls ! i) (merge_gap (take i ls) (take j rs) st))
                else None))"
  by pat_completeness auto
termination
  by (relation "measure (\<lambda>(u, ls, rs, st). length ls + length rs)") (auto dest!: next_anchor_eq)

declare merge_from.simps [simp del]

fun join_tokens :: "utext list \<Rightarrow> utext" where
  "join_tokens [] = []"
| "join_tokens [t] = t"
| "join_tokens (t # ts) = t @ [32] @ join_tokens ts"

definition merge_insertion_only_sources :: "unicode \<Rightarrow> utext \<Rightarrow> utext \<Rightarrow> utext option" where
  "merge_insertion_only_sources u l r =
     (let ls = split_whitespace l; rs = split_whitespace r
      in if ls = [] \<or> rs = [] \<or> MAX_SAFE_COMPLEMENT_TOKENS < length ls \<or> MAX_SAFE_COMPLEMENT_TOKENS < length rs then None
         else case merge_from u ls rs \<lparr>ms_merged = [], ms_shared = 0, ms_left = False, ms_right = False\<rparr> of
                None \<Rightarrow> None
              | Some st \<Rightarrow> (if 2 \<le> ms_shared st \<and> ms_left st \<and> ms_right st then Some (join_tokens (ms_merged st)) else None))"

section \<open>The source context\<close>

record dpr_context =
  dc_selected_source :: utext
  dc_sources :: "compose_source list"
  dc_selection :: source_selection
  dc_provider_state :: provider_state
  dc_transcript_selection :: transcript_selection

definition select_source :: "source_transcript list \<Rightarrow> source_transcript option" where
  "select_source available =
     (case find (\<lambda>s. st_provider s = Groq) available of
        Some s \<Rightarrow> Some s
      | None \<Rightarrow> (case available of s # _ \<Rightarrow> Some s | [] \<Rightarrow> None))"

definition context_of ::
  "unicode \<Rightarrow> utext list \<Rightarrow> source_transcript list \<Rightarrow> source_transcript \<Rightarrow> dpr_context" where
  "context_of u dictionary_terms available selected =
     (let first = st_text (available ! 0);
          exact_agreement = (1 < length available \<and> list_all (\<lambda>s. st_text s = first) available);
          punctuation_only_agreement = (1 < length available \<and> \<not> exact_agreement
             \<and> list_all (\<lambda>s. normalized_source_words u (st_text s) = normalized_source_words u first) available);
          other = find (\<lambda>s. st_provider s \<noteq> st_provider selected) available;
          safe_complementary = (if length available = 2 \<and> \<not> exact_agreement \<and> \<not> punctuation_only_agreement
             then Option.bind other (\<lambda>o'. merge_insertion_only_sources u (st_text selected) (st_text o')) else None);
          protected_disagreement = (safe_complementary = None \<and>
             (case other of Some o' \<Rightarrow> protected_atoms_disagree (st_text selected) (st_text o') dictionary_terms | None \<Rightarrow> False));
          provider_state = (if length available \<le> 1 then SingleProvider
             else if exact_agreement then ExactAgreement
             else if punctuation_only_agreement then PunctuationOnlyAgreement
             else if safe_complementary \<noteq> None then SafeComplementary
             else if protected_disagreement then ProtectedTokenDisagreement
             else SemanticDisagreement);
          reason = (if length available \<le> 1 then ''only_available''
             else if exact_agreement then ''exact_agreement''
             else if punctuation_only_agreement then ''punctuation_local_render''
             else if safe_complementary \<noteq> None then ''safe_complementary_merge''
             else ''configured_primary_rank'')
      in \<lparr>dc_selected_source = (case safe_complementary of Some t \<Rightarrow> t | None \<Rightarrow> st_text selected),
          dc_sources = \<lparr>cs_provider = ProviderA, cs_available = True, cs_text = st_text selected, cs_primary = True\<rparr>
             # (case other of
                  Some o' \<Rightarrow> [\<lparr>cs_provider = ProviderB, cs_available = True, cs_text = st_text o', cs_primary = False\<rparr>]
                | None \<Rightarrow> []),
          dc_selection = \<lparr>sel_provider = ProviderA, sel_reason = reason\<rparr>,
          dc_provider_state = provider_state,
          dc_transcript_selection = (if provider_state = SafeComplementary then Complementary
             else case st_provider selected of
                    Groq \<Rightarrow> (if punctuation_only_agreement then NearIdenticalGroq else SourceGroq)
                  | Deepgram \<Rightarrow> SourceDeepgram)\<rparr>)"

definition dpr_source_context :: "unicode \<Rightarrow> source_transcript list \<Rightarrow> utext list \<Rightarrow> dpr_context option" where
  "dpr_source_context u ss dictionary_terms =
     (let available = filter (\<lambda>s. st_text s \<noteq> []) (sanitize_source_transcripts u ss)
      in map_option (context_of u dictionary_terms available) (select_source available))"

section \<open>The local render\<close>

text \<open>The organizer at the options every caller here passes: a policy, a route and no timing.\<close>

type_synonym organize = "utext \<Rightarrow> rendering_policy \<Rightarrow> rendering_route \<Rightarrow> utext"

definition route_and_organize_local :: "regexes \<Rightarrow> organize \<Rightarrow> intent_observation \<Rightarrow> routing_decision \<times> utext" where
  "route_and_organize_local rx organize ob =
     (let routing = route_intent rx ob
      in (routing, organize (io_primary_text ob) (io_policy ob) (rd_route routing)))"

definition render_dpr_local ::
  "unicode \<Rightarrow> regexes \<Rightarrow> organize \<Rightarrow> utext \<Rightarrow> source_transcript list \<Rightarrow> utext list \<Rightarrow> rendering_policy \<Rightarrow> utext option" where
  "render_dpr_local u rx organize validated ss dictionary_terms policy =
     map_option (\<lambda>ctx. snd (route_and_organize_local rx organize
         \<lparr>io_policy = policy, io_primary_text = validated, io_provider_state = dc_provider_state ctx, io_surface_hint = None,
          io_process_hint = None, io_timing = None\<rparr>))
       (dpr_source_context u ss dictionary_terms)"

section \<open>What a merge keeps\<close>

lemma split_whitespace_word:
  assumes "w \<noteq> []" "list_all (\<lambda>c. \<not> is_whitespace c) w"
  shows "split_whitespace w = [w]" "split_whitespace (w @ 32 # t) = w # split_whitespace t"
proof -
  have "split_on is_whitespace w = [w]" "split_on is_whitespace (w @ 32 # t) = w # split_on is_whitespace t"
    using assms(2) by (induction w) (simp_all add: is_whitespace_def)
  then show "split_whitespace w = [w]" "split_whitespace (w @ 32 # t) = w # split_whitespace t"
    using assms(1) by (simp_all add: split_whitespace_def)
qed

lemma split_on_words: "w \<in> set (split_on P t) \<Longrightarrow> list_all (\<lambda>c. \<not> P c) w"
  by (induction t arbitrary: w) (fastforce split: if_splits list.splits)+

lemma split_join:
  "list_all (\<lambda>w. w \<noteq> [] \<and> list_all (\<lambda>c. \<not> is_whitespace c) w) ts \<Longrightarrow> split_whitespace (join_tokens ts) = ts"
proof (induction ts rule: join_tokens.induct)
  case 1
  then show ?case by (simp add: split_whitespace_def)
next
  case (2 t)
  then show ?case using split_whitespace_word(1) by simp
next
  case (3 t t' ts)
  then show ?case using split_whitespace_word(2) [of t "join_tokens (t' # ts)"] by simp
qed

text \<open>Two tokens are the same up to the edges and the case the anchors ignore.\<close>

definition same_token :: "unicode \<Rightarrow> utext \<Rightarrow> utext \<Rightarrow> bool" where
  "same_token u a b \<longleftrightarrow> a = b \<or> token_anchor_eq u a b"

definition merges :: "unicode \<Rightarrow> utext list \<Rightarrow> utext list \<Rightarrow> utext list \<Rightarrow> bool" where
  "merges u ls rs ms \<longleftrightarrow>
     subseq ls ms \<and> (\<exists>ks. subseq ks ms \<and> list_all2 (same_token u) ks rs)
     \<and> list_all (\<lambda>m. m \<in> set ls \<or> m \<in> set rs \<and> safe_complement_token m) ms"

lemma same_refl: "list_all2 (same_token u) ts ts"
  by (simp add: list_all2_refl same_token_def)

lemma merges_gap:
  assumes "gap_ok lg rg"
  shows "merges u lg rg (lg @ rg)"
  using assms same_refl by (auto simp: merges_def gap_ok_def list_all_iff)

lemma merges_append:
  assumes "merges u ls rs ms" "merges u ls' rs' ms'"
  shows "merges u (ls @ ls') (rs @ rs') (ms @ ms')"
proof -
  obtain ks ks' where "subseq ks ms" "list_all2 (same_token u) ks rs" "subseq ks' ms'" "list_all2 (same_token u) ks' rs'"
    using assms by (auto simp: merges_def)
  then have "subseq (ks @ ks') (ms @ ms')" "list_all2 (same_token u) (ks @ ks') (rs @ rs')"
    by (auto intro: list_emb_append_mono list_all2_appendI)
  then show ?thesis using assms by (auto simp: merges_def list_all_iff intro: list_emb_append_mono)
qed

lemma merges_anchor: "token_anchor_eq u l r \<Longrightarrow> merges u [l] [r] [l]"
  by (auto simp: merges_def same_token_def intro!: exI [of _ "[l]"])

lemma merge_from_merges:
  "merge_from u ls rs st = Some st' \<Longrightarrow> \<exists>ms. ms_merged st' = ms_merged st @ ms \<and> merges u ls rs ms"
proof (induction u ls rs st arbitrary: st' rule: merge_from.induct)
  case (1 u ls rs st)
  consider "ls = []" "rs = []" | "\<not> (ls = [] \<and> rs = [])" "next_anchor u ls rs = None"
    | i j where "\<not> (ls = [] \<and> rs = [])" "next_anchor u ls rs = Some (i, j)"
    by (cases "next_anchor u ls rs") auto
  then show ?case
  proof cases
    case 1
    then show ?thesis using 1 "1.prems" merges_gap [of "[]" "[]" u] by (auto simp: merge_from.simps gap_ok_def)
  next
    case 2
    then have g: "gap_ok ls rs" "st' = merge_gap ls rs st" using "1.prems" by (auto simp: merge_from.simps [of u ls rs st] split: if_splits)
    then show ?thesis using merges_gap [OF g(1), of u] by (auto simp: merge_gap_def)
  next
    case (3 i j)
    let ?st = "merge_anchor (ls ! i) (merge_gap (take i ls) (take j rs) st)"
    have a: "i < length ls" "j < length rs" "token_anchor_eq u (ls ! i) (rs ! j)" using next_anchor_eq [OF 3(2)] by auto
    have g: "gap_ok (take i ls) (take j rs)" and r: "merge_from u (drop (i + 1) ls) (drop (j + 1) rs) ?st = Some st'"
      using "1.prems" 3 by (auto simp: merge_from.simps [of u ls rs st] split: if_splits)
    obtain ms where ms: "ms_merged st' = ms_merged ?st @ ms" "merges u (drop (i + 1) ls) (drop (j + 1) rs) ms"
      using "1.IH" [OF 3(1) 3(2) refl g r] by blast
    have "merges u ((take i ls @ [ls ! i]) @ drop (i + 1) ls) ((take j rs @ [rs ! j]) @ drop (j + 1) rs)
        (((take i ls @ take j rs) @ [ls ! i]) @ ms)"
      by (intro merges_append merges_gap merges_anchor g a ms)
    then show ?thesis using ms(1) a by (auto simp: merge_anchor_def merge_gap_def id_take_nth_drop [symmetric])
  qed
qed

lemma merges_words:
  assumes "merges u (split_whitespace l) (split_whitespace r) ms"
  shows "list_all (\<lambda>w. w \<noteq> [] \<and> list_all (\<lambda>c. \<not> is_whitespace c) w) ms"
  using assms by (auto simp: merges_def list_all_iff split_whitespace_def dest!: split_on_words)

lemma merge_tokens:
  assumes "merge_insertion_only_sources u l r = Some t"
  shows "merges u (split_whitespace l) (split_whitespace r) (split_whitespace t)"
proof -
  obtain st where st: "merge_from u (split_whitespace l) (split_whitespace r)
      \<lparr>ms_merged = [], ms_shared = 0, ms_left = False, ms_right = False\<rparr> = Some st" "t = join_tokens (ms_merged st)"
    using assms by (auto simp: merge_insertion_only_sources_def Let_def split: if_splits option.splits)
  have m: "merges u (split_whitespace l) (split_whitespace r) (ms_merged st)" using merge_from_merges [OF st(1)] by simp
  show ?thesis using m split_join [OF merges_words [OF m]] st(2) by simp
qed

text \<open>
  Claim C29. Merging two Source Transcripts invents and loses nothing. Every word of the selected source is in
  the merged text, in its order; so is every word of the other one, up to the punctuation and the case of
  a word both have; and a word that is not in the selected source comes from the other one and is a
  technical token (a digit, a path, a flag, a bracket), never plain prose.
\<close>
theorem merge_keeps_both_sources:
  assumes "merge_insertion_only_sources u l r = Some t"
  shows "subseq (split_whitespace l) (split_whitespace t)
    \<and> (\<exists>ks. subseq ks (split_whitespace t) \<and> list_all2 (same_token u) ks (split_whitespace r))
    \<and> list_all (\<lambda>w. w \<in> set (split_whitespace l) \<or> w \<in> set (split_whitespace r) \<and> safe_complement_token w) (split_whitespace t)"
  using merge_tokens [OF assms] by (simp only: merges_def)

theorem merge_keeps_both_sources_witness:
  "merge_insertion_only_sources ascii (lit ''run --all now'') (lit ''Run, now 2x'') = Some (lit ''run --all now 2x'')
   \<and> (\<exists>ks. subseq ks (split_whitespace (lit ''run --all now 2x'')) \<and> list_all2 (same_token ascii) ks (split_whitespace (lit ''Run, now 2x'')))"
proof -
  have m: "merge_insertion_only_sources ascii (lit ''run --all now'') (lit ''Run, now 2x'') = Some (lit ''run --all now 2x'')" by code_simp
  show ?thesis using merge_keeps_both_sources [OF m] m by blast
qed

section \<open>Protected atoms are bounded\<close>

definition protected_ok :: "utext \<Rightarrow> utext list \<Rightarrow> bool" where
  "protected_ok source protected \<longleftrightarrow>
     length protected \<le> MAX_DPR_PROTECTED_TOKENS \<and> distinct protected
     \<and> list_all (\<lambda>t. t \<noteq> [] \<and> byte_len t \<le> MAX_COMPOSE_FIELD_UTF8_BYTES \<and> contains_text t source) protected"

lemma push_protected_ok: "protected_ok source p \<Longrightarrow> protected_ok source (push_protected source t p)"
  by (auto simp: protected_ok_def push_protected_def)

lemma protected_tokens_ok: "protected_ok t (dpr_protected_tokens t terms)"
proof -
  have "protected_ok t p \<Longrightarrow> protected_ok t (fold (push_protected t) ts p)" for ts p
    by (induction ts arbitrary: p) (simp_all add: push_protected_ok)
  moreover have "protected_ok t []" by (simp add: protected_ok_def)
  ultimately show ?thesis by (simp add: dpr_protected_tokens_def Let_def)
qed

section \<open>What the context holds\<close>

lemma select_source_in: "select_source available = Some s \<Longrightarrow> s \<in> set available"
  by (auto simp: select_source_def dest: find_SomeD split: option.splits list.splits)

definition context_ok :: "unicode \<Rightarrow> source_transcript list \<Rightarrow> dpr_context \<Rightarrow> bool" where
  "context_ok u available ctx \<longleftrightarrow>
     sel_provider (dc_selection ctx) = ProviderA \<and> sel_reason (dc_selection ctx) \<in> set CLOSED_SOURCE_SELECTION_REASONS
     \<and> map cs_provider (dc_sources ctx) \<in> {[ProviderA], [ProviderA, ProviderB]} \<and> list_all cs_available (dc_sources ctx)
     \<and> map cs_primary (dc_sources ctx) \<in> {[True], [True, False]}
     \<and> set (map cs_text (dc_sources ctx)) \<subseteq> set (map st_text available) \<and> list_all (\<lambda>s. cs_text s \<noteq> []) (dc_sources ctx)
     \<and> (if dc_provider_state ctx = SafeComplementary
        then dc_transcript_selection ctx = Complementary
             \<and> merges u (split_whitespace (cs_text (dc_sources ctx ! 0))) (split_whitespace (cs_text (dc_sources ctx ! 1)))
                 (split_whitespace (dc_selected_source ctx))
        else dc_selected_source ctx = cs_text (dc_sources ctx ! 0) \<and> dc_transcript_selection ctx \<noteq> Complementary)"

lemma context_of_ok:
  assumes sel: "selected \<in> set available" and ne: "\<forall>s\<in>set available. st_text s \<noteq> []"
  shows "context_ok u available (context_of u terms available selected)"
proof -
  let ?other = "find (\<lambda>s. st_provider s \<noteq> st_provider selected) available"
  have other: "?other = Some o' \<Longrightarrow> o' \<in> set available" for o' using find_SomeD by metis
  have merge: "Option.bind ?other (\<lambda>o'. merge_insertion_only_sources u (st_text selected) (st_text o')) = Some t \<Longrightarrow>
      \<exists>o'. ?other = Some o' \<and> merges u (split_whitespace (st_text selected)) (split_whitespace (st_text o')) (split_whitespace t)" for t
    using merge_tokens by (auto simp: bind_eq_Some_conv)
  have reasons: "''only_available'' \<in> set CLOSED_SOURCE_SELECTION_REASONS" "''exact_agreement'' \<in> set CLOSED_SOURCE_SELECTION_REASONS"
    "''punctuation_local_render'' \<in> set CLOSED_SOURCE_SELECTION_REASONS" "''safe_complementary_merge'' \<in> set CLOSED_SOURCE_SELECTION_REASONS"
    "''configured_primary_rank'' \<in> set CLOSED_SOURCE_SELECTION_REASONS"
    by (simp_all add: CLOSED_SOURCE_SELECTION_REASONS_def)
  show ?thesis
    unfolding context_ok_def
  proof (intro conjI)
    show "sel_reason (dc_selection (context_of u terms available selected)) \<in> set CLOSED_SOURCE_SELECTION_REASONS"
      using reasons by (simp add: context_of_def Let_def)
    show "set (map cs_text (dc_sources (context_of u terms available selected))) \<subseteq> set (map st_text available)"
      using sel other by (auto simp: context_of_def Let_def split: option.splits)
    show "list_all (\<lambda>s. cs_text s \<noteq> []) (dc_sources (context_of u terms available selected))"
      using sel ne other by (auto simp: context_of_def Let_def split: option.splits)
    show "if dc_provider_state (context_of u terms available selected) = SafeComplementary
        then dc_transcript_selection (context_of u terms available selected) = Complementary
             \<and> merges u (split_whitespace (cs_text (dc_sources (context_of u terms available selected) ! 0)))
                 (split_whitespace (cs_text (dc_sources (context_of u terms available selected) ! 1)))
                 (split_whitespace (dc_selected_source (context_of u terms available selected)))
        else dc_selected_source (context_of u terms available selected) = cs_text (dc_sources (context_of u terms available selected) ! 0)
             \<and> dc_transcript_selection (context_of u terms available selected) \<noteq> Complementary"
      using merge by (fastforce simp: context_of_def Let_def split: option.splits if_splits provider.splits)
  qed (simp_all add: context_of_def Let_def split: option.split)
qed

lemma context_available:
  assumes "dpr_source_context u ss terms = Some ctx"
  shows "context_ok u (filter (\<lambda>s. st_text s \<noteq> []) (sanitize_source_transcripts u ss)) ctx"
proof -
  let ?available = "filter (\<lambda>s. st_text s \<noteq> []) (sanitize_source_transcripts u ss)"
  obtain s where s: "select_source ?available = Some s" "ctx = context_of u terms ?available s"
    using assms by (auto simp: dpr_source_context_def Let_def)
  show ?thesis unfolding s(2) by (rule context_of_ok [OF select_source_in [OF s(1)]]) simp
qed

text \<open>
  A source context exists exactly when some Source Transcript has text after sanitizing. It names
  one or two available sources, the selected one first, each with the text of a sanitized source; the
  reason is one the compose contract knows; and the selected source is the first one's text, or the
  insertion-only merge of both.
\<close>
theorem source_context_contract:
  "let available = filter (\<lambda>s. st_text s \<noteq> []) (sanitize_source_transcripts u ss)
   in case dpr_source_context u ss terms of None \<Rightarrow> available = [] | Some ctx \<Rightarrow> available \<noteq> [] \<and> context_ok u available ctx"
proof -
  let ?available = "filter (\<lambda>s. st_text s \<noteq> []) (sanitize_source_transcripts u ss)"
  show ?thesis
  proof (cases "select_source ?available")
    case None
    then show ?thesis by (auto simp: dpr_source_context_def Let_def select_source_def split: option.splits list.splits)
  next
    case (Some s)
    have "?available \<noteq> []" using select_source_in [OF Some] by (metis empty_iff list.set(1))
    then show ?thesis using context_available [of u ss terms] by (simp add: dpr_source_context_def Let_def Some)
  qed
qed

end
