(* ===== verification/Dpr_Diagnostics.thy ===== *)
theory Dpr_Diagnostics
  imports Compose_Gate
begin

text \<open>
  The diagnostic record of Developer Prompt Rendering, \<open>crates/voisu-core/src/dpr_diagnostics.rs\<close>: a bounded
  timeline of closed events with the compose result and fixed Delivery evidence. The evaluation lane
  is compiled out of default builds and is not part of the model. The theorem: whatever the pipeline
  records, in whatever order, the record stays well formed, and storing it changes nothing.
\<close>

definition DPR_DIAGNOSTIC_VERSION :: nat where "DPR_DIAGNOSTIC_VERSION = 1"
definition MAX_DPR_DIAGNOSTIC_EVENTS :: nat where "MAX_DPR_DIAGNOSTIC_EVENTS = 24"
definition DPR_LOCAL_FALLBACK_MESSAGE :: string where "DPR_LOCAL_FALLBACK_MESSAGE = ''Local formatting used''"

datatype dpr_diagnostic_mode = Production

datatype dpr_diagnostic_event_name =
    RouteSelected
  | CloudSkipped
  | CloudRequestStarted
  | CloudResponseReceived
  | CloudDeadlineExceeded
  | ProviderFailed
  | SchemaValidationFailed
  | SourceDerivationFailed
  | CompositionAccepted
  | FallbackBaselineSelected
  | DeliveryEmitted
  | LateResultDiscarded

record dpr_diagnostic_event =
  de_name :: dpr_diagnostic_event_name
  de_t_ms :: nat

datatype dpr_feedback_kind = Silent | MinimalStatus

record dpr_delivery_evidence =
  dv_state :: string
  dv_auto_send :: bool
  dv_live_type :: bool
  dv_replace_delivered :: bool

record dpr_span_adjudication =
  da_total :: nat
  da_applied :: nat
  da_rejected :: "(nat \<times> compose_error_code) list"

definition u32_or_max :: "nat \<Rightarrow> nat" where
  "u32_or_max n = min n (2 ^ 32 - 1)"

definition from_summary :: "span_summary \<Rightarrow> dpr_span_adjudication" where
  "from_summary s = \<lparr>da_total = u32_or_max (ss_total s), da_applied = u32_or_max (ss_applied s),
     da_rejected = map (\<lambda>(i, reason). (u32_or_max i, reason)) (ss_rejected s)\<rparr>"

definition from_flags :: "delivery_flags \<Rightarrow> dpr_delivery_evidence" where
  "from_flags f = \<lparr>dv_state = df_state f, dv_auto_send = df_auto_send f, dv_live_type = df_live_type f,
     dv_replace_delivered = df_replace_delivered f\<rparr>"

definition evidence_default :: dpr_delivery_evidence where
  "evidence_default = \<lparr>dv_state = DELIVERY_STATE_UNSENT, dv_auto_send = DELIVERY_AUTO_SEND, dv_live_type = DELIVERY_LIVE_TYPE,
     dv_replace_delivered = DELIVERY_REPLACE_DELIVERED\<rparr>"

record dpr_diagnostic =
  dd_version :: nat
  dd_mode :: dpr_diagnostic_mode
  dd_route :: rendering_route
  dd_cloud_request :: cloud_request
  dd_rule_id :: rule_id
  dd_events :: "dpr_diagnostic_event list"
  dd_cloud_attempted :: bool
  dd_compose_decision :: "composition_decision option"
  dd_fallback_trigger :: "fallback_trigger option"
  dd_reason_codes :: "compose_error_code list"
  dd_span_adjudication :: "dpr_span_adjudication option"
  dd_feedback_kind :: dpr_feedback_kind
  dd_feedback_message :: "string option"
  dd_delivery :: dpr_delivery_evidence

definition duration_ms :: "duration \<Rightarrow> nat" where
  "duration_ms d = min (d div 1000000) u64_max"

definition has_event :: "dpr_diagnostic \<Rightarrow> dpr_diagnostic_event_name \<Rightarrow> bool" where
  "has_event d name \<longleftrightarrow> list_ex (\<lambda>e. de_name e = name) (dd_events d)"

definition push_event :: "dpr_diagnostic_event_name \<Rightarrow> duration \<Rightarrow> dpr_diagnostic \<Rightarrow> dpr_diagnostic" where
  "push_event name at d =
     (if MAX_DPR_DIAGNOSTIC_EVENTS \<le> length (dd_events d) \<or> has_event d name then d
      else let previous = (if dd_events d = [] then 0 else de_t_ms (last (dd_events d)))
           in d\<lparr>dd_events := dd_events d @ [\<lparr>de_name = name, de_t_ms = max (duration_ms at) previous\<rparr>]\<rparr>)"

definition dpr_new :: "dpr_diagnostic_mode \<Rightarrow> routing_decision \<Rightarrow> duration \<Rightarrow> dpr_diagnostic" where
  "dpr_new mode routing at =
     push_event RouteSelected at
       \<lparr>dd_version = DPR_DIAGNOSTIC_VERSION, dd_mode = mode, dd_route = rd_route routing, dd_cloud_request = rd_cloud_request routing,
        dd_rule_id = rd_rule_id routing, dd_events = [], dd_cloud_attempted = False, dd_compose_decision = None,
        dd_fallback_trigger = None, dd_reason_codes = [], dd_span_adjudication = None, dd_feedback_kind = Silent,
        dd_feedback_message = None, dd_delivery = evidence_default\<rparr>"

definition production :: "routing_decision \<Rightarrow> duration \<Rightarrow> dpr_diagnostic" where
  "production routing at = dpr_new Production routing at"

definition cloud_skipped :: "duration \<Rightarrow> dpr_diagnostic \<Rightarrow> dpr_diagnostic" where
  "cloud_skipped at d = push_event CloudSkipped at d"

definition cloud_request_started :: "duration \<Rightarrow> dpr_diagnostic \<Rightarrow> dpr_diagnostic" where
  "cloud_request_started at d = push_event CloudRequestStarted at (d\<lparr>dd_cloud_attempted := True\<rparr>)"

definition cloud_response_received :: "duration \<Rightarrow> dpr_diagnostic \<Rightarrow> dpr_diagnostic" where
  "cloud_response_received at d = (if \<not> dd_cloud_attempted d then d else push_event CloudResponseReceived at d)"

definition failure_event :: "fallback_trigger option \<Rightarrow> dpr_diagnostic_event_name option" where
  "failure_event trigger =
     (case trigger of
        Some DeadlineExceededTrigger \<Rightarrow> Some CloudDeadlineExceeded
      | Some ProviderFailureTrigger \<Rightarrow> Some ProviderFailed
      | Some ResponseSchemaFailure \<Rightarrow> Some SchemaValidationFailed
      | Some UnsafeSemantics \<Rightarrow> Some SourceDerivationFailed
      | Some UnverifiableSourceDerivation \<Rightarrow> Some SourceDerivationFailed
      | Some InvalidFixedLabel \<Rightarrow> Some SourceDerivationFailed
      | _ \<Rightarrow> None)"

definition composition_completed ::
  "composition_decision \<Rightarrow> fallback_trigger option \<Rightarrow> compose_error_code list \<Rightarrow> duration \<Rightarrow> dpr_diagnostic \<Rightarrow> dpr_diagnostic" where
  "composition_completed decision trigger codes at d =
     (if dd_compose_decision d \<noteq> None then d
      else let d1 = d\<lparr>dd_compose_decision := Some decision, dd_fallback_trigger := trigger,
                      dd_reason_codes := take MAX_DPR_DIAGNOSTIC_EVENTS codes\<rparr>;
               d2 = (case (if dd_cloud_attempted d1 then failure_event trigger else None) of
                       Some name \<Rightarrow> push_event name at d1 | None \<Rightarrow> d1)
           in if decision \<noteq> FallbackBaseline
              then (push_event CompositionAccepted at d2)\<lparr>dd_feedback_kind := Silent, dd_feedback_message := None\<rparr>
              else if dd_cloud_attempted d2 \<and> trigger \<noteq> None
              then (push_event FallbackBaselineSelected at d2)
                     \<lparr>dd_feedback_kind := MinimalStatus, dd_feedback_message := Some DPR_LOCAL_FALLBACK_MESSAGE\<rparr>
              else (push_event FallbackBaselineSelected at d2)\<lparr>dd_feedback_kind := Silent, dd_feedback_message := None\<rparr>)"

definition record_span_adjudication :: "span_summary \<Rightarrow> dpr_diagnostic \<Rightarrow> dpr_diagnostic" where
  "record_span_adjudication summary d =
     (let a = from_summary summary
      in d\<lparr>dd_span_adjudication := Some (a\<lparr>da_rejected := take MAX_DPR_DIAGNOSTIC_EVENTS (da_rejected a)\<rparr>)\<rparr>)"

definition delivery_emitted :: "duration \<Rightarrow> delivery_flags \<Rightarrow> dpr_diagnostic \<Rightarrow> dpr_diagnostic" where
  "delivery_emitted at flags d =
     (if dd_compose_decision d = None \<or> has_event d DeliveryEmitted then d
      else push_event DeliveryEmitted at (d\<lparr>dd_delivery := from_flags flags\<rparr>))"

definition late_result_discarded :: "duration \<Rightarrow> dpr_diagnostic \<Rightarrow> dpr_diagnostic" where
  "late_result_discarded at d = (if \<not> has_event d DeliveryEmitted then d else push_event LateResultDiscarded at d)"

text \<open>\<open>retain\<close> with the running maximum.\<close>

fun retain_monotone :: "nat \<Rightarrow> dpr_diagnostic_event list \<Rightarrow> dpr_diagnostic_event list" where
  "retain_monotone previous [] = []"
| "retain_monotone previous (e # es) =
     (if previous \<le> de_t_ms e then e # retain_monotone (de_t_ms e) es else retain_monotone previous es)"

definition normalize :: "dpr_diagnostic \<Rightarrow> dpr_diagnostic" where
  "normalize d =
     d\<lparr>dd_version := DPR_DIAGNOSTIC_VERSION,
       dd_events := retain_monotone 0 (take MAX_DPR_DIAGNOSTIC_EVENTS (dd_events d)),
       dd_reason_codes := take MAX_DPR_DIAGNOSTIC_EVENTS (dd_reason_codes d),
       dd_span_adjudication :=
         map_option (\<lambda>a. a\<lparr>da_rejected := take MAX_DPR_DIAGNOSTIC_EVENTS (da_rejected a)\<rparr>) (dd_span_adjudication d),
       dd_feedback_message := (case dd_feedback_kind d of Silent \<Rightarrow> None | MinimalStatus \<Rightarrow> Some DPR_LOCAL_FALLBACK_MESSAGE),
       dd_delivery := evidence_default\<rparr>"

section \<open>The record stays well formed\<close>

text \<open>What the pipeline may record. The flags of a Delivery are the compose gate's, always the default.\<close>

datatype dpr_call =
    Skip duration
  | RequestStarted duration
  | ResponseReceived duration
  | Composed composition_decision "fallback_trigger option" "compose_error_code list" duration
  | SpansAdjudicated span_summary
  | Delivered duration
  | LateDiscarded duration

definition dpr_step :: "dpr_diagnostic \<Rightarrow> dpr_call \<Rightarrow> dpr_diagnostic \<times> unit list" where
  "dpr_step d c =
     (case c of
        Skip at \<Rightarrow> cloud_skipped at d
      | RequestStarted at \<Rightarrow> cloud_request_started at d
      | ResponseReceived at \<Rightarrow> cloud_response_received at d
      | Composed decision trigger codes at \<Rightarrow> composition_completed decision trigger codes at d
      | SpansAdjudicated summary \<Rightarrow> record_span_adjudication summary d
      | Delivered at \<Rightarrow> delivery_emitted at dpr_default d
      | LateDiscarded at \<Rightarrow> late_result_discarded at d, [])"

definition timeline_ok :: "dpr_diagnostic_event list \<Rightarrow> bool" where
  "timeline_ok es \<longleftrightarrow> length es \<le> MAX_DPR_DIAGNOSTIC_EVENTS \<and> distinct (map de_name es) \<and> sorted (map de_t_ms es)"

definition dpr_inv :: "dpr_diagnostic \<Rightarrow> bool" where
  "dpr_inv d \<longleftrightarrow>
     timeline_ok (dd_events d) \<and> dd_version d = DPR_DIAGNOSTIC_VERSION
     \<and> length (dd_reason_codes d) \<le> MAX_DPR_DIAGNOSTIC_EVENTS
     \<and> (case dd_span_adjudication d of None \<Rightarrow> True | Some a \<Rightarrow> length (da_rejected a) \<le> MAX_DPR_DIAGNOSTIC_EVENTS)
     \<and> dd_feedback_message d = (case dd_feedback_kind d of Silent \<Rightarrow> None | MinimalStatus \<Rightarrow> Some DPR_LOCAL_FALLBACK_MESSAGE)
     \<and> (dd_feedback_kind d = MinimalStatus \<longrightarrow>
          dd_cloud_attempted d \<and> dd_compose_decision d = Some FallbackBaseline \<and> dd_fallback_trigger d \<noteq> None)
     \<and> (has_event d DeliveryEmitted \<longrightarrow> dd_compose_decision d \<noteq> None)
     \<and> (has_event d LateResultDiscarded \<longrightarrow> has_event d DeliveryEmitted)
     \<and> dd_delivery d = evidence_default"

lemma push_event_frame [simp]:
  "dd_version (push_event n at d) = dd_version d" "dd_reason_codes (push_event n at d) = dd_reason_codes d"
  "dd_span_adjudication (push_event n at d) = dd_span_adjudication d" "dd_feedback_kind (push_event n at d) = dd_feedback_kind d"
  "dd_feedback_message (push_event n at d) = dd_feedback_message d" "dd_cloud_attempted (push_event n at d) = dd_cloud_attempted d"
  "dd_compose_decision (push_event n at d) = dd_compose_decision d" "dd_fallback_trigger (push_event n at d) = dd_fallback_trigger d"
  "dd_delivery (push_event n at d) = dd_delivery d"
  by (simp_all add: push_event_def Let_def)

lemma push_event_timeline:
  assumes "timeline_ok (dd_events d)"
  shows "timeline_ok (dd_events (push_event n at d))"
proof (cases "MAX_DPR_DIAGNOSTIC_EVENTS \<le> length (dd_events d) \<or> has_event d n")
  case False
  have "de_t_ms e \<le> de_t_ms (last (dd_events d))" if mem: "e \<in> set (dd_events d)" for e
  proof -
    obtain i where i: "i < length (dd_events d)" "e = dd_events d ! i" using mem by (metis in_set_conv_nth)
    have ne: "dd_events d \<noteq> []" using mem by auto
    have "map de_t_ms (dd_events d) ! i \<le> map de_t_ms (dd_events d) ! (length (dd_events d) - 1)"
      using assms i(1) by (intro sorted_nth_mono) (auto simp: timeline_ok_def)
    then show ?thesis using i ne by (simp add: last_conv_nth)
  qed
  then show ?thesis
    using False assms
    by (auto simp: timeline_ok_def push_event_def has_event_def list_ex_iff sorted_append Let_def le_max_iff_disj)
qed (use assms in \<open>simp add: push_event_def\<close>)

lemma has_push_event:
  "has_event (push_event n at d) m \<longleftrightarrow> has_event d m \<or> m = n \<and> length (dd_events d) < MAX_DPR_DIAGNOSTIC_EVENTS"
  by (auto simp: push_event_def has_event_def Let_def list_ex_iff)

lemma dpr_inv_push:
  assumes "dpr_inv d" "n = DeliveryEmitted \<Longrightarrow> dd_compose_decision d \<noteq> None" "n = LateResultDiscarded \<Longrightarrow> has_event d DeliveryEmitted"
  shows "dpr_inv (push_event n at d)"
  using assms push_event_timeline [of d n at] by (auto simp: dpr_inv_def has_push_event)

lemma has_event_update [simp]:
  "has_event (d\<lparr>dd_cloud_attempted := b\<rparr>) n = has_event d n" "has_event (d\<lparr>dd_delivery := v\<rparr>) n = has_event d n"
  "has_event (d\<lparr>dd_span_adjudication := sa\<rparr>) n = has_event d n"
  "has_event (d\<lparr>dd_compose_decision := cd, dd_fallback_trigger := ft, dd_reason_codes := rc\<rparr>) n = has_event d n"
  "has_event (d\<lparr>dd_feedback_kind := fk, dd_feedback_message := fm\<rparr>) n = has_event d n"
  by (simp_all add: has_event_def)

lemma dpr_inv_new: "dpr_inv (dpr_new mode routing at)"
  unfolding dpr_new_def by (rule dpr_inv_push) (simp_all add: dpr_inv_def timeline_ok_def has_event_def)

lemma dpr_inv_composition:
  assumes "dpr_inv d"
  shows "dpr_inv (composition_completed decision trigger codes at d)"
proof (cases "dd_compose_decision d")
  case None
  have quiet: "dd_feedback_kind d = Silent" using assms None by (cases "dd_feedback_kind d") (auto simp: dpr_inv_def)
  define d1 where "d1 = d\<lparr>dd_compose_decision := Some decision, dd_fallback_trigger := trigger,
    dd_reason_codes := take MAX_DPR_DIAGNOSTIC_EVENTS codes\<rparr>"
  define d2 where "d2 = (case (if dd_cloud_attempted d1 then failure_event trigger else None) of
    Some name \<Rightarrow> push_event name at d1 | None \<Rightarrow> d1)"
  have i1: "dpr_inv d1" using assms quiet unfolding dpr_inv_def d1_def by (auto simp: has_event_def)
  have name: "failure_event trigger = Some n \<Longrightarrow> n \<noteq> DeliveryEmitted \<and> n \<noteq> LateResultDiscarded" for n
    by (auto simp: failure_event_def split: option.splits fallback_trigger.splits)
  have i2: "dpr_inv d2" using i1 name unfolding d2_def by (auto split: option.split if_splits intro: dpr_inv_push)
  have s2: "dd_compose_decision d2 = Some decision" "dd_fallback_trigger d2 = trigger"
    unfolding d2_def d1_def by (auto split: option.split)
  have push: "dpr_inv (push_event n at d2)" if "n \<in> {CompositionAccepted, FallbackBaselineSelected}" for n
    using i2 that by (intro dpr_inv_push) auto
  have "composition_completed decision trigger codes at d =
      (if decision \<noteq> FallbackBaseline
       then (push_event CompositionAccepted at d2)\<lparr>dd_feedback_kind := Silent, dd_feedback_message := None\<rparr>
       else if dd_cloud_attempted d2 \<and> trigger \<noteq> None
       then (push_event FallbackBaselineSelected at d2)
              \<lparr>dd_feedback_kind := MinimalStatus, dd_feedback_message := Some DPR_LOCAL_FALLBACK_MESSAGE\<rparr>
       else (push_event FallbackBaselineSelected at d2)\<lparr>dd_feedback_kind := Silent, dd_feedback_message := None\<rparr>)"
    using None by (simp only: composition_completed_def Let_def d1_def [symmetric] d2_def [symmetric]) simp
  then show ?thesis
    using push [of CompositionAccepted] push [of FallbackBaselineSelected] s2 by (auto simp: dpr_inv_def)
qed (use assms in \<open>simp add: composition_completed_def\<close>)

lemma dpr_inv_attempt: "dpr_inv d \<Longrightarrow> dpr_inv (d\<lparr>dd_cloud_attempted := True\<rparr>)"
  by (simp add: dpr_inv_def)

lemma dpr_inv_evidence: "dpr_inv d \<Longrightarrow> dpr_inv (d\<lparr>dd_delivery := from_flags dpr_default\<rparr>)"
  by (simp add: dpr_inv_def from_flags_def dpr_default_def evidence_default_def)

lemma dpr_inv_spans: "dpr_inv d \<Longrightarrow> dpr_inv (record_span_adjudication summary d)"
  by (simp add: dpr_inv_def record_span_adjudication_def Let_def)

lemma dpr_inv_step: "dpr_inv d \<Longrightarrow> dpr_inv (fst (dpr_step d c))"
  by (cases c)
    (auto simp: dpr_step_def cloud_skipped_def cloud_request_started_def cloud_response_received_def
      delivery_emitted_def late_result_discarded_def dpr_inv_composition dpr_inv_spans
      intro!: dpr_inv_push dpr_inv_attempt dpr_inv_evidence)

interpretation dpr_record: invariant_machine dpr_step dpr_inv
  by unfold_locales (rule dpr_inv_step)

lemma retain_monotone_id: "sorted (map de_t_ms es) \<Longrightarrow> \<forall>e\<in>set es. previous \<le> de_t_ms e \<Longrightarrow> retain_monotone previous es = es"
  by (induction es arbitrary: previous) auto

lemma normalize_id: "dpr_inv d \<Longrightarrow> normalize d = d"
proof -
  assume inv: "dpr_inv d"
  have "retain_monotone 0 (take MAX_DPR_DIAGNOSTIC_EVENTS (dd_events d)) = dd_events d"
    using inv by (simp add: dpr_inv_def timeline_ok_def retain_monotone_id)
  moreover have "map_option (\<lambda>a. a\<lparr>da_rejected := take MAX_DPR_DIAGNOSTIC_EVENTS (da_rejected a)\<rparr>) (dd_span_adjudication d)
      = dd_span_adjudication d"
    using inv by (cases "dd_span_adjudication d") (simp_all add: dpr_inv_def)
  ultimately show ?thesis using inv by (cases d) (simp add: normalize_def dpr_inv_def)
qed

text \<open>
  Claim C32. The diagnostic record is well formed whatever the pipeline reports, in whatever order: at most 24
  events, each name once, with times that never go back; a Delivery is recorded only after a compose
  decision and a late result only after a Delivery; the fallback message shows exactly when a cloud
  attempt ended in the baseline for a reason; and storing the record (which normalizes it) changes
  nothing.
\<close>
theorem dpr_record_well_formed:
  "let d = fst (run_machine dpr_step (production routing at) calls) in dpr_inv d \<and> normalize d = d"
proof -
  have "dpr_inv (fst (run_machine dpr_step (production routing at) calls))"
    unfolding production_def by (rule dpr_record.run_inv [OF dpr_inv_new])
  then show ?thesis by (simp add: Let_def normalize_id)
qed

end
