(* ===== verification/Dpr_Pipeline.thy ===== *)
theory Dpr_Pipeline
  imports Dpr_Sources Dpr_Diagnostics Tone
begin

text \<open>
  The Developer Prompt Rendering pipeline, \<open>crates/voisu-app/src/dpr_pipeline.rs\<close>: from a validated Transcript
  through routing, the local baseline, the one optional cloud attempt, the compose gate or the edit
  contract and the tone to exactly one Delivery.

  The environment holds what the pipeline calls and this development does not define: the Unicode tables,
  the compiled patterns, SHA-256 and the local organizer. The readings of the clock are a record, one
  field per call of \<open>elapsed\<close>; the cloud boundary and the Delivery adapter are functions, and the calls
  the pipeline makes to them are the list of effects. A panic is the result \<open>None\<close>.
\<close>

section \<open>Deadlines\<close>

definition DPR_DELIVERY_DEADLINE :: duration where "DPR_DELIVERY_DEADLINE = from_millis 1500"
definition DPR_FORMAT_GATE :: duration where "DPR_FORMAT_GATE = from_millis 5000"
definition DPR_FORMAT_PROVIDER_BUDGET :: duration where "DPR_FORMAT_PROVIDER_BUDGET = from_millis 4750"
definition DPR_FORMAT_HOST_RESERVE :: duration where "DPR_FORMAT_HOST_RESERVE = from_millis 250"

datatype dpr_clock_origin = UtteranceEnd | ValidationCompletedOrigin

definition dpr_pipeline_clock_origin :: "bool \<Rightarrow> dpr_clock_origin" where
  "dpr_pipeline_clock_origin qwen_format_enabled = (if qwen_format_enabled then ValidationCompletedOrigin else UtteranceEnd)"

definition delivery_deadline :: "bool \<Rightarrow> duration" where
  "delivery_deadline small_edit = (if small_edit then DPR_FORMAT_GATE else DPR_DELIVERY_DEADLINE)"

definition provider_budget :: "bool \<Rightarrow> duration \<Rightarrow> duration" where
  "provider_budget small_edit elapsed =
     min (delivery_deadline small_edit - elapsed - (if small_edit then DPR_FORMAT_HOST_RESERVE else 0))
       (if small_edit then DPR_FORMAT_PROVIDER_BUDGET else DPR_DELIVERY_DEADLINE)"

section \<open>Inputs and results\<close>

record dpr_env =
  en_unicode :: unicode
  en_regexes :: regexes
  en_gate :: gate_regexes
  en_digest :: "utext \<Rightarrow> nat list"
  en_organize :: organize

record dpr_clock =
  ck_route :: duration
  ck_budget :: duration
  ck_attempt :: duration
  ck_compose :: duration
  ck_delivery :: duration

record dpr_transform_input =
  ti_selected_source :: utext
  ti_sources :: "compose_source list"
  ti_selection :: source_selection
  ti_provider_state :: provider_state
  ti_policy :: rendering_policy
  ti_english_eligible :: bool
  ti_surface :: "surface_hint option"
  ti_process :: "process_hint option"
  ti_timing :: "timing_hint option"
  ti_protected :: "utext list"
  ti_cloud :: "(dpr_cloud_request \<Rightarrow> duration \<Rightarrow> dpr_cloud_attempt) option"
  ti_small_edit :: bool
  ti_tone :: tone

datatype dpr_effect = CloudAsked dpr_cloud_request duration | DeliveryInitiated utext

record 'r dpr_transform_completion =
  tc_rendered :: utext
  tc_delivery :: 'r
  tc_flags :: delivery_flags
  tc_routing :: routing_decision
  tc_decision :: composition_decision
  tc_cloud_attempted :: bool
  tc_cloud_error :: "dpr_cloud_error_class option"
  tc_diagnostic :: dpr_diagnostic

definition dpr_error_has_response :: "dpr_cloud_error_class \<Rightarrow> bool" where
  "dpr_error_has_response e \<longleftrightarrow> e \<in> {ResponseTooLarge, ProviderEnvelope, CandidateSchema}"

fun cloud_outcome_for_error :: "dpr_cloud_error_class \<Rightarrow> cloud_outcome" where
  "cloud_outcome_for_error CloudDeadline = cloud_outcome.DeadlineExceeded"
| "cloud_outcome_for_error RequestInvalid = SchemaFailure"
| "cloud_outcome_for_error ResponseTooLarge = SchemaFailure"
| "cloud_outcome_for_error ProviderEnvelope = SchemaFailure"
| "cloud_outcome_for_error CandidateSchema = SchemaFailure"
| "cloud_outcome_for_error CredentialUnavailable = ProviderFailure"
| "cloud_outcome_for_error HttpClient = ProviderFailure"
| "cloud_outcome_for_error Http4xx = ProviderFailure"
| "cloud_outcome_for_error RateLimitedClass = ProviderFailure"
| "cloud_outcome_for_error Http5xx = ProviderFailure"
| "cloud_outcome_for_error TransportClass = ProviderFailure"

section \<open>The cloud leg\<close>

definition routed :: "dpr_env \<Rightarrow> dpr_transform_input \<Rightarrow> routing_decision \<times> utext" where
  "routed env ti =
     route_and_organize_local (en_regexes env) (en_organize env)
       \<lparr>io_policy = ti_policy ti, io_primary_text = ti_selected_source ti, io_provider_state = ti_provider_state ti,
        io_surface_hint = ti_surface ti, io_process_hint = ti_process ti, io_timing = ti_timing ti\<rparr>"

definition merge_protected :: "utext list \<Rightarrow> utext list \<Rightarrow> utext list" where
  "merge_protected given organized =
     fold (\<lambda>t ps. if MAX_DPR_PROTECTED_TOKENS \<le> length ps then ps else if t \<notin> set ps then ps @ [t] else ps) organized given"

definition protected_for :: "dpr_env \<Rightarrow> dpr_transform_input \<Rightarrow> utext list" where
  "protected_for env ti = merge_protected (ti_protected ti) (dpr_protected_tokens (snd (routed env ti)) [])"

definition request_for :: "dpr_env \<Rightarrow> dpr_transform_input \<Rightarrow> dpr_cloud_request" where
  "request_for env ti =
     \<lparr>rq_sources = ti_sources ti, rq_selection = ti_selection ti, rq_selected_source = ti_selected_source ti,
      rq_fingerprint = text_sha256_fingerprint (en_digest env) (ti_selected_source ti), rq_policy = ti_policy ti,
      rq_protected = protected_for env ti, rq_small_edit = ti_small_edit ti\<rparr>"

record cloud_leg =
  lg_outcome :: cloud_outcome
  lg_error :: "dpr_cloud_error_class option"
  lg_candidate :: "structured_candidate option"
  lg_format :: "utext option"

definition leg :: "cloud_outcome \<Rightarrow> dpr_cloud_error_class option \<Rightarrow> cloud_leg" where
  "leg outcome err = \<lparr>lg_outcome = outcome, lg_error = err, lg_candidate = None, lg_format = None\<rparr>"

text \<open>A rendering of the spoken source is organized again, and refused when that would break an organized atom.\<close>

definition atom_smashed :: "utext list \<Rightarrow> utext \<Rightarrow> bool" where
  "atom_smashed organized t \<longleftrightarrow>
     list_ex (\<lambda>token. let core = trim_end_matches (\<lambda>c. c \<in> {46, 33, 63, 44}) token in core \<noteq> [] \<and> \<not> contains_text core t) organized"

definition edits_leg :: "dpr_env \<Rightarrow> dpr_transform_input \<Rightarrow> format_edit_candidate \<Rightarrow> cloud_leg option" where
  "edits_leg env ti es =
     (let baseline = snd (routed env ti);
          on_organized = (fc_base_fingerprint es = text_sha256_fingerprint (en_digest env) baseline);
          edit_base = (if on_organized then baseline else ti_selected_source ti)
      in map_option (\<lambda>applied.
           if fo_accepted applied \<and> fc_edits es \<noteq> [] then
             (if on_organized then (leg Succeeded None)\<lparr>lg_format := Some (fo_rendered applied)\<rparr>
              else let reapplied = en_organize env (fo_rendered applied) (ti_policy ti) LiteralIdentity
                   in if atom_smashed (dpr_protected_tokens baseline []) reapplied then leg SchemaFailure (Some CandidateSchema)
                      else (leg Succeeded None)\<lparr>lg_format := Some reapplied\<rparr>)
           else if fo_accepted applied then leg cloud_outcome.Skipped None
           else leg SchemaFailure (Some CandidateSchema))
         (apply_format_edits_with (en_unicode env) (en_regexes env) (en_digest env) edit_base es
            \<lparr>fs_protected_tokens = protected_for env ti, fs_policy = ti_policy ti\<rparr>))"

definition attempt_leg :: "dpr_env \<Rightarrow> dpr_clock \<Rightarrow> dpr_transform_input \<Rightarrow> dpr_cloud_attempt \<Rightarrow> cloud_leg option" where
  "attempt_leg env ck ti a =
     (if delivery_deadline (ti_small_edit ti) \<le> ck_attempt ck then Some (leg cloud_outcome.DeadlineExceeded (Some CloudDeadline))
      else if ti_small_edit ti then
        (case at_format_edits a of
           Some es \<Rightarrow> edits_leg env ti es
         | None \<Rightarrow> (let err = (case at_error a of Some e \<Rightarrow> e | None \<Rightarrow> CandidateSchema) in Some (leg (cloud_outcome_for_error err) (Some err))))
      else
        (case at_candidate a of
           Some c \<Rightarrow> Some ((leg Succeeded None)\<lparr>lg_candidate := Some c\<rparr>)
         | None \<Rightarrow> (let err = (case at_error a of Some e \<Rightarrow> e | None \<Rightarrow> ProviderEnvelope) in Some (leg (cloud_outcome_for_error err) (Some err)))))"

definition skip_cloud :: "dpr_env \<Rightarrow> dpr_transform_input \<Rightarrow> bool" where
  "skip_cloud env ti \<longleftrightarrow>
     \<not> ti_english_eligible ti \<or> rd_cloud_request (fst (routed env ti)) = NotAllowed
     \<or> ti_small_edit ti \<and> \<not> leftover_has_goal_or_mixed_section_headers (en_regexes env) (snd (routed env ti))"

definition out_of_time :: "dpr_clock \<Rightarrow> dpr_transform_input \<Rightarrow> bool" where
  "out_of_time ck ti \<longleftrightarrow>
     delivery_deadline (ti_small_edit ti) \<le> ck_budget ck \<or> provider_budget (ti_small_edit ti) (ck_budget ck) = 0"

text \<open>The leg, what it records, and the calls it made.\<close>

definition run_cloud_leg ::
  "dpr_env \<Rightarrow> dpr_clock \<Rightarrow> dpr_transform_input \<Rightarrow> dpr_diagnostic \<Rightarrow> (cloud_leg \<times> dpr_diagnostic \<times> dpr_effect list) option" where
  "run_cloud_leg env ck ti d =
     (if skip_cloud env ti then Some (leg cloud_outcome.Skipped None, cloud_skipped (ck_route ck) d, [])
      else if out_of_time ck ti
      then Some (leg cloud_outcome.DeadlineExceeded (Some CloudDeadline), cloud_skipped (ck_budget ck) d, [])
      else case ti_cloud ti of
             None \<Rightarrow> Some (leg ProviderFailure (Some CredentialUnavailable), cloud_skipped (ck_budget ck) d, [])
           | Some ask \<Rightarrow>
               (let rq = request_for env ti; budget = provider_budget (ti_small_edit ti) (ck_budget ck); a = ask rq budget;
                    d1 = cloud_request_started (ck_budget ck) d;
                    d2 = (if at_candidate a \<noteq> None \<or> at_format_edits a \<noteq> None
                             \<or> (case at_error a of Some e \<Rightarrow> dpr_error_has_response e | None \<Rightarrow> False)
                          then cloud_response_received (ck_attempt ck) d1 else d1)
                in map_option (\<lambda>l. (l, d2, [CloudAsked rq budget])) (attempt_leg env ck ti a)))"

section \<open>Composition and Delivery\<close>

definition compose_for :: "dpr_env \<Rightarrow> dpr_transform_input \<Rightarrow> cloud_outcome \<Rightarrow> structured_candidate option \<Rightarrow> compose_input" where
  "compose_for env ti outcome candidate =
     \<lparr>ci_baseline = snd (routed env ti), ci_fingerprint = text_sha256_fingerprint (en_digest env) (ti_selected_source ti),
      ci_sources = ti_sources ti, ci_selection = ti_selection ti, ci_protected = protected_for env ti, ci_policy = ti_policy ti,
      ci_cloud = outcome, ci_candidate = candidate\<rparr>"

definition compose_outcome_for ::
  "dpr_env \<Rightarrow> dpr_transform_input \<Rightarrow> cloud_outcome \<Rightarrow> structured_candidate option \<Rightarrow> compose_outcome option" where
  "compose_outcome_for env ti outcome candidate =
     compose_structured_candidate (en_unicode env) (en_gate env) (en_digest env) (compose_for env ti outcome candidate)"

text \<open>The rendering, with the error it adds when the deadline passed meanwhile.\<close>

definition settle :: "dpr_env \<Rightarrow> dpr_clock \<Rightarrow> dpr_transform_input \<Rightarrow> cloud_leg \<Rightarrow> (compose_outcome \<times> dpr_cloud_error_class option) option" where
  "settle env ck ti l =
     (let late = (delivery_deadline (ti_small_edit ti) \<le> ck_compose ck);
          expired = map_option (\<lambda>out. (out, Some CloudDeadline)) (compose_outcome_for env ti cloud_outcome.DeadlineExceeded None)
      in case lg_format l of
           Some host_rendered \<Rightarrow> (if late then expired else Some (compose_result Accept host_rendered None [], lg_error l))
         | None \<Rightarrow>
             (case compose_outcome_for env ti (lg_outcome l) (lg_candidate l) of
                None \<Rightarrow> None
              | Some out \<Rightarrow> (if lg_outcome l = Succeeded \<and> late then expired else Some (out, lg_error l))))"

definition record_composition :: "compose_outcome \<Rightarrow> duration \<Rightarrow> dpr_diagnostic \<Rightarrow> dpr_diagnostic" where
  "record_composition out now d =
     (let d1 = composition_completed (co_decision out) (co_trigger out) (co_codes out) now d
      in case co_summary out of Some summary \<Rightarrow> record_span_adjudication summary d1 | None \<Rightarrow> d1)"

definition dpr_transform_and_deliver ::
  "dpr_env \<Rightarrow> dpr_clock \<Rightarrow> (utext \<Rightarrow> 'r) \<Rightarrow> dpr_transform_input \<Rightarrow> ('r dpr_transform_completion \<times> dpr_effect list) option" where
  "dpr_transform_and_deliver env ck deliver ti =
     (let (routing, baseline) = routed env ti; d0 = production routing (ck_route ck)
      in case run_cloud_leg env ck ti d0 of
           None \<Rightarrow> None
         | Some (l, d, calls) \<Rightarrow>
             (case settle env ck ti l of
                None \<Rightarrow> None
              | Some (out, err) \<Rightarrow>
                  (let rendered = apply_tone (en_unicode env) (en_regexes env) (co_rendered out) (ti_tone ti);
                       d1 = delivery_emitted (ck_delivery ck) (co_delivery out) (record_composition out (ck_compose ck) d)
                   in Some (\<lparr>tc_rendered = rendered, tc_delivery = deliver rendered, tc_flags = co_delivery out, tc_routing = routing,
                             tc_decision = co_decision out, tc_cloud_attempted = (calls \<noteq> []), tc_cloud_error = err,
                             tc_diagnostic = d1\<rparr>,
                            calls @ [DeliveryInitiated rendered]))))"

section \<open>The calls and the record\<close>

lemma dpr_inv_ops:
  assumes "dpr_inv d"
  shows "dpr_inv (cloud_skipped now d)" "dpr_inv (cloud_request_started now d)" "dpr_inv (cloud_response_received now d)"
    "dpr_inv (record_span_adjudication summary d)" "dpr_inv (delivery_emitted now dpr_default d)"
  using dpr_inv_step [OF assms, of "Skip now"] dpr_inv_step [OF assms, of "RequestStarted now"]
    dpr_inv_step [OF assms, of "ResponseReceived now"] dpr_inv_step [OF assms, of "SpansAdjudicated summary"]
    dpr_inv_step [OF assms, of "Delivered now"]
  by (simp_all add: dpr_step_def)

lemma record_composition_inv: "dpr_inv d \<Longrightarrow> dpr_inv (record_composition out now d)"
  by (auto simp: record_composition_def Let_def dpr_inv_composition dpr_inv_ops split: option.split)

lemma record_composition_decided: "dd_compose_decision (record_composition out now d) \<noteq> None"
  by (auto simp: record_composition_def composition_completed_def record_span_adjudication_def Let_def split: option.split)

text \<open>Each of the twelve event names is recorded once, so the bound of 24 is never reached.\<close>

lemma events_fit:
  assumes "dpr_inv d"
  shows "length (dd_events d) < MAX_DPR_DIAGNOSTIC_EVENTS"
proof -
  let ?all = "[RouteSelected, CloudSkipped, CloudRequestStarted, CloudResponseReceived, CloudDeadlineExceeded, ProviderFailed,
    SchemaValidationFailed, SourceDerivationFailed, CompositionAccepted, FallbackBaselineSelected, DeliveryEmitted, LateResultDiscarded]"
  have "n \<in> set ?all" for n by (cases n) simp_all
  then have "card (set (map de_name (dd_events d))) \<le> card (set ?all)" by (intro card_mono) auto
  also have "\<dots> \<le> length ?all" by (rule card_length)
  finally show ?thesis
    using assms by (simp add: dpr_inv_def timeline_ok_def distinct_card del: set_map)
      (simp add: MAX_DPR_DIAGNOSTIC_EVENTS_def)
qed

lemma delivery_recorded:
  assumes "dpr_inv d" "dd_compose_decision d \<noteq> None"
  shows "has_event (delivery_emitted now flags d) DeliveryEmitted"
  using assms events_fit [OF assms(1)] by (auto simp: delivery_emitted_def has_push_event)

lemma edits_leg_defined:
  assumes "distinct (map fe_start (fc_edits es))"
  shows "edits_leg env ti es \<noteq> None"
proof -
  have "apply_format_edits_with u rx digest base es safety \<noteq> None" for u rx digest base safety
    using compose_edits_splices [OF _ assms, of base]
    by (auto simp: apply_format_edits_with_def split: sum.splits option.splits)
  then show ?thesis by (simp add: edits_leg_def Let_def)
qed

lemma run_cloud_leg_cases:
  assumes "dpr_inv d"
  shows "case run_cloud_leg env ck ti d of
     None \<Rightarrow> ti_small_edit ti \<and> (\<exists>ask rq b es. ti_cloud ti = Some ask \<and> at_format_edits (ask rq b) = Some es
        \<and> \<not> distinct (map fe_start (fc_edits es)))
   | Some (l, d', calls) \<Rightarrow> dpr_inv d'
       \<and> (calls = [] \<and> lg_outcome l \<noteq> Succeeded \<and> lg_candidate l = None \<and> lg_format l = None
          \<or> (\<exists>ask budget. calls = [CloudAsked (request_for env ti) budget] \<and> ti_cloud ti = Some ask
               \<and> budget = provider_budget (ti_small_edit ti) (ck_budget ck) \<and> \<not> out_of_time ck ti \<and> \<not> skip_cloud env ti
               \<and> attempt_leg env ck ti (ask (request_for env ti) budget) = Some l))"
proof (cases "skip_cloud env ti \<or> out_of_time ck ti \<or> ti_cloud ti = None")
  case True
  then show ?thesis using assms dpr_inv_ops by (auto simp: run_cloud_leg_def leg_def)
next
  case False
  then obtain ask where ask: "ti_cloud ti = Some ask" by auto
  let ?a = "ask (request_for env ti) (provider_budget (ti_small_edit ti) (ck_budget ck))"
  have "attempt_leg env ck ti ?a = None \<Longrightarrow> ti_small_edit ti \<and> (\<exists>es. at_format_edits ?a = Some es \<and> \<not> distinct (map fe_start (fc_edits es)))"
    by (auto simp: attempt_leg_def Let_def split: if_splits option.splits) (metis edits_leg_defined)
  moreover have "dpr_inv (cloud_request_started (ck_budget ck) d)"
    "dpr_inv (cloud_response_received (ck_attempt ck) (cloud_request_started (ck_budget ck) d))"
    using assms dpr_inv_ops by simp_all
  ultimately show ?thesis
    using False ask by (cases "attempt_leg env ck ti ?a") (auto simp: run_cloud_leg_def Let_def)
qed

lemma settle_host: "\<exists>out err. settle env ck ti l = Some (out, err) \<and> co_delivery out = dpr_default"
proof -
  have c: "\<exists>out. compose_outcome_for env ti outcome candidate = Some out \<and> co_delivery out = dpr_default" for outcome candidate
    using compose_host [of "en_unicode env" "en_gate env" "en_digest env" "compose_for env ti outcome candidate"]
    by (auto simp: compose_outcome_for_def host_words_def)
  obtain out1 out2 where "compose_outcome_for env ti cloud_outcome.DeadlineExceeded None = Some out1" "co_delivery out1 = dpr_default"
    "compose_outcome_for env ti (lg_outcome l) (lg_candidate l) = Some out2" "co_delivery out2 = dpr_default"
    using c by metis
  then show ?thesis by (cases "lg_format l") (auto simp: settle_def Let_def compose_result_def)
qed

lemma budget_in_time: "\<not> out_of_time ck ti \<Longrightarrow>
    0 < provider_budget (ti_small_edit ti) (ck_budget ck)
    \<and> ck_budget ck + provider_budget (ti_small_edit ti) (ck_budget ck) \<le> delivery_deadline (ti_small_edit ti)"
  by (auto simp: out_of_time_def provider_budget_def min_def)

lemma transform_parts:
  assumes "dpr_transform_and_deliver env ck deliver ti = Some (c, effects)"
  obtains l d calls out err where "run_cloud_leg env ck ti (production (fst (routed env ti)) (ck_route ck)) = Some (l, d, calls)"
    "settle env ck ti l = Some (out, err)"
    "tc_rendered c = apply_tone (en_unicode env) (en_regexes env) (co_rendered out) (ti_tone ti)"
    "tc_delivery c = deliver (tc_rendered c)" "tc_flags c = co_delivery out" "tc_decision c = co_decision out"
    "tc_cloud_attempted c = (calls \<noteq> [])" "tc_cloud_error c = err" "effects = calls @ [DeliveryInitiated (tc_rendered c)]"
    "tc_diagnostic c = delivery_emitted (ck_delivery ck) (co_delivery out) (record_composition out (ck_compose ck) d)"
  using assms by (auto simp: dpr_transform_and_deliver_def Let_def split: option.splits prod.splits)

lemma production_inv: "dpr_inv (production routing now)"
  by (simp add: production_def dpr_inv_new)

text \<open>
  Claim C11. The pipeline initiates Delivery exactly once, with the text it reports, unsent and last of all its
  calls; before that it asks the cloud at most once, only for an English Recording whose route allows
  it, with a positive budget that ends within the Delivery deadline; and the diagnostic record is well
  formed and shows the Delivery. It panics only when the formatter returns two edits with the same start.
\<close>
theorem transform_delivers_once:
  "case dpr_transform_and_deliver env ck deliver ti of
     None \<Rightarrow> ti_small_edit ti \<and> (\<exists>ask rq b es. ti_cloud ti = Some ask \<and> at_format_edits (ask rq b) = Some es
        \<and> \<not> distinct (map fe_start (fc_edits es)))
   | Some (c, effects) \<Rightarrow>
       (effects = [DeliveryInitiated (tc_rendered c)]
        \<or> (\<exists>budget. effects = [CloudAsked (request_for env ti) budget, DeliveryInitiated (tc_rendered c)]
             \<and> 0 < budget \<and> ck_budget ck + budget \<le> delivery_deadline (ti_small_edit ti)
             \<and> ti_english_eligible ti \<and> rd_cloud_request (fst (routed env ti)) \<noteq> NotAllowed))
       \<and> tc_delivery c = deliver (tc_rendered c) \<and> tc_flags c = dpr_default
       \<and> dpr_inv (tc_diagnostic c) \<and> has_event (tc_diagnostic c) DeliveryEmitted"
proof (cases "dpr_transform_and_deliver env ck deliver ti")
  case None
  let ?d = "production (fst (routed env ti)) (ck_route ck)"
  have "run_cloud_leg env ck ti ?d = None"
  proof (cases "run_cloud_leg env ck ti ?d")
    case (Some r)
    obtain l d calls where r: "r = (l, d, calls)" by (cases r)
    obtain out err where "settle env ck ti l = Some (out, err)" using settle_host by blast
    then show ?thesis using None Some r by (simp add: dpr_transform_and_deliver_def Let_def split: prod.splits)
  qed
  then show ?thesis using run_cloud_leg_cases [OF production_inv [of "fst (routed env ti)" "ck_route ck"], where env = env and ck = ck and ti = ti] None by simp
next
  case (Some r)
  obtain c effects where r: "r = (c, effects)" by (cases r)
  from Some [unfolded r] show ?thesis
  proof (cases rule: transform_parts)
    case (1 l d calls out err)
    have flags: "co_delivery out = dpr_default" using settle_host [of env ck ti l] 1(2) by auto
    note run = run_cloud_leg_cases [OF production_inv [of "fst (routed env ti)" "ck_route ck"], where env = env and ck = ck and ti = ti, unfolded 1(1), simplified]
    have inv: "dpr_inv (record_composition out (ck_compose ck) d)" using run record_composition_inv by blast
    have d: "dpr_inv (tc_diagnostic c)" "has_event (tc_diagnostic c) DeliveryEmitted"
      using inv dpr_inv_ops(5) delivery_recorded [OF inv record_composition_decided] by (simp_all add: 1(10) flags)
    have "calls = [] \<or> (\<exists>budget. calls = [CloudAsked (request_for env ti) budget] \<and> 0 < budget
        \<and> ck_budget ck + budget \<le> delivery_deadline (ti_small_edit ti) \<and> \<not> skip_cloud env ti)"
      using run budget_in_time by blast
    then show ?thesis using Some r 1 d flags by (auto simp: skip_cloud_def)
  qed
qed

section \<open>What is rendered\<close>

text \<open>A rendering the edit contract accepted, and one the compose gate accepted.\<close>

definition edits_rendering :: "dpr_env \<Rightarrow> dpr_transform_input \<Rightarrow> format_edit_candidate \<Rightarrow> utext \<Rightarrow> bool" where
  "edits_rendering env ti es t \<longleftrightarrow>
     (\<exists>applied. let safety = \<lparr>fs_protected_tokens = protected_for env ti, fs_policy = ti_policy ti\<rparr>;
                   accepts = (\<lambda>base. apply_format_edits_with (en_unicode env) (en_regexes env) (en_digest env) base es safety = Some applied
                                \<and> fo_accepted applied)
                in accepts (snd (routed env ti)) \<and> t = fo_rendered applied
                   \<or> accepts (ti_selected_source ti) \<and> t = en_organize env (fo_rendered applied) (ti_policy ti) LiteralIdentity
                     \<and> \<not> atom_smashed (dpr_protected_tokens (snd (routed env ti)) []) t)"

definition composed_rendering :: "dpr_env \<Rightarrow> dpr_transform_input \<Rightarrow> structured_candidate \<Rightarrow> utext \<Rightarrow> bool" where
  "composed_rendering env ti cand t \<longleftrightarrow>
     (\<exists>out. compose_outcome_for env ti Succeeded (Some cand) = Some out \<and> co_decision out = Accept \<and> t = co_rendered out)"

definition in_time :: "dpr_clock \<Rightarrow> dpr_transform_input \<Rightarrow> bool" where
  "in_time ck ti \<longleftrightarrow> ck_attempt ck < delivery_deadline (ti_small_edit ti) \<and> ck_compose ck < delivery_deadline (ti_small_edit ti)"

lemma edits_leg_format:
  assumes "edits_leg env ti es = Some l" "lg_format l = Some t"
  shows "edits_rendering env ti es t"
  using assms unfolding edits_leg_def edits_rendering_def
  by (auto simp: Let_def leg_def split: if_splits)

lemma attempt_leg_results:
  assumes "attempt_leg env ck ti a = Some l"
  shows "lg_format l = Some t \<Longrightarrow> ti_small_edit ti \<and> ck_attempt ck < delivery_deadline True
      \<and> (\<exists>es. at_format_edits a = Some es \<and> edits_rendering env ti es t)"
    and "lg_candidate l = Some cand \<Longrightarrow> \<not> ti_small_edit ti \<and> ck_attempt ck < delivery_deadline False \<and> at_candidate a = Some cand"
proof -
  have none: "edits_leg env ti es = Some l \<Longrightarrow> lg_candidate l = None" for es
    by (auto simp: edits_leg_def leg_def Let_def split: if_splits)
  show "lg_format l = Some t \<Longrightarrow> ti_small_edit ti \<and> ck_attempt ck < delivery_deadline True
      \<and> (\<exists>es. at_format_edits a = Some es \<and> edits_rendering env ti es t)"
    using assms edits_leg_format by (auto simp: attempt_leg_def leg_def Let_def split: if_splits option.splits)
  show "lg_candidate l = Some cand \<Longrightarrow> \<not> ti_small_edit ti \<and> ck_attempt ck < delivery_deadline False \<and> at_candidate a = Some cand"
    using assms none by (auto simp: attempt_leg_def leg_def Let_def split: if_splits option.splits)
qed

lemma leg_candidate:
  assumes "run_cloud_leg env ck ti d = Some (l, d', calls)" "lg_outcome l \<noteq> Succeeded"
  shows "lg_candidate l = None"
proof -
  have none: "edits_leg env ti es = Some l \<Longrightarrow> lg_candidate l = None" for es
    by (auto simp: edits_leg_def leg_def Let_def split: if_splits)
  have "attempt_leg env ck ti a = Some l \<Longrightarrow> lg_candidate l = None" for a
    using assms(2) none by (auto simp: attempt_leg_def leg_def Let_def split: if_splits option.splits)
  then show ?thesis using assms(1) by (auto simp: run_cloud_leg_def leg_def Let_def split: if_splits option.splits)
qed

lemma settle_cases:
  assumes "settle env ck ti l = Some (out, err)" "lg_outcome l \<noteq> Succeeded \<Longrightarrow> lg_candidate l = None"
  shows "(\<exists>t. lg_format l = Some t \<and> ck_compose ck < delivery_deadline (ti_small_edit ti) \<and> out = compose_result Accept t None [])
    \<or> (\<exists>outcome cand. compose_outcome_for env ti outcome cand = Some out
        \<and> (outcome = Succeeded \<and> ck_compose ck < delivery_deadline (ti_small_edit ti) \<and> cand = lg_candidate l \<or> cand = None))"
  using assms by (auto simp: settle_def Let_def not_le split: option.splits if_splits)

lemma composed_host:
  assumes "compose_outcome_for env ti outcome cand = Some out"
  shows "host_words (compose_for env ti outcome cand) out"
  using compose_host [of "en_unicode env" "en_gate env" "en_digest env" "compose_for env ti outcome cand"] assms
  by (simp add: compose_outcome_for_def)

lemma compose_not_accepted:
  assumes "compose_outcome_for env ti outcome None = Some out"
  shows "co_decision out \<noteq> Accept"
  using composed_host [OF assms] by (auto simp: host_words_def compose_for_def split: composition_decision.splits)

text \<open>
  Claim C12. Only text that passed a gate in time replaces the local baseline. The rendered text is the toned
  form of a text which, when the composition is accepted, is the accepted composition of the candidate
  the cloud returned or the accepted rendering of its edits, arrived and composed before the deadline;
  in every other case (skipped, late, failed, refused, unavailable) it is the local baseline, with an
  uncertain layout of an empty baseline as the one exception.
\<close>
theorem transform_renders_safely:
  "case dpr_transform_and_deliver env ck deliver ti of
     None \<Rightarrow> True
   | Some (c, effects) \<Rightarrow>
       \<exists>t. tc_rendered c = apply_tone (en_unicode env) (en_regexes env) t (ti_tone ti)
         \<and> (case tc_decision c of
              Accept \<Rightarrow> in_time ck ti
                \<and> (\<exists>ask a. ti_cloud ti = Some ask \<and> a = ask (request_for env ti) (provider_budget (ti_small_edit ti) (ck_budget ck))
                     \<and> (if ti_small_edit ti then \<exists>es. at_format_edits a = Some es \<and> edits_rendering env ti es t
                        else \<exists>cand. at_candidate a = Some cand \<and> composed_rendering env ti cand t))
            | AcceptNaturalLayout \<Rightarrow> t = snd (routed env ti) \<or> snd (routed env ti) = []
            | _ \<Rightarrow> t = snd (routed env ti))"
proof (cases "dpr_transform_and_deliver env ck deliver ti")
  case (Some r)
  obtain c effects where r: "r = (c, effects)" by (cases r)
  from Some [unfolded r] show ?thesis
  proof (cases rule: transform_parts)
    case (1 l d calls out err)
    note run = run_cloud_leg_cases [OF production_inv [of "fst (routed env ti)" "ck_route ck"], where env = env and ck = ck and ti = ti,
      unfolded 1(1), simplified]
    let ?P = "\<lambda>t. case co_decision out of
              Accept \<Rightarrow> in_time ck ti
                \<and> (\<exists>ask a. ti_cloud ti = Some ask \<and> a = ask (request_for env ti) (provider_budget (ti_small_edit ti) (ck_budget ck))
                     \<and> (if ti_small_edit ti then \<exists>es. at_format_edits a = Some es \<and> edits_rendering env ti es t
                        else \<exists>cand. at_candidate a = Some cand \<and> composed_rendering env ti cand t))
            | AcceptNaturalLayout \<Rightarrow> t = snd (routed env ti) \<or> snd (routed env ti) = []
            | _ \<Rightarrow> t = snd (routed env ti)"
    have cases: "(\<exists>t. lg_format l = Some t \<and> ck_compose ck < delivery_deadline (ti_small_edit ti) \<and> out = compose_result Accept t None [])
      \<or> (\<exists>outcome cand. compose_outcome_for env ti outcome cand = Some out
        \<and> (outcome = Succeeded \<and> ck_compose ck < delivery_deadline (ti_small_edit ti) \<and> cand = lg_candidate l \<or> cand = None))"
      by (rule settle_cases [OF 1(2)]) (rule leg_candidate [OF 1(1)])
    then have "?P (co_rendered out)"
    proof (elim disjE exE conjE)
      fix t assume f: "lg_format l = Some t" and k: "ck_compose ck < delivery_deadline (ti_small_edit ti)"
        and o: "out = compose_result Accept t None []"
      obtain ask where ask: "ti_cloud ti = Some ask"
        "attempt_leg env ck ti (ask (request_for env ti) (provider_budget (ti_small_edit ti) (ck_budget ck))) = Some l"
        using run f by auto
      show ?thesis using attempt_leg_results(1) [OF ask(2) f] k ask(1) o by (auto simp: compose_result_def in_time_def)
    next
      fix outcome cand assume comp: "compose_outcome_for env ti outcome cand = Some out"
        and how: "outcome = Succeeded" "ck_compose ck < delivery_deadline (ti_small_edit ti)" "cand = lg_candidate l"
      note h = composed_host [OF comp]
      show ?thesis
      proof (cases "co_decision out = Accept")
        case True
        then obtain cand' where c': "lg_candidate l = Some cand'" using compose_not_accepted [of env ti outcome out] comp how by (cases "lg_candidate l") auto
        then obtain ask where ask: "ti_cloud ti = Some ask"
          "attempt_leg env ck ti (ask (request_for env ti) (provider_budget (ti_small_edit ti) (ck_budget ck))) = Some l"
          using run by auto
        show ?thesis
          using attempt_leg_results(2) [OF ask(2) c'] ask(1) True comp how c'
          by (auto simp: composed_rendering_def in_time_def)
      qed (use h in \<open>auto simp: host_words_def compose_for_def split: composition_decision.splits\<close>)
    next
      fix outcome cand assume comp: "compose_outcome_for env ti outcome cand = Some out" and no: "cand = None"
      show ?thesis
        using composed_host [OF comp] compose_not_accepted [OF comp [unfolded no]]
        by (auto simp: host_words_def compose_for_def split: composition_decision.splits)
    qed
    then show ?thesis
      unfolding Some r option.case prod.case 1(6) by (intro exI [of _ "co_rendered out"] conjI 1(3))
  qed
qed simp

section \<open>The daemon's call\<close>

text \<open>The input the daemon builds from the validated Transcript and the context of the sanitized sources.\<close>

definition daemon_transform_input ::
  "dpr_context \<Rightarrow> utext \<Rightarrow> utext list \<Rightarrow> rendering_policy \<Rightarrow> bool
    \<Rightarrow> (dpr_cloud_request \<Rightarrow> duration \<Rightarrow> dpr_cloud_attempt) option \<Rightarrow> bool \<Rightarrow> tone \<Rightarrow> dpr_transform_input" where
  "daemon_transform_input ctx validated dictionary_terms policy english_eligible cloud small_edit tone =
     \<lparr>ti_selected_source = validated, ti_sources = dc_sources ctx, ti_selection = dc_selection ctx,
      ti_provider_state = dc_provider_state ctx, ti_policy = policy, ti_english_eligible = english_eligible,
      ti_surface = None, ti_process = None, ti_timing = None, ti_protected = dpr_protected_tokens validated dictionary_terms,
      ti_cloud = cloud, ti_small_edit = small_edit, ti_tone = tone\<rparr>"

text \<open>SHA-256 gives 32 bytes.\<close>

definition digest_ok :: "(utext \<Rightarrow> nat list) \<Rightarrow> bool" where
  "digest_ok digest \<longleftrightarrow> (\<forall>t. length (digest t) = 32 \<and> list_all (\<lambda>b. b < 256) (digest t))"

lemma hex_digits:
  fixes b :: nat
  assumes "list_all P digits" "length digits = 16" "b < 256"
  shows "list_all P [digits ! (b div 16), digits ! (b mod 16)]"
proof -
  have "b div 16 < 16" using assms(3) by (simp add: less_mult_imp_div_less)
  moreover have "list_all P digits \<longleftrightarrow> (\<forall>n<16. P (digits ! n))" using assms(2) by (simp add: list_all_length)
  ultimately show ?thesis using assms(1) by simp
qed

lemma hex_lower_chars: "b < 256 \<Longrightarrow> list_all (\<lambda>c. is_ascii_digit c \<or> 97 \<le> byte c \<and> byte c \<le> 102) (hex_lower b)"
  unfolding hex_lower_def by (rule hex_digits) (simp_all add: is_ascii_digit_def byte_def)

lemma fingerprint_shape:
  assumes "digest_ok digest"
  shows "length (text_sha256_fingerprint digest t) = 7 + 64" "prefix ''sha256:'' (text_sha256_fingerprint digest t)"
    "list_all (\<lambda>c. is_ascii_digit c \<or> 97 \<le> byte c \<and> byte c \<le> 102) (drop 7 (text_sha256_fingerprint digest t))"
proof -
  have bytes: "list_all (\<lambda>b. b < 256) (digest t)" "length (digest t) = 32" using assms by (auto simp: digest_ok_def)
  have "length (concat (map hex_lower bs)) = 2 * length bs" for bs by (induction bs) (simp_all add: hex_lower_def)
  then show "length (text_sha256_fingerprint digest t) = 7 + 64" using bytes by (simp add: text_sha256_fingerprint_def)
  show "prefix ''sha256:'' (text_sha256_fingerprint digest t)" by (simp add: text_sha256_fingerprint_def)
  show "list_all (\<lambda>c. is_ascii_digit c \<or> 97 \<le> byte c \<and> byte c \<le> 102) (drop 7 (text_sha256_fingerprint digest t))"
    using bytes(1) hex_lower_chars by (auto simp: text_sha256_fingerprint_def list_all_iff)
qed

lemma merge_protected_ok:
  assumes "protected_ok a given" "protected_ok b organized"
  shows "length (merge_protected given organized) \<le> MAX_DPR_PROTECTED_TOKENS
    \<and> list_all (\<lambda>t. t \<noteq> [] \<and> byte_len t \<le> MAX_COMPOSE_FIELD_UTF8_BYTES) (merge_protected given organized)"
proof -
  let ?good = "\<lambda>t. t \<noteq> [] \<and> byte_len t \<le> MAX_COMPOSE_FIELD_UTF8_BYTES"
  show ?thesis
    unfolding merge_protected_def
  proof (rule fold_invariant [where Q = ?good])
    show "?good t" if "t \<in> set organized" for t using assms(2) that by (auto simp: protected_ok_def list_all_iff)
    show "length given \<le> MAX_DPR_PROTECTED_TOKENS \<and> list_all ?good given" using assms(1) by (auto simp: protected_ok_def list_all_iff)
  qed simp
qed

text \<open>
  Claim C31. The daemon never spends its attempt on a request the client refuses. Whatever the sources, the
  dictionary and the local formatter are, the request built from a source context is within the client's
  bounds (sources, fingerprint, reason, protected atoms) as long as the Transcript and the sanitized sources
  have at most 100000 bytes each.
\<close>
theorem daemon_request_bounded:
  assumes "dpr_source_context u ss terms = Some ctx" "digest_ok (en_digest env)"
    and "byte_len validated \<le> MAX_DPR_SOURCE_UTF8_BYTES"
    and "list_all (\<lambda>s. byte_len (st_text s) \<le> MAX_DPR_SOURCE_UTF8_BYTES) (sanitize_source_transcripts u ss)"
  shows "request_is_bounded (request_for env (daemon_transform_input ctx validated terms policy english cloud small_edit tone))"
proof -
  let ?available = "filter (\<lambda>s. st_text s \<noteq> []) (sanitize_source_transcripts u ss)"
  let ?ti = "daemon_transform_input ctx validated terms policy english cloud small_edit tone"
  have ctx: "context_ok u ?available ctx" by (rule context_available [OF assms(1)])
  have texts: "list_all (\<lambda>s. byte_len (cs_text s) \<le> MAX_DPR_SOURCE_UTF8_BYTES) (dc_sources ctx)"
    using ctx assms(4) by (fastforce simp: context_ok_def list_all_iff)
  have prot: "length (protected_for env ?ti) \<le> MAX_DPR_PROTECTED_TOKENS"
    "list_all (\<lambda>t. t \<noteq> [] \<and> byte_len t \<le> MAX_COMPOSE_FIELD_UTF8_BYTES) (protected_for env ?ti)"
    using merge_protected_ok [OF protected_tokens_ok protected_tokens_ok] by (simp_all add: protected_for_def daemon_transform_input_def)
  have shape: "dc_sources ctx \<noteq> []" "length (dc_sources ctx) \<le> MAX_DPR_SOURCES"
    "list_ex (\<lambda>s. cs_available s \<and> cs_provider s = sel_provider (dc_selection ctx)) (dc_sources ctx)"
    using ctx by (auto simp: context_ok_def MAX_DPR_SOURCES_def map_eq_Cons_conv)
  have names: "length (stt_as_str p) \<le> MAX_COMPOSE_FIELD_UTF8_BYTES" for p by (cases p) (simp_all add: MAX_COMPOSE_FIELD_UTF8_BYTES_def)
  have reason: "length (sel_reason (dc_selection ctx)) \<le> MAX_COMPOSE_FIELD_UTF8_BYTES" "sel_reason (dc_selection ctx) \<in> set CLOSED_SOURCE_SELECTION_REASONS"
    using ctx by (auto simp: context_ok_def CLOSED_SOURCE_SELECTION_REASONS_def MAX_COMPOSE_FIELD_UTF8_BYTES_def)
  show ?thesis
    using shape texts prot reason names assms(3) fingerprint_shape [OF assms(2), of validated]
    by (simp add: request_is_bounded_def request_for_def daemon_transform_input_def list_all_iff)
qed

lemma stale_candidate:
  "check_selection digest ci x = Some (trigger, codes) \<Longrightarrow> compose_candidate u rx digest ci x = Some out \<Longrightarrow>
    co_decision out = FallbackBaseline \<and> co_rendered out = ci_baseline ci"
  by (auto simp: compose_candidate_def baseline_result_def compose_result_def Let_def split: if_splits option.splits)

lemma stale_composition:
  assumes "\<And>x. check_selection digest ci x \<noteq> None" "compose_structured_candidate u rx digest ci = Some out"
  shows "co_decision out = FallbackBaseline \<and> co_rendered out = ci_baseline ci"
proof (cases "\<exists>x. compose_candidate u rx digest ci x = Some out")
  case True
  then obtain x where x: "compose_candidate u rx digest ci x = Some out" by blast
  obtain trigger codes where "check_selection digest ci x = Some (trigger, codes)" using assms(1) [of x] by auto
  then show ?thesis using stale_candidate x by blast
qed (use assms(2) in \<open>auto simp: compose_structured_candidate_def baseline_result_def compose_result_def Let_def
    split: if_splits option.splits prod.splits\<close>)

text \<open>
  Claim C39. A composition is impossible unless the Transcript is the selected source verbatim. In the
  derivation job the fingerprint of the validated Transcript is compared with the selected source's
  text; when the validator changed anything (a correction, the other source, a merge, a reconciliation) every
  candidate is stale and the local baseline is delivered, although the cloud was asked.
\<close>
theorem changed_transcript_never_composed:
  assumes "dpr_transform_and_deliver env ck deliver ti = Some (c, effects)" "\<not> ti_small_edit ti"
    and "find (\<lambda>s. cs_provider s = sel_provider (ti_selection ti) \<and> cs_available s) (ti_sources ti) = Some s"
    and "text_sha256_fingerprint (en_digest env) (cs_text s) \<noteq> text_sha256_fingerprint (en_digest env) (ti_selected_source ti)"
  shows "tc_decision c = FallbackBaseline
    \<and> tc_rendered c = apply_tone (en_unicode env) (en_regexes env) (snd (routed env ti)) (ti_tone ti)"
proof -
  have fresh: "check_selection (en_digest env) (compose_for env ti outcome cand) x \<noteq> None" for outcome cand x
    using assms(3,4) by (auto simp: check_selection_def selected_source_text_def compose_for_def Let_def)
  have stale: "co_decision out = FallbackBaseline \<and> co_rendered out = snd (routed env ti)"
    if "compose_outcome_for env ti outcome cand = Some out" for outcome cand out
  proof -
    have "co_decision out = FallbackBaseline \<and> co_rendered out = ci_baseline (compose_for env ti outcome cand)"
      using stale_composition [OF fresh that [unfolded compose_outcome_for_def]] .
    then show ?thesis by (simp add: compose_for_def)
  qed
  from assms(1) show ?thesis
  proof (cases rule: transform_parts)
    case (1 l d calls out err)
    have "lg_format l = None"
      using run_cloud_leg_cases [OF production_inv [of "fst (routed env ti)" "ck_route ck"], where env = env and ck = ck and ti = ti,
        unfolded 1(1), simplified] attempt_leg_results(1) assms(2) by (metis not_Some_eq)
    then have "\<exists>outcome cand. compose_outcome_for env ti outcome cand = Some out"
      using 1(2) by (auto simp: settle_def Let_def split: option.splits if_splits)
    then show ?thesis using stale 1(3,6) by auto
  qed
qed

section \<open>Concrete runs\<close>

text \<open>An environment whose formatter leaves the text as it is, and a digest that tells lengths apart.\<close>

definition sample_env :: dpr_env where
  "sample_env = \<lparr>en_unicode = ascii, en_regexes = plain_regexes, en_gate = plain_gate_regexes, en_digest = sample_digest,
     en_organize = (\<lambda>t policy route. t)\<rparr>"

definition sample_sources :: "source_transcript list" where
  "sample_sources = [\<lparr>st_provider = Groq, st_text = lit ''ship it today''\<rparr>, \<lparr>st_provider = Deepgram, st_text = lit ''skip it today''\<rparr>]"

definition early_clock :: dpr_clock where
  "early_clock = \<lparr>ck_route = 0, ck_budget = 0, ck_attempt = 1, ck_compose = 2, ck_delivery = 3\<rparr>"

text \<open>A cloud that keeps the selected source as it is.\<close>

definition keep_all :: "dpr_cloud_request \<Rightarrow> duration \<Rightarrow> dpr_cloud_attempt" where
  "keep_all rq budget =
     attempt_success
       \<lparr>sc_schema_version = ''1'', sc_fingerprint = rq_fingerprint rq, sc_recon_provider = ''provider_a'',
        sc_recon_reason = sel_reason (rq_selection rq), sc_removals = [], sc_conversions = [], sc_layout = NaturalLayout,
        sc_layout_certainty = ClearCertainty, sc_labels = [],
        sc_derivation = [\<lparr>ds_kind = Keep, ds_provider = Some ''provider_a'', ds_source = lit ''ship it today'',
          ds_output = lit ''ship it today'', ds_conversion = None, ds_label = None\<rparr>]\<rparr>"

definition sample_context :: dpr_context where
  "sample_context =
     \<lparr>dc_selected_source = lit ''ship it today'',
      dc_sources = [\<lparr>cs_provider = ProviderA, cs_available = True, cs_text = lit ''ship it today'', cs_primary = True\<rparr>,
        \<lparr>cs_provider = ProviderB, cs_available = True, cs_text = lit ''skip it today'', cs_primary = False\<rparr>],
      dc_selection = \<lparr>sel_provider = ProviderA, sel_reason = ''configured_primary_rank''\<rparr>,
      dc_provider_state = SemanticDisagreement, dc_transcript_selection = SourceGroq\<rparr>"

lemma sample_context: "dpr_source_context ascii sample_sources [] = Some sample_context"
  by code_simp

definition sample_input :: "utext \<Rightarrow> dpr_transform_input" where
  "sample_input validated = daemon_transform_input sample_context validated [] Adaptive True (Some keep_all) False Formal"

lemma sample_digest_ok: "digest_ok sample_digest"
  by (auto simp: digest_ok_def sample_digest_def list_all_iff)

theorem daemon_request_bounded_witness:
  "request_is_bounded (request_for sample_env (sample_input (lit ''Ship it today.'')))"
proof -
  have "byte_len (lit ''Ship it today.'') \<le> MAX_DPR_SOURCE_UTF8_BYTES"
    "list_all (\<lambda>s. byte_len (st_text s) \<le> MAX_DPR_SOURCE_UTF8_BYTES) (sanitize_source_transcripts ascii sample_sources)"
    by code_simp+
  moreover have "digest_ok (en_digest sample_env)" by (simp add: sample_env_def sample_digest_ok)
  ultimately show ?thesis unfolding sample_input_def using daemon_request_bounded [OF sample_context] by blast
qed

text \<open>The same candidate is accepted for the selected source and refused for the same words with a full stop.\<close>

lemma sample_runs:
  "map_option (\<lambda>(c, effects). (tc_decision c, tc_cloud_attempted c))
     (dpr_transform_and_deliver sample_env early_clock (\<lambda>t. ()) (sample_input (lit ''ship it today''))) = Some (Accept, True)"
  "map_option (\<lambda>(c, effects). tc_cloud_attempted c)
     (dpr_transform_and_deliver sample_env early_clock (\<lambda>t. ()) (sample_input (lit ''Ship it today.''))) = Some True"
  by code_simp+

theorem changed_transcript_never_composed_witness:
  "\<exists>c effects. dpr_transform_and_deliver sample_env early_clock (\<lambda>t. ()) (sample_input (lit ''Ship it today.'')) = Some (c, effects)
     \<and> tc_cloud_attempted c \<and> tc_decision c = FallbackBaseline"
proof -
  let ?ti = "sample_input (lit ''Ship it today.'')"
  obtain c effects where run: "dpr_transform_and_deliver sample_env early_clock (\<lambda>t. ()) ?ti = Some (c, effects)" "tc_cloud_attempted c"
    using sample_runs(2) by auto
  have small: "\<not> ti_small_edit ?ti" by code_simp
  have found: "find (\<lambda>s. cs_provider s = sel_provider (ti_selection ?ti) \<and> cs_available s) (ti_sources ?ti)
      = Some \<lparr>cs_provider = ProviderA, cs_available = True, cs_text = lit ''ship it today'', cs_primary = True\<rparr>" by code_simp
  have "text_sha256_fingerprint (en_digest sample_env) (lit ''ship it today'')
      \<noteq> text_sha256_fingerprint (en_digest sample_env) (ti_selected_source ?ti)" by code_simp
  then have "tc_decision c = FallbackBaseline"
    using changed_transcript_never_composed [OF run(1) small found] by simp
  then show ?thesis using run by blast
qed

end
