(* ===== verification/Daemon_Types.thy ===== *)
theory Daemon_Types
  imports Decision Session
begin

text \<open>
  The vocabulary of the Linux daemon (\<open>lib.rs\<close>, \<open>diagnostics.rs\<close> of \<open>voisu-core\<close>): commands, the
  public daemon state, lifecycle evidence, responses, overlay events and diagnostic records. The type
  parameter stands for data the daemon only passes on (exports, level frames, readiness, Local ASR
  metrics, Smart Writing evidence).
\<close>

section \<open>Commands and states\<close>

datatype command =
    CmdStart
  | CmdStop
  | CmdToggle
  | CmdStatus
  | CmdOverlayStatus
  | CmdLevel nat
  | CmdShortcut
  | CmdHistory
  | CmdExport string
  | CmdReplay string
  | CmdSetAsrMode asr_mode

datatype daemon_state = DaemonIdle | DaemonRecording | DaemonProcessing

fun daemon_cli_label :: "daemon_state \<Rightarrow> string" where
  "daemon_cli_label DaemonIdle = ''idle''"
| "daemon_cli_label DaemonRecording = ''Recording''"
| "daemon_cli_label DaemonProcessing = ''processing''"

datatype lifecycle_stage =
    CaptureStarted
  | ProvidersStarted
  | CaptureFinalized
  | ProvidersCompleted
  | ValidationCompleted
  | DeliveryCompleted
  | CaptureAborted

datatype delivery_method = CompositorSubmitted | ClipboardFallback

record delivery_outcome =
  do_method :: delivery_method
  do_fallback_reason :: "string option"

definition compositor_submitted :: delivery_outcome where
  "compositor_submitted = \<lparr>do_method = CompositorSubmitted, do_fallback_reason = None\<rparr>"

definition clipboard_fallback :: "string \<Rightarrow> delivery_outcome" where
  "clipboard_fallback reason = \<lparr>do_method = ClipboardFallback, do_fallback_reason = Some reason\<rparr>"

section \<open>Evidence\<close>

record intent_reconstruction_diagnostic =
  ird_model :: string
  ird_eligibility :: intent_reconstruction_eligibility
  ird_outcome :: intent_reconstruction_outcome
  ird_elapsed_ms :: nat
  ird_candidate :: "utext option"

record 'a lifecycle_evidence =
  ev_recording_id :: nat
  ev_correlation_id :: string
  ev_stages :: "lifecycle_stage list"
  ev_delivery_count :: nat
  ev_delivery_method :: "delivery_method option"
  ev_delivery_fallback_reason :: "string option"
  ev_streamed_chunk_count :: nat
  ev_source_providers :: "provider list"
  ev_first_chunk_ms :: "nat option"
  ev_capture_finalized_ms :: "nat option"
  ev_truncated_by :: "capture_limit option"
  ev_provider_timings_ms :: "(provider \<times> nat) list"
  ev_provider_failures :: "provider_failure list"
  ev_release_to_text_ms :: "nat option"
  ev_recording_duration_ms :: "nat option"
  ev_stop_to_finalized_ms :: "nat option"
  ev_stop_to_delivered_ms :: "nat option"
  ev_transcript_selection :: "transcript_selection option"
  ev_validation_reason :: "string option"
  ev_fallback_reason :: "string option"
  ev_reconciliation_requested :: bool
  ev_recovery_attempted :: bool
  ev_source_selection :: "source_selection_diagnostic option"
  ev_intent_reconstruction :: "intent_reconstruction_diagnostic option"
  ev_confidence_arbitration :: "arbitration_diagnostic option"
  ev_source_transcripts :: "source_transcript list"
  ev_final_transcript :: "utext option"
  ev_local_asr :: "'a option"

definition base_evidence :: "nat \<Rightarrow> string \<Rightarrow> lifecycle_stage list \<Rightarrow> 'a lifecycle_evidence" where
  "base_evidence i correlation stages =
     \<lparr>ev_recording_id = i, ev_correlation_id = correlation, ev_stages = stages, ev_delivery_count = 0,
      ev_delivery_method = None, ev_delivery_fallback_reason = None, ev_streamed_chunk_count = 0,
      ev_source_providers = [], ev_first_chunk_ms = None, ev_capture_finalized_ms = None, ev_truncated_by = None,
      ev_provider_timings_ms = [], ev_provider_failures = [], ev_release_to_text_ms = None,
      ev_recording_duration_ms = None, ev_stop_to_finalized_ms = None, ev_stop_to_delivered_ms = None,
      ev_transcript_selection = None, ev_validation_reason = None, ev_fallback_reason = None,
      ev_reconciliation_requested = False, ev_recovery_attempted = False, ev_source_selection = None,
      ev_intent_reconstruction = None, ev_confidence_arbitration = None, ev_source_transcripts = [],
      ev_final_transcript = None, ev_local_asr = None\<rparr>"

text \<open>The first-chunk mark is \<open>u64::MAX\<close> until a chunk was streamed.\<close>

definition atomic_millis :: "nat \<Rightarrow> nat option" where
  "atomic_millis value = (if value \<noteq> u64_max then Some value else None)"

section \<open>Overlay events and responses\<close>

datatype overlay_outcome =
    OverlayDelivered
  | OverlayCopied
  | QualityFailure
  | CaptureFailure
  | OverlayEmptyRecording
  | OverlayTooShortRecording
  | OverlaySilentRecording
  | OverlayRecordingDeadline
  | OverlayProviderFailure
  | DeliveryFailure
  | OtherFailure
  | OverlayUnknown

record overlay_event =
  oe_id :: nat
  oe_instance :: nat
  oe_outcome :: overlay_outcome
  oe_message :: string
  oe_correlation_id :: "string option"

definition PROTOCOL_VERSION :: nat where "PROTOCOL_VERSION = 1"

record 'a response =
  rs_version :: nat
  rs_ok :: bool
  rs_state :: "daemon_state option"
  rs_message :: string
  rs_evidence :: "'a lifecycle_evidence option"
  rs_history :: "'a list option"
  rs_export :: "'a option"
  rs_diagnostic_page :: "'a option"
  rs_overlay_event :: "overlay_event option"
  rs_level_frames :: "'a list option"
  rs_recording_remaining_ms :: "nat option"
  rs_readiness :: "'a option"
  rs_capabilities :: "string list"
  rs_asr_mode :: "'a option"

definition with_evidence :: "bool \<Rightarrow> daemon_state option \<Rightarrow> string \<Rightarrow> 'a lifecycle_evidence option \<Rightarrow> 'a response" where
  "with_evidence ok state message evidence =
     \<lparr>rs_version = PROTOCOL_VERSION, rs_ok = ok, rs_state = state, rs_message = message, rs_evidence = evidence,
      rs_history = None, rs_export = None, rs_diagnostic_page = None, rs_overlay_event = None, rs_level_frames = None,
      rs_recording_remaining_ms = None, rs_readiness = None, rs_capabilities = [], rs_asr_mode = None\<rparr>"

definition response_success :: "daemon_state \<Rightarrow> string \<Rightarrow> 'a response" where
  "response_success state message = with_evidence True (Some state) message None"

definition response_rejected :: "daemon_state option \<Rightarrow> string \<Rightarrow> 'a response" where
  "response_rejected state message = with_evidence False state message None"

definition with_history :: "'a list \<Rightarrow> 'a response" where
  "with_history records = (response_success DaemonIdle ''diagnostic history'')\<lparr>rs_history := Some records\<rparr>"

definition with_export :: "'a \<Rightarrow> 'a response" where
  "with_export export = (response_success DaemonIdle ''diagnostic export'')\<lparr>rs_export := Some export\<rparr>"

definition with_level_frames :: "'a list \<Rightarrow> 'a response" where
  "with_level_frames frames = (with_evidence True None ''audio levels'' None)\<lparr>rs_level_frames := Some frames\<rparr>"

section \<open>Diagnostic records\<close>

record 'a diagnostic_record =
  dr_correlation_id :: string
  dr_recording_id :: nat
  dr_recorded_at_unix_ms :: nat
  dr_stages :: "lifecycle_stage list"
  dr_streamed_chunk_count :: nat
  dr_source_transcripts :: "source_transcript list"
  dr_source_coverage :: "source_coverage_record list"
  dr_final_transcript :: "utext option"
  dr_selection :: "transcript_selection option"
  dr_selected_provider :: "provider option"
  dr_selection_confidence :: "source_selection_confidence option"
  dr_validation_reason :: "string option"
  dr_fallback_reason :: "string option"
  dr_reconciliation_requested :: bool
  dr_recovery_attempted :: bool
  dr_delivery_count :: nat
  dr_delivery_method :: "delivery_method option"
  dr_delivery_fallback_reason :: "string option"
  dr_first_chunk_ms :: "nat option"
  dr_capture_finalized_ms :: "nat option"
  dr_truncated_by :: "capture_limit option"
  dr_provider_timings_ms :: "(provider \<times> nat) list"
  dr_provider_failures :: "provider_failure list"
  dr_release_to_text_ms :: "nat option"
  dr_recording_duration_ms :: "nat option"
  dr_stop_to_finalized_ms :: "nat option"
  dr_stop_to_delivered_ms :: "nat option"
  dr_telemetry_schema :: nat
  dr_error :: "string option"
  dr_debug_audio :: "'a option"
  dr_smart_writing :: "'a option"
  dr_dpr :: "'a option"
  dr_intent_reconstruction :: "intent_reconstruction_diagnostic option"
  dr_confidence_arbitration :: "arbitration_diagnostic option"
  dr_local_asr :: "'a option"

definition TELEMETRY_SCHEMA :: nat where "TELEMETRY_SCHEMA = 2"

definition diagnostic_record_new :: "string \<Rightarrow> nat \<Rightarrow> nat \<Rightarrow> 'a diagnostic_record" where
  "diagnostic_record_new correlation i now =
     \<lparr>dr_correlation_id = correlation, dr_recording_id = i, dr_recorded_at_unix_ms = now, dr_stages = [],
      dr_streamed_chunk_count = 0, dr_source_transcripts = [], dr_source_coverage = [], dr_final_transcript = None,
      dr_selection = None, dr_selected_provider = None, dr_selection_confidence = None, dr_validation_reason = None,
      dr_fallback_reason = None, dr_reconciliation_requested = False, dr_recovery_attempted = False,
      dr_delivery_count = 0, dr_delivery_method = None, dr_delivery_fallback_reason = None, dr_first_chunk_ms = None,
      dr_capture_finalized_ms = None, dr_truncated_by = None, dr_provider_timings_ms = [], dr_provider_failures = [],
      dr_release_to_text_ms = None, dr_recording_duration_ms = None, dr_stop_to_finalized_ms = None,
      dr_stop_to_delivered_ms = None, dr_telemetry_schema = TELEMETRY_SCHEMA, dr_error = None, dr_debug_audio = None,
      dr_smart_writing = None, dr_dpr = None, dr_intent_reconstruction = None, dr_confidence_arbitration = None,
      dr_local_asr = None\<rparr>"

end
