(* ===== verification/Daemon_Actor.thy ===== *)
theory Daemon_Actor
  imports Daemon_Types
begin

text \<open>
  The actor of the Linux daemon (\<open>bin/voisu-daemon.rs\<close>, \<open>actor_loop\<close> and its helpers): one task owns
  the lifecycle state and the adapters, takes one message at a time, hands adapters to spawned
  workflows and takes them back when a workflow reports. A message is an event that carries what the
  actor reads from outside while it handles it (dictionary snapshot, configuration, store answers).
  An \<open>expect\<close> that would fail is the value \<open>None\<close>. Client reply channels are numbers; what the actor
  does to the world is a list of effects. Log lines are left out.
\<close>

section \<open>Adapters and configuration\<close>

datatype provider_adapter =
    DisabledAdapter provider
  | ControlledAdapter provider
  | CloudFreeAdapter provider
  | DeepgramAdapter "utext list" string
  | GroqAdapter utext string

record validator_adapter =
  va_user_vocabulary :: "utext list"
  va_dictionary_terms :: "utext list"

record daemon_config =
  dc_controlled :: bool
  dc_deepgram_enabled :: bool
  dc_diagnostics :: bool
  dc_instance :: nat
  dc_keyterms :: "utext list \<Rightarrow> utext list"
  dc_whisper_prompt :: "utext list \<Rightarrow> utext"

text \<open>Both builders note that a Cloud capability was used, the disabled stand-in does not.\<close>

definition build_deepgram_provider :: "bool \<Rightarrow> bool \<Rightarrow> utext list \<Rightarrow> string \<Rightarrow> provider_adapter" where
  "build_deepgram_provider deepgram_enabled controlled keyterms language =
     (if \<not> deepgram_enabled then DisabledAdapter Deepgram
      else if controlled then ControlledAdapter Deepgram
      else DeepgramAdapter keyterms language)"

definition build_groq_provider :: "bool \<Rightarrow> utext \<Rightarrow> string \<Rightarrow> provider_adapter" where
  "build_groq_provider controlled whisper_prompt language =
     (if controlled then ControlledAdapter Groq else GroqAdapter whisper_prompt language)"

section \<open>State\<close>

datatype pending_capture = PendingStart | PendingReplay string

datatype capture_kind = KindStart | KindReplay

record 'a active_recording =
  ac_id :: nat
  ac_deadline_clock :: deadline_clock
  ac_settings :: 'a
  ac_asr_mode :: asr_mode
  ac_dictionary_terms :: "utext list"
  ac_evidence :: "'a lifecycle_evidence"

datatype 'a actor_state =
    ActorIdle
  | Admitting nat pending_capture nat
  | Starting nat string asr_mode
  | ActorRecording "'a active_recording"
  | Processing "'a lifecycle_evidence"
  | Recovering nat
  | Replaying nat

record 'a actor =
  a_state :: "'a actor_state"
  a_next_overlay_event_id :: nat
  a_last_overlay_event :: "overlay_event option"
  a_next_id :: nat
  a_grammar_adapter :: bool
  a_dpr_client :: bool
  a_capture :: bool
  a_deepgram :: "provider_adapter option"
  a_groq :: "provider_adapter option"
  a_validator :: "validator_adapter option"
  a_delivery :: bool
  a_shortcut_binding :: "string option"
  a_shutdown_ack :: "nat option"
  a_next_admission_token :: nat
  a_running :: bool

definition actor_start :: "'a actor" where
  "actor_start =
     \<lparr>a_state = ActorIdle, a_next_overlay_event_id = 1, a_last_overlay_event = None, a_next_id = 1,
      a_grammar_adapter = False, a_dpr_client = False, a_capture = True, a_deepgram = None, a_groq = None,
      a_validator = Some \<lparr>va_user_vocabulary = [], va_dictionary_terms = []\<rparr>, a_delivery = True,
      a_shortcut_binding = None, a_shutdown_ack = None, a_next_admission_token = 0, a_running = True\<rparr>"

section \<open>Messages and effects\<close>

record start_failure =
  sf_error :: boundary_error
  sf_capture :: bool
  sf_provider_stream :: "provider option"
  sf_failed_provider :: "provider option"

record 'a startup_completion =
  sc_id :: nat
  sc_deepgram :: provider_adapter
  sc_groq :: provider_adapter
  sc_result :: "start_failure + deadline_clock"
  sc_settings :: 'a
  sc_asr_mode :: asr_mode
  sc_dictionary_terms :: "utext list"
  sc_reply :: nat

record 'a completion =
  cp_id :: nat
  cp_result :: "boundary_error + unit"
  cp_evidence :: "'a lifecycle_evidence"
  cp_validator :: validator_adapter
  cp_reply :: "nat option"
  cp_publish_terminal_outcome :: bool

record 'a replay_completion =
  rc_id :: nat
  rc_deepgram :: provider_adapter
  rc_groq :: provider_adapter
  rc_validator :: validator_adapter
  rc_reply :: nat
  rc_response :: "'a response"

text \<open>What a command reads: the store, the level rings, the live Recording's counters and the clock.\<close>

record 'a command_answers =
  ca_history :: "'a list option"
  ca_export :: "unit + 'a option"
  ca_levels :: "'a list"
  ca_chunk_count :: nat
  ca_first_chunk_ms :: nat
  ca_now :: instant
  ca_readiness :: "'a option"

text \<open>What an admission reads: the dictionary, the configuration, and whether the Cloud clients could be built.\<close>

record 'a admission_answers =
  aa_merged_terms :: "utext list"
  aa_user_terms :: "utext list"
  aa_settings :: 'a
  aa_language :: string
  aa_correlation_id :: string
  aa_quota_error :: "string option"
  aa_local_origin_refusal :: "string option"
  aa_grammar :: bool
  aa_dpr :: bool

datatype 'a actor_message =
    CommandMessage command nat "'a command_answers"
  | Started "'a startup_completion" nat
  | PumpTerminated nat nat nat
  | AuthorizeDelivery nat string nat
  | DeliveryLanded nat string delivery_method "string option" bool
  | Completed "'a completion"
  | Recovered nat
  | ReplayCompleted "'a replay_completion"
  | ShortcutBound "string option"
  | CaptureAdmitted nat "'a response + asr_mode" "'a admission_answers"
  | ShutdownMessage nat nat nat

datatype 'a effect =
    Answer nat "'a response"
  | AnswerWithAsrStatus nat "'a response" "asr_mode option"
  | QueuePersist asr_mode daemon_state "asr_mode option" nat
  | QueueAdmit nat capture_kind daemon_state "asr_mode option"
  | AnswerAuthorization nat bool
  | NoteCloudUsed
  | BeginLocalSession
  | ReleaseReservation
  | HandOffReservation
  | BeginLive string "utext list"
  | AbandonLive string
  | SpawnStartup nat asr_mode provider_adapter provider_adapter "'a" "utext list" nat
  | SpawnPump nat
  | SpawnProcessing "'a active_recording" "'a lifecycle_evidence" validator_adapter bool bool "nat option" bool
  | SpawnReplay nat asr_mode string provider_adapter provider_adapter validator_adapter nat
  | SpawnRecovery nat
  | RecordDiagnostics "'a diagnostic_record"
  | AcknowledgeShutdown nat

section \<open>Helpers\<close>

fun state_label :: "'a actor_state \<Rightarrow> daemon_state" where
  "state_label ActorIdle = DaemonIdle"
| "state_label (Admitting _ _ _) = DaemonIdle"
| "state_label (Recovering _) = DaemonIdle"
| "state_label (Replaying _) = DaemonIdle"
| "state_label (Starting _ _ _) = DaemonRecording"
| "state_label (ActorRecording _) = DaemonRecording"
| "state_label (Processing _) = DaemonProcessing"

fun active_asr_mode :: "'a actor_state \<Rightarrow> asr_mode option" where
  "active_asr_mode (Starting _ _ mode) = Some mode"
| "active_asr_mode (ActorRecording r) = Some (ac_asr_mode r)"
| "active_asr_mode _ = None"

definition live_evidence :: "nat \<Rightarrow> nat \<Rightarrow> 'a active_recording \<Rightarrow> 'a lifecycle_evidence" where
  "live_evidence chunks first_ms r =
     (ac_evidence r)\<lparr>ev_streamed_chunk_count := chunks, ev_first_chunk_ms := atomic_millis first_ms\<rparr>"

definition status_response_with_feedback :: "'a actor_state \<Rightarrow> 'a command_answers \<Rightarrow> 'a response" where
  "status_response_with_feedback s q =
     (with_evidence True (Some (state_label s)) (daemon_cli_label (state_label s))
        (case s of
           ActorRecording r \<Rightarrow> Some (live_evidence (ca_chunk_count q) (ca_first_chunk_ms q) r)
         | Processing evidence \<Rightarrow> Some evidence
         | _ \<Rightarrow> None))
       \<lparr>rs_readiness := ca_readiness q,
        rs_recording_remaining_ms :=
          (case s of
             ActorRecording r \<Rightarrow> Some (min (remaining (ac_deadline_clock r) (ca_now q) div 1000000) u64_max)
           | _ \<Rightarrow> None)\<rparr>"

definition status_response :: "'a actor_state \<Rightarrow> 'a command_answers \<Rightarrow> 'a response" where
  "status_response s q = status_response_with_feedback s q"

definition overlay_status_response ::
  "'a actor_state \<Rightarrow> overlay_event option \<Rightarrow> 'a command_answers \<Rightarrow> 'a response" where
  "overlay_status_response s event q = (status_response_with_feedback s q)\<lparr>rs_overlay_event := event\<rparr>"

definition retain_overlay_event :: "daemon_config \<Rightarrow> overlay_outcome \<Rightarrow> string \<Rightarrow> string option \<Rightarrow> 'a actor \<Rightarrow> 'a actor" where
  "retain_overlay_event cfg outcome message correlation a =
     a\<lparr>a_last_overlay_event := Some \<lparr>oe_id = a_next_overlay_event_id a, oe_instance = dc_instance cfg,
          oe_outcome = outcome, oe_message = message, oe_correlation_id = correlation\<rparr>,
       a_next_overlay_event_id := a_next_overlay_event_id a + 1\<rparr>"

definition COPY_MODE_REASON :: string where "COPY_MODE_REASON = ''Delivery is set to copy''"

definition delivered_message :: "delivery_method option \<Rightarrow> string option \<Rightarrow> bool \<Rightarrow> string" where
  "delivered_message method reason truncated =
     (let outcome =
        (if method = Some ClipboardFallback
         then (case reason of
                 Some why \<Rightarrow>
                   (if why = COPY_MODE_REASON then ''Copied. Paste with Ctrl+V''
                    else ''Couldn'' @ [CHR 0x27] @ ''t paste; text is on your clipboard ('' @ why @ '')'')
               | None \<Rightarrow> ''Couldn'' @ [CHR 0x27] @ ''t paste; text is on your clipboard'')
         else if truncated then ''Pasted'' else ''Pasted. Also on your clipboard.'')
      in if truncated then outcome @ ''. Recording was cut off; check the end'' else outcome)"

definition delivered_overlay_event :: "delivery_method option \<Rightarrow> string option \<Rightarrow> bool \<Rightarrow> overlay_outcome \<times> string" where
  "delivered_overlay_event method reason truncated =
     (if method = Some ClipboardFallback then (OverlayCopied, delivered_message method reason truncated)
      else (OverlayDelivered, if truncated then delivered_message method reason truncated else ''Pasted''))"

definition overlay_outcome_of :: "boundary_error \<Rightarrow> overlay_outcome" where
  "overlay_outcome_of e =
     (if kind e = SilentRecording then OverlaySilentRecording
      else if transcript_failure e \<noteq> None then QualityFailure
      else (case kind e of
              Capture \<Rightarrow> CaptureFailure
            | EmptyRecording \<Rightarrow> OverlayEmptyRecording
            | TooShortRecording \<Rightarrow> OverlayTooShortRecording
            | RecordingDeadlineKind \<Rightarrow> OverlayRecordingDeadline
            | ProviderKind \<Rightarrow> OverlayProviderFailure
            | DeliveryKind \<Rightarrow> DeliveryFailure
            | _ \<Rightarrow> OtherFailure))"

definition DEEPGRAM_DISABLED_DIAGNOSTIC :: string where
  "DEEPGRAM_DISABLED_DIAGNOSTIC = ''Deepgram disabled for this Recording''"

definition normalize_disabled_deepgram :: "provider_failure list \<Rightarrow> provider_failure list" where
  "normalize_disabled_deepgram fs =
     sort_key pf_provider
       (filter (\<lambda>f. pf_provider f \<noteq> Deepgram) fs @ [provider_failure_new Deepgram NotStarted DEEPGRAM_DISABLED_DIAGNOSTIC])"

definition account_for_missing_providers ::
  "source_transcript list \<Rightarrow> string \<Rightarrow> provider_failure list \<Rightarrow> provider_failure list" where
  "account_for_missing_providers srcs cause fs =
     fold (\<lambda>p fs. if p \<notin> st_provider ` set srcs \<and> p \<notin> pf_provider ` set fs
                  then fs @ [provider_failure_new p Aborted cause] else fs)
       [Deepgram, Groq] fs"

section \<open>Stopping a Recording\<close>

definition take_active_recording :: "'a actor_state \<Rightarrow> 'a response + 'a active_recording \<times> 'a actor_state" where
  "take_active_recording s =
     (case s of
        ActorRecording r \<Rightarrow> Inr (r, ActorIdle)
      | current \<Rightarrow> Inl (response_rejected (Some (state_label current)) ''Recording is no longer active''))"

text \<open>
  Both adapters move into the processing task; if one is missing the Recording stays as it is and the
  rejection comes back with the reply channel.
\<close>

definition spawn_recording_processing ::
  "'a active_recording \<Rightarrow> nat option \<Rightarrow> bool \<Rightarrow> nat \<Rightarrow> nat \<Rightarrow> 'a actor
     \<Rightarrow> 'a actor \<times> 'a effect list \<times> ('a response \<times> nat option) option" where
  "spawn_recording_processing r reply publish chunks first_ms a =
     (case (a_validator a, a_delivery a) of
        (Some v, True) \<Rightarrow>
          (let evidence = live_evidence chunks first_ms r
           in (a\<lparr>a_validator := None, a_delivery := False, a_state := Processing evidence\<rparr>,
               [SpawnProcessing r evidence v (a_grammar_adapter a) (a_dpr_client a) reply publish], None))
      | _ \<Rightarrow>
          (a\<lparr>a_state := ActorRecording r\<rparr>, [],
           Some (response_rejected (Some DaemonRecording) ''Recording adapters are unavailable'', reply)))"

definition stop_for_client :: "nat \<Rightarrow> nat \<Rightarrow> nat \<Rightarrow> 'a actor \<Rightarrow> 'a actor \<times> 'a effect list" where
  "stop_for_client reply chunks first_ms a =
     (case take_active_recording (a_state a) of
        Inl response \<Rightarrow> (a, [Answer reply response])
      | Inr (r, s) \<Rightarrow>
          (case spawn_recording_processing r (Some reply) False chunks first_ms (a\<lparr>a_state := s\<rparr>) of
             (a', effs, Some (response, Some reply')) \<Rightarrow> (a', effs @ [Answer reply' response])
           | (a', effs, _) \<Rightarrow> (a', effs)))"

definition stop_unattended :: "bool \<Rightarrow> nat \<Rightarrow> nat \<Rightarrow> 'a actor \<Rightarrow> 'a actor \<times> 'a effect list" where
  "stop_unattended publish chunks first_ms a =
     (case take_active_recording (a_state a) of
        Inl _ \<Rightarrow> (a, [])
      | Inr (r, s) \<Rightarrow>
          (case spawn_recording_processing r None publish chunks first_ms (a\<lparr>a_state := s\<rparr>) of (a', effs, _) \<Rightarrow> (a', effs)))"

definition cancel_pending_admission :: "string \<Rightarrow> 'a actor \<Rightarrow> 'a actor \<times> 'a effect list" where
  "cancel_pending_admission message a =
     (case a_state a of
        Admitting _ _ reply \<Rightarrow> (a\<lparr>a_state := ActorIdle\<rparr>, [Answer reply (response_rejected (Some DaemonIdle) message)])
      | _ \<Rightarrow> (a, []))"

section \<open>Commands\<close>

definition HISTORY_UNAVAILABLE :: string where "HISTORY_UNAVAILABLE = ''Recording history is unavailable''"

definition enqueue_admission :: "capture_kind \<Rightarrow> pending_capture \<Rightarrow> nat \<Rightarrow> 'a actor \<Rightarrow> 'a actor \<times> 'a effect list" where
  "enqueue_admission k waiting reply a =
     (let token = a_next_admission_token a
      in (a\<lparr>a_next_admission_token := sat_add_u64 token 1, a_state := Admitting token waiting reply\<rparr>,
          [QueueAdmit token k (state_label (a_state a)) (active_asr_mode (a_state a))]))"

definition export_response :: "bool \<Rightarrow> 'a actor_state \<Rightarrow> unit + 'a option \<Rightarrow> 'a response" where
  "export_response diagnostics s found =
     (if \<not> diagnostics then response_rejected (Some (state_label s)) HISTORY_UNAVAILABLE
      else (case found of
              Inr (Some r) \<Rightarrow> with_export r
            | Inr None \<Rightarrow> response_rejected (Some (state_label s)) ''no Recording with that id; find ids with voisu history --json''
            | Inl _ \<Rightarrow> response_rejected (Some (state_label s)) HISTORY_UNAVAILABLE))"

definition history_response :: "bool \<Rightarrow> 'a actor_state \<Rightarrow> 'a list option \<Rightarrow> 'a response" where
  "history_response diagnostics s found =
     (if \<not> diagnostics then with_history []
      else (case found of
              Some records \<Rightarrow> with_history records
            | None \<Rightarrow> response_rejected (Some (state_label s)) HISTORY_UNAVAILABLE))"

definition shortcut_response :: "'a actor \<Rightarrow> 'a response" where
  "shortcut_response a =
     response_success (state_label (a_state a))
       (case a_shortcut_binding a of
          Some binding \<Rightarrow> ''Trigger Key: '' @ binding
        | None \<Rightarrow> ''No Trigger Key is bound; start, stop, and toggle remain available'')"

definition RECOVERY_IN_PROGRESS :: string where
  "RECOVERY_IN_PROGRESS = ''Recording recovery in progress; retry shortly''"

definition on_start :: "nat \<Rightarrow> 'a actor \<Rightarrow> 'a actor \<times> 'a effect list" where
  "on_start reply a =
     (case a_state a of
        Recovering _ \<Rightarrow> (a, [Answer reply (response_rejected (Some DaemonIdle) RECOVERY_IN_PROGRESS)])
      | Replaying _ \<Rightarrow> (a, [Answer reply (response_rejected (Some DaemonIdle) RECOVERY_IN_PROGRESS)])
      | ActorIdle \<Rightarrow> enqueue_admission KindStart PendingStart reply a
      | s \<Rightarrow> (a, [Answer reply (response_rejected (Some (state_label s)) ''Recording already active'')]))"

definition cancel_for_client :: "nat \<Rightarrow> 'a actor \<Rightarrow> 'a actor \<times> 'a effect list" where
  "cancel_for_client reply a =
     (case cancel_pending_admission ''Recording cancelled'' a of
        (a', effs) \<Rightarrow> (a', effs @ [Answer reply (response_rejected (Some DaemonIdle) ''No Recording active'')]))"

definition on_stop :: "nat \<Rightarrow> nat \<Rightarrow> nat \<Rightarrow> 'a actor \<Rightarrow> 'a actor \<times> 'a effect list" where
  "on_stop reply chunks first_ms a =
     (case a_state a of
        Admitting _ _ _ \<Rightarrow> cancel_for_client reply a
      | ActorRecording _ \<Rightarrow> stop_for_client reply chunks first_ms a
      | Processing _ \<Rightarrow> (a, [Answer reply (response_rejected (Some DaemonProcessing) ''Recording is being processed'')])
      | s \<Rightarrow> (a, [Answer reply (response_rejected (Some (state_label s)) ''No Recording active'')]))"

definition on_toggle :: "nat \<Rightarrow> nat \<Rightarrow> nat \<Rightarrow> 'a actor \<Rightarrow> 'a actor \<times> 'a effect list" where
  "on_toggle reply chunks first_ms a =
     (case a_state a of
        Recovering _ \<Rightarrow> (a, [Answer reply (response_rejected (Some DaemonIdle) RECOVERY_IN_PROGRESS)])
      | Replaying _ \<Rightarrow> (a, [Answer reply (response_rejected (Some DaemonIdle) RECOVERY_IN_PROGRESS)])
      | ActorIdle \<Rightarrow> enqueue_admission KindStart PendingStart reply a
      | Admitting _ _ _ \<Rightarrow> cancel_for_client reply a
      | ActorRecording _ \<Rightarrow> stop_for_client reply chunks first_ms a
      | Processing _ \<Rightarrow> (a, [Answer reply (response_rejected (Some DaemonProcessing) ''Recording is being processed'')])
      | s \<Rightarrow> (a, [Answer reply (response_rejected (Some (state_label s)) ''Recording is starting'')]))"

definition on_replay :: "daemon_config \<Rightarrow> string \<Rightarrow> nat \<Rightarrow> 'a actor \<Rightarrow> 'a actor \<times> 'a effect list" where
  "on_replay cfg fixture reply a =
     (if \<not> dc_diagnostics cfg
      then (a, [Answer reply (response_rejected (Some (state_label (a_state a))) HISTORY_UNAVAILABLE)])
      else (case a_state a of
              ActorIdle \<Rightarrow> enqueue_admission KindReplay (PendingReplay fixture) reply a
            | s \<Rightarrow> (a, [Answer reply (response_rejected (Some (state_label s))
                       ''cannot replay a fixture while a Recording is active'')])))"

definition on_command :: "daemon_config \<Rightarrow> command \<Rightarrow> nat \<Rightarrow> 'a command_answers \<Rightarrow> 'a actor \<Rightarrow> 'a actor \<times> 'a effect list" where
  "on_command cfg c reply q a =
     (let s = a_state a
      in case c of
           CmdStatus \<Rightarrow> (a, [AnswerWithAsrStatus reply (status_response s q) (active_asr_mode s)])
         | CmdSetAsrMode mode \<Rightarrow> (a, [QueuePersist mode (state_label s) (active_asr_mode s) reply])
         | CmdOverlayStatus \<Rightarrow>
             (a, [AnswerWithAsrStatus reply (overlay_status_response s (a_last_overlay_event a) q) (active_asr_mode s)])
         | CmdLevel _ \<Rightarrow> (a, [Answer reply (with_level_frames (ca_levels q))])
         | CmdShortcut \<Rightarrow> (a, [Answer reply (shortcut_response a)])
         | CmdHistory \<Rightarrow> (a, [Answer reply (history_response (dc_diagnostics cfg) s (ca_history q))])
         | CmdExport _ \<Rightarrow> (a, [Answer reply (export_response (dc_diagnostics cfg) s (ca_export q))])
         | CmdReplay fixture \<Rightarrow> on_replay cfg fixture reply a
         | CmdStart \<Rightarrow> on_start reply a
         | CmdStop \<Rightarrow> on_stop reply (ca_chunk_count q) (ca_first_chunk_ms q) a
         | CmdToggle \<Rightarrow> on_toggle reply (ca_chunk_count q) (ca_first_chunk_ms q) a)"

section \<open>Admitted captures\<close>

text \<open>
  The claim on a Local worker's reservation: dropped it releases the worker, handed off or begun it
  does not.
\<close>

definition drop_claim :: "bool \<Rightarrow> 'a effect list" where
  "drop_claim armed = (if armed then [ReleaseReservation] else [])"

definition begin_claim :: "bool \<Rightarrow> string \<Rightarrow> utext list \<Rightarrow> 'a effect list" where
  "begin_claim armed correlation user_terms = (if armed then [BeginLive correlation user_terms] else [])"

definition set_vocabulary :: "utext list \<Rightarrow> utext list \<Rightarrow> 'a actor \<Rightarrow> 'a actor option" where
  "set_vocabulary user_terms terms a =
     (case a_validator a of
        None \<Rightarrow> None
      | Some v \<Rightarrow> Some (a\<lparr>a_validator := Some (v\<lparr>va_user_vocabulary := user_terms, va_dictionary_terms := terms\<rparr>)\<rparr>))"

definition build_providers :: "daemon_config \<Rightarrow> bool \<Rightarrow> utext list \<Rightarrow> string \<Rightarrow> 'a actor \<Rightarrow> 'a actor" where
  "build_providers cfg controlled terms language a =
     a\<lparr>a_deepgram := Some (build_deepgram_provider (dc_deepgram_enabled cfg) controlled (dc_keyterms cfg terms) language),
       a_groq := Some (build_groq_provider controlled (dc_whisper_prompt cfg terms) language)\<rparr>"

definition cloud_notes :: "daemon_config \<Rightarrow> 'a effect list" where
  "cloud_notes cfg = (if dc_deepgram_enabled cfg then [NoteCloudUsed] else []) @ [NoteCloudUsed]"

text \<open>
  Production providers are built for every Recording or replay; controlled ones only when a slot is
  empty.
\<close>

definition ensure_providers :: "daemon_config \<Rightarrow> utext list \<Rightarrow> string \<Rightarrow> 'a actor \<Rightarrow> 'a actor \<times> 'a effect list" where
  "ensure_providers cfg terms language a =
     (if \<not> dc_controlled cfg then (build_providers cfg False terms language a, cloud_notes cfg)
      else if a_deepgram a = None \<or> a_groq a = None then (build_providers cfg True terms language a, cloud_notes cfg)
      else (a, []))"

definition admitted_clients :: "asr_mode \<Rightarrow> 'a admission_answers \<Rightarrow> 'a actor \<Rightarrow> 'a actor \<times> 'a effect list" where
  "admitted_clients mode q a =
     (if mode = Cloud
      then (a\<lparr>a_grammar_adapter := a_grammar_adapter a \<or> aa_grammar q, a_dpr_client := a_dpr_client a \<or> aa_dpr q\<rparr>,
            [NoteCloudUsed])
      else (a\<lparr>a_grammar_adapter := False, a_dpr_client := False\<rparr>, [BeginLocalSession]))"

definition next_recording_id :: "nat \<Rightarrow> nat" where
  "next_recording_id i = (i + 1) mod 2 ^ 64"

definition replay_local :: "daemon_config \<Rightarrow> string \<Rightarrow> nat \<Rightarrow> 'a actor \<Rightarrow> ('a actor \<times> 'a effect list) option" where
  "replay_local cfg fixture reply a =
     (let i = a_next_id a
      in if \<not> dc_diagnostics cfg then None
         else case a_validator a of
                None \<Rightarrow> None
              | Some v \<Rightarrow>
                  Some (a\<lparr>a_next_id := next_recording_id i, a_state := Replaying i, a_validator := None\<rparr>,
                        [HandOffReservation,
                         SpawnReplay i Local fixture (CloudFreeAdapter Deepgram) (CloudFreeAdapter Groq) v reply]))"

definition replay_cloud ::
  "daemon_config \<Rightarrow> string \<Rightarrow> nat \<Rightarrow> 'a admission_answers \<Rightarrow> 'a actor \<Rightarrow> ('a actor \<times> 'a effect list) option" where
  "replay_cloud cfg fixture reply q a =
     (let i = a_next_id a
      in case set_vocabulary (aa_user_terms q) (aa_merged_terms q)
                (a\<lparr>a_next_id := next_recording_id i, a_state := Replaying i\<rparr>) of
           None \<Rightarrow> None
         | Some b \<Rightarrow>
             (case ensure_providers cfg (aa_merged_terms q) (aa_language q) b of
                (c, notes) \<Rightarrow>
                  (case (a_deepgram c, a_groq c, a_validator c) of
                     (Some dg, Some gq, Some v) \<Rightarrow>
                       if \<not> dc_diagnostics cfg then None
                       else Some (c\<lparr>a_deepgram := None, a_groq := None, a_validator := None\<rparr>,
                                  notes @ [SpawnReplay i Cloud fixture dg gq v reply])
                   | _ \<Rightarrow> None)))"

text \<open>
  A start: one snapshot goes to the validator and both providers, the reservation becomes a live
  Recording, and the capture adapter and both providers move into the startup task.
\<close>

definition start_admitted ::
  "daemon_config \<Rightarrow> asr_mode \<Rightarrow> nat \<Rightarrow> 'a admission_answers \<Rightarrow> 'a actor \<Rightarrow> ('a actor \<times> 'a effect list) option" where
  "start_admitted cfg mode reply q a =
     (let i = a_next_id a
      in case set_vocabulary (aa_user_terms q) (aa_merged_terms q) (a\<lparr>a_next_id := next_recording_id i\<rparr>) of
           None \<Rightarrow> None
         | Some b \<Rightarrow>
             (case (if mode = Local then (b, []) else ensure_providers cfg (aa_merged_terms q) (aa_language q) b) of
                (c, notes) \<Rightarrow>
                  (let d = c\<lparr>a_state := Starting i (aa_correlation_id q) mode\<rparr>;
                       live = begin_claim (mode = Local) (aa_correlation_id q) (aa_user_terms q)
                   in if \<not> a_capture d then None
                      else if mode = Local
                      then Some (d\<lparr>a_capture := False\<rparr>,
                                 notes @ live @ [SpawnStartup i mode (CloudFreeAdapter Deepgram) (CloudFreeAdapter Groq)
                                   (aa_settings q) (aa_merged_terms q) reply])
                      else (case (a_deepgram d, a_groq d) of
                              (Some dg, Some gq) \<Rightarrow>
                                Some (d\<lparr>a_capture := False, a_deepgram := None, a_groq := None\<rparr>,
                                      notes @ live @ [SpawnStartup i mode dg gq (aa_settings q) (aa_merged_terms q) reply])
                            | _ \<Rightarrow> None))))"

text \<open>The flag says whether the turn reaches the shutdown check at the end of the loop body.\<close>

definition on_capture_admitted ::
  "daemon_config \<Rightarrow> nat \<Rightarrow> 'a response + asr_mode \<Rightarrow> 'a admission_answers \<Rightarrow> 'a actor
     \<Rightarrow> ('a actor \<times> 'a effect list \<times> bool) option" where
  "on_capture_admitted cfg token result q a =
     (let armed = (result = Inr Local)
      in case a_state a of
           Admitting current waiting reply \<Rightarrow>
             (if current \<noteq> token then Some (a, drop_claim armed, False)
              else (let a = a\<lparr>a_state := ActorIdle\<rparr>
                    in case result of
                         Inl response \<Rightarrow> Some (a, Answer reply response # drop_claim armed, False)
                       | Inr mode \<Rightarrow>
                           (if a_shutdown_ack a \<noteq> None
                            then Some (a, Answer reply (response_rejected (Some DaemonIdle) ''daemon is shutting down'')
                                   # drop_claim armed, False)
                            else (case admitted_clients mode q a of
                              (b, notes) \<Rightarrow>
                                (case waiting of
                                   PendingReplay fixture \<Rightarrow>
                                     (if mode = Local
                                      then map_option (\<lambda>(c, effs). (c, notes @ effs, True)) (replay_local cfg fixture reply b)
                                      else (case aa_local_origin_refusal q of
                                              Some message \<Rightarrow>
                                                Some (b, notes @ [Answer reply (response_rejected (Some DaemonIdle) message)], False)
                                            | None \<Rightarrow>
                                                map_option (\<lambda>(c, effs). (c, notes @ effs, True)) (replay_cloud cfg fixture reply q b)))
                                 | PendingStart \<Rightarrow>
                                     (case (mode, aa_quota_error q) of
                                        (Local, Some message) \<Rightarrow>
                                          Some (b, notes @ Answer reply (response_rejected (Some DaemonIdle) message)
                                                  # drop_claim armed, False)
                                      | _ \<Rightarrow>
                                          map_option (\<lambda>(c, effs). (c, notes @ effs, True)) (start_admitted cfg mode reply q b)))))))
         | _ \<Rightarrow> Some (a, drop_claim armed, False))"

section \<open>Startup results\<close>

definition begin_recording ::
  "boundary_error + deadline_clock \<Rightarrow> boundary_error + unit \<Rightarrow> boundary_error + unit \<Rightarrow> start_failure + deadline_clock" where
  "begin_recording captured dg gq =
     (case captured of
        Inl e \<Rightarrow> Inl \<lparr>sf_error = e, sf_capture = False, sf_provider_stream = None, sf_failed_provider = None\<rparr>
      | Inr clock \<Rightarrow>
          (case dg of
             Inl e \<Rightarrow> Inl \<lparr>sf_error = e, sf_capture = True, sf_provider_stream = None, sf_failed_provider = Some Deepgram\<rparr>
           | Inr _ \<Rightarrow>
               (case gq of
                  Inl e \<Rightarrow> Inl \<lparr>sf_error = e, sf_capture = True, sf_provider_stream = Some Deepgram,
                                sf_failed_provider = Some Groq\<rparr>
                | Inr _ \<Rightarrow> Inr clock)))"

text \<open>The entries of a failed start's record, one per provider.\<close>

definition startup_entry :: "start_failure \<Rightarrow> provider \<Rightarrow> provider_failure" where
  "startup_entry f p =
     (if sf_provider_stream f = Some p
      then provider_failure_new p Aborted ''provider stream started but the Recording was aborted during startup''
      else provider_failure_new p NotStarted ''provider not reached; startup aborted before it began'')"

definition startup_failures :: "daemon_config \<Rightarrow> start_failure \<Rightarrow> provider_failure list" where
  "startup_failures cfg f =
     (let failed = (case sf_failed_provider f of
                      Some p \<Rightarrow> [provider_failure_new p NotStarted (diagnostic (sf_error f))] | None \<Rightarrow> []);
          fs = fold (\<lambda>p fs. if p \<in> pf_provider ` set fs then fs else fs @ [startup_entry f p]) [Deepgram, Groq] failed
      in if dc_deepgram_enabled cfg then fs else normalize_disabled_deepgram fs)"

definition record_to_store :: "daemon_config \<Rightarrow> 'a diagnostic_record \<Rightarrow> 'a effect list" where
  "record_to_store cfg r = (if dc_diagnostics cfg then [RecordDiagnostics r] else [])"

definition SHUTTING_DOWN :: string where "SHUTTING_DOWN = ''daemon is shutting down''"

text \<open>Shutdown arrived while the Recording was starting: everything is aborted, nothing is pumped.\<close>

definition started_in_shutdown :: "daemon_config \<Rightarrow> nat \<Rightarrow> string \<Rightarrow> nat \<Rightarrow> nat \<Rightarrow> 'a actor \<Rightarrow> 'a actor \<times> 'a effect list" where
  "started_in_shutdown cfg i correlation reply now a =
     (let fs = account_for_missing_providers [] ''daemon shutting down; Recording aborted during startup'' [];
          r = (diagnostic_record_new correlation i now)\<lparr>dr_error := Some SHUTTING_DOWN, dr_recovery_attempted := True,
                dr_provider_failures := (if dc_deepgram_enabled cfg then fs else normalize_disabled_deepgram fs)\<rparr>;
          evidence = (base_evidence i correlation [CaptureStarted, ProvidersStarted])\<lparr>ev_recovery_attempted := True\<rparr>
      in (a\<lparr>a_state := Recovering i\<rparr>,
          record_to_store cfg r
          @ [Answer reply (with_evidence False (Some DaemonIdle) SHUTTING_DOWN (Some evidence)), SpawnRecovery i]))"

definition started_ok ::
  "string \<Rightarrow> deadline_clock \<Rightarrow> 'a startup_completion \<Rightarrow> 'a actor \<Rightarrow> 'a actor \<times> 'a effect list" where
  "started_ok correlation clock m a =
     (a\<lparr>a_state := ActorRecording \<lparr>ac_id = sc_id m, ac_deadline_clock = clock, ac_settings = sc_settings m,
          ac_asr_mode = sc_asr_mode m, ac_dictionary_terms = sc_dictionary_terms m,
          ac_evidence = base_evidence (sc_id m) correlation [CaptureStarted, ProvidersStarted]\<rparr>\<rparr>,
      [SpawnPump (sc_id m), Answer (sc_reply m) (response_success DaemonRecording ''Recording started'')])"

definition started_failed ::
  "daemon_config \<Rightarrow> string \<Rightarrow> start_failure \<Rightarrow> nat \<Rightarrow> nat \<Rightarrow> nat \<Rightarrow> 'a actor \<Rightarrow> 'a actor \<times> 'a effect list" where
  "started_failed cfg correlation f i reply now a =
     (let recovering = (sf_capture f \<or> sf_provider_stream f \<noteq> None);
          message = public_message (sf_error f);
          r = (diagnostic_record_new correlation i now)\<lparr>dr_error := Some message, dr_recovery_attempted := recovering,
                dr_provider_failures := startup_failures cfg f\<rparr>;
          evidence = (base_evidence i correlation [])\<lparr>ev_recovery_attempted := recovering\<rparr>;
          b = retain_overlay_event cfg (overlay_outcome_of (sf_error f)) message None a
      in (b\<lparr>a_state := (if recovering then Recovering i else ActorIdle)\<rparr>,
          record_to_store cfg r @ [Answer reply (with_evidence False (Some DaemonIdle) message (Some evidence))]
          @ (if recovering then [SpawnRecovery i] else [])))"

definition on_started :: "daemon_config \<Rightarrow> 'a startup_completion \<Rightarrow> nat \<Rightarrow> 'a actor \<Rightarrow> 'a actor \<times> 'a effect list" where
  "on_started cfg m now a =
     (let b = a\<lparr>a_capture := True\<rparr>;
          c = (if dc_controlled cfg \<and> sc_asr_mode m \<noteq> Local
               then b\<lparr>a_deepgram := Some (sc_deepgram m), a_groq := Some (sc_groq m)\<rparr> else b);
          abandon = (\<lambda>correlation. if sc_asr_mode m = Local then [AbandonLive correlation] else [])
      in case a_state c of
           Starting i correlation _ \<Rightarrow>
             (if i \<noteq> sc_id m then (c, [])
              else (case sc_result m of
                      Inr clock \<Rightarrow>
                        (if a_shutdown_ack c \<noteq> None
                         then (case started_in_shutdown cfg i correlation (sc_reply m) now c of
                                 (d, effs) \<Rightarrow> (d, abandon correlation @ effs))
                         else started_ok correlation clock m c)
                    | Inl f \<Rightarrow>
                        (case started_failed cfg correlation f i (sc_reply m) now c of
                           (d, effs) \<Rightarrow> (d, abandon correlation @ effs))))
         | _ \<Rightarrow> (c, []))"

section \<open>The other messages\<close>

definition on_recovered :: "nat \<Rightarrow> 'a actor \<Rightarrow> 'a actor" where
  "on_recovered i a = (if a_state a = Recovering i then a\<lparr>a_state := ActorIdle\<rparr> else a)"

definition on_replay_completed :: "daemon_config \<Rightarrow> 'a replay_completion \<Rightarrow> 'a actor \<Rightarrow> 'a actor \<times> 'a effect list" where
  "on_replay_completed cfg m a =
     (let b = (if dc_controlled cfg then a\<lparr>a_deepgram := Some (rc_deepgram m), a_groq := Some (rc_groq m)\<rparr> else a);
          c = b\<lparr>a_validator := Some (rc_validator m)\<rparr>
      in (if a_state c = Replaying (rc_id m) then c\<lparr>a_state := ActorIdle\<rparr> else c, [Answer (rc_reply m) (rc_response m)]))"

definition on_pump_terminated :: "nat \<Rightarrow> nat \<Rightarrow> nat \<Rightarrow> 'a actor \<Rightarrow> 'a actor \<times> 'a effect list" where
  "on_pump_terminated i chunks first_ms a =
     (case a_state a of
        ActorRecording r \<Rightarrow> (if ac_id r = i then stop_unattended True chunks first_ms a else (a, []))
      | _ \<Rightarrow> (a, []))"

definition processing_matches :: "nat \<Rightarrow> string \<Rightarrow> 'a actor_state \<Rightarrow> bool" where
  "processing_matches i correlation s =
     (case s of Processing e \<Rightarrow> ev_recording_id e = i \<and> ev_correlation_id e = correlation | _ \<Rightarrow> False)"

definition on_delivery_landed ::
  "daemon_config \<Rightarrow> nat \<Rightarrow> string \<Rightarrow> delivery_method \<Rightarrow> string option \<Rightarrow> bool \<Rightarrow> 'a actor \<Rightarrow> 'a actor" where
  "on_delivery_landed cfg i correlation method reason truncated a =
     (if processing_matches i correlation (a_state a)
      then (case delivered_overlay_event (Some method) reason truncated of
              (outcome, message) \<Rightarrow> retain_overlay_event cfg outcome message (Some correlation) a)
      else a)"

definition announced :: "string \<Rightarrow> 'a actor \<Rightarrow> bool" where
  "announced correlation a =
     (case a_last_overlay_event a of Some e \<Rightarrow> oe_correlation_id e = Some correlation | None \<Rightarrow> False)"

definition completed_ok :: "daemon_config \<Rightarrow> 'a lifecycle_evidence \<Rightarrow> 'a actor \<Rightarrow> 'a actor \<times> 'a response" where
  "completed_ok cfg e a =
     (let method = ev_delivery_method e; reason = ev_delivery_fallback_reason e; truncated = ev_truncated_by e \<noteq> None;
          response = with_evidence True (Some DaemonIdle) (delivered_message method reason truncated) (Some e)
      in if announced (ev_correlation_id e) a then (a, response)
         else (case delivered_overlay_event method reason truncated of
                 (outcome, message) \<Rightarrow> (retain_overlay_event cfg outcome message (Some (ev_correlation_id e)) a, response)))"

definition completed_failed ::
  "daemon_config \<Rightarrow> boundary_error \<Rightarrow> 'a lifecycle_evidence \<Rightarrow> 'a actor \<Rightarrow> 'a actor \<times> 'a response" where
  "completed_failed cfg err e a =
     (retain_overlay_event cfg (overlay_outcome_of err) (public_message err) (Some (ev_correlation_id e)) a,
      with_evidence False (Some DaemonIdle) (public_message err) (Some e))"

definition on_completed :: "daemon_config \<Rightarrow> 'a completion \<Rightarrow> 'a actor \<Rightarrow> 'a actor \<times> 'a effect list" where
  "on_completed cfg m a =
     (let b = a\<lparr>a_validator := Some (cp_validator m), a_delivery := True\<rparr>
      in case a_state b of
           Processing e \<Rightarrow>
             (if ev_recording_id e \<noteq> cp_id m then (b, [])
              else (case (case cp_result m of
                            Inr _ \<Rightarrow> completed_ok cfg (cp_evidence m) (b\<lparr>a_state := ActorIdle\<rparr>)
                          | Inl err \<Rightarrow> completed_failed cfg err (cp_evidence m) (b\<lparr>a_state := ActorIdle\<rparr>)) of
                      (c, response) \<Rightarrow>
                        (c, case cp_reply m of Some reply \<Rightarrow> [Answer reply response] | None \<Rightarrow> [])))
         | _ \<Rightarrow> (b, []))"

definition on_shutdown :: "nat \<Rightarrow> nat \<Rightarrow> nat \<Rightarrow> 'a actor \<Rightarrow> 'a actor \<times> 'a effect list" where
  "on_shutdown ack chunks first_ms a =
     (case cancel_pending_admission SHUTTING_DOWN (a\<lparr>a_shutdown_ack := Some ack\<rparr>) of
        (b, effs) \<Rightarrow>
          (case a_state b of
             ActorRecording _ \<Rightarrow> (case stop_unattended False chunks first_ms b of (c, effs') \<Rightarrow> (c, effs @ effs'))
           | _ \<Rightarrow> (b, effs)))"

section \<open>One turn of the loop\<close>

definition handle_message :: "daemon_config \<Rightarrow> 'a actor_message \<Rightarrow> 'a actor \<Rightarrow> ('a actor \<times> 'a effect list \<times> bool) option" where
  "handle_message cfg m a =
     (let through = (\<lambda>(b, effs). Some (b, effs, True))
      in case m of
           CommandMessage c reply q \<Rightarrow> through (on_command cfg c reply q a)
         | CaptureAdmitted token result q \<Rightarrow> on_capture_admitted cfg token result q a
         | Started s now \<Rightarrow> through (on_started cfg s now a)
         | Recovered i \<Rightarrow> through (on_recovered i a, [])
         | ShortcutBound binding \<Rightarrow> through (a\<lparr>a_shortcut_binding := binding\<rparr>, [])
         | ReplayCompleted r \<Rightarrow> through (on_replay_completed cfg r a)
         | PumpTerminated i chunks first_ms \<Rightarrow> through (on_pump_terminated i chunks first_ms a)
         | AuthorizeDelivery i correlation reply \<Rightarrow>
             through (a, [AnswerAuthorization reply (processing_matches i correlation (a_state a))])
         | DeliveryLanded i correlation method reason truncated \<Rightarrow>
             through (on_delivery_landed cfg i correlation method reason truncated a, [])
         | Completed c \<Rightarrow> through (on_completed cfg c a)
         | ShutdownMessage ack chunks first_ms \<Rightarrow> through (on_shutdown ack chunks first_ms a))"

text \<open>A pending shutdown is acknowledged from the idle state, and the actor returns.\<close>

definition shutdown_check :: "'a actor \<Rightarrow> 'a actor \<times> 'a effect list" where
  "shutdown_check a =
     (case (a_shutdown_ack a, a_state a) of
        (Some ack, ActorIdle) \<Rightarrow> (a\<lparr>a_shutdown_ack := None, a_running := False\<rparr>, [AcknowledgeShutdown ack])
      | _ \<Rightarrow> (a, []))"

definition actor_turn :: "daemon_config \<Rightarrow> 'a actor_message \<Rightarrow> 'a actor \<Rightarrow> ('a actor \<times> 'a effect list) option" where
  "actor_turn cfg m a =
     map_option (\<lambda>(b, effs, through).
        if through then (case shutdown_check b of (c, effs') \<Rightarrow> (c, effs @ effs')) else (b, effs))
       (handle_message cfg m a)"

end
