(* ===== verification/Daemon.thy ===== *)
theory Daemon
  imports Daemon_Actor
begin

text \<open>
  The daemon as a system: the actor together with the workflows it spawned. A workflow reports once,
  with the message its kind sends; every other message may come at any time. Reachability is over all
  interleavings of client commands, admissions, pump ends, delivery notices, workflow reports and
  shutdown requests. The theorems say which adapters the actor owns in which state (so no \<open>expect\<close>
  fails), that every client's reply channel is used at most once and never lost, and that a shutdown request is acknowledged.
\<close>

section \<open>Workflows\<close>

datatype workflow =
    StartupWork nat asr_mode nat
  | ProcessingWork nat "nat option"
  | ReplayWork nat nat
  | RecoveryWork nat

fun spawned :: "'a effect \<Rightarrow> workflow list" where
  "spawned (SpawnStartup i mode _ _ _ _ reply) = [StartupWork i mode reply]"
| "spawned (SpawnProcessing r _ _ _ _ reply _) = [ProcessingWork (ac_id r) reply]"
| "spawned (SpawnReplay i _ _ _ _ _ reply) = [ReplayWork i reply]"
| "spawned (SpawnRecovery i) = [RecoveryWork i]"
| "spawned _ = []"

text \<open>
  The reply channels a message brings, an effect takes from the actor, and a workflow still owes. The
  actor sends some answers itself; a status answer goes to a blocking task and a mode change to the
  queue thread, which use the channel later.
\<close>

fun answered :: "'a effect \<Rightarrow> nat list" where
  "answered (Answer reply _) = [reply]"
| "answered _ = []"

fun to_task :: "'a effect \<Rightarrow> nat list" where
  "to_task (AnswerWithAsrStatus reply _ _) = [reply]"
| "to_task _ = []"

fun to_queue :: "'a effect \<Rightarrow> nat list" where
  "to_queue (QueuePersist _ _ _ reply) = [reply]"
| "to_queue _ = []"

fun released :: "'a effect \<Rightarrow> nat list" where
  "released (Answer reply _) = [reply]"
| "released (AnswerWithAsrStatus reply _ _) = [reply]"
| "released (QueuePersist _ _ _ reply) = [reply]"
| "released _ = []"

fun asks :: "'a actor_message \<Rightarrow> nat list" where
  "asks (CommandMessage _ reply _) = [reply]"
| "asks _ = []"

fun work_replies :: "workflow \<Rightarrow> nat list" where
  "work_replies (StartupWork _ _ reply) = [reply]"
| "work_replies (ProcessingWork _ reply) = (case reply of Some r \<Rightarrow> [r] | None \<Rightarrow> [])"
| "work_replies (ReplayWork _ reply) = [reply]"
| "work_replies (RecoveryWork _) = []"

fun state_replies :: "'a actor_state \<Rightarrow> nat list" where
  "state_replies (Admitting _ _ reply) = [reply]"
| "state_replies _ = []"

definition spawns :: "'a effect list \<Rightarrow> workflow list" where
  "spawns effs = concat (map spawned effs)"

definition releases :: "'a effect list \<Rightarrow> nat list" where
  "releases effs = concat (map released effs)"

definition held :: "'a actor \<Rightarrow> workflow list \<Rightarrow> nat list" where
  "held a ws = state_replies (a_state a) @ concat (map work_replies ws)"

lemma spawns_simps [simp]:
  "spawns [] = []" "spawns (e # es) = spawned e @ spawns es" "spawns (es @ fs) = spawns es @ spawns fs"
  by (simp_all add: spawns_def)

lemma releases_simps [simp]:
  "releases [] = []" "releases (e # es) = released e @ releases es" "releases (es @ fs) = releases es @ releases fs"
  by (simp_all add: releases_def)

text \<open>The report a workflow sends.\<close>

fun reports :: "workflow \<Rightarrow> 'a actor_message \<Rightarrow> bool" where
  "reports (StartupWork i mode reply) (Started m _) \<longleftrightarrow> sc_id m = i \<and> sc_asr_mode m = mode \<and> sc_reply m = reply"
| "reports (ProcessingWork i reply) (Completed m) \<longleftrightarrow> cp_id m = i \<and> cp_reply m = reply"
| "reports (ReplayWork i reply) (ReplayCompleted m) \<longleftrightarrow> rc_id m = i \<and> rc_reply m = reply"
| "reports (RecoveryWork i) (Recovered j) \<longleftrightarrow> i = j"
| "reports _ _ \<longleftrightarrow> False"

fun from_outside :: "'a actor_message \<Rightarrow> bool" where
  "from_outside (Started _ _) = False"
| "from_outside (Completed _) = False"
| "from_outside (ReplayCompleted _) = False"
| "from_outside (Recovered _) = False"
| "from_outside _ = True"

section \<open>Ownership\<close>

fun busy_with :: "'a actor_state \<Rightarrow> workflow list \<Rightarrow> bool" where
  "busy_with (Starting i _ mode) ws \<longleftrightarrow> (\<exists>reply. ws = [StartupWork i mode reply])"
| "busy_with (Processing e) ws \<longleftrightarrow> (\<exists>reply. ws = [ProcessingWork (ev_recording_id e) reply])"
| "busy_with (Replaying i) ws \<longleftrightarrow> (\<exists>reply. ws = [ReplayWork i reply])"
| "busy_with (Recovering i) ws \<longleftrightarrow> ws = [RecoveryWork i]"
| "busy_with _ ws \<longleftrightarrow> ws = []"

fun lends_capture :: "'a actor_state \<Rightarrow> bool" where
  "lends_capture (Starting _ _ _) = True"
| "lends_capture _ = False"

fun lends_validator :: "'a actor_state \<Rightarrow> bool" where
  "lends_validator (Processing _) = True"
| "lends_validator (Replaying _) = True"
| "lends_validator _ = False"

fun lends_delivery :: "'a actor_state \<Rightarrow> bool" where
  "lends_delivery (Processing _) = True"
| "lends_delivery _ = False"

fun state_sound :: "daemon_config \<Rightarrow> 'a actor_state \<Rightarrow> bool" where
  "state_sound cfg (Admitting _ (PendingReplay _) _) \<longleftrightarrow> dc_diagnostics cfg"
| "state_sound cfg (ActorRecording r) \<longleftrightarrow> ev_recording_id (ac_evidence r) = ac_id r"
| "state_sound cfg _ \<longleftrightarrow> True"

definition owns :: "daemon_config \<Rightarrow> 'a actor \<Rightarrow> workflow list \<Rightarrow> bool" where
  "owns cfg a ws \<longleftrightarrow>
     busy_with (a_state a) ws \<and> state_sound cfg (a_state a)
     \<and> a_capture a = (\<not> lends_capture (a_state a))
     \<and> (a_validator a = None) = lends_validator (a_state a)
     \<and> a_delivery a = (\<not> lends_delivery (a_state a))"

text \<open>What one turn leaves: ownership, and the replies asked for are released or still held.\<close>

definition keeps :: "daemon_config \<Rightarrow> 'a actor \<Rightarrow> workflow list \<Rightarrow> nat list \<Rightarrow> 'a actor \<Rightarrow> workflow list \<Rightarrow> 'a effect list \<Rightarrow> bool" where
  "keeps cfg a ws new b rest effs \<longleftrightarrow>
     owns cfg b (rest @ spawns effs)
     \<and> mset (releases effs) + mset (held b (rest @ spawns effs)) = mset (held a ws) + mset new"

lemmas owner_defs = owns_def keeps_def held_def

lemma keeps_unchanged:
  "owns cfg a ws \<Longrightarrow> a_state b = a_state a \<Longrightarrow> a_capture b = a_capture a \<Longrightarrow> a_validator b = a_validator a
    \<Longrightarrow> a_delivery b = a_delivery a \<Longrightarrow> spawns effs = [] \<Longrightarrow> releases effs = new \<Longrightarrow> keeps cfg a ws new b ws effs"
  by (simp add: owner_defs)

lemma keeps_release:
  "owns cfg a ws \<Longrightarrow> spawned e = [] \<Longrightarrow> released e = [reply] \<Longrightarrow> keeps cfg a ws [reply] a ws [e]"
  by (rule keeps_unchanged) simp_all

lemma keeps_stop:
  assumes "owns cfg a []" "a_state a = ActorRecording r"
  shows "case stop_for_client reply chunks first_ms a of (b, effs) \<Rightarrow> keeps cfg a [] [reply] b [] effs"
    and "case stop_unattended publish chunks first_ms a of (b, effs) \<Rightarrow> keeps cfg a [] [] b [] effs"
  using assms
  by (auto simp: owner_defs stop_for_client_def stop_unattended_def take_active_recording_def spawn_recording_processing_def
      Let_def live_evidence_def)

lemma keeps_enqueue:
  assumes "owns cfg a []" "a_state a = ActorIdle" "waiting = PendingStart \<or> dc_diagnostics cfg"
  shows "case enqueue_admission k waiting reply a of (b, effs) \<Rightarrow> keeps cfg a [] [reply] b [] effs"
  using assms by (cases waiting) (auto simp: owner_defs enqueue_admission_def Let_def)

lemma keeps_cancel:
  assumes "owns cfg a []" "a_state a = Admitting t waiting r"
  shows "case cancel_for_client reply a of (b, effs) \<Rightarrow> keeps cfg a [] [reply] b [] effs"
    and "case cancel_pending_admission message a of (b, effs) \<Rightarrow> keeps cfg a [] [] b [] effs"
  using assms by (auto simp: owner_defs cancel_for_client_def cancel_pending_admission_def)

lemma keeps_command:
  assumes own: "owns cfg a ws"
  shows "case on_command cfg c reply q a of (b, effs) \<Rightarrow> keeps cfg a ws [reply] b ws effs"
proof -
  have none: "a_state a = ActorIdle \<Longrightarrow> ws = []" "\<And>t p r. a_state a = Admitting t p r \<Longrightarrow> ws = []"
    "\<And>r. a_state a = ActorRecording r \<Longrightarrow> ws = []"
    using own by (auto simp: owns_def)
  have replay: "case on_replay cfg fixture reply a of (b, effs) \<Rightarrow> keeps cfg a ws [reply] b ws effs" for fixture
    using own keeps_enqueue [of cfg a "PendingReplay fixture" reply KindReplay] none
    by (cases "a_state a") (auto simp: on_replay_def intro!: keeps_release)
  have start: "case on_start reply a of (b, effs) \<Rightarrow> keeps cfg a ws [reply] b ws effs"
    using own keeps_enqueue [of cfg a PendingStart reply KindStart] none
    by (cases "a_state a") (auto simp: on_start_def intro!: keeps_release)
  have stop: "case on_stop reply n m a of (b, effs) \<Rightarrow> keeps cfg a ws [reply] b ws effs" for n m
    using own keeps_stop(1) [of cfg a _ reply n m] keeps_cancel(1) [of cfg a _ _ _ reply] none
    by (cases "a_state a") (auto simp: on_stop_def intro!: keeps_release)
  have toggle: "case on_toggle reply n m a of (b, effs) \<Rightarrow> keeps cfg a ws [reply] b ws effs" for n m
    using own keeps_enqueue [of cfg a PendingStart reply KindStart] keeps_stop(1) [of cfg a _ reply n m]
      keeps_cancel(1) [of cfg a _ _ _ reply] none
    by (cases "a_state a") (auto simp: on_toggle_def intro!: keeps_release)
  show ?thesis
    using own replay start stop toggle by (cases c) (auto simp: on_command_def Let_def intro!: keeps_release)
qed

section \<open>Admissions\<close>

definition same_control :: "'a actor \<Rightarrow> 'a actor \<Rightarrow> bool" where
  "same_control a b \<longleftrightarrow> a_shutdown_ack b = a_shutdown_ack a \<and> a_running b = a_running a"

text \<open>A capture that begins from the idle state with a reply channel to answer.\<close>

definition begins :: "daemon_config \<Rightarrow> 'a actor \<Rightarrow> nat \<Rightarrow> ('a actor \<times> 'a effect list) option \<Rightarrow> bool" where
  "begins cfg a reply out \<longleftrightarrow>
     (case out of None \<Rightarrow> False | Some (b, effs) \<Rightarrow> keeps cfg a [] [reply] b [] effs \<and> same_control a b)"

lemma ensure_providers_frame:
  "case ensure_providers cfg terms language a of
     (b, effs) \<Rightarrow> a_state b = a_state a \<and> a_capture b = a_capture a \<and> a_validator b = a_validator a
       \<and> a_delivery b = a_delivery a \<and> same_control a b \<and> a_deepgram b \<noteq> None \<and> a_groq b \<noteq> None
       \<and> spawns effs = [] \<and> releases effs = []"
  by (auto simp: ensure_providers_def build_providers_def cloud_notes_def same_control_def)

lemma begins_replay_local:
  "owns cfg a [] \<Longrightarrow> a_state a = ActorIdle \<Longrightarrow> dc_diagnostics cfg \<Longrightarrow> begins cfg a reply (replay_local cfg fixture reply a)"
  by (auto simp: begins_def replay_local_def owner_defs same_control_def Let_def)

lemma begins_replay_cloud:
  assumes "owns cfg a []" "a_state a = ActorIdle" "dc_diagnostics cfg"
  shows "begins cfg a reply (replay_cloud cfg fixture reply q a)"
proof -
  let ?i = "a_next_id a"
  obtain v where v: "a_validator a = Some v" using assms by (auto simp: owns_def)
  let ?b = "a\<lparr>a_next_id := next_recording_id ?i, a_state := Replaying ?i,
      a_validator := Some (v\<lparr>va_user_vocabulary := aa_user_terms q, va_dictionary_terms := aa_merged_terms q\<rparr>)\<rparr>"
  have "set_vocabulary (aa_user_terms q) (aa_merged_terms q) (a\<lparr>a_next_id := next_recording_id ?i, a_state := Replaying ?i\<rparr>) = Some ?b"
    by (simp add: set_vocabulary_def v)
  then show ?thesis
    using assms ensure_providers_frame [where cfg = cfg and terms = "aa_merged_terms q" and language = "aa_language q" and a = ?b]
    by (auto simp: begins_def replay_cloud_def Let_def owner_defs same_control_def split: prod.splits)
qed

lemma begins_start:
  assumes "owns cfg a []" "a_state a = ActorIdle"
  shows "begins cfg a reply (start_admitted cfg mode reply q a)"
proof -
  let ?i = "a_next_id a"
  obtain v where v: "a_validator a = Some v" using assms by (auto simp: owns_def)
  let ?b = "a\<lparr>a_next_id := next_recording_id ?i,
      a_validator := Some (v\<lparr>va_user_vocabulary := aa_user_terms q, va_dictionary_terms := aa_merged_terms q\<rparr>)\<rparr>"
  have "set_vocabulary (aa_user_terms q) (aa_merged_terms q) (a\<lparr>a_next_id := next_recording_id ?i\<rparr>) = Some ?b"
    by (simp add: set_vocabulary_def v)
  then show ?thesis
    using assms ensure_providers_frame [where cfg = cfg and terms = "aa_merged_terms q" and language = "aa_language q" and a = ?b]
    by (auto simp: begins_def start_admitted_def Let_def owner_defs same_control_def begin_claim_def split: prod.splits)
qed

lemma admitted_clients_frame:
  "admitted_clients mode q a = (b, effs) \<Longrightarrow>
     a_state b = a_state a \<and> a_capture b = a_capture a \<and> a_validator b = a_validator a \<and> a_delivery b = a_delivery a
     \<and> same_control a b \<and> spawns effs = [] \<and> releases effs = []"
  by (auto simp: admitted_clients_def same_control_def split: if_splits)

lemma drop_claim_silent [simp]: "spawns (drop_claim armed) = []" "releases (drop_claim armed) = []"
  by (simp_all add: drop_claim_def)

text \<open>
  A handler's outcome: it does not panic, keeps ownership and replies, and with a shutdown requested it
  leaves a workflow to wait for or reaches the shutdown check in the idle state.
\<close>

definition handled :: "daemon_config \<Rightarrow> 'a actor \<Rightarrow> workflow list \<Rightarrow> nat list \<Rightarrow> workflow list \<Rightarrow> ('a actor \<times> 'a effect list \<times> bool) option \<Rightarrow> bool" where
  "handled cfg a ws new rest out \<longleftrightarrow>
     (case out of
        None \<Rightarrow> False
      | Some (b, effs, through) \<Rightarrow>
          keeps cfg a ws new b rest effs \<and> a_running b = a_running a
          \<and> (a_shutdown_ack b \<noteq> None \<longrightarrow> rest @ spawns effs \<noteq> [] \<or> through \<and> a_state b = ActorIdle))"

lemma handled_begins:
  assumes "begins cfg b reply out" "owns cfg a ws" "a_state a = Admitting t p reply" "a_state b = ActorIdle"
    "same_control a b" "spawns notes = []" "releases notes = []" "a_shutdown_ack a = None"
  shows "handled cfg a ws [] ws (map_option (\<lambda>(c, effs). (c, notes @ effs, True)) out)"
proof -
  have "ws = []" using assms(2,3) by (simp add: owns_def)
  then show ?thesis
    using assms by (cases out) (auto simp: begins_def handled_def keeps_def held_def same_control_def)
qed

lemma handled_refused:
  assumes "owns cfg a ws" "a_state a = Admitting t p reply" "a_shutdown_ack a \<noteq> None \<longrightarrow> ws \<noteq> []"
    "a_state b = ActorIdle" "a_capture b = a_capture a" "a_validator b = a_validator a" "a_delivery b = a_delivery a"
    "same_control a b" "spawns effs = []" "releases effs = [reply]"
  shows "handled cfg a ws [] ws (Some (b, effs, False))"
  using assms by (auto simp: handled_def owner_defs same_control_def)

lemma handled_admitted:
  assumes own: "owns cfg a ws" and ack: "a_shutdown_ack a \<noteq> None \<longrightarrow> ws \<noteq> []"
  shows "handled cfg a ws [] ws (on_capture_admitted cfg token result q a)"
proof (cases "\<exists>p reply. a_state a = Admitting token p reply")
  case False
  then have "on_capture_admitted cfg token result q a = Some (a, drop_claim (result = Inr Local), False)"
    by (cases "a_state a") (auto simp: on_capture_admitted_def)
  then show ?thesis
    using ack keeps_unchanged [OF own, of a "drop_claim (result = Inr Local)" "[]"] by (simp add: handled_def)
next
  case True
  then obtain p reply where st: "a_state a = Admitting token p reply" by blast
  then have no_ack: "a_shutdown_ack a = None" and diag: "\<And>f. p = PendingReplay f \<Longrightarrow> dc_diagnostics cfg"
    using own ack by (auto simp: owns_def)
  let ?a = "a\<lparr>a_state := ActorIdle\<rparr>"
  have idle: "owns cfg ?a []" using own st by (simp add: owns_def)
  note refused = handled_refused [OF own st ack]
  show ?thesis
  proof (cases result)
    case (Inl response)
    then show ?thesis
      by (auto simp: on_capture_admitted_def st intro!: refused simp: same_control_def)
  next
    case (Inr mode)
    obtain b ns where b: "admitted_clients mode q ?a = (b, ns)" by (metis surj_pair)
    note frame = admitted_clients_frame [OF b, simplified]
    have b_idle: "owns cfg b []" using idle frame by (simp add: owns_def)
    have same: "same_control a b" using frame by (simp add: same_control_def)
    have begun: "begins cfg b reply out \<Longrightarrow> handled cfg a ws [] ws (map_option (\<lambda>(c, effs). (c, ns @ effs, True)) out)" for out
      using frame no_ack by (intro handled_begins [OF _ own st _ same]) simp_all
    have no: "spawns effs = [] \<Longrightarrow> releases effs = [reply] \<Longrightarrow> handled cfg a ws [] ws (Some (b, effs, False))" for effs
      using frame same by (intro refused) simp_all
    have b_state: "a_state b = ActorIdle" using frame by simp
    show ?thesis
    proof (cases p)
      case PendingStart
      then show ?thesis
        using frame
        by (auto simp: on_capture_admitted_def st Inr no_ack b intro!: begun no begins_start b_idle b_state split: asr_mode.split option.split)
    next
      case (PendingReplay fixture)
      then show ?thesis
        using frame diag
        by (auto simp: on_capture_admitted_def st Inr no_ack b intro!: begun no begins_replay_local begins_replay_cloud b_idle b_state
            split: option.split)
    qed
  qed
qed

section \<open>Workflow reports and notices\<close>

lemma retain_frame [simp]:
  "a_state (retain_overlay_event cfg out msg cor a) = a_state a"
  "a_capture (retain_overlay_event cfg out msg cor a) = a_capture a"
  "a_validator (retain_overlay_event cfg out msg cor a) = a_validator a"
  "a_delivery (retain_overlay_event cfg out msg cor a) = a_delivery a"
  "a_running (retain_overlay_event cfg out msg cor a) = a_running a"
  "a_shutdown_ack (retain_overlay_event cfg out msg cor a) = a_shutdown_ack a"
  by (simp_all add: retain_overlay_event_def)

lemma record_silent [simp]: "spawns (record_to_store cfg r) = []" "releases (record_to_store cfg r) = []"
  by (simp_all add: record_to_store_def)

lemma keeps_started:
  assumes "owns cfg a [StartupWork i mode reply]" "sc_id m = i" "sc_asr_mode m = mode" "sc_reply m = reply"
  shows "case on_started cfg m now a of (b, effs) \<Rightarrow>
      keeps cfg a [StartupWork i mode reply] [] b [] effs \<and> a_running b = a_running a
      \<and> (a_shutdown_ack b \<noteq> None \<longrightarrow> spawns effs \<noteq> [] \<or> a_state b = ActorIdle)"
proof -
  obtain cor md where st: "a_state a = Starting i cor md"
    using assms(1) by (cases "a_state a") (auto simp: owns_def)
  have own: "owns cfg a [StartupWork i mode reply]" by (rule assms(1))
  show ?thesis
    using own st assms(2-4)
    by (auto simp: on_started_def Let_def owner_defs started_in_shutdown_def started_ok_def started_failed_def base_evidence_def
        split: sum.split)
qed

lemma keeps_completed:
  assumes "owns cfg a [ProcessingWork i reply]" "cp_id m = i" "cp_reply m = reply"
  shows "case on_completed cfg m a of (b, effs) \<Rightarrow>
      keeps cfg a [ProcessingWork i reply] [] b [] effs \<and> a_running b = a_running a
      \<and> (a_shutdown_ack b \<noteq> None \<longrightarrow> spawns effs \<noteq> [] \<or> a_state b = ActorIdle)"
proof -
  obtain e where "a_state a = Processing e" "ev_recording_id e = i"
    using assms(1) by (cases "a_state a") (auto simp: owns_def)
  then show ?thesis
    using assms
    by (auto simp: on_completed_def Let_def owner_defs completed_ok_def completed_failed_def
        split: sum.split option.split prod.split)
qed

lemma keeps_replayed:
  assumes "owns cfg a [ReplayWork i reply]" "rc_id m = i" "rc_reply m = reply"
  shows "case on_replay_completed cfg m a of (b, effs) \<Rightarrow>
      keeps cfg a [ReplayWork i reply] [] b [] effs \<and> a_running b = a_running a
      \<and> (a_shutdown_ack b \<noteq> None \<longrightarrow> spawns effs \<noteq> [] \<or> a_state b = ActorIdle)"
proof -
  have "a_state a = Replaying i" using assms(1) by (cases "a_state a") (auto simp: owns_def)
  then show ?thesis
    using assms by (auto simp: on_replay_completed_def Let_def owner_defs)
qed

lemma keeps_recovered:
  assumes "owns cfg a [RecoveryWork i]"
  shows "keeps cfg a [RecoveryWork i] [] (on_recovered i a) [] [] \<and> a_running (on_recovered i a) = a_running a
      \<and> a_state (on_recovered i a) = ActorIdle"
proof -
  have "a_state a = Recovering i" using assms by (cases "a_state a") (auto simp: owns_def)
  then show ?thesis using assms by (auto simp: on_recovered_def owner_defs)
qed

lemma owns_one_work: "owns cfg a ws \<Longrightarrow> w \<in> set ws \<Longrightarrow> ws = [w]"
  by (cases "a_state a") (auto simp: owns_def)

text \<open>The four reports there are.\<close>

lemma reports_cases:
  assumes "reports w m"
  obtains (startup) c x where "w = StartupWork (sc_id c) (sc_asr_mode c) (sc_reply c)" "m = Started c x"
    | (processing) c where "w = ProcessingWork (cp_id c) (cp_reply c)" "m = Completed c"
    | (replay) c where "w = ReplayWork (rc_id c) (rc_reply c)" "m = ReplayCompleted c"
    | (recovery) i where "w = RecoveryWork i" "m = Recovered i"
  using assms by (cases "(w, m)" rule: reports.cases) auto

lemma handled_report:
  assumes "owns cfg a ws" "w \<in> set ws" "reports w m"
  shows "handled cfg a ws [] (remove1 w ws) (handle_message cfg m a)"
proof -
  have ws: "ws = [w]" by (rule owns_one_work [OF assms(1,2)])
  show ?thesis
    using assms(1) keeps_started [of cfg a] keeps_completed [of cfg a] keeps_replayed [of cfg a] keeps_recovered [of cfg a]
    unfolding ws by (cases rule: reports_cases [OF assms(3)]) (simp_all add: handle_message_def handled_def case_prod_beta)
qed

lemma keeps_shutdown:
  assumes own: "owns cfg a ws"
  shows "case on_shutdown ack chunks first_ms a of (b, effs) \<Rightarrow> keeps cfg a ws [] b ws effs \<and> a_running b = a_running a
      \<and> (ws @ spawns effs \<noteq> [] \<or> a_state b = ActorIdle)"
  using own
  by (cases "a_state a")
    (auto simp: on_shutdown_def cancel_pending_admission_def stop_unattended_def take_active_recording_def
      spawn_recording_processing_def live_evidence_def Let_def owner_defs)

lemma command_control: "same_control a (fst (on_command cfg c reply q a))"
  by (cases c; cases "a_state a")
    (auto simp: on_command_def Let_def on_replay_def on_start_def on_stop_def on_toggle_def enqueue_admission_def cancel_for_client_def
      cancel_pending_admission_def stop_for_client_def take_active_recording_def spawn_recording_processing_def
      same_control_def split: option.split bool.split)

lemma handled_outside:
  assumes own: "owns cfg a ws" and ack: "a_shutdown_ack a \<noteq> None \<longrightarrow> ws \<noteq> []" and m: "from_outside m"
  shows "handled cfg a ws (asks m) ws (handle_message cfg m a)"
proof -
  have silent: "keeps cfg a ws [] a ws []" by (rule keeps_unchanged [OF own]) simp_all
  show ?thesis
  proof (cases m)
    case (CommandMessage c reply q)
    then show ?thesis
      using keeps_command [OF own, where c = c and reply = reply and q = q]
        command_control [where cfg = cfg and c = c and reply = reply and q = q and a = a] ack
      by (simp add: same_control_def handle_message_def handled_def case_prod_beta)
  next
    case (PumpTerminated i chunks first_ms)
    have "ws = []" if "a_state a = ActorRecording r" for r using own that by (simp add: owns_def)
    then have "case on_pump_terminated i chunks first_ms a of (b, effs) \<Rightarrow> keeps cfg a ws [] b ws effs \<and> same_control a b"
      using own silent keeps_stop(2) [where cfg = cfg and a = a and publish = True and chunks = chunks and first_ms = first_ms]
      by (auto simp: on_pump_terminated_def stop_unattended_def take_active_recording_def spawn_recording_processing_def Let_def same_control_def
          split: actor_state.split option.split bool.split)
    then show ?thesis using PumpTerminated ack by (simp add: same_control_def handle_message_def handled_def case_prod_beta)
  next
    case (ShutdownMessage ack chunks first_ms)
    then show ?thesis
      using keeps_shutdown [OF own, where ack = ack and chunks = chunks and first_ms = first_ms] by (simp add: handle_message_def handled_def case_prod_beta)
  next
    case (CaptureAdmitted token result q)
    then show ?thesis using handled_admitted [OF own ack] by (simp add: handle_message_def)
  qed (use m own silent ack in \<open>auto simp: handle_message_def handled_def on_delivery_landed_def keeps_def owns_def held_def
      split: prod.split\<close>)
qed

section \<open>Turns and reachable states\<close>

definition daemon_inv :: "daemon_config \<Rightarrow> 'a actor \<Rightarrow> workflow list \<Rightarrow> bool" where
  "daemon_inv cfg a ws \<longleftrightarrow>
     owns cfg a ws \<and> (a_shutdown_ack a \<noteq> None \<longrightarrow> ws \<noteq> []) \<and> (\<not> a_running a \<longrightarrow> a_state a = ActorIdle)"

lemma turn_keeps:
  assumes "handled cfg a ws new rest (handle_message cfg m a)" "a_running a"
  shows "\<exists>b effs. actor_turn cfg m a = Some (b, effs) \<and> daemon_inv cfg b (rest @ spawns effs)
      \<and> mset (releases effs) + mset (held b (rest @ spawns effs)) = mset (held a ws) + mset new"
proof -
  obtain b effs through where h: "handle_message cfg m a = Some (b, effs, through)"
    using assms(1) by (cases "handle_message cfg m a") (auto simp: handled_def)
  then have k: "keeps cfg a ws new b rest effs" "a_running b"
      "a_shutdown_ack b \<noteq> None \<Longrightarrow> rest @ spawns effs \<noteq> [] \<or> through \<and> a_state b = ActorIdle"
    using assms by (auto simp: handled_def)
  show ?thesis
  proof (cases "through \<and> a_state b = ActorIdle \<and> a_shutdown_ack b \<noteq> None")
    case True
    then show ?thesis
      using h k(1) by (auto simp: actor_turn_def shutdown_check_def daemon_inv_def owner_defs)
  next
    case False
    have "actor_turn cfg m a = Some (b, effs)"
      using h False by (auto simp: actor_turn_def shutdown_check_def split: option.split actor_state.split)
    then show ?thesis
      using k False by (auto simp: daemon_inv_def keeps_def)
  qed
qed

text \<open>One message of the joined system; a report needs a workflow that owes it and retires it.\<close>

definition daemon_next ::
  "daemon_config \<Rightarrow> 'a actor_message \<Rightarrow> 'a actor \<times> workflow list \<Rightarrow> (('a actor \<times> workflow list) \<times> 'a effect list) option" where
  "daemon_next cfg m s =
     (case s of (a, ws) \<Rightarrow>
        if \<not> a_running a then None
        else if from_outside m then map_option (\<lambda>(b, effs). ((b, ws @ spawns effs), effs)) (actor_turn cfg m a)
        else (case find (\<lambda>w. reports w m) ws of
                None \<Rightarrow> None
              | Some w \<Rightarrow> map_option (\<lambda>(b, effs). ((b, remove1 w ws @ spawns effs), effs)) (actor_turn cfg m a)))"

definition may_come :: "'a actor \<times> workflow list \<Rightarrow> 'a actor_message \<Rightarrow> bool" where
  "may_come s m \<longleftrightarrow> a_running (fst s) \<and> (from_outside m \<or> list_ex (\<lambda>w. reports w m) (snd s))"

text \<open>Reachable states, with the reply channels brought to the actor and let go by it so far.\<close>

inductive daemon_reach :: "daemon_config \<Rightarrow> 'a actor \<times> workflow list \<Rightarrow> nat list \<Rightarrow> nat list \<Rightarrow> bool" for cfg where
  daemon_starts: "daemon_reach cfg (actor_start, []) [] []"
| daemon_moves: "daemon_reach cfg s wanted given \<Longrightarrow> set (asks m) \<inter> set wanted = {}
    \<Longrightarrow> daemon_next cfg m s = Some (t, effs) \<Longrightarrow> daemon_reach cfg t (wanted @ asks m) (given @ releases effs)"

lemma asks_distinct [simp]: "distinct (asks m)"
  by (cases m) simp_all

lemma reports_not_outside: "reports w m \<Longrightarrow> \<not> from_outside m \<and> asks m = []"
  by (cases w; cases m) simp_all

lemma next_keeps:
  assumes inv: "daemon_inv cfg a ws" and m: "may_come (a, ws) m"
  shows "\<exists>b ws' effs. daemon_next cfg m (a, ws) = Some ((b, ws'), effs) \<and> daemon_inv cfg b ws'
      \<and> mset (releases effs) + mset (held b ws') = mset (held a ws) + mset (asks m)"
proof (cases "from_outside m")
  case True
  with inv have "handled cfg a ws (asks m) ws (handle_message cfg m a)"
    by (intro handled_outside) (auto simp: daemon_inv_def)
  from turn_keeps [OF this] show ?thesis
    using m True by (auto simp: daemon_next_def may_come_def)
next
  case False
  then obtain w where w: "find (\<lambda>w. reports w m) ws = Some w" "w \<in> set ws" "reports w m"
    using m by (cases "find (\<lambda>w. reports w m) ws") (auto simp: may_come_def list_ex_iff find_None_iff dest: find_SomeD)
  with inv have "handled cfg a ws [] (remove1 w ws) (handle_message cfg m a)"
    by (intro handled_report) (auto simp: daemon_inv_def)
  from turn_keeps [OF this] show ?thesis
    using m False w reports_not_outside [OF w(3)] by (auto simp: daemon_next_def may_come_def)
qed

lemma next_may_come: "daemon_next cfg m s = Some r \<Longrightarrow> may_come s m"
  by (auto simp: daemon_next_def may_come_def list_ex_iff split: prod.splits if_splits option.splits dest: find_SomeD)

lemma start_inv: "daemon_inv cfg actor_start []"
  by (simp add: daemon_inv_def owns_def actor_start_def)

lemma reach_inv:
  "daemon_reach cfg s wanted given \<Longrightarrow>
     daemon_inv cfg (fst s) (snd s) \<and> distinct wanted \<and> mset wanted = mset given + mset (held (fst s) (snd s))"
proof (induction rule: daemon_reach.induct)
  case daemon_starts
  then show ?case using start_inv by (simp add: held_def actor_start_def)
next
  case (daemon_moves s wanted given m t effs)
  obtain a ws where s: "s = (a, ws)" by (cases s)
  from next_keeps [of cfg a ws m] daemon_moves next_may_come [OF daemon_moves(3)]
  obtain b ws' where t: "t = (b, ws')" "daemon_inv cfg b ws'"
      "mset (releases effs) + mset (held b ws') = mset (held a ws) + mset (asks m)"
    by (auto simp: s)
  then show ?case
    using daemon_moves.IH daemon_moves.hyps(2) by (auto simp: s distinct_append)
qed

section \<open>Shutdown\<close>

text \<open>How many reports the state still waits for when a shutdown is pending.\<close>

fun drain_rank :: "'a actor_state \<Rightarrow> nat" where
  "drain_rank (Starting _ _ _) = 2"
| "drain_rank (Processing _) = 1"
| "drain_rank (Recovering _) = 1"
| "drain_rank (Replaying _) = 1"
| "drain_rank _ = 0"

lemma busy_rank: "owns cfg a ws \<Longrightarrow> (ws = []) = (drain_rank (a_state a) = 0)"
  by (cases "a_state a") (auto simp: owns_def)

lemma check_busy: "drain_rank (a_state a) \<noteq> 0 \<Longrightarrow> shutdown_check a = (a, [])"
  by (cases "a_state a") (auto simp: shutdown_check_def split: option.split)

lemma busy_command_unchanged:
  "drain_rank (a_state a) \<noteq> 0 \<Longrightarrow> fst (on_command cfg c reply q a) = a"
  by (cases c; cases "a_state a") (auto simp: on_command_def Let_def on_replay_def on_start_def on_stop_def on_toggle_def)

text \<open>While a workflow is out, nothing but its report changes the state.\<close>

lemma busy_outside:
  assumes "drain_rank (a_state a) \<noteq> 0" "from_outside m" "handle_message cfg m a = Some (b, effs, through)"
  shows "a_state b = a_state a \<and> (a_shutdown_ack a \<noteq> None \<longrightarrow> a_shutdown_ack b \<noteq> None) \<and> a_running b = a_running a"
proof -
  have "a_state b = a_state a \<and> (a_shutdown_ack a \<noteq> None \<longrightarrow> a_shutdown_ack b \<noteq> None) \<and> a_running b = a_running a"
    if "m = CommandMessage c reply q" for c reply q
    using busy_command_unchanged [OF assms(1), where cfg = cfg and c = c and reply = reply and q = q] assms(3) that
    by (auto simp: handle_message_def split: prod.splits)
  then show ?thesis
    using assms
    by (cases m; cases "a_state a")
      (auto simp: handle_message_def on_capture_admitted_def on_pump_terminated_def on_delivery_landed_def on_shutdown_def
        cancel_pending_admission_def Let_def split: prod.splits if_splits)
qed

lemma outside_drain:
  assumes "daemon_inv cfg a ws" "a_shutdown_ack a \<noteq> None" "from_outside m"
    "daemon_next cfg m (a, ws) = Some ((b, ws'), effs)"
  shows "a_running b \<and> a_shutdown_ack b \<noteq> None \<and> drain_rank (a_state b) = drain_rank (a_state a)"
proof -
  have busy: "drain_rank (a_state a) \<noteq> 0" using assms(1,2) busy_rank by (auto simp: daemon_inv_def)
  obtain c es th where h: "handle_message cfg m a = Some (c, es, th)" and run: "a_running a"
    using assms(3,4) by (auto simp: daemon_next_def actor_turn_def split: if_splits)
  note keep = busy_outside [OF busy assms(3) h]
  then have "shutdown_check c = (c, [])" using busy by (simp add: check_busy)
  then have "b = c"
    using assms(3,4) h run by (auto simp: daemon_next_def actor_turn_def split: if_splits)
  then show ?thesis using keep assms(2) run by simp
qed

lemma report_drain:
  assumes "daemon_inv cfg a ws" "a_shutdown_ack a \<noteq> None" "\<not> from_outside m"
    "daemon_next cfg m (a, ws) = Some ((b, ws'), effs)"
  shows "(if a_running b then a_shutdown_ack b \<noteq> None \<and> drain_rank (a_state b) < drain_rank (a_state a)
      else \<exists>k. a_shutdown_ack a = Some k \<and> AcknowledgeShutdown k \<in> set effs)"
proof -
  obtain w where w: "w \<in> set ws" "reports w m" and run: "a_running a"
    using assms(3,4) by (auto simp: daemon_next_def split: if_splits option.splits dest!: find_SomeD)
  have own: "owns cfg a ws" using assms(1) by (simp add: daemon_inv_def)
  note ws = owns_one_work [OF own w(1)]
  obtain k where k: "a_shutdown_ack a = Some k" using assms(2) by auto
  show ?thesis
    using assms(4) own run k unfolding ws
    by (cases rule: reports_cases [OF w(2)]; cases "a_state a")
      (auto simp: daemon_next_def actor_turn_def handle_message_def shutdown_check_def owns_def on_started_def on_completed_def
        on_replay_completed_def on_recovered_def started_in_shutdown_def started_failed_def completed_ok_def completed_failed_def
        Let_def split: sum.splits if_splits option.splits prod.splits)
qed

text \<open>A path of the system, with the number of workflow reports on it.\<close>

inductive daemon_path :: "daemon_config \<Rightarrow> 'a actor \<times> workflow list \<Rightarrow> nat \<Rightarrow> 'a actor \<times> workflow list \<Rightarrow> bool" for cfg where
  path_stays: "daemon_path cfg s 0 s"
| path_outside: "daemon_path cfg s n t \<Longrightarrow> from_outside m \<Longrightarrow> daemon_next cfg m t = Some (u, effs) \<Longrightarrow> daemon_path cfg s n u"
| path_report: "daemon_path cfg s n t \<Longrightarrow> \<not> from_outside m \<Longrightarrow> daemon_next cfg m t = Some (u, effs) \<Longrightarrow> daemon_path cfg s (Suc n) u"

lemma next_inv: "daemon_inv cfg a ws \<Longrightarrow> daemon_next cfg m (a, ws) = Some ((b, ws'), effs) \<Longrightarrow> daemon_inv cfg b ws'"
  using next_keeps next_may_come by fastforce

lemma drain_path:
  assumes "daemon_path cfg s n t" "daemon_inv cfg (fst s) (snd s)" "a_shutdown_ack (fst s) \<noteq> None"
  shows "daemon_inv cfg (fst t) (snd t)
    \<and> (a_running (fst t) \<longrightarrow> a_shutdown_ack (fst t) \<noteq> None \<and> n + drain_rank (a_state (fst t)) \<le> drain_rank (a_state (fst s)))"
  using assms
proof (induction rule: daemon_path.induct)
  case (path_outside s n t m u effs)
  obtain a ws b ws' where tu: "t = (a, ws)" "u = (b, ws')" by (cases t; cases u)
  have run: "a_running a" using path_outside.hyps(3) by (auto simp: tu daemon_next_def split: if_splits)
  then show ?case
    using path_outside outside_drain [of cfg a ws m b ws' effs] next_inv [of cfg a ws m b ws' effs] by (simp add: tu)
next
  case (path_report s n t m u effs)
  obtain a ws b ws' where tu: "t = (a, ws)" "u = (b, ws')" by (cases t; cases u)
  have run: "a_running a" using path_report.hyps(3) by (auto simp: tu daemon_next_def split: if_splits)
  then show ?case
    using path_report report_drain [of cfg a ws m b ws' effs] next_inv [of cfg a ws m b ws' effs] by (auto simp: tu split: if_splits)
qed simp

section \<open>Properties\<close>

definition sample_config :: daemon_config where
  "sample_config = \<lparr>dc_controlled = False, dc_deepgram_enabled = True, dc_diagnostics = True, dc_instance = 7,
     dc_keyterms = id, dc_whisper_prompt = concat\<rparr>"

definition sample_answers :: "nat command_answers" where
  "sample_answers = \<lparr>ca_history = Some [], ca_export = Inr None, ca_levels = [], ca_chunk_count = 0,
     ca_first_chunk_ms = u64_max, ca_now = 0, ca_readiness = None\<rparr>"

definition sample_admission :: "nat admission_answers" where
  "sample_admission = \<lparr>aa_merged_terms = [lit ''Voisu''], aa_user_terms = [lit ''Voisu''], aa_settings = 0,
     aa_language = ''en'', aa_correlation_id = ''rec-1'', aa_quota_error = None, aa_local_origin_refusal = None,
     aa_grammar = False, aa_dpr = False\<rparr>"

text \<open>A Cloud Recording is starting and a shutdown request arrives.\<close>

definition sample_messages :: "nat actor_message list" where
  "sample_messages =
     [CommandMessage CmdStart 11 sample_answers, CaptureAdmitted 0 (Inr Cloud) sample_admission, ShutdownMessage 99 0 u64_max]"

fun daemon_run ::
  "daemon_config \<Rightarrow> 'a actor_message list \<Rightarrow> 'a actor \<times> workflow list \<Rightarrow> (('a actor \<times> workflow list) \<times> 'a effect list) option" where
  "daemon_run cfg [] s = Some (s, [])"
| "daemon_run cfg (m # ms) s =
     (case daemon_next cfg m s of
        None \<Rightarrow> None
      | Some (t, effs) \<Rightarrow> map_option (\<lambda>(u, effs'). (u, effs @ effs')) (daemon_run cfg ms t))"

lemma run_reach:
  assumes "daemon_reach cfg s wanted given" "daemon_run cfg ms s = Some (t, effs)" "distinct (wanted @ concat (map asks ms))"
  shows "daemon_reach cfg t (wanted @ concat (map asks ms)) (given @ releases effs)"
  using assms
proof (induction ms arbitrary: s wanted given effs)
  case (Cons m ms)
  obtain u es fs where u: "daemon_next cfg m s = Some (u, es)" "daemon_run cfg ms u = Some (t, fs)" "effs = es @ fs"
    using Cons.prems(2) by (auto split: option.splits)
  have "daemon_reach cfg u (wanted @ asks m) (given @ releases es)"
    using Cons.prems by (intro daemon_moves [OF _ _ u(1)]) auto
  from Cons.IH [OF this u(2)] show ?case using Cons.prems(3) by (simp add: u(3))
qed simp

lemmas sample_defs = sample_config_def sample_answers_def sample_admission_def sample_messages_def

definition sample_state :: "nat actor \<times> workflow list" where
  "sample_state = fst (the (daemon_run sample_config sample_messages (actor_start, [])))"

lemma sample_run:
  "map_option (\<lambda>(s, effs). (s, releases effs)) (daemon_run sample_config sample_messages (actor_start, [])) = Some (sample_state, [])"
  "a_state (fst sample_state) = Starting 1 ''rec-1'' Cloud" "a_shutdown_ack (fst sample_state) = Some 99"
  "a_running (fst sample_state)" "snd sample_state = [StartupWork 1 Cloud 11]"
  by code_simp+

lemma sample_reach: "daemon_reach sample_config sample_state [11] []"
proof -
  obtain effs where "daemon_run sample_config sample_messages (actor_start, []) = Some (sample_state, effs)" "releases effs = []"
    using sample_run(1) by (auto split: prod.splits)
  from run_reach [OF daemon_starts this(1)] this(2) show ?thesis by (simp add: sample_messages_def)
qed

text \<open>
  Claim C3. The adapters are where the state says. In every reachable state of the daemon the actor
  owns the capture adapter unless a Recording is starting, the validator unless a Recording is being
  processed or a fixture replayed, and the Delivery adapter unless a Recording is being processed; at
  most one workflow is out, the one the state names. Hence no message that can arrive makes one of the
  actor's \<open>expect\<close> calls fail, and a Stop of a live Recording is never refused for want of an adapter.
\<close>
theorem adapters_never_missing:
  assumes "daemon_reach cfg (a, ws) wanted given"
  shows "a_capture a = (\<not> lends_capture (a_state a)) \<and> (a_validator a \<noteq> None) = (\<not> lends_validator (a_state a))
    \<and> a_delivery a = (\<not> lends_delivery (a_state a)) \<and> busy_with (a_state a) ws
    \<and> (\<forall>m. may_come (a, ws) m \<longrightarrow> daemon_next cfg m (a, ws) \<noteq> None)
    \<and> (\<forall>r. a_state a = ActorRecording r \<longrightarrow>
         (\<forall>reply n f. \<exists>b e v. stop_for_client reply n f a = (b, [SpawnProcessing r e v (a_grammar_adapter a) (a_dpr_client a) (Some reply) False])
            \<and> a_state b = Processing e))"
proof -
  have inv: "daemon_inv cfg a ws" using reach_inv [OF assms] by simp
  then have own: "owns cfg a ws" by (simp add: daemon_inv_def)
  have "daemon_next cfg m (a, ws) \<noteq> None" if "may_come (a, ws) m" for m
    using next_keeps [OF inv that] by auto
  moreover have "\<exists>b e v. stop_for_client reply n f a = (b, [SpawnProcessing r e v (a_grammar_adapter a) (a_dpr_client a) (Some reply) False])
      \<and> a_state b = Processing e" if "a_state a = ActorRecording r" for r reply n f
    using own that
    by (auto simp: owns_def stop_for_client_def take_active_recording_def spawn_recording_processing_def Let_def)
  ultimately show ?thesis using own by (auto simp: owns_def)
qed

theorem adapters_never_missing_witness:
  "\<not> a_capture (fst sample_state) \<and> a_validator (fst sample_state) \<noteq> None
     \<and> daemon_next sample_config (ShutdownMessage 5 0 0) sample_state \<noteq> None"
proof -
  obtain a ws where s: "sample_state = (a, ws)" by (cases sample_state)
  have st: "a_state a = Starting 1 ''rec-1'' Cloud" "a_running a" using sample_run by (simp_all add: s)
  from adapters_never_missing [OF sample_reach [unfolded s]] st show ?thesis
    by (auto simp: s may_come_def)
qed

text \<open>
  The clients' view. A command waits in the actor's mailbox until the actor receives it; the actor
  stops receiving when it has returned. A status answer is sent by its blocking task and mode changes are
  answered by the queue thread in their order, at any later time, the actor running or not. The reach
  relation keeps the mailbox, the channels with the tasks and with the queue, the channels the clients
  made and the answers sent.
\<close>

inductive client_reach ::
  "daemon_config \<Rightarrow> 'a actor \<times> workflow list \<Rightarrow> (command \<times> nat) list \<Rightarrow> nat list \<Rightarrow> nat list \<Rightarrow> nat list \<Rightarrow> nat list \<Rightarrow> bool"
  for cfg where
  clients_start: "client_reach cfg (actor_start, []) [] [] [] [] []"
| client_posts: "client_reach cfg s mail tasks queue wanted sent \<Longrightarrow> reply \<notin> set wanted
    \<Longrightarrow> client_reach cfg s (mail @ [(c, reply)]) tasks queue (wanted @ [reply]) sent"
| actor_receives: "client_reach cfg s ((c, reply) # mail) tasks queue wanted sent
    \<Longrightarrow> daemon_next cfg (CommandMessage c reply q) s = Some (t, effs)
    \<Longrightarrow> client_reach cfg t mail (tasks @ concat (map to_task effs)) (queue @ concat (map to_queue effs)) wanted
          (sent @ concat (map answered effs))"
| actor_hears: "client_reach cfg s mail tasks queue wanted sent \<Longrightarrow> asks m = []
    \<Longrightarrow> daemon_next cfg m s = Some (t, effs)
    \<Longrightarrow> client_reach cfg t mail (tasks @ concat (map to_task effs)) (queue @ concat (map to_queue effs)) wanted
          (sent @ concat (map answered effs))"
| task_answers: "client_reach cfg s mail (xs @ reply # ys) queue wanted sent
    \<Longrightarrow> client_reach cfg s mail (xs @ ys) queue wanted (sent @ [reply])"
| queue_answers: "client_reach cfg s mail tasks (reply # queue) wanted sent
    \<Longrightarrow> client_reach cfg s mail tasks queue wanted (sent @ [reply])"

lemma released_parts: "mset (releases effs) =
    mset (concat (map answered effs)) + mset (concat (map to_task effs)) + mset (concat (map to_queue effs))"
proof (induction effs)
  case (Cons e effs)
  then show ?case by (cases e) simp_all
qed simp

text \<open>The actor's own account of the channels it received and let go.\<close>

lemma client_account:
  assumes "client_reach cfg s mail tasks queue wanted sent"
  shows "\<exists>brought given. daemon_reach cfg s brought given \<and> distinct wanted
    \<and> mset wanted = mset brought + mset (map snd mail) \<and> mset given = mset sent + mset tasks + mset queue"
  using assms
proof (induction rule: client_reach.induct)
  case clients_start
  then show ?case using daemon_starts [of cfg] by force
next
  case (client_posts s mail tasks queue wanted sent reply c)
  then obtain brought given where IH: "daemon_reach cfg s brought given" "distinct wanted"
    "mset wanted = mset brought + mset (map snd mail)" "mset given = mset sent + mset tasks + mset queue" by blast
  show ?case using IH client_posts.hyps by (intro exI [of _ brought] exI [of _ given]) simp
next
  case (actor_receives s c reply mail tasks queue wanted sent q t effs)
  then obtain brought given where IH: "daemon_reach cfg s brought given" "distinct wanted"
    "mset wanted = mset brought + mset (map snd ((c, reply) # mail))" "mset given = mset sent + mset tasks + mset queue" by blast
  have "distinct (brought @ map snd ((c, reply) # mail))"
    using IH(2,3) by (metis mset_append mset_eq_imp_distinct_iff)
  then have "daemon_reach cfg t (brought @ [reply]) (given @ releases effs)"
    using daemon_moves [OF IH(1) _ actor_receives.hyps(2)] by simp
  then show ?case
    using IH by (intro exI [of _ "brought @ [reply]"] exI [of _ "given @ releases effs"]) (simp add: released_parts ac_simps)
next
  case (actor_hears s mail tasks queue wanted sent m t effs)
  then obtain brought given where IH: "daemon_reach cfg s brought given" "distinct wanted"
    "mset wanted = mset brought + mset (map snd mail)" "mset given = mset sent + mset tasks + mset queue" by blast
  have "daemon_reach cfg t brought (given @ releases effs)"
    using daemon_moves [OF IH(1) _ actor_hears.hyps(3)] actor_hears.hyps(2) by simp
  then show ?case
    using IH by (intro exI [of _ brought] exI [of _ "given @ releases effs"]) (simp add: released_parts ac_simps)
qed auto

lemma helpers_finish:
  assumes "client_reach cfg s mail tasks queue wanted sent"
  shows "client_reach cfg s mail [] [] wanted (sent @ tasks @ queue)"
proof -
  have "client_reach cfg s mail tasks' queue wanted (sent @ xs)" if "tasks = xs @ tasks'" for xs tasks'
    using that
  proof (induction xs arbitrary: tasks' rule: rev_induct)
    case (snoc r xs)
    then show ?case using task_answers [of cfg s mail "[]" r tasks' queue wanted "sent @ xs"] by simp
  qed (use assms in simp)
  then have tasks: "client_reach cfg s mail [] queue wanted (sent @ tasks)" by simp
  have "client_reach cfg s mail [] queue' wanted (sent @ tasks @ xs)" if "queue = xs @ queue'" for xs queue'
    using that
  proof (induction xs arbitrary: queue' rule: rev_induct)
    case (snoc r xs)
    then show ?case using queue_answers [of cfg s mail "[]" r queue' wanted "sent @ tasks @ xs"] by simp
  qed (use tasks in simp)
  then show ?thesis by simp
qed

text \<open>
  Claim C4. Every reply channel is used at most once and is never lost by the daemon. On every
  interleaving the channels the clients made are, each exactly once, among the answers sent, with a
  blocking task that answers a status command, in the queue of mode changes, with the actor (the pending
  admission or the one workflow out, at most one) or in the mailbox. The tasks and the queue can
  always send what they hold. When the actor has returned after a shutdown it and its workflows hold no channel: the
  clients without an answer are those the tasks and the queue still serve and those whose command the actor never
  received.
\<close>
theorem clients_answered_once:
  assumes "client_reach cfg (a, ws) mail tasks queue wanted sent"
  shows "distinct (sent @ tasks @ queue @ held a ws @ map snd mail)
    \<and> set wanted = set (sent @ tasks @ queue @ held a ws @ map snd mail) \<and> length (held a ws) \<le> 1
    \<and> client_reach cfg (a, ws) mail [] [] wanted (sent @ tasks @ queue)
    \<and> (\<not> a_running a \<longrightarrow> held a ws = [])"
proof -
  obtain brought given where acc: "daemon_reach cfg (a, ws) brought given" "distinct wanted"
    "mset wanted = mset brought + mset (map snd mail)" "mset given = mset sent + mset tasks + mset queue"
    using client_account [OF assms] by blast
  have inv: "daemon_inv cfg a ws" and m: "mset brought = mset given + mset (held a ws)"
    using reach_inv [OF acc(1)] by simp_all
  have "mset wanted = mset (sent @ tasks @ queue @ held a ws @ map snd mail)" using acc(3,4) m by (simp add: ac_simps)
  then have "distinct (sent @ tasks @ queue @ held a ws @ map snd mail)"
    "set wanted = set (sent @ tasks @ queue @ held a ws @ map snd mail)"
    using acc(2) by (metis mset_eq_imp_distinct_iff, metis mset_eq_setD)
  moreover have "length (held a ws) \<le> 1"
    using inv by (cases "a_state a") (auto simp: daemon_inv_def owns_def held_def split: option.split)
  moreover have "held a ws = []" if "\<not> a_running a"
    using inv that by (auto simp: daemon_inv_def owns_def held_def)
  ultimately show ?thesis using helpers_finish [OF assms] by blast
qed

lemma client_run:
  assumes "client_reach cfg s [] tasks queue wanted sent" "daemon_run cfg ms s = Some (t, effs)"
    "distinct (wanted @ concat (map asks ms))"
  shows "client_reach cfg t [] (tasks @ concat (map to_task effs)) (queue @ concat (map to_queue effs))
    (wanted @ concat (map asks ms)) (sent @ concat (map answered effs))"
  using assms
proof (induction ms arbitrary: s tasks queue wanted sent effs)
  case (Cons m ms)
  obtain u es fs where u: "daemon_next cfg m s = Some (u, es)" "daemon_run cfg ms u = Some (t, fs)" "effs = es @ fs"
    using Cons.prems(2) by (auto split: option.splits)
  have "client_reach cfg u [] (tasks @ concat (map to_task es)) (queue @ concat (map to_queue es)) (wanted @ asks m) (sent @ concat (map answered es))"
  proof (cases "asks m")
    case Nil
    then show ?thesis using actor_hears [OF Cons.prems(1) Nil u(1)] by simp
  next
    case (Cons r rs)
    then obtain c q where m: "m = CommandMessage c r q" "rs = []" by (cases m) simp_all
    then have "client_reach cfg s [(c, r)] tasks queue (wanted @ [r]) sent"
      using client_posts [OF Cons.prems(1), of r c] Cons.prems(3) by simp
    then show ?thesis using actor_receives [of cfg s c r "[]"] u(1) m by simp
  qed
  from Cons.IH [OF this u(2)] show ?case using Cons.prems(3) by (simp add: u(3))
qed simp

text \<open>
  A Start whose workflow is out and a status command with its task, a shutdown pending; a second status
  command waits in the mailbox.
\<close>

definition client_messages :: "nat actor_message list" where
  "client_messages = sample_messages @ [CommandMessage CmdStatus 12 sample_answers]"

definition client_state :: "nat actor \<times> workflow list" where
  "client_state = fst (the (daemon_run sample_config client_messages (actor_start, [])))"

lemma client_sample: "client_reach sample_config client_state [(CmdStatus, 13)] [12] [] [11, 12, 13] []"
proof -
  have "map_option (\<lambda>(s, effs). (s, concat (map to_task effs), concat (map to_queue effs), concat (map answered effs)))
      (daemon_run sample_config client_messages (actor_start, [])) = Some (client_state, [12], [], [])" by code_simp
  then obtain effs where "daemon_run sample_config client_messages (actor_start, []) = Some (client_state, effs)"
    "concat (map to_task effs) = [12]" "concat (map to_queue effs) = []" "concat (map answered effs) = []" by auto
  from client_run [OF clients_start this(1)] this(2-) have "client_reach sample_config client_state [] [12] [] [11, 12] []"
    by (simp add: client_messages_def sample_messages_def)
  from client_posts [OF this, of 13 CmdStatus] show ?thesis by simp
qed

theorem clients_answered_once_witness:
  "held (fst client_state) (snd client_state) = [11] \<and> length (held (fst client_state) (snd client_state)) \<le> 1
    \<and> client_reach sample_config client_state [(CmdStatus, 13)] [] [] [11, 12, 13] [12]"
proof -
  have "held (fst client_state) (snd client_state) = [11]" by code_simp
  then show ?thesis
    using clients_answered_once [of sample_config "fst client_state" "snd client_state" "[(CmdStatus, 13)]" "[12]" "[]" "[11, 12, 13]" "[]"]
      client_sample by simp
qed

text \<open>
  Claim C15. A shutdown is acknowledged. Once a shutdown request is pending in a reachable state, some
  workflow is out whose report will be accepted, the request survives every other message, and on
  every path with as many reports as the state is waiting for (two for a Recording that is starting,
  one otherwise) the actor has returned; the report that makes it return acknowledges the request.
\<close>
theorem shutdown_drains:
  assumes "daemon_reach cfg (a, ws) wanted given" "a_running a" "a_shutdown_ack a = Some k"
  shows "drain_rank (a_state a) \<in> {1, 2} \<and> (\<exists>w. ws = [w])
    \<and> (\<forall>n b ws'. daemon_path cfg (a, ws) n (b, ws') \<longrightarrow> a_running b \<longrightarrow> a_shutdown_ack b \<noteq> None \<and> n < drain_rank (a_state a))
    \<and> (\<forall>m b ws' effs. daemon_next cfg m (a, ws) = Some ((b, ws'), effs) \<longrightarrow> \<not> a_running b \<longrightarrow> AcknowledgeShutdown k \<in> set effs)"
proof -
  have inv: "daemon_inv cfg a ws" using reach_inv [OF assms(1)] by simp
  then have own: "owns cfg a ws" and ws: "ws \<noteq> []" using assms(3) by (auto simp: daemon_inv_def)
  have rank: "drain_rank (a_state a) \<in> {1, 2}" "\<exists>w. ws = [w]"
    using own ws by (cases "a_state a"; auto simp: owns_def)+
  have "a_shutdown_ack b \<noteq> None \<and> n < drain_rank (a_state a)"
    if "daemon_path cfg (a, ws) n (b, ws')" "a_running b" for n b ws'
  proof -
    have b: "daemon_inv cfg b ws'" "a_shutdown_ack b \<noteq> None" "n + drain_rank (a_state b) \<le> drain_rank (a_state a)"
      using drain_path [OF that(1)] inv assms(3) that(2) by auto
    then have "drain_rank (a_state b) \<noteq> 0" using busy_rank by (auto simp: daemon_inv_def)
    then show ?thesis using b by linarith
  qed
  moreover have "AcknowledgeShutdown k \<in> set effs"
    if "daemon_next cfg m (a, ws) = Some ((b, ws'), effs)" "\<not> a_running b" for m b ws' effs
    using outside_drain [OF inv _ _ that(1)] report_drain [OF inv _ _ that(1)] that(2) assms(3)
    by (cases "from_outside m") (auto split: if_splits)
  ultimately show ?thesis using rank by blast
qed

theorem shutdown_drains_witness:
  "drain_rank (a_state (fst sample_state)) = 2 \<and> (\<exists>w. snd sample_state = [w])"
proof -
  obtain a ws where s: "sample_state = (a, ws)" by (cases sample_state)
  have st: "a_state a = Starting 1 ''rec-1'' Cloud" "a_running a" "a_shutdown_ack a = Some 99"
    using sample_run by (simp_all add: s)
  from shutdown_drains [OF sample_reach [unfolded s] st(2,3)] st(1) show ?thesis by (simp add: s)
qed

end
