(* ===== verification/Daemon_Outcomes.thy ===== *)
theory Daemon_Outcomes
  imports Daemon
begin

text \<open>
  Further properties of the Linux daemon's actor: what becomes of a Local worker's reservation when an
  admission reports, how a failed start accounts for the providers, and how many overlay events a
  delivered Recording leaves.
\<close>

section \<open>Admissions, starts and overlay events\<close>

definition claim_ends :: "'a effect \<Rightarrow> bool" where
  "claim_ends e \<longleftrightarrow> (case e of ReleaseReservation \<Rightarrow> True | HandOffReservation \<Rightarrow> True | BeginLive _ _ \<Rightarrow> True | _ \<Rightarrow> False)"

lemma claim_filter_simps [simp]:
  "filter claim_ends (drop_claim armed) = (if armed then [ReleaseReservation] else [])"
  "filter claim_ends (begin_claim armed cor us) = (if armed then [BeginLive cor us] else [])"
  "NoteCloudUsed \<notin> set (drop_claim armed)" "NoteCloudUsed \<notin> set (begin_claim armed cor us)"
  by (simp_all add: drop_claim_def begin_claim_def claim_ends_def)

lemma local_admission:
  "on_capture_admitted cfg token (Inr Local) q a = Some (b, effs, through) \<Longrightarrow>
     length (filter claim_ends effs) = 1 \<and> NoteCloudUsed \<notin> set effs \<and> a_deepgram b = a_deepgram a \<and> a_groq b = a_groq a"
  by (auto simp: on_capture_admitted_def admitted_clients_def replay_local_def start_admitted_def set_vocabulary_def Let_def
      claim_ends_def split: actor_state.splits if_splits pending_capture.splits option.splits)

lemma cloud_claims [simp]: "filter claim_ends (cloud_notes cfg) = []"
  by (simp add: cloud_notes_def claim_ends_def)

lemma other_admission:
  "on_capture_admitted cfg token result q a = Some (b, effs, through) \<Longrightarrow> result \<noteq> Inr Local \<Longrightarrow> filter claim_ends effs = []"
  by (auto simp: on_capture_admitted_def admitted_clients_def replay_cloud_def start_admitted_def set_vocabulary_def Let_def
      ensure_providers_def claim_ends_def
      split: actor_state.splits if_splits pending_capture.splits option.splits sum.splits prod.splits asr_mode.splits)

text \<open>
  A Local admission's worker reservation ends exactly once and without the Cloud. Whenever
  an admission reports in a reachable state, the actor handles it; if it was admitted as Local, exactly
  one of its effects releases the reserved worker, hands it to the replay or begins the live Recording,
  no Cloud capability is noted as used, and the Cloud provider slots stay as they were; any other
  admission touches no reservation.
\<close>
theorem reservation_ends_once:
  assumes "daemon_reach cfg (a, ws) wanted given"
  shows "\<exists>b effs through. on_capture_admitted cfg token result q a = Some (b, effs, through)
    \<and> length (filter claim_ends effs) = (if result = Inr Local then 1 else 0)
    \<and> (result = Inr Local \<longrightarrow> NoteCloudUsed \<notin> set effs \<and> a_deepgram b = a_deepgram a \<and> a_groq b = a_groq a)"
proof -
  have inv: "daemon_inv cfg a ws" using reach_inv [OF assms] by simp
  then have "handled cfg a ws [] ws (on_capture_admitted cfg token result q a)"
    by (intro handled_admitted) (auto simp: daemon_inv_def)
  then obtain b effs through where out: "on_capture_admitted cfg token result q a = Some (b, effs, through)"
    by (cases "on_capture_admitted cfg token result q a") (auto simp: handled_def)
  then show ?thesis
    using local_admission [of cfg token q a b effs through] other_admission [OF out] by auto
qed

theorem reservation_ends_once_witness:
  "\<exists>b effs through. on_capture_admitted sample_config 0 (Inr Local) sample_admission (fst sample_state) = Some (b, effs, through)
     \<and> length (filter claim_ends effs) = 1 \<and> NoteCloudUsed \<notin> set effs"
proof -
  obtain a ws where s: "sample_state = (a, ws)" by (cases sample_state)
  from reservation_ends_once [OF sample_reach [unfolded s], of 0 "Inr Local" sample_admission] show ?thesis
    by (auto simp: s)
qed

text \<open>
  A failed start accounts for every provider. Whatever step of the start sequence fails, the
  diagnostic record has exactly one entry per provider: an enabled provider whose stream had started
  is Aborted, a provider whose start failed or was never reached is NotStarted, and a disabled
  Deepgram is NotStarted with its own reason; a start that succeeds had all three steps succeed.
\<close>
theorem startup_accounts_providers:
  "case begin_recording captured dg gq of
     Inr clock \<Rightarrow> captured = Inr clock \<and> dg = Inr () \<and> gq = Inr ()
   | Inl f \<Rightarrow>
       distinct (map pf_provider (startup_failures cfg f)) \<and> pf_provider ` set (startup_failures cfg f) = {Deepgram, Groq}
       \<and> (\<forall>x\<in>set (startup_failures cfg f).
            pf_stage x = (if sf_provider_stream f = Some (pf_provider x) \<and> (pf_provider x = Groq \<or> dc_deepgram_enabled cfg)
                          then Aborted else NotStarted)
            \<and> (pf_provider x = Deepgram \<and> \<not> dc_deepgram_enabled cfg \<longrightarrow> pf_diagnostic x = DEEPGRAM_DISABLED_DIAGNOSTIC)
            \<and> (sf_failed_provider f = Some (pf_provider x) \<and> (pf_provider x = Groq \<or> dc_deepgram_enabled cfg)
                 \<longrightarrow> pf_diagnostic x = diagnostic (sf_error f)))"
  by (cases captured; cases dg; cases gq)
    (auto simp: begin_recording_def startup_failures_def startup_entry_def provider_failure_new_def normalize_disabled_deepgram_def
      Let_def less_provider_def less_eq_provider_def)

theorem startup_accounts_providers_witness:
  "\<exists>x\<in>set (startup_failures sample_config \<lparr>sf_error = boundary_error_new ProviderKind ''down'', sf_capture = True,
       sf_provider_stream = Some Deepgram, sf_failed_provider = Some Groq\<rparr>).
     pf_provider x = Deepgram \<and> pf_stage x = Aborted"
  using startup_accounts_providers [where captured = "Inr \<lparr>clock_started = 0, clock_deadline = 0\<rparr>" and dg = "Inr ()"
      and gq = "Inl (boundary_error_new ProviderKind ''down'')" and cfg = sample_config]
  by (auto simp: begin_recording_def sample_config_def split: if_splits)

text \<open>While a Recording is processed, messages other than its Delivery notice leave the overlay alone.\<close>

fun lands :: "'a actor_message \<Rightarrow> bool" where
  "lands (DeliveryLanded _ _ _ _ _) = True"
| "lands _ = False"

lemma processing_quiet:
  assumes "a_state a = Processing e" "from_outside m" "\<not> lands m" "daemon_next cfg m (a, ws) = Some ((b, ws'), effs)"
  shows "a_state b = Processing e \<and> a_next_overlay_event_id b = a_next_overlay_event_id a
    \<and> a_last_overlay_event b = a_last_overlay_event a"
proof -
  obtain c es th where h: "handle_message cfg m a = Some (c, es, th)" and run: "a_running a"
    using assms(2,4) by (auto simp: daemon_next_def actor_turn_def split: if_splits)
  have c: "a_state c = Processing e" using busy_outside [OF _ assms(2) h] assms(1) by simp
  then have bc: "b = c"
    using assms(2,4) h run by (auto simp: daemon_next_def actor_turn_def check_busy split: if_splits)
  have "a_next_overlay_event_id c = a_next_overlay_event_id a \<and> a_last_overlay_event c = a_last_overlay_event a"
  proof (cases m)
    case (CommandMessage cmd reply q)
    then show ?thesis
      using h busy_command_unchanged [where a = a and cfg = cfg and c = cmd and reply = reply and q = q] assms(1)
      by (auto simp: handle_message_def split: prod.splits)
  qed (use h assms in \<open>auto simp: handle_message_def on_pump_terminated_def on_capture_admitted_def on_shutdown_def
        cancel_pending_admission_def Let_def\<close>)
  then show ?thesis using c bc by simp
qed

lemma processing_quiet_run:
  assumes "a_state a = Processing e" "list_all (\<lambda>m. from_outside m \<and> \<not> lands m) ms"
    "daemon_run cfg ms (a, ws) = Some ((b, ws'), effs)"
  shows "a_state b = Processing e \<and> a_next_overlay_event_id b = a_next_overlay_event_id a
    \<and> a_last_overlay_event b = a_last_overlay_event a"
  using assms
proof (induction ms arbitrary: a ws effs)
  case (Cons m ms)
  obtain c ws1 es fs where "daemon_next cfg m (a, ws) = Some ((c, ws1), es)" "daemon_run cfg ms (c, ws1) = Some ((b, ws'), fs)"
    using Cons.prems(3) by (auto split: option.splits)
  with Cons processing_quiet [of a e m cfg ws c ws1 es] show ?case by auto
qed simp

lemma run_append:
  "daemon_run cfg (xs @ ys) s =
     (case daemon_run cfg xs s of
        None \<Rightarrow> None
      | Some (t, es) \<Rightarrow> map_option (\<lambda>(u, fs). (u, es @ fs)) (daemon_run cfg ys t))"
proof (induction xs arbitrary: s)
  case Nil
  then show ?case by (cases "daemon_run cfg ys s") auto
next
  case (Cons x xs)
  then show ?case by (auto split: option.split simp: option.map_comp comp_def case_prod_beta)
qed

lemma landed_step:
  assumes "a_state a = Processing e"
    "daemon_next cfg (DeliveryLanded (ev_recording_id e) (ev_correlation_id e) how reason truncated) (a, ws) = Some ((b, ws'), effs)"
  shows "a_state b = Processing e \<and> a_next_overlay_event_id b = a_next_overlay_event_id a + 1
    \<and> (\<exists>ev. a_last_overlay_event b = Some ev \<and> oe_id ev = a_next_overlay_event_id a
         \<and> oe_correlation_id ev = Some (ev_correlation_id e))"
  using assms
  by (auto simp: daemon_next_def actor_turn_def handle_message_def check_busy on_delivery_landed_def processing_matches_def
      retain_overlay_event_def split: if_splits prod.splits)

lemma completed_step:
  assumes "a_state a = Processing e" "cp_result m = Inr ()" "cp_id m = ev_recording_id e"
    "ev_correlation_id (cp_evidence m) = ev_correlation_id e" "daemon_next cfg (Completed m) (a, ws) = Some ((b, ws'), effs)"
  shows "if announced (ev_correlation_id e) a
     then a_next_overlay_event_id b = a_next_overlay_event_id a \<and> a_last_overlay_event b = a_last_overlay_event a
     else a_next_overlay_event_id b = a_next_overlay_event_id a + 1
       \<and> (\<exists>ev. a_last_overlay_event b = Some ev \<and> oe_id ev = a_next_overlay_event_id a
            \<and> oe_correlation_id ev = Some (ev_correlation_id e))"
proof -
  obtain c es where c: "on_completed cfg m a = (c, es)" by (cases "on_completed cfg m a")
  have "a_next_overlay_event_id b = a_next_overlay_event_id c" "a_last_overlay_event b = a_last_overlay_event c"
    using assms(5) c
    by (auto simp: daemon_next_def actor_turn_def handle_message_def shutdown_check_def
        split: if_splits option.splits actor_state.splits)
  then show ?thesis
    using c assms(1-4)
    by (auto simp: on_completed_def completed_ok_def announced_def Let_def retain_overlay_event_def split: prod.splits)
qed

text \<open>
  One confirmation per delivered Recording. While a Recording is processed, whether or not
  its Delivery notice reaches the actor, and whatever other messages come in between, its successful
  completion leaves exactly one new overlay event, numbered by the event counter and carrying the
  Recording's correlation ID: the completion recognises the event the notice retained and adds none.
\<close>
theorem delivery_confirmed_once:
  assumes "a_state a = Processing e" "\<not> announced (ev_correlation_id e) a"
    "landed \<in> {[], [DeliveryLanded (ev_recording_id e) (ev_correlation_id e) how reason truncated]}"
    "list_all (\<lambda>m. from_outside m \<and> \<not> lands m) ms"
    "cp_result m = Inr ()" "cp_id m = ev_recording_id e" "ev_correlation_id (cp_evidence m) = ev_correlation_id e"
    "daemon_run cfg (landed @ ms @ [Completed m]) (a, ws) = Some ((b, ws'), effs)"
  shows "a_next_overlay_event_id b = a_next_overlay_event_id a + 1
    \<and> (\<exists>ev. a_last_overlay_event b = Some ev \<and> oe_id ev = a_next_overlay_event_id a
         \<and> oe_correlation_id ev = Some (ev_correlation_id e))"
proof -
  obtain s1 es1 s2 es2 es3 where run: "daemon_run cfg landed (a, ws) = Some (s1, es1)" "daemon_run cfg ms s1 = Some (s2, es2)"
      "daemon_next cfg (Completed m) s2 = Some ((b, ws'), es3)"
    using assms(8) by (auto simp: run_append split: option.splits prod.splits)
  obtain a1 ws1 a2 ws2 where s: "s1 = (a1, ws1)" "s2 = (a2, ws2)" by (cases s1; cases s2)
  have one: "a_state a1 = Processing e" "landed = [] \<Longrightarrow> a1 = a"
      "landed \<noteq> [] \<Longrightarrow> a_next_overlay_event_id a1 = a_next_overlay_event_id a + 1
         \<and> (\<exists>ev. a_last_overlay_event a1 = Some ev \<and> oe_id ev = a_next_overlay_event_id a
              \<and> oe_correlation_id ev = Some (ev_correlation_id e))"
    using assms(1,3) run(1) landed_step [OF assms(1)] by (auto simp: s split: option.splits)
  note two = processing_quiet_run [OF one(1) assms(4) run(2) [unfolded s]]
  have "announced (ev_correlation_id e) a2 = (landed \<noteq> [])"
    using one two assms(2) by (cases "landed = []") (auto simp: announced_def)
  then show ?thesis
    using completed_step [OF two [THEN conjunct1] assms(5-7) run(3) [unfolded s(2)]] one two
    by (cases "landed = []") (auto split: if_splits)
qed

definition sample_processing :: "nat actor \<times> workflow list" where
  "sample_processing =
     (actor_start\<lparr>a_state := Processing (base_evidence 1 ''rec-1'' [CaptureStarted]), a_validator := None, a_delivery := False\<rparr>,
      [ProcessingWork 1 None])"

definition sample_delivered :: "nat actor_message list" where
  "sample_delivered =
     [DeliveryLanded 1 ''rec-1'' ClipboardFallback None False, CommandMessage CmdStatus 4 sample_answers,
      Completed \<lparr>cp_id = 1, cp_result = Inr (), cp_evidence = base_evidence 1 ''rec-1'' [DeliveryCompleted],
        cp_validator = \<lparr>va_user_vocabulary = [], va_dictionary_terms = []\<rparr>, cp_reply = None,
        cp_publish_terminal_outcome = True\<rparr>]"

lemma sample_delivered_runs: "daemon_run sample_config sample_delivered sample_processing \<noteq> None"
  by code_simp

theorem delivery_confirmed_once_witness:
  "\<exists>b ws' effs. daemon_run sample_config sample_delivered sample_processing = Some ((b, ws'), effs)
     \<and> a_next_overlay_event_id b = 2"
proof -
  obtain b ws' effs where run: "daemon_run sample_config sample_delivered sample_processing = Some ((b, ws'), effs)"
    using sample_delivered_runs by auto
  have "a_next_overlay_event_id b = a_next_overlay_event_id (fst sample_processing) + 1"
    by (rule delivery_confirmed_once
        [where e = "base_evidence 1 ''rec-1'' [CaptureStarted]" and landed = "[hd sample_delivered]"
          and ms = "[sample_delivered ! 1]" and how = ClipboardFallback and reason = None and truncated = False
          and ws = "snd sample_processing" and cfg = sample_config and ws' = ws' and effs = effs
          and m = "\<lparr>cp_id = 1, cp_result = Inr (), cp_evidence = base_evidence 1 ''rec-1'' [DeliveryCompleted],
        cp_validator = \<lparr>va_user_vocabulary = [], va_dictionary_terms = []\<rparr>, cp_reply = None,
        cp_publish_terminal_outcome = True\<rparr>", THEN conjunct1])
      (use run in \<open>simp_all add: sample_processing_def sample_delivered_def announced_def actor_start_def base_evidence_def\<close>)
  then show ?thesis using run by (auto simp: sample_processing_def actor_start_def)
qed

end
