(* ===== verification/Daemon_Recording.thy ===== *)
theory Daemon_Recording
  imports Daemon_Actor
begin

text \<open>
  What happens to a stopped Recording in the Linux daemon (\<open>bin/voisu-daemon.rs\<close>: \<open>capture_pump\<close>,
  \<open>process_recording\<close>, its Delivery authorisation, the diagnostic record and \<open>supervise_recording\<close>).
  The processing task is a function of what its awaits answer: the pump, the capture, the provider
  coordinator (which is the model of \<open>Providers\<close>), the validator, the formatting and the adapters. It
  returns the result, the evidence and what it did, in order. Formatting (\<open>smart_writing.rs\<close>,
  \<open>dpr_pipeline.rs\<close>) is an argument that turns the validated decision into the text handed to
  Delivery, once.
\<close>

section \<open>The capture pump\<close>

text \<open>What the pump's selects see next; the stop signal wins over anything else that is ready.\<close>

datatype pump_event =
    StopSeen
  | ChunkSent nat
  | ChunkFailed boundary_error
  | StopDuringSend
  | CaptureEnded
  | CaptureFailed boundary_error

record pump_output =
  po_stream_error :: "boundary_error option"
  po_capture_limit :: "capture_limit option"

record pump_state =
  ps_count :: nat
  ps_first_chunk_ms :: nat

definition pump_result :: "boundary_error option \<Rightarrow> capture_limit option \<Rightarrow> pump_output" where
  "pump_result e l = \<lparr>po_stream_error = e, po_capture_limit = l\<rparr>"

text \<open>No event left means the pump is still waiting. The chunk counter is 32 bits wide and wraps.\<close>

fun capture_pump :: "pump_event list \<Rightarrow> pump_state \<Rightarrow> (pump_output \<times> pump_state) option" where
  "capture_pump [] s = None"
| "capture_pump (e # es) s =
     (case e of
        StopSeen \<Rightarrow> Some (pump_result None None, s)
      | StopDuringSend \<Rightarrow> Some (pump_result None None, s)
      | CaptureEnded \<Rightarrow> Some (pump_result None None, s)
      | ChunkSent ms \<Rightarrow>
          capture_pump es (s\<lparr>ps_count := (ps_count s + 1) mod 2 ^ 32,
            ps_first_chunk_ms := (if ps_first_chunk_ms s = u64_max then ms else ps_first_chunk_ms s)\<rparr>)
      | ChunkFailed err \<Rightarrow> Some (pump_result (Some err) None, s)
      | CaptureFailed err \<Rightarrow>
          (if kind err = RecordingDeadlineKind then Some (pump_result None (Some RecordingDeadline), s)
           else Some (pump_result (Some err) None, s)))"

section \<open>Aborting\<close>

datatype abort_answer = AbortDone | AbortFailed boundary_error | AbortTimedOut

definition extend_error :: "boundary_error \<Rightarrow> string \<Rightarrow> boundary_error" where
  "extend_error cause tail =
     with_provider_failures (boundary_error_new (kind cause) (diagnostic cause @ tail)) (provider_failures cause)"

definition combine_capture_abort :: "boundary_error \<Rightarrow> boundary_error \<Rightarrow> boundary_error" where
  "combine_capture_abort cause err = extend_error cause (''; capture abort failed: '' @ diagnostic err)"

definition bounded_abort :: "abort_answer \<Rightarrow> boundary_error \<Rightarrow> boundary_error" where
  "bounded_abort answer cause =
     (case answer of
        AbortDone \<Rightarrow> cause
      | AbortFailed err \<Rightarrow> combine_capture_abort cause err
      | AbortTimedOut \<Rightarrow> extend_error cause ''; capture abort timed out'')"

definition abort_recording_work :: "abort_answer \<Rightarrow> abort_answer \<Rightarrow> boundary_error \<Rightarrow> boundary_error" where
  "abort_recording_work captured streams cause =
     (let cause = bounded_abort captured cause
      in case streams of
           AbortDone \<Rightarrow> cause
         | AbortFailed err \<Rightarrow> extend_error cause (''; provider abort failed: '' @ diagnostic err)
         | AbortTimedOut \<Rightarrow> extend_error cause ''; provider abort timed out'')"

definition silence_needs_every_provider :: "boundary_error \<Rightarrow> provider_failure list \<Rightarrow> bool \<Rightarrow> boundary_error" where
  "silence_needs_every_provider err fs deepgram_enabled =
     (if kind err = SilentRecording \<and> list_ex (\<lambda>f. pf_provider f \<noteq> Deepgram \<or> deepgram_enabled) fs
      then boundary_error_new ProviderKind (diagnostic err) else err)"

section \<open>The record of a Recording\<close>

definition MAX_STORED_TEXT :: nat where "MAX_STORED_TEXT = 8 * 1024"

text \<open>The longest prefix of whole characters within a byte budget.\<close>

fun take_bytes :: "nat \<Rightarrow> utext \<Rightarrow> utext" where
  "take_bytes n [] = []"
| "take_bytes n (c # t) = (if byte_len [c] \<le> n then c # take_bytes (n - byte_len [c]) t else [])"

definition clamp_text :: "utext \<Rightarrow> utext" where
  "clamp_text t = (if byte_len t \<le> MAX_STORED_TEXT then t else take_bytes MAX_STORED_TEXT t @ [8230])"

definition source_transcript_record :: "source_transcript \<Rightarrow> source_transcript" where
  "source_transcript_record s = s\<lparr>st_text := clamp_text (st_text s)\<rparr>"

definition diagnostic_record_of ::
  "'a lifecycle_evidence \<Rightarrow> source_transcript list \<Rightarrow> provider_failure list \<Rightarrow> utext option \<Rightarrow> 'a option \<Rightarrow> 'a option \<Rightarrow> 'a option
     \<Rightarrow> boundary_error option \<Rightarrow> 'a option \<Rightarrow> nat \<Rightarrow> 'a diagnostic_record" where
  "diagnostic_record_of e srcs fs final debug_audio smart dpr err asr now =
     (let selection = ev_source_selection e
      in (diagnostic_record_new (ev_correlation_id e) (ev_recording_id e) now)
         \<lparr>dr_stages := ev_stages e, dr_streamed_chunk_count := ev_streamed_chunk_count e, dr_source_transcripts := srcs,
          dr_source_coverage := (case selection of Some d \<Rightarrow> ssd_sources d | None \<Rightarrow> []),
          dr_selected_provider := Option.bind selection selected_provider,
          dr_selection_confidence := Option.bind selection ssd_confidence,
          dr_provider_failures := fs, dr_final_transcript := map_option clamp_text final,
          dr_selection := ev_transcript_selection e, dr_validation_reason := ev_validation_reason e,
          dr_fallback_reason := ev_fallback_reason e, dr_reconciliation_requested := ev_reconciliation_requested e,
          dr_recovery_attempted := ev_recovery_attempted e, dr_delivery_count := ev_delivery_count e,
          dr_delivery_method := ev_delivery_method e, dr_delivery_fallback_reason := ev_delivery_fallback_reason e,
          dr_first_chunk_ms := ev_first_chunk_ms e, dr_capture_finalized_ms := ev_capture_finalized_ms e,
          dr_truncated_by := ev_truncated_by e, dr_provider_timings_ms := ev_provider_timings_ms e,
          dr_release_to_text_ms := ev_release_to_text_ms e, dr_recording_duration_ms := ev_recording_duration_ms e,
          dr_stop_to_finalized_ms := ev_stop_to_finalized_ms e, dr_stop_to_delivered_ms := ev_stop_to_delivered_ms e,
          dr_error := map_option public_message err, dr_debug_audio := debug_audio, dr_smart_writing := smart, dr_dpr := dpr,
          dr_intent_reconstruction := ev_intent_reconstruction e,
          dr_confidence_arbitration := ev_confidence_arbitration e, dr_local_asr := asr\<rparr>)"

section \<open>Processing\<close>

datatype 'a work_effect =
    AskedAuthorization nat string
  | DeliveredText utext
  | AnnouncedDelivery nat string delivery_method "string option" bool
  | StoredRecord "'a diagnostic_record"
  | LostRecord "'a diagnostic_record" string
  | AbandonedLive string
  | MarkedRecoveryFailed string

datatype 'a local_stop = LocalNoText string 'a | LocalTranscript utext 'a

datatype authorization = ActorGone | Refused | Granted

record ('a, 's) work_answers =
  wa_pump :: "string + pump_output"
  wa_chunk_count :: nat
  wa_first_chunk_ms :: nat
  wa_finish :: "boundary_error + captured_audio"
  wa_capture_abort :: abort_answer
  wa_provider_abort :: abort_answer
  wa_debug_audio :: "'a option"
  wa_local :: "string + 'a local_stop"
  wa_local_asr_error :: "string \<Rightarrow> 'a option"
  wa_finish_delivery :: "string option"
  wa_tone :: "utext \<Rightarrow> utext"
  wa_coordinator :: "'s provider_coordinator"
  wa_completion_panics :: bool
  wa_prepare :: "'s provider_word_confidences list \<Rightarrow> source_transcript list \<Rightarrow> boundary_error + prepared_decision"
  wa_reconstruct :: "intent_attempt \<Rightarrow> boundary_error + transcript_decision"
  wa_transform :: "transcript_decision \<Rightarrow> utext \<times> 'a option \<times> 'a option"
  wa_authorization :: authorization
  wa_deliver :: "boundary_error + delivery_outcome"
  wa_started_at :: instant
  wa_utterance_end :: instant
  wa_captured_at :: instant
  wa_finalized_at :: instant
  wa_delivered_at :: instant
  wa_reconstruction_ms :: nat
  wa_now_unix_ms :: nat
  wa_store_error :: "string option"

record work_config =
  wc_deepgram_enabled :: bool
  wc_diagnostics :: bool
  wc_credential_needed :: bool
  wc_stale_correlation :: bool

record 'a work =
  wk_evidence :: "'a lifecycle_evidence"
  wk_sources :: "source_transcript list"
  wk_failures :: "provider_failure list"
  wk_final :: "utext option"
  wk_smart :: "'a option"
  wk_dpr :: "'a option"
  wk_local_asr :: "'a option"
  wk_debug_audio :: "'a option"
  wk_effects :: "'a work_effect list"

definition work_start :: "'a lifecycle_evidence \<Rightarrow> 'a work" where
  "work_start e = \<lparr>wk_evidence = e, wk_sources = [], wk_failures = [], wk_final = None, wk_smart = None, wk_dpr = None,
     wk_local_asr = None, wk_debug_audio = None, wk_effects = []\<rparr>"

definition did :: "'a work_effect \<Rightarrow> 'a work \<Rightarrow> 'a work" where
  "did e w = w\<lparr>wk_effects := wk_effects w @ [e]\<rparr>"

definition push_stage :: "lifecycle_stage \<Rightarrow> 'a lifecycle_evidence \<Rightarrow> 'a lifecycle_evidence" where
  "push_stage s e = e\<lparr>ev_stages := ev_stages e @ [s]\<rparr>"

definition on_evidence :: "('a lifecycle_evidence \<Rightarrow> 'a lifecycle_evidence) \<Rightarrow> 'a work \<Rightarrow> 'a work" where
  "on_evidence f w = w\<lparr>wk_evidence := f (wk_evidence w)\<rparr>"

definition elapsed_millis :: "instant \<Rightarrow> instant \<Rightarrow> nat" where
  "elapsed_millis started now = duration_millis (saturating_duration_since now started)"

text \<open>The active-Recording check right before the one irreversible Delivery call.\<close>

definition authorized_deliver ::
  "work_config \<Rightarrow> ('a, 's) work_answers \<Rightarrow> utext \<Rightarrow> 'a work \<Rightarrow> 'a work \<times> (boundary_error + delivery_outcome)" where
  "authorized_deliver cfg q t w =
     (let e = wk_evidence w;
          cor = (if wc_stale_correlation cfg then ev_correlation_id e @ ''-stale'' else ev_correlation_id e);
          w = did (AskedAuthorization (ev_recording_id e) cor) w
      in case wa_authorization q of
           ActorGone \<Rightarrow> (w, Inl (boundary_error_new DeliveryKind ''active Recording correlation unavailable''))
         | Refused \<Rightarrow> (w, Inl (boundary_error_new DeliveryKind ''active Recording correlation changed before Delivery''))
         | Granted \<Rightarrow> (did (DeliveredText t) w, wa_deliver q))"

definition announce_delivery :: "delivery_method \<Rightarrow> 'a work \<Rightarrow> 'a work" where
  "announce_delivery how w =
     (let e = wk_evidence w
      in did (AnnouncedDelivery (ev_recording_id e) (ev_correlation_id e) how (ev_delivery_fallback_reason e)
                (ev_truncated_by e \<noteq> None)) w)"

definition delivery_timings :: "('a, 's) work_answers \<Rightarrow> 'a lifecycle_evidence \<Rightarrow> 'a lifecycle_evidence" where
  "delivery_timings q e =
     (let t = stop_anchored_timings (wa_started_at q) (wa_utterance_end q) (wa_finalized_at q) (wa_delivered_at q)
      in e\<lparr>ev_release_to_text_ms := Some (elapsed_millis (wa_started_at q) (wa_delivered_at q)),
           ev_recording_duration_ms := Some (recording_duration_ms t), ev_stop_to_finalized_ms := Some (stop_to_finalized_ms t),
           ev_stop_to_delivered_ms := Some (stop_to_delivered_ms t)\<rparr>)"

definition apply_delivery_evidence :: "('a, 's) work_answers \<Rightarrow> delivery_outcome \<Rightarrow> 'a lifecycle_evidence \<Rightarrow> 'a lifecycle_evidence" where
  "apply_delivery_evidence q d e =
     push_stage DeliveryCompleted (delivery_timings q
       (e\<lparr>ev_delivery_count := ev_delivery_count e + 1, ev_delivery_method := Some (do_method d),
          ev_delivery_fallback_reason := do_fallback_reason d\<rparr>))"

definition finish_local :: "work_config \<Rightarrow> ('a, 's) work_answers \<Rightarrow> 'a work \<Rightarrow> 'a work \<times> (boundary_error + unit)" where
  "finish_local cfg q w =
     (let cor = ev_correlation_id (wk_evidence w)
      in case wa_local q of
           Inl message \<Rightarrow>
             (did (AbandonedLive cor) (did (MarkedRecoveryFailed cor) (w\<lparr>wk_local_asr := wa_local_asr_error q message\<rparr>)),
              Inl (with_public_message (boundary_error_new Validation message) ''The Local engine failed''))
         | Inr (LocalNoText reason asr) \<Rightarrow>
             (on_evidence (push_stage ValidationCompleted) (w\<lparr>wk_local_asr := Some asr\<rparr>),
              Inl (boundary_error_new SilentRecording reason))
         | Inr (LocalTranscript t asr) \<Rightarrow>
             (let t = wa_tone q t
              in case authorized_deliver cfg q t (on_evidence (push_stage ValidationCompleted) (w\<lparr>wk_local_asr := Some asr\<rparr>)) of
                   (w, Inl err) \<Rightarrow> (w, Inl err)
                 | (w, Inr d) \<Rightarrow>
                     (let w = on_evidence (apply_delivery_evidence q d) w
                      in case wa_finish_delivery q of
                           Some message \<Rightarrow> (w, Inl (boundary_error_new DeliveryKind message))
                         | None \<Rightarrow> ((announce_delivery (do_method d) w)\<lparr>wk_final := Some t\<rparr>, Inr ()))))"

definition failure_evidence :: "boundary_error \<Rightarrow> 'a lifecycle_evidence \<Rightarrow> 'a lifecycle_evidence" where
  "failure_evidence err e =
     (case transcript_failure err of
        Some f \<Rightarrow> e\<lparr>ev_validation_reason := Some (validation_reason f), ev_fallback_reason := fallback_reason f,
            ev_reconciliation_requested := reconciliation_requested f, ev_recovery_attempted := recovery_attempted f,
            ev_source_selection := Some (tfe_selection f)\<rparr>
      | None \<Rightarrow> e\<lparr>ev_validation_reason := Some (diagnostic err)\<rparr>)"

definition DEFAULT_GROQ_RECONCILIATION_MODEL :: string where
  "DEFAULT_GROQ_RECONCILIATION_MODEL = ''qwen/qwen3.8-27b''"

definition settled_evidence :: "('a, 's) work_answers \<Rightarrow> transcript_decision \<Rightarrow> 'a lifecycle_evidence \<Rightarrow> 'a lifecycle_evidence" where
  "settled_evidence q d e =
     (let t = stop_anchored_timings (wa_started_at q) (wa_utterance_end q) (wa_finalized_at q) (wa_finalized_at q)
      in e\<lparr>ev_recording_duration_ms := Some (recording_duration_ms t), ev_stop_to_finalized_ms := Some (stop_to_finalized_ms t),
           ev_intent_reconstruction := (case td_intent d of
              Some i \<Rightarrow> Some \<lparr>ird_model = DEFAULT_GROQ_RECONCILIATION_MODEL, ird_eligibility = ie_eligibility i,
                 ird_outcome = ie_outcome i, ird_elapsed_ms = wa_reconstruction_ms q, ird_candidate = ie_candidate i\<rparr>
            | None \<Rightarrow> ev_intent_reconstruction e),
           ev_transcript_selection := Some (td_selection d), ev_source_selection := Some (td_diagnostic d),
           ev_validation_reason := Some (td_validation_reason d), ev_fallback_reason := td_fallback_reason d,
           ev_reconciliation_requested := td_reconciliation_requested d, ev_recovery_attempted := td_recovery_attempted d,
           ev_confidence_arbitration := td_arbitration d\<rparr>)"

text \<open>Formatting and Delivery of a settled decision.\<close>

definition deliver_decision :: "work_config \<Rightarrow> ('a, 's) work_answers \<Rightarrow> transcript_decision \<Rightarrow> 'a work \<Rightarrow> 'a work \<times> (boundary_error + unit)" where
  "deliver_decision cfg q d w =
     (case wa_transform q d of
        (rendered, smart, dpr) \<Rightarrow>
          (case authorized_deliver cfg q rendered w of
             (w, outcome) \<Rightarrow>
               (let w = w\<lparr>wk_final := Some rendered, wk_smart := smart, wk_dpr := dpr\<rparr>
                in case outcome of
                     Inl err \<Rightarrow> (w, Inl err)
                   | Inr out \<Rightarrow> (announce_delivery (do_method out) (on_evidence (apply_delivery_evidence q out) w), Inr ()))))"

definition decide_and_deliver ::
  "work_config \<Rightarrow> ('a, 's) work_answers \<Rightarrow> boundary_error + prepared_decision \<Rightarrow> 'a work \<Rightarrow> 'a work \<times> (boundary_error + unit)" where
  "decide_and_deliver cfg q prepared w =
     (case prepared of
        Inl err \<Rightarrow> (on_evidence (failure_evidence err) w,
                     Inl (silence_needs_every_provider err (wk_failures w) (wc_deepgram_enabled cfg)))
      | Inr p \<Rightarrow>
          (let w = on_evidence (push_stage ValidationCompleted) w
           in case (case p of ReadyDecision d \<Rightarrow> Inr d | ReconstructAttempt a \<Rightarrow> wa_reconstruct q a) of
                Inl err \<Rightarrow> (on_evidence (failure_evidence err) w, Inl err)
              | Inr d \<Rightarrow> deliver_decision cfg q d (on_evidence (settled_evidence q d) w)))"

definition complete_with_grammar_capability ::
  "work_config \<Rightarrow> ('a, 's) work_answers \<Rightarrow> captured_audio \<Rightarrow> boundary_error + 's provider_completion" where
  "complete_with_grammar_capability cfg q audio =
     (if wc_credential_needed cfg \<and> wa_completion_panics q
      then Inl (with_public_message (boundary_error_new Validation ''provider or grammar credential preparation panicked'')
             (''Couldn'' @ [CHR 0x27] @ ''t read your keys''))
      else complete_with_timings (wa_coordinator q) audio)"

definition finish_cloud ::
  "unicode \<Rightarrow> work_config \<Rightarrow> ('a, 's) work_answers \<Rightarrow> captured_audio \<Rightarrow> 'a work \<Rightarrow> 'a work \<times> (boundary_error + unit)" where
  "finish_cloud u cfg q audio w =
     (case complete_with_grammar_capability cfg q audio of
        Inl err \<Rightarrow> (w, Inl err)
      | Inr c \<Rightarrow>
          (let w = on_evidence (\<lambda>e. push_stage ProvidersCompleted
                 (e\<lparr>ev_provider_timings_ms := map (\<lambda>t. (pt_provider t, completed_ms t)) (timings_ms c),
                    ev_source_providers := map st_provider (sources c)\<rparr>))
               (w\<lparr>wk_failures := pc_failures c, wk_sources := map source_transcript_record (sources c)\<rparr>)
           in decide_and_deliver cfg q (wa_prepare q (pc_confidences c) (sanitize_source_transcripts u (sources c))) w))"

definition process_capture ::
  "unicode \<Rightarrow> work_config \<Rightarrow> asr_mode \<Rightarrow> ('a, 's) work_answers \<Rightarrow> pump_output \<Rightarrow> 'a work \<Rightarrow> 'a work \<times> (boundary_error + unit)" where
  "process_capture u cfg mode q out w =
     (let abort = (\<lambda>err. (on_evidence (push_stage CaptureAborted) w,
                       Inl (abort_recording_work (wa_capture_abort q) (wa_provider_abort q) err)))
      in case po_stream_error out of
           Some err \<Rightarrow> abort err
         | None \<Rightarrow>
             (case wa_finish q of
                Inl err \<Rightarrow> abort err
              | Inr audio \<Rightarrow>
                  (let audio = (case po_capture_limit out of Some l \<Rightarrow> with_truncation audio l | None \<Rightarrow> audio);
                       w = on_evidence (\<lambda>e. push_stage CaptureFinalized
                             (e\<lparr>ev_truncated_by := truncated_by audio,
                                ev_capture_finalized_ms := Some (elapsed_millis (wa_started_at q) (wa_captured_at q))\<rparr>))
                           (w\<lparr>wk_debug_audio := wa_debug_audio q\<rparr>)
                   in if mode = Local then finish_local cfg q w else finish_cloud u cfg q audio w)))"

text \<open>
  The accounting after the attempt: a failed Local Recording gives its worker back; a Cloud Recording
  ends with a Source Transcript or a failure entry for every provider.
\<close>

definition account :: "work_config \<Rightarrow> asr_mode \<Rightarrow> ('a, 's) work_answers \<Rightarrow> 'a work \<Rightarrow> boundary_error + unit \<Rightarrow> 'a work" where
  "account cfg mode q w result =
     (if mode = Local
      then (case result of
              Inr _ \<Rightarrow> w
            | Inl err \<Rightarrow>
                (let w = did (AbandonedLive (ev_correlation_id (wk_evidence w))) w
                 in if wk_local_asr w = None then w\<lparr>wk_local_asr := wa_local_asr_error q (public_message err)\<rparr> else w))
      else (let fs = (case result of
                        Inr _ \<Rightarrow> wk_failures w
                      | Inl err \<Rightarrow> account_for_missing_providers (wk_sources w) (diagnostic err)
                                    (if wk_failures w = [] then provider_failures err else wk_failures w))
            in w\<lparr>wk_failures := (if wc_deepgram_enabled cfg then fs else normalize_disabled_deepgram fs)\<rparr>))"

text \<open>The store takes the record or fails, which is only logged.\<close>

definition record_effect :: "('a, 's) work_answers \<Rightarrow> 'a diagnostic_record \<Rightarrow> 'a work_effect" where
  "record_effect q r = (case wa_store_error q of None \<Rightarrow> StoredRecord r | Some message \<Rightarrow> LostRecord r message)"

definition store_record :: "work_config \<Rightarrow> ('a, 's) work_answers \<Rightarrow> boundary_error option \<Rightarrow> 'a work \<Rightarrow> 'a work" where
  "store_record cfg q err w =
     (if wc_diagnostics cfg
      then did (record_effect q (diagnostic_record_of (wk_evidence w) (wk_sources w) (wk_failures w) (wk_final w) (wk_debug_audio w)
             (wk_smart w) (wk_dpr w) err (wk_local_asr w) (wa_now_unix_ms q))) w
      else w)"

definition pump_lost :: "work_config \<Rightarrow> asr_mode \<Rightarrow> ('a, 's) work_answers \<Rightarrow> boundary_error \<Rightarrow> 'a work \<Rightarrow> 'a work" where
  "pump_lost cfg mode q err w =
     (let w = on_evidence (push_stage CaptureAborted) w
      in if mode = Local
         then (did (AbandonedLive (ev_correlation_id (wk_evidence w))) w)\<lparr>wk_local_asr := wa_local_asr_error q (public_message err)\<rparr>
         else (let fs = account_for_missing_providers [] (diagnostic err) []
               in w\<lparr>wk_failures := (if wc_deepgram_enabled cfg then fs else normalize_disabled_deepgram fs)\<rparr>))"

definition stopped_work :: "'a active_recording \<Rightarrow> ('a, 's) work_answers \<Rightarrow> 'a work" where
  "stopped_work r q =
     work_start ((live_evidence (wa_chunk_count q) (wa_first_chunk_ms q) r)
       \<lparr>ev_recording_duration_ms := Some (recording_duration_ms
          (stop_anchored_timings (wa_started_at q) (wa_utterance_end q) (wa_utterance_end q) (wa_utterance_end q)))\<rparr>)"

definition process_recording ::
  "unicode \<Rightarrow> work_config \<Rightarrow> 'a active_recording \<Rightarrow> ('a, 's) work_answers \<Rightarrow> 'a work \<times> (boundary_error + unit)" where
  "process_recording u cfg r q =
     (let mode = ac_asr_mode r; w = stopped_work r q
      in case wa_pump q of
           Inl join_error \<Rightarrow>
             (let err = boundary_error_new Capture (''capture pump task failed: '' @ join_error)
              in (store_record cfg q (Some err) (pump_lost cfg mode q err w), Inl err))
         | Inr out \<Rightarrow>
             (case process_capture u cfg mode q out w of
                (w, result) \<Rightarrow>
                  (let w = account cfg mode q w result;
                       w = on_evidence (\<lambda>e. e\<lparr>ev_local_asr := wk_local_asr w\<rparr>) w
                   in (store_record cfg q (case result of Inl err \<Rightarrow> Some err | Inr _ \<Rightarrow> None) w, result))))"

section \<open>Supervision\<close>

text \<open>
  The providers the actor names for every Recording it hands to the supervisor, and the supervisor itself, given
  the task's result or the message of its panic.
\<close>

definition configured_providers :: "provider list" where
  "configured_providers = [Deepgram, Groq]"

definition supervise_recording ::
  "work_config \<Rightarrow> provider list \<Rightarrow> ('a, 's) work_answers \<Rightarrow> string + 'a work \<times> (boundary_error + unit) \<Rightarrow> 'a lifecycle_evidence
     \<Rightarrow> (boundary_error + unit) \<times> 'a lifecycle_evidence \<times> 'a work_effect list" where
  "supervise_recording cfg configured q task panic_evidence =
     (case task of
        Inr (w, result) \<Rightarrow> (result, wk_evidence w, wk_effects w)
      | Inl join_error \<Rightarrow>
          (let err = with_public_message
                 (boundary_error_new Validation (''Recording processing task failed at an unknown point: '' @ join_error))
                 ''Recording processing failed at an unknown point'';
               fs = map (\<lambda>p. provider_failure_new p Aborted
                      ''provider outcome is unknown: the Recording processing task failed'') configured;
               fs = (if wc_deepgram_enabled cfg then fs else normalize_disabled_deepgram fs)
           in (Inl err, panic_evidence,
               if wc_diagnostics cfg
               then [record_effect q (diagnostic_record_of panic_evidence [] fs None None None None (Some err) None (wa_now_unix_ms q))]
               else [])))"

section \<open>Accounting for the providers\<close>

lemma completion_covers:
  assumes "labelled Deepgram (complete (deepgram c) audio)" "labelled Groq (complete (groq c) audio)"
    "complete_with_timings c audio = Inr r"
  shows "p \<in> st_provider ` set (sources r) \<union> pf_provider ` set (pc_failures r)"
proof -
  let ?dg = "fate_of (deadline c) (complete (deepgram c) audio)" and ?gq = "fate_of (deadline c) (complete (groq c) audio)"
  define s where "s = select_loop (deadline c) (complete (deepgram c) audio) (complete (groq c) audio) completing_init"
  have ts: "sort_key st_provider (transcripts s) = fate_sources ?dg @ fate_sources ?gq"
    unfolding s_def by (rule select_loop_sources [OF assms(1,2)])
  have fs: "sort_key pf_provider (failures s @ deadline_failures s) = fate_failures Deepgram ?dg @ fate_failures Groq ?gq"
    unfolding s_def by (rule select_loop_failures)
  have "sources r = fate_sources ?dg @ fate_sources ?gq"
      "map pf_provider (pc_failures r) = map pf_provider (fate_failures Deepgram ?dg @ fate_failures Groq ?gq)"
    using assms(3) unfolding complete_with_timings_def Let_def s_def [symmetric] ts fs
    by (auto simp: comp_def split: option.splits if_splits)
  then have "set (map st_provider (sources r) @ map pf_provider (pc_failures r)) =
      set (map st_provider (fate_sources ?dg) @ map pf_provider (fate_failures Deepgram ?dg))
      \<union> set (map st_provider (fate_sources ?gq) @ map pf_provider (fate_failures Groq ?gq))"
    by auto
  then have "set (map st_provider (sources r) @ map pf_provider (pc_failures r)) = {Deepgram, Groq}"
    unfolding fate_cases_account [OF assms(1)] fate_cases_account [OF assms(2)] by auto
  then show ?thesis by (cases p) auto
qed

definition covered :: "source_transcript list \<Rightarrow> provider_failure list \<Rightarrow> bool" where
  "covered srcs fs \<longleftrightarrow> (\<forall>p. p \<in> st_provider ` set srcs \<union> pf_provider ` set fs)"

lemma account_covers: "covered srcs (account_for_missing_providers srcs cause fs)"
  unfolding covered_def
proof
  fix p show "p \<in> st_provider ` set srcs \<union> pf_provider ` set (account_for_missing_providers srcs cause fs)"
    by (cases p) (auto simp: account_for_missing_providers_def provider_failure_new_def)
qed

lemma normalize_covers: "covered srcs fs \<Longrightarrow> covered srcs (normalize_disabled_deepgram fs)"
  by (auto simp: covered_def normalize_disabled_deepgram_def provider_failure_new_def)

lemma normalize_keeps: "p \<in> pf_provider ` set fs \<Longrightarrow> p \<in> pf_provider ` set (normalize_disabled_deepgram fs)"
  by (auto simp: normalize_disabled_deepgram_def provider_failure_new_def)

lemma normalize_deepgram:
  "filter (\<lambda>f. pf_provider f = Deepgram) (normalize_disabled_deepgram fs) = [provider_failure_new Deepgram NotStarted DEEPGRAM_DISABLED_DIAGNOSTIC]"
  by (simp add: normalize_disabled_deepgram_def filter_sort provider_failure_new_def)

lemma covered_records: "covered (map source_transcript_record srcs) fs = covered srcs fs"
  by (simp add: covered_def source_transcript_record_def image_image)

lemma work_frame [simp]:
  "wk_sources (did x w) = wk_sources w" "wk_failures (did x w) = wk_failures w" "wk_final (did x w) = wk_final w"
  "wk_evidence (did x w) = wk_evidence w" "wk_local_asr (did x w) = wk_local_asr w"
  "wk_effects (did x w) = wk_effects w @ [x]"
  "wk_sources (on_evidence f w) = wk_sources w" "wk_failures (on_evidence f w) = wk_failures w"
  "wk_final (on_evidence f w) = wk_final w" "wk_effects (on_evidence f w) = wk_effects w"
  "wk_local_asr (on_evidence f w) = wk_local_asr w" "wk_evidence (on_evidence f w) = f (wk_evidence w)"
  by (simp_all add: did_def on_evidence_def)

lemma deliver_decision_frame:
  "deliver_decision cfg q d w = (w', result) \<Longrightarrow> wk_sources w' = wk_sources w \<and> wk_failures w' = wk_failures w"
  by (auto simp: deliver_decision_def authorized_deliver_def announce_delivery_def Let_def
      split: prod.splits sum.splits authorization.splits if_splits)

lemma decide_and_deliver_frame:
  "decide_and_deliver cfg q p w = (w', result) \<Longrightarrow> wk_sources w' = wk_sources w \<and> wk_failures w' = wk_failures w"
  by (auto simp: decide_and_deliver_def Let_def dest!: deliver_decision_frame split: sum.splits prepared_decision.splits)

lemma cloud_success_covered:
  assumes "labelled Deepgram (complete (deepgram (wa_coordinator q)) audio)" "labelled Groq (complete (groq (wa_coordinator q)) audio)"
    "finish_cloud u cfg q audio w = (w', Inr x)"
  shows "covered (wk_sources w') (wk_failures w')"
proof -
  obtain c where c: "complete_with_grammar_capability cfg q audio = Inr c" and w': "wk_sources w' = map source_transcript_record (sources c)"
      "wk_failures w' = pc_failures c"
    using assms(3) by (auto simp: finish_cloud_def Let_def dest!: decide_and_deliver_frame split: sum.splits)
  have "covered (sources c) (pc_failures c)"
    using c completion_covers [OF assms(1,2), of c]
    by (auto simp: complete_with_grammar_capability_def covered_def split: if_splits)
  then show ?thesis using w' by (simp add: covered_records)
qed

text \<open>The record a processed Recording hands to the store, and the one the store keeps.\<close>

definition handed_records :: "'a work_effect list \<Rightarrow> 'a diagnostic_record list" where
  "handed_records effs = List.map_filter (\<lambda>e. case e of StoredRecord r \<Rightarrow> Some r | LostRecord r _ \<Rightarrow> Some r | _ \<Rightarrow> None) effs"

definition stored_records :: "'a work_effect list \<Rightarrow> 'a diagnostic_record list" where
  "stored_records effs = List.map_filter (\<lambda>e. case e of StoredRecord r \<Rightarrow> Some r | _ \<Rightarrow> None) effs"

definition record_accounts :: "provider list \<Rightarrow> bool \<Rightarrow> 'a diagnostic_record \<Rightarrow> bool" where
  "record_accounts ps deepgram_enabled r \<longleftrightarrow>
     list_all (\<lambda>p. p \<in> st_provider ` set (dr_source_transcripts r) \<union> pf_provider ` set (dr_provider_failures r)) ps
     \<and> (deepgram_enabled \<or> filter (\<lambda>f. pf_provider f = Deepgram) (dr_provider_failures r) =
          [provider_failure_new Deepgram NotStarted DEEPGRAM_DISABLED_DIAGNOSTIC])"

lemma handed_simps [simp]:
  "handed_records [] = []" "handed_records (effs @ effs') = handed_records effs @ handed_records effs'"
  "handed_records (StoredRecord r # effs) = r # handed_records effs"
  "handed_records (LostRecord r m # effs) = r # handed_records effs"
  "handed_records (record_effect q r # effs) = r # handed_records effs"
  "handed_records (AskedAuthorization i c # effs) = handed_records effs"
  "handed_records (DeliveredText t # effs) = handed_records effs"
  "handed_records (AnnouncedDelivery i c m' b d # effs) = handed_records effs"
  "handed_records (AbandonedLive c # effs) = handed_records effs"
  "handed_records (MarkedRecoveryFailed c # effs) = handed_records effs"
  by (simp_all add: handed_records_def List.map_filter_def record_effect_def split: option.split)

lemma stored_simps [simp]:
  "stored_records [] = []" "stored_records (effs @ effs') = stored_records effs @ stored_records effs'"
  "stored_records (record_effect q r # effs) = (if wa_store_error q = None then [r] else []) @ stored_records effs"
  by (simp_all add: stored_records_def List.map_filter_def record_effect_def split: option.split)

lemma none_handed: "handed_records effs = [] \<Longrightarrow> stored_records effs = []"
proof (induction effs)
  case (Cons e effs)
  then show ?case by (cases e) (simp_all add: stored_records_def List.map_filter_def)
qed simp

lemma stores_nothing:
  "authorized_deliver cfg q t w = (w', d) \<Longrightarrow> handed_records (wk_effects w') = handed_records (wk_effects w)"
  "finish_local cfg q w = (w', r) \<Longrightarrow> handed_records (wk_effects w') = handed_records (wk_effects w)"
  "deliver_decision cfg q dc w = (w', r) \<Longrightarrow> handed_records (wk_effects w') = handed_records (wk_effects w)"
  by (auto simp: authorized_deliver_def finish_local_def deliver_decision_def announce_delivery_def Let_def
      split: prod.splits sum.splits authorization.splits local_stop.splits option.splits if_splits)

lemma capture_stores_nothing:
  "process_capture u cfg mode q out w = (w', r) \<Longrightarrow> handed_records (wk_effects w') = handed_records (wk_effects w)"
  by (auto simp: process_capture_def finish_cloud_def decide_and_deliver_def Let_def dest!: stores_nothing(2,3)
      split: prod.splits sum.splits option.splits if_splits prepared_decision.splits)

lemma capture_success_covered:
  assumes "\<And>a. labelled Deepgram (complete (deepgram (wa_coordinator q)) a)" "\<And>a. labelled Groq (complete (groq (wa_coordinator q)) a)"
    "process_capture u cfg Cloud q out w = (w', Inr x)"
  shows "covered (wk_sources w') (wk_failures w')"
  using assms(3) cloud_success_covered [OF assms(1,2)]
  by (auto simp: process_capture_def Let_def split: sum.splits option.splits)

lemma account_covered:
  assumes "case result of Inr _ \<Rightarrow> covered (wk_sources w) (wk_failures w) | Inl _ \<Rightarrow> True"
  shows "covered (wk_sources (account cfg Cloud q w result)) (wk_failures (account cfg Cloud q w result))
    \<and> wk_effects (account cfg Cloud q w result) = wk_effects w
    \<and> (wc_deepgram_enabled cfg \<or> filter (\<lambda>f. pf_provider f = Deepgram) (wk_failures (account cfg Cloud q w result)) =
         [provider_failure_new Deepgram NotStarted DEEPGRAM_DISABLED_DIAGNOSTIC])"
  using assms
  by (auto simp: account_def Let_def normalize_covers normalize_deepgram account_covers split: sum.splits)

lemma pump_lost_covered:
  assumes "wk_sources w = []"
  shows "covered (wk_sources (pump_lost cfg Cloud q err w)) (wk_failures (pump_lost cfg Cloud q err w))
    \<and> wk_effects (pump_lost cfg Cloud q err w) = wk_effects w
    \<and> (wc_deepgram_enabled cfg \<or> filter (\<lambda>f. pf_provider f = Deepgram) (wk_failures (pump_lost cfg Cloud q err w)) =
         [provider_failure_new Deepgram NotStarted DEEPGRAM_DISABLED_DIAGNOSTIC])"
  using assms by (simp add: pump_lost_def Let_def normalize_covers normalize_deepgram account_covers)

text \<open>The one record of a run, when there is a store to hand it to.\<close>

definition one_record :: "work_config \<Rightarrow> ('a, 's) work_answers \<Rightarrow> provider list \<Rightarrow> 'a work_effect list \<Rightarrow> bool" where
  "one_record cfg q ps effs \<longleftrightarrow>
     (if wc_diagnostics cfg
      then \<exists>r. handed_records effs = [r] \<and> stored_records effs = (if wa_store_error q = None then [r] else [])
             \<and> record_accounts ps (wc_deepgram_enabled cfg) r
      else handed_records effs = [])"

lemma store_accounts:
  assumes "covered (wk_sources w) (wk_failures w)" "handed_records (wk_effects w) = []"
    "wc_deepgram_enabled cfg \<or> filter (\<lambda>f. pf_provider f = Deepgram) (wk_failures w) =
       [provider_failure_new Deepgram NotStarted DEEPGRAM_DISABLED_DIAGNOSTIC]"
  shows "one_record cfg q ps (wk_effects (store_record cfg q err w))"
  using assms none_handed [OF assms(2)]
  by (auto simp: store_record_def one_record_def record_accounts_def covered_def list_all_iff diagnostic_record_of_def Let_def)

lemma processed_accounts:
  assumes "\<And>a. labelled Deepgram (complete (deepgram (wa_coordinator q)) a)"
    "\<And>a. labelled Groq (complete (groq (wa_coordinator q)) a)"
    "ac_asr_mode r = Cloud" "process_recording u cfg r q = (w, result)"
  shows "one_record cfg q ps (wk_effects w)"
proof (cases "wa_pump q")
  case (Inl e)
  define err where "err = boundary_error_new Capture (''capture pump task failed: '' @ e)"
  have "w = store_record cfg q (Some err) (pump_lost cfg Cloud q err (stopped_work r q))"
    using assms(3,4) Inl by (simp add: process_recording_def Let_def err_def)
  then show ?thesis
    using pump_lost_covered [of "stopped_work r q" cfg q err] by (auto simp: stopped_work_def work_start_def intro!: store_accounts)
next
  case (Inr po)
  obtain w1 where one: "process_capture u cfg Cloud q po (stopped_work r q) = (w1, result)"
    using assms(3,4) Inr by (auto simp: process_recording_def Let_def split: prod.splits)
  have quiet: "handed_records (wk_effects w1) = []"
    using capture_stores_nothing [OF one] by (simp add: stopped_work_def work_start_def)
  have "case result of Inr _ \<Rightarrow> covered (wk_sources w1) (wk_failures w1) | Inl _ \<Rightarrow> True"
    using capture_success_covered [OF assms(1,2)] one by (auto split: sum.split)
  note acc = account_covered [OF this, of cfg q]
  show ?thesis
    using assms(3,4) Inr one quiet acc by (auto simp: process_recording_def Let_def intro!: store_accounts)
qed

lemma panic_accounts:
  "case supervise_recording cfg configured q (Inl join_error) panic_evidence of (_, _, effs) \<Rightarrow> one_record cfg q configured effs"
proof -
  let ?fs = "map (\<lambda>p. provider_failure_new p Aborted ''provider outcome is unknown: the Recording processing task failed'') configured"
  have "list_all (\<lambda>p. p \<in> pf_provider ` set ?fs) configured" by (simp add: list_all_iff image_image provider_failure_new_def)
  moreover from this have "list_all (\<lambda>p. p \<in> pf_provider ` set (normalize_disabled_deepgram ?fs)) configured"
    unfolding list_all_iff using normalize_keeps by blast
  ultimately show ?thesis
    using normalize_deepgram [of ?fs]
    by (auto simp: supervise_recording_def one_record_def record_accounts_def diagnostic_record_of_def diagnostic_record_new_def Let_def)
qed

text \<open>
  Claim C14. No provider is silently absent. With a diagnostic store that opened, processing a Cloud
  Recording hands it exactly one record on every path: the pump lost, the capture or the stream failed,
  no provider answered, validation, reconstruction or Delivery failed, the Transcript delivered, or
  the task panicked and the supervisor made the record. The store keeps that record unless its own write
  fails. In the record of a task that ended every provider has a Source Transcript or a failure entry, in
  that of a panic every provider the supervisor was given, and a disabled Deepgram has exactly its own NotStarted
  entry. Without a store no record is made.
\<close>
theorem recording_accounts_for_providers:
  assumes "\<And>a. labelled Deepgram (complete (deepgram (wa_coordinator q)) a)"
    "\<And>a. labelled Groq (complete (groq (wa_coordinator q)) a)"
    "ac_asr_mode r = Cloud" "task = Inr (process_recording u cfg r q) \<or> task = Inl join_error"
  shows "case supervise_recording cfg configured q task panic_evidence of
      (_, _, effs) \<Rightarrow>
        if wc_diagnostics cfg
        then \<exists>rec. handed_records effs = [rec] \<and> stored_records effs = (if wa_store_error q = None then [rec] else [])
               \<and> record_accounts (if isl task then configured else [Deepgram, Groq]) (wc_deepgram_enabled cfg) rec
        else handed_records effs = []"
proof (cases task)
  case (Inl e)
  then show ?thesis using panic_accounts [where cfg = cfg and configured = configured and q = q and join_error = e and panic_evidence = panic_evidence] by (auto simp: one_record_def split: prod.splits)
next
  case (Inr out)
  obtain w result where out: "process_recording u cfg r q = (w, result)" by fastforce
  have "one_record cfg q [Deepgram, Groq] (wk_effects w)" by (rule processed_accounts [OF assms(1-3) out])
  then show ?thesis using Inr assms(4) out by (auto simp: supervise_recording_def one_record_def)
qed

section \<open>Delivery\<close>

definition delivery_step :: "'a work_effect \<Rightarrow> bool" where
  "delivery_step e \<longleftrightarrow>
     (case e of AskedAuthorization _ _ \<Rightarrow> True | DeliveredText _ \<Rightarrow> True | AnnouncedDelivery _ _ _ _ _ \<Rightarrow> True | _ \<Rightarrow> False)"

lemma delivery_step_simps [simp]:
  "delivery_step (AskedAuthorization i c)" "delivery_step (DeliveredText t)" "delivery_step (AnnouncedDelivery i c m b d)"
  "\<not> delivery_step (StoredRecord r)" "\<not> delivery_step (LostRecord r m')" "\<not> delivery_step (record_effect q r)" "\<not> delivery_step (AbandonedLive c)" "\<not> delivery_step (MarkedRecoveryFailed c)"
  by (simp_all add: delivery_step_def record_effect_def split: option.split)

text \<open>How a Recording was delivered, or how far it came.\<close>

definition delivered_once :: "('a, 's) work_answers \<Rightarrow> 'a lifecycle_evidence \<Rightarrow> string \<Rightarrow> 'a work \<Rightarrow> bool" where
  "delivered_once q e cor w \<longleftrightarrow>
     (\<exists>t out truncated. filter delivery_step (wk_effects w) =
        [AskedAuthorization (ev_recording_id e) cor, DeliveredText t,
         AnnouncedDelivery (ev_recording_id e) (ev_correlation_id e) (do_method out) (do_fallback_reason out) truncated]
      \<and> wa_authorization q = Granted \<and> wa_deliver q = Inr out \<and> wk_final w = Some t
      \<and> ev_delivery_count (wk_evidence w) = ev_delivery_count e + 1 \<and> last (ev_stages (wk_evidence w)) = DeliveryCompleted)"

definition undelivered :: "asr_mode \<Rightarrow> ('a, 's) work_answers \<Rightarrow> 'a lifecycle_evidence \<Rightarrow> string \<Rightarrow> 'a work \<Rightarrow> bool" where
  "undelivered mode q e cor w \<longleftrightarrow>
     (let ds = filter delivery_step (wk_effects w)
      in ds = [] \<or> ds = [AskedAuthorization (ev_recording_id e) cor] \<and> wa_authorization q \<noteq> Granted
         \<or> (\<exists>t. ds = [AskedAuthorization (ev_recording_id e) cor, DeliveredText t] \<and> wa_authorization q = Granted
              \<and> (isl (wa_deliver q) \<or> mode = Local \<and> wa_finish_delivery q \<noteq> None)))"

definition asked_correlation :: "work_config \<Rightarrow> 'a lifecycle_evidence \<Rightarrow> string" where
  "asked_correlation cfg e = (if wc_stale_correlation cfg then ev_correlation_id e @ ''-stale'' else ev_correlation_id e)"

definition same_recording :: "'a lifecycle_evidence \<Rightarrow> 'a lifecycle_evidence \<Rightarrow> bool" where
  "same_recording e e' \<longleftrightarrow>
     ev_recording_id e' = ev_recording_id e \<and> ev_correlation_id e' = ev_correlation_id e \<and> ev_delivery_count e' = ev_delivery_count e"

definition outcome_of :: "asr_mode \<Rightarrow> work_config \<Rightarrow> ('a, 's) work_answers \<Rightarrow> 'a lifecycle_evidence \<Rightarrow> 'a work \<times> (boundary_error + unit) \<Rightarrow> bool" where
  "outcome_of mode cfg q e out \<longleftrightarrow>
     (case out of
        (w, Inr _) \<Rightarrow> delivered_once q e (asked_correlation cfg e) w
      | (w, Inl _) \<Rightarrow> undelivered mode q e (asked_correlation cfg e) w)"

lemmas outcome_defs = outcome_of_def delivered_once_def undelivered_def asked_correlation_def same_recording_def

lemma deliver_decision_outcome:
  assumes "same_recording e (wk_evidence w)" "filter delivery_step (wk_effects w) = []"
  shows "outcome_of mode cfg q e (deliver_decision cfg q d w)"
  using assms
  by (auto simp: outcome_defs deliver_decision_def authorized_deliver_def announce_delivery_def apply_delivery_evidence_def
      delivery_timings_def push_stage_def Let_def split: prod.splits sum.splits authorization.splits)

lemma finish_local_outcome:
  assumes "same_recording e (wk_evidence w)" "filter delivery_step (wk_effects w) = []"
  shows "outcome_of Local cfg q e (finish_local cfg q w)"
  using assms
  by (auto simp: outcome_defs finish_local_def authorized_deliver_def announce_delivery_def apply_delivery_evidence_def
      delivery_timings_def push_stage_def Let_def split: prod.splits sum.splits authorization.splits local_stop.splits option.splits)

lemma undelivered_nothing: "filter delivery_step (wk_effects w) = [] \<Longrightarrow> outcome_of mode cfg q e (w, Inl err)"
  by (simp add: outcome_defs)

lemma finish_cloud_outcome:
  assumes "same_recording e (wk_evidence w)" "filter delivery_step (wk_effects w) = []"
  shows "outcome_of Cloud cfg q e (finish_cloud u cfg q audio w)"
  using assms
  by (auto simp: finish_cloud_def decide_and_deliver_def Let_def
      intro!: undelivered_nothing deliver_decision_outcome split: sum.split prepared_decision.split)
    (auto simp: same_recording_def settled_evidence_def push_stage_def Let_def)

lemma process_capture_outcome:
  assumes "same_recording e (wk_evidence w)" "filter delivery_step (wk_effects w) = []"
  shows "outcome_of mode cfg q e (process_capture u cfg mode q out w)"
proof -
  have "mode = Cloud \<or> mode = Local" by (cases mode) simp_all
  then show ?thesis
    using assms
    by (auto simp: process_capture_def Let_def intro!: undelivered_nothing finish_cloud_outcome finish_local_outcome
        split: sum.split option.split) (auto simp: same_recording_def push_stage_def)
qed

lemma outcome_of_more:
  assumes "outcome_of mode cfg q e (w, result)" "filter delivery_step (wk_effects w') = filter delivery_step (wk_effects w)"
    "wk_final w' = wk_final w" "ev_delivery_count (wk_evidence w') = ev_delivery_count (wk_evidence w)"
    "ev_stages (wk_evidence w') = ev_stages (wk_evidence w)"
  shows "outcome_of mode cfg q e (w', result)"
  using assms by (cases result) (auto simp: outcome_defs Let_def)

lemma account_frame [simp]:
  "filter delivery_step (wk_effects (account cfg mode q w result)) = filter delivery_step (wk_effects w)"
  "wk_final (account cfg mode q w result) = wk_final w" "wk_evidence (account cfg mode q w result) = wk_evidence w"
  by (auto simp: account_def Let_def split: sum.split)

lemma store_frame [simp]:
  "filter delivery_step (wk_effects (store_record cfg q err w)) = filter delivery_step (wk_effects w)"
  "wk_final (store_record cfg q err w) = wk_final w" "wk_evidence (store_record cfg q err w) = wk_evidence w"
  by (auto simp: store_record_def)

text \<open>
  Claim C13. Delivery is authorised, happens at most once, and is what success means. Processing a
  Recording succeeds exactly by asking the actor once for this Recording and its correlation ID,
  getting the permission, handing the final text to the Delivery adapter once, which accepts it, and
  then announcing it once; the evidence then counts one more Delivery and ends with its stage. A
  Recording that fails was never announced; it handed a text to the adapter only with permission, at
  most once, and only because the adapter (or the Local permit confirmation after it) then failed.
\<close>
theorem delivery_authorized_once:
  "case process_recording u cfg r q of
     (w, Inr _) \<Rightarrow> delivered_once q (ac_evidence r) (asked_correlation cfg (ac_evidence r)) w
   | (w, Inl _) \<Rightarrow> undelivered (ac_asr_mode r) q (ac_evidence r) (asked_correlation cfg (ac_evidence r)) w"
proof -
  let ?w0 = "stopped_work r q" and ?e = "ac_evidence r" and ?mode = "ac_asr_mode r"
  have start: "same_recording ?e (wk_evidence ?w0)" "filter delivery_step (wk_effects ?w0) = []"
    by (simp_all add: stopped_work_def work_start_def same_recording_def live_evidence_def)
  have "outcome_of ?mode cfg q ?e (process_recording u cfg r q)"
  proof (cases "wa_pump q")
    case (Inl e)
    then show ?thesis
      using start by (auto simp: process_recording_def pump_lost_def Let_def intro!: undelivered_nothing)
  next
    case (Inr po)
    obtain w result where one: "process_capture u cfg ?mode q po ?w0 = (w, result)" by (cases "process_capture u cfg ?mode q po ?w0")
    have "outcome_of ?mode cfg q ?e (w, result)"
      using process_capture_outcome [OF start, of ?mode cfg q u po] one by simp
    then show ?thesis
      by (auto simp: process_recording_def Inr one Let_def elim!: outcome_of_more)
  qed
  then show ?thesis by (auto simp: outcome_of_def split: prod.splits sum.splits)
qed

text \<open>A Local Recording that fails gives its worker reservation back; one whose task panics does not.\<close>

lemma local_failure_abandons:
  assumes "ac_asr_mode r = Local" "process_recording u cfg r q = (w, Inl err)"
  shows "AbandonedLive (ev_correlation_id (ac_evidence r)) \<in> set (wk_effects w)"
proof -
  have cor: "ev_correlation_id (wk_evidence w') = ev_correlation_id (wk_evidence w)"
    if "process_capture u cfg Local q po w = (w', result)" for po w w' result
    using that
    by (auto simp: process_capture_def finish_local_def authorized_deliver_def announce_delivery_def apply_delivery_evidence_def
        delivery_timings_def push_stage_def Let_def
        split: prod.splits sum.splits authorization.splits local_stop.splits option.splits)
  show ?thesis
    using assms cor
    by (auto simp: process_recording_def pump_lost_def account_def store_record_def stopped_work_def work_start_def live_evidence_def
        push_stage_def Let_def split: sum.splits prod.splits if_splits)
qed

lemma record_abandons_nothing: "case record_effect q r of AbandonedLive _ \<Rightarrow> False | _ \<Rightarrow> True"
  by (simp add: record_effect_def split: option.split)

text \<open>
  A panic while a Local Recording is processed keeps the worker reserved. When the
  processing task of a Local Recording fails in any ordinary way, its worker reservation is given back;
  when the task panics, the supervisor's cleanup gives back nothing, and the record it writes blames
  both Cloud providers, which a Local Recording never started.
\<close>
theorem panic_keeps_reservation:
  "(case process_recording u cfg (r\<lparr>ac_asr_mode := Local\<rparr>) q of
      (w, Inl _) \<Rightarrow> AbandonedLive (ev_correlation_id (ac_evidence r)) \<in> set (wk_effects w) | _ \<Rightarrow> True)
   \<and> (case supervise_recording (cfg\<lparr>wc_diagnostics := True, wc_deepgram_enabled := True\<rparr>) configured_providers q (Inl join_error) panic_evidence of
        (_, _, effs) \<Rightarrow> list_all (\<lambda>e. case e of AbandonedLive _ \<Rightarrow> False | _ \<Rightarrow> True) effs
          \<and> map (\<lambda>d. map (\<lambda>f. (pf_provider f, pf_stage f)) (dr_provider_failures d)) (handed_records effs)
              = [[(Deepgram, Aborted), (Groq, Aborted)]])"
proof -
  let ?r = "r\<lparr>ac_asr_mode := Local\<rparr>"
  have "AbandonedLive (ev_correlation_id (ac_evidence r)) \<in> set (wk_effects w)"
    if "process_recording u cfg ?r q = (w, Inl err)" for w err
    using local_failure_abandons [of ?r u cfg q w err] that by simp
  then show ?thesis
    by (auto simp: supervise_recording_def configured_providers_def record_abandons_nothing diagnostic_record_of_def diagnostic_record_new_def
        provider_failure_new_def Let_def split: prod.split sum.split)
qed

definition sample_work :: "(nat, nat) work_answers" where
  "sample_work = \<lparr>wa_pump = Inr (pump_result None None), wa_chunk_count = 3, wa_first_chunk_ms = 4,
     wa_finish = Inr captured_audio_empty, wa_capture_abort = AbortDone, wa_provider_abort = AbortDone, wa_debug_audio = None,
     wa_local = Inl [], wa_local_asr_error = (\<lambda>_. None), wa_finish_delivery = None, wa_tone = id,
     wa_coordinator = coordinator_start 15 2 quick_deepgram stuck_groq, wa_completion_panics = False,
     wa_prepare = (\<lambda>_ _. Inl (boundary_error_new Validation ''refused'')), wa_reconstruct = (\<lambda>_. Inl (boundary_error_new Validation ''no'')),
     wa_transform = (\<lambda>d. (td_transcript d, None, None)), wa_authorization = Granted, wa_deliver = Inr compositor_submitted,
     wa_started_at = 0, wa_utterance_end = 1, wa_captured_at = 2, wa_finalized_at = 3, wa_delivered_at = 4,
     wa_reconstruction_ms = 0, wa_now_unix_ms = 5, wa_store_error = None\<rparr>"

definition sample_recording :: "nat active_recording" where
  "sample_recording = \<lparr>ac_id = 1, ac_deadline_clock = \<lparr>clock_started = 0, clock_deadline = 9\<rparr>, ac_settings = 0, ac_asr_mode = Cloud,
     ac_dictionary_terms = [], ac_evidence = base_evidence 1 ''rec-1'' [CaptureStarted, ProvidersStarted]\<rparr>"

definition sample_work_config :: work_config where
  "sample_work_config = \<lparr>wc_deepgram_enabled = True, wc_diagnostics = True, wc_credential_needed = False, wc_stale_correlation = False\<rparr>"

theorem recording_accounts_for_providers_witness:
  "case supervise_recording sample_work_config configured_providers sample_work
       (Inr (process_recording ascii sample_work_config sample_recording sample_work)) (ac_evidence sample_recording) of
     (_, _, effs) \<Rightarrow> \<exists>rec. stored_records effs = [rec] \<and> record_accounts [Deepgram, Groq] True rec"
  using recording_accounts_for_providers
      [where q = sample_work and r = sample_recording and cfg = sample_work_config and u = ascii
        and task = "Inr (process_recording ascii sample_work_config sample_recording sample_work)"
        and configured = configured_providers and panic_evidence = "ac_evidence sample_recording"]
  by (auto simp: sample_work_def sample_recording_def sample_work_config_def coordinator_start_def quick_deepgram_def
      stuck_groq_def labelled_def)

section \<open>The pump\<close>

text \<open>
  The pump ends at the first event that is not a sent chunk, and not before. A Recording Deadline is a
  limit, not an error; any other capture or provider failure is kept for the stop path.
\<close>

fun chunk_sent :: "pump_event \<Rightarrow> bool" where
  "chunk_sent (ChunkSent _) = True"
| "chunk_sent _ = False"

lemma pump_ends: "capture_pump es s = None \<longleftrightarrow> list_all chunk_sent es"
proof (induction es arbitrary: s)
  case (Cons e es)
  then show ?case by (cases e) simp_all
qed simp

lemma pump_counts:
  "capture_pump es s = Some (out, s') \<Longrightarrow> ps_count s < 2 ^ 32
    \<Longrightarrow> ps_count s' = (ps_count s + length (takeWhile chunk_sent es)) mod 2 ^ 32
      \<and> \<not> (po_stream_error out \<noteq> None \<and> po_capture_limit out \<noteq> None)"
proof (induction es arbitrary: s)
  case (Cons e es)
  then show ?case
  proof (cases e)
    case (ChunkSent ms)
    have "((ps_count s + 1) mod 2 ^ 32 + n) mod 2 ^ 32 = (ps_count s + Suc n) mod 2 ^ 32" for n
      by (simp add: mod_simps)
    then show ?thesis
      using Cons.IH [of "s\<lparr>ps_count := (ps_count s + 1) mod 2 ^ 32,
          ps_first_chunk_ms := (if ps_first_chunk_ms s = u64_max then ms else ps_first_chunk_ms s)\<rparr>"] Cons.prems ChunkSent
      by simp
  qed (auto simp: pump_result_def split: if_splits)
qed simp

end
