(* ===== verification/Spec2Isabelle.thy ===== *)
theory Spec2Isabelle
  imports System Wav Session Lifecycle Decision Tone Compose_Gate Dpr_Pipeline Daemon_Outcomes Daemon_Recording
begin

text \<open>
  A verification library of Voisu, a dictation program: a trigger key starts a Recording, two cloud
  providers or a Local worker turn it into text, the text is decided, formatted and delivered to the
  focused window.

  \<^bold>\<open>The program and the theories.\<close> The library follows the paths a Recording takes. One function of the
  source is one definition, a struct is a record, an enum a datatype, and a long function is cut into
  named pieces that the manifest maps to their lines.

  The Windows application (\<open>apps/windows/src-tauri/src\<close>) runs a keyboard hook, a gesture thread and an
  engine actor:

  \<^item> \<open>Trigger_Key\<close> (\<open>trigger_key.rs\<close>): which chords can be the Trigger Key, how they are written,
    parsed and packed into the atomic the hook reads.
  \<^item> \<open>Chord\<close> (\<open>chord.rs\<close>): the chord tracker inside the hook; \<open>handle\<close> is one key event.
  \<^item> \<open>Gesture\<close> (\<open>gesture.rs\<close>, \<open>trigger.rs\<close>): the gesture machine, the bounded queue and the gesture
    thread, an inductive step relation over every interleaving of hook, thread and engine.
  \<^item> \<open>Engine\<close> (\<open>engine.rs\<close>): the engine actor. Its asynchronous task is cut at its awaits into control
    points, and one step is what runs between two of them.
  \<^item> \<open>Paste_Delivery\<close> (\<open>platform/delivery.rs\<close>): paste decisions and the control flow of a delivery
    around the Win32 calls. \<open>Vocabulary\<close> (\<open>vocabulary.rs\<close>): boost words and provider budgets.
  \<^item> \<open>System\<close>: the gesture thread and the engine joined as \<open>lib.rs\<close> joins them, with every signal a full
    trigger queue drops.

  The shared core (\<open>crates/voisu-core/src\<close>), transport and decision:

  \<^item> \<open>Boundary\<close>, \<open>Providers\<close> (\<open>lib.rs\<close>, \<open>diagnostics.rs\<close>): providers, errors, evidence and the provider
    coordinator with its biased completion loop and deadlines. \<open>Wav\<close> (\<open>wav.rs\<close>): the incremental scan
    for the PCM payload. \<open>Session\<close> (\<open>session.rs\<close>, \<open>timing.rs\<close>, \<open>asr_mode.rs\<close>).
  \<^item> \<open>Unicode_Text\<close>, \<open>Float64\<close>, \<open>Byte_Offsets\<close>, \<open>Json\<close>: the parts of the language and of \<open>serde_json\<close> the text
    code uses: characters and strings, \<open>f64\<close> arithmetic, byte offsets, JSON values.
  \<^item> \<open>Edit_Distance\<close>, \<open>Words\<close>, \<open>Outro\<close>, \<open>Source_Selection\<close>, \<open>Quality_Guards\<close>, \<open>Decision\<close> (\<open>lib.rs\<close>): how two
    Source Transcripts become one Transcript: sanitizing, comparing, guarding, asking the model,
    repairing, falling back. \<open>Token_Masks\<close> (\<open>local_baseline.rs\<close>), \<open>Arbitration\<close>
    (\<open>confidence_arbitration.rs\<close>) and \<open>Correction\<close> (\<open>vocabulary.rs\<close>) are its stages.

  The shared core, formatting:

  \<^item> \<open>Prompt_Rendering\<close> (\<open>prompt_rendering.rs\<close>) and \<open>Intent_Routing\<close> (\<open>intent_routing.rs\<close>): policies, routes
    and the rules that choose them.
  \<^item> \<open>Format_Edits\<close> (\<open>format_edits.rs\<close>): the small-edit contract. \<open>Compose_Text\<close> and \<open>Compose_Gate\<close>
    (\<open>compose_gate.rs\<close>): the candidate, how its spans are found in the source, and the gate that is
    the only way model text becomes the Transcript.
  \<^item> \<open>Tone\<close> (\<open>tone.rs\<close>): the informal pass over the text about to be delivered.
  \<^item> \<open>Dpr_Sources\<close>, \<open>Dpr_Cloud\<close> (\<open>crates/voisu-cloud/src/dpr_local.rs\<close>, \<open>dpr_cloud.rs\<close>): which source is selected, when two
    merge, which atoms are protected; the one bounded cloud attempt with its JSON bodies.
    \<open>Dpr_Diagnostics\<close> (\<open>dpr_diagnostics.rs\<close>): the bounded event record. \<open>Dpr_Pipeline\<close>
    (\<open>crates/voisu-app/src/dpr_pipeline.rs\<close>) joins them with the gate, the edits and the tone.

  The Local worker (\<open>crates/voisu-app/src/local_worker\<close>, \<open>local_tail.rs\<close>):

  \<^item> \<open>Bounds\<close> (\<open>bounds.rs\<close>): the locked limits and the resource envelope. \<open>Protocol\<close> (\<open>protocol.rs\<close>):
    length-prefixed JSON frames and their validation. \<open>Json_Text\<close> states what the frames need of
    \<open>serde_json\<close> (float-free values within its nesting limit are printed as text that parses back) and proves it of a
    compact printer and parser, so the assumption can be met.
  \<^item> \<open>Supervisor\<close> (\<open>supervisor.rs\<close>, and the program check of \<open>runtime.rs\<close>): the worker state machine,
    generic in the child as the source is, and the scripted child.
  \<^item> \<open>Delivery\<close> (\<open>seams.rs\<close>, \<open>sandbox.rs\<close>, \<open>local_tail.rs\<close>): single-use Delivery as an interface, its two
    implementations, and the terminal decision. \<open>Lifecycle\<close> (\<open>lifecycle.rs\<close>): worker generations.

  The Linux daemon (\<open>crates/voisu-app/src\<close>):

  \<^item> \<open>Daemon_Types\<close>, \<open>Daemon_Actor\<close> (\<open>bin/voisu-daemon.rs\<close>, \<open>actor_loop\<close>): the actor, one definition per message.
    \<open>Daemon\<close> joins it with the workflows it spawns, the clients' mailbox and the helpers that answer in its place, and gives
    the reachable states; \<open>Daemon_Outcomes\<close> holds further properties of it.
  \<^item> \<open>Daemon_Recording\<close> (\<open>capture_pump\<close>, \<open>process_recording\<close>, \<open>supervise_recording\<close>): what happens to a stopped
    Recording, with its Delivery authorisation and its diagnostic record.

  \<open>Voisu_Prelude\<close> holds the shared types, string and byte operations, and the machines.

  \<^bold>\<open>Conventions.\<close> Instants and durations are natural numbers of nanoseconds. Machine integers are words
  where bits matter and natural numbers with the wrap-around or saturation written out where the
  source counts. Names and wire text are lists of UTF-8 bytes (\<open>string\<close>); transcripts are lists of
  Unicode scalar values (\<open>utext\<close>), and offsets into them count characters unless a theory says bytes. A
  fallible function returns a sum, the error on the left; a failing \<open>expect\<close>, \<open>unwrap\<close> or slice is the
  result \<open>None\<close> where it could happen. The environment (results of awaited futures, what Windows answers,
  when a future resolves, the clock) is always an argument or an event, never assumed. Third-party code
  (\<open>serde_json\<close>'s printer and parser and the readers \<open>serde\<close> derives, SHA-256, compiled patterns that need
  more than a scanner), the model and the Unicode tables are arguments; \<open>ascii\<close>, \<open>plain_regexes\<close> and
  \<open>plain_gate_regexes\<close> are concrete ones on which the examples run. Data the daemon only passes on is a
  type parameter.

  \<^bold>\<open>Structure of the proofs.\<close> A component that reacts to events is a function from a state and an event
  to a state and outputs. \<open>invariant_machine\<close> and \<open>monitored_machine\<close> are the interfaces such a
  component offers: an invariant of every step, and an abstract monitor that accepts what the step
  puts out; \<open>simulated_machine\<close>, which the latter extends to, lets the monitor's state be related to the
  component's instead of computed from it. Chord tracker, gesture machine, engine, supervisor and diagnostic record are interpretations, so
  their protocol theorems are one step's case analysis. The monitors are the abstract specifications:
  bracketed chord signals and whole key strokes for the application (Chord), one live Recording at a
  time under fresh numbers (Gesture), every start answered once, one phase sequence per Recording and
  resources released before it ends (Engine). \<open>delivery_seam\<close> and its extension \<open>lifecycle_seam\<close> are the
  contract of single-use Delivery, interpreted on both implementations; \<open>wire_name\<close> is the contract of
  an enum with a printed name, interpreted on every such enum. The daemon's invariant says which
  adapter the actor owns in which state, and its theorems are consequences of that ownership. Text
  passes are specified by what they may change: spans of unprotected words (Correction, Tone), anchored
  spans (Format_Edits), ordered disjoint claims that cover the source (Compose_Gate), the words that
  were heard (Decision).

  \<^bold>\<open>Loops.\<close> Nothing here runs on fuel. Loops over data are structural or have a measure (the scan of the
  WAV chunks shrinks the bytes left, the completion loop the providers pending, the phrase loop the
  words left); loops over the environment recurse over the list of what the environment does, and that
  they come to an end is a theorem of its own (the watch returns, the engine settles, the shutdown
  drains, the thread wakes).

  \<^bold>\<open>Not modelled.\<close> Win32, D-Bus, PipeWire and audio calls, the HTTP and WebSocket clients of the providers, tray, overlay and
  terminal drawing, sockets, files, downloads, process spawning, logging and packaging: they only move
  data or call the system, and enter as arguments or events. Of the program's own logic the formatting
  grammar (\<open>formatting.rs\<close>, \<open>formatting_commands.rs\<close>, \<open>dictation_grammar.rs\<close>, \<open>grammar_safety.rs\<close>, the passes
  of \<open>local_baseline.rs\<close>), configuration and history formats, the setup and terminal UI flows and the
  model store are left out; where a modelled component calls one of them it is an argument.
\<close>

section \<open>Properties that span components\<close>

text \<open>
  Claim C1. No runaway Recording, and no stuck gesture. In every reachable state of the joined system (every interleaving
  of hook, thread and engine, with a full trigger queue dropping what is sent to it) in which fewer than \<open>2^64 - 2\<close>
  Recordings were started, a Recording in the engine's capture phase is either still live in the gesture
  machine, so that the trigger key, Escape or the lapse of the tap window ends it, or its stop or
  cancel is already queued; and a Recording the gesture machine believes to be live is in its capture
  phase or its start is still queued, or the engine's notice that it is over is queued, or the full
  queue dropped that notice.
\<close>
theorem no_runaway_recording:
  assumes "sys_reach lower tn x" "made x < u64_max - 1"
  shows "(\<forall>i\<in>set (capturing (engine.at (eng x))). live_id (g_state (machine (trg x))) = Some i
        \<or> Stop i \<in> set (channel (eng x)) \<or> Cancel i \<in> set (channel (eng x)))
    \<and> (\<forall>i. live_id (g_state (machine (trg x))) = Some i \<longrightarrow>
         i \<in> set (capturing (engine.at (eng x)) @ started (channel (eng x))) \<or> Ended i \<in> set (queue (trg x)) \<or> i \<in> set (lost x))"
proof -
  have inv: "sys_inv (lost x) (view_of (machine (trg x))) (queue (trg x)) (eng x)"
    using sys_reach_good [OF assms(1)] assms(2) by (simp add: sys_good_def)
  have live: "cv_live (view_of (machine (trg x))) = live_id (g_state (machine (trg x)))" by (simp add: view_of_def)
  show ?thesis
    using inv unfolding sys_inv_def live by (auto simp: owed_def stop_queued_def has_stop_def)
qed

definition pressed_trigger :: trigger where
  "pressed_trigger = trigger_signal trigger_spawn Pressed 5"

theorem no_runaway_recording_witness:
  "\<exists>x. sys_reach id (\<lambda>x _. x) x \<and> made x = 1 \<and> capturing (engine.at (eng x)) = [1]
     \<and> (live_id (g_state (machine (trg x))) = Some 1 \<or> Stop 1 \<in> set (channel (eng x)) \<or> Cancel 1 \<in> set (channel (eng x)))"
proof -
  let ?x1 = "joined_start\<lparr>trg := pressed_trigger\<rparr>"
  have r1: "sys_reach id (\<lambda>x _. x) ?x1"
    using sys_more [OF sys_start hook_signals [of id "\<lambda>x _. x" joined_start Pressed 5]] by (simp add: pressed_trigger_def joined_start_def)
  obtain t where turn: "thread_turn pressed_trigger 6 = Some (t, Received (ChordInput Pressed 5), [Start 1])"
    by (simp add: thread_turn_def pressed_trigger_def trigger_signal_def trigger_send_def trigger_spawn_def QUEUE_def
        gesture_default_def on_signal_def on_timeout_def gesture_step_def opt_list_def Let_def)
  let ?x2 = "?x1\<lparr>trg := t, eng := push_commands engine_start [Start 1], made := 1\<rparr>"
  have r2: "sys_reach id (\<lambda>x _. x) ?x2"
    using sys_more [OF r1 thread_turns [of ?x1 6 t "Received (ChordInput Pressed 5)" "[Start 1]" id "\<lambda>x _. x"]] turn
    by (simp add: joined_start_def)
  let ?step = "engine_step id (\<lambda>x _. x) (push_commands engine_start [Start 1]) (Take 9 True 7)"
  have e: "capturing (engine.at (fst ?step)) = [1]" "ended_ids (snd ?step) = []"
    by (simp_all add: engine_step_def push_commands_def engine_start_def take_action_def record_start_def emit_state_def goto_def
        capturing_def ended_ids_def tray_effect_def)
  let ?x3 = "?x2\<lparr>trg := notify_ended t [], eng := fst ?step, lost := lost ?x2 @ dropped t []\<rparr>"
  have "sys_reach id (\<lambda>x _. x) ?x3"
    using sys_more [OF r2 engine_moves [of "Take 9 True 7" id "\<lambda>x _. x" ?x2 "fst ?step" "snd ?step"]] e(2)
    by (simp add: task_event_def)
  moreover have "made ?x3 < u64_max - 1" by (simp add: u64_max_def)
  moreover have "capturing (engine.at (eng ?x3)) = [1]" using e(1) by simp
  ultimately show ?thesis using no_runaway_recording [of id "\<lambda>x _. x" ?x3] by (intro exI [of _ ?x3]) simp
qed

end
